(* ===== verification/Ralph_Prelude.thy ===== *)
theory Ralph_Prelude
  imports Main "HOL-Library.Multiset" "HOL-Library.List_Lexorder" "HOL-Library.Char_ord"
    "HOL-Library.Product_Lexorder"
begin

text \<open>
  Shared vocabulary of the development: the type names of the model, the tables of the SQLite
  database as lists of rows with the statements \<open>UPDATE ... WHERE\<close>, \<open>DELETE ... WHERE\<close> and
  \<open>ORDER BY\<close> over them, results that carry an error and a state, and the collections of
  rewrite rules the component theories feed.
\<close>

named_theorems frame_simps \<open>tables an operation leaves alone\<close>
named_theorems key_simps \<open>row keys an update keeps\<close>

type_synonym ident = string
type_synonym nanos = int
type_synonym seconds = int

section \<open>Tables\<close>

text \<open>\<open>UPDATE tbl SET f WHERE P\<close>: rows keep their order, and the row count is the number of
  rows that satisfy the guard.\<close>

definition upd_where :: "('r \<Rightarrow> bool) \<Rightarrow> ('r \<Rightarrow> 'r) \<Rightarrow> 'r list \<Rightarrow> 'r list" where
  "upd_where P f rows = map (\<lambda>r. if P r then f r else r) rows"

definition rows_affected :: "('r \<Rightarrow> bool) \<Rightarrow> 'r list \<Rightarrow> nat" where
  "rows_affected P rows = length (filter P rows)"

text \<open>\<open>SELECT ... WHERE P\<close> of one row: the first that matches, \<open>None\<close> for \<open>sql.ErrNoRows\<close>.\<close>

abbreviation select_row :: "('r \<Rightarrow> bool) \<Rightarrow> 'r list \<Rightarrow> 'r option" where
  "select_row \<equiv> List.find"

text \<open>\<open>ORDER BY key\<close>; rows with equal keys stay in table order.\<close>

abbreviation order_by :: "('r \<Rightarrow> 'k::linorder) \<Rightarrow> 'r list \<Rightarrow> 'r list" where
  "order_by \<equiv> sort_key"

lemma set_upd_where:
  "set (upd_where P f rows) = (\<lambda>r. if P r then f r else r) ` set rows"
  by (simp add: upd_where_def)

lemma in_upd_where [elim!]:
  assumes "r' \<in> set (upd_where P f rows)"
  obtains r where "r \<in> set rows" "r' = (if P r then f r else r)"
  using assms by (auto simp: set_upd_where)

lemma length_upd_where [simp]: "length (upd_where P f rows) = length rows"
  by (simp add: upd_where_def)

lemma upd_where_Nil [simp]: "upd_where P f [] = []"
  by (simp add: upd_where_def)

lemma upd_where_Cons [simp]:
  "upd_where P f (r # rows) = (if P r then f r else r) # upd_where P f rows"
  by (simp add: upd_where_def)

lemma upd_where_False [simp]: "upd_where (\<lambda>_. False) f rows = rows"
  by (simp add: upd_where_def)

lemma upd_where_id: "(\<And>r. r \<in> set rows \<Longrightarrow> \<not> P r) \<Longrightarrow> upd_where P f rows = rows"
  by (simp add: upd_where_def map_idI)

lemma rows_affected_0 [simp]: "rows_affected P rows = 0 \<longleftrightarrow> (\<forall>r \<in> set rows. \<not> P r)"
  by (simp add: rows_affected_def filter_empty_conv)

lemma rows_affected_pos: "0 < rows_affected P rows \<longleftrightarrow> (\<exists>r \<in> set rows. P r)"
  by (metis rows_affected_0 gr0I less_numeral_extra(3))

text \<open>A projection that the update keeps is kept as a whole column.\<close>

lemma map_upd_where:
  "(\<And>r. k (f r) = k r) \<Longrightarrow> map k (upd_where P f rows) = map k rows"
  by (simp add: upd_where_def)

lemma filter_upd_where:
  "(\<And>r. r \<in> set rows \<Longrightarrow> P r \<Longrightarrow> Q (f r) = Q r) \<Longrightarrow>
   filter Q (upd_where P f rows) = upd_where P f (filter Q rows)"
  by (induction rows) auto

lemma upd_where_cong:
  "(\<And>r. r \<in> set rows \<Longrightarrow> P r = Q r) \<Longrightarrow> upd_where P f rows = upd_where Q f rows"
  by (auto simp: upd_where_def)

text \<open>With a key column without repetitions a row is found by its key.\<close>

lemma find_unique:
  assumes "distinct (map k rows)" and "r \<in> set rows"
  shows "List.find (\<lambda>x. k x = k r) rows = Some r"
  using assms by (induction rows) (auto simp: image_iff)

lemma find_SomeD: "List.find P rows = Some r \<Longrightarrow> r \<in> set rows \<and> P r"
  by (auto simp: find_Some_iff in_set_conv_nth)

lemma find_None_iff_all: "List.find P rows = None \<longleftrightarrow> (\<forall>r \<in> set rows. \<not> P r)"
  by (auto simp: find_None_iff)

lemma distinct_map_inj:
  "distinct (map k rows) \<Longrightarrow> r \<in> set rows \<Longrightarrow> r' \<in> set rows \<Longrightarrow> k r = k r' \<Longrightarrow> r = r'"
  by (metis distinct_map inj_onD)

lemma distinct_map_filter_key:
  "distinct (map k rows) \<Longrightarrow> distinct (map k (filter P rows))"
  by (simp add: distinct_map_filter)

section \<open>Sorted selections\<close>

lemma hd_sort_key_min:
  assumes "rows \<noteq> []" and "r \<in> set rows"
  shows "key (hd (sort_key key rows)) \<le> key r"
proof -
  obtain x xs where x: "sort_key key rows = x # xs"
    using assms(1) by (cases "sort_key key rows") (auto dest: arg_cong[where f = set])
  have "r \<in> set (x # xs)"
    using assms(2) by (metis set_sort x)
  moreover have "sorted (map key (x # xs))"
    by (metis sorted_sort_key x)
  ultimately show ?thesis
    using x by auto
qed

lemma hd_sort_key_in: "rows \<noteq> [] \<Longrightarrow> hd (sort_key key rows) \<in> set rows"
  by (metis hd_in_set set_empty set_sort)

section \<open>Optional columns\<close>

text \<open>\<open>nullIfEmpty\<close> binds SQL NULL for the empty string; \<open>COALESCE(column, '')\<close> reads it back.\<close>

definition nullIfEmpty :: "string \<Rightarrow> string option" where
  "nullIfEmpty v = (if v = [] then None else Some v)"

definition coalesce :: "string option \<Rightarrow> string" where
  "coalesce c = (case c of None \<Rightarrow> [] | Some v \<Rightarrow> v)"

lemma coalesce_nullIfEmpty [simp]: "coalesce (nullIfEmpty v) = v"
  by (simp add: coalesce_def nullIfEmpty_def)

lemma coalesce_simps [simp]: "coalesce None = []" "coalesce (Some v) = v"
  by (simp_all add: coalesce_def)

end
