(* ===== verification/Store_Schema.thy ===== *)
theory Store_Schema
  imports Ralph_Prelude
begin

text \<open>
  The SQLite database of \<open>internal/store\<close> (\<open>schema/0001\<close> to \<open>schema/0005\<close>): one record per table
  row, one field of \<open>store\<close> per table, and the statements the Go code issues against them with the
  constraints the schema declares (primary keys, unique indexes, foreign keys with their
  \<open>ON DELETE\<close> actions, CHECK clauses and the \<open>updated_at\<close> triggers).

  Columns of type DATETIME hold whole seconds: \<open>rfc3339\<close> is what \<open>clock.Now().UTC().Format(RFC3339)\<close>
  and \<open>CURRENT_TIMESTAMP\<close> keep of the clock's nanoseconds, and the text order of the stored values
  is the order of those seconds.  An operation returns a result and a store; the transaction
  wrapper \<open>in_tx\<close> gives back the store it started from when its body reports an error.
  Faults of the database driver (I/O errors, \<open>SQLITE_BUSY\<close>) are not part of the model.
\<close>

section \<open>Enumerations\<close>

datatype TaskStatus =
    TaskStatusPending | TaskStatusReady | TaskStatusReadyPendingApproval | TaskStatusBlocked
  | TaskStatusRunning | TaskStatusDone | TaskStatusFailed | TaskStatusSkipped
  | TaskStatusDecomposed | TaskStatusBlockedCapability | TaskStatusBlockedInput

datatype PlanStatus =
    PlanStatusDraft | PlanStatusActive | PlanStatusPaused | PlanStatusDone
  | PlanStatusFailedPartial | PlanStatusArchived | PlanStatusAbandoned

datatype HookVerificationState =
    HookVerificationPending | HookVerificationPassed | HookVerificationFailed

section \<open>Event payloads\<close>

record EventPayload =
  Summary :: string
  Reason :: string
  Evidence :: "string list"
  HandoffTo :: string
  Retryable :: bool
  NeedsContext :: "string list"
  ApprovalRequired :: bool
  Provider :: string
  ProviderSessionID :: string
  FailureCategory :: string
  OperatorAction :: string

definition emptyPayload :: EventPayload where
  "emptyPayload = \<lparr>Summary = [], Reason = [], Evidence = [], HandoffTo = [], Retryable = False,
     NeedsContext = [], ApprovalRequired = False, Provider = [], ProviderSessionID = [],
     FailureCategory = [], OperatorAction = []\<rparr>"

text \<open>What a \<open>payload_json\<close> column holds: text written verbatim, the JSON object of an
  \<open>EventPayload\<close>, the object \<open>{"raw": text}\<close> that wraps malformed text, the object the reaper
  formats.\<close>

datatype payload_json =
    PText string
  | PPayload EventPayload
  | PRaw string
  | PReclaimed string int int

section \<open>Rows\<close>

record project_row =
  pr_id :: ident
  pr_display_name :: "string option"
  pr_created :: seconds
  pr_updated :: seconds
  pr_last_seen :: "seconds option"

record identifier_row =
  pi_project :: ident
  pi_kind :: string
  pi_value :: string
  pi_added :: seconds

record config_row =
  cf_project :: ident
  cf_key :: string
  cf_value :: string
  cf_updated :: seconds

record plan_row =
  p_id :: ident
  p_project :: ident
  p_slug :: string
  p_title :: string
  p_status :: PlanStatus
  p_source :: "string option"
  p_created :: seconds
  p_updated :: seconds
  p_last_session :: "seconds option"
  p_tags :: "string option"

record task_row =
  t_id :: ident
  t_plan :: ident
  t_desc :: string
  t_status :: TaskStatus
  t_group :: "int option"
  t_ordinal :: "int option"
  t_acceptance :: "string option"
  t_session :: "ident option"
  t_worker :: "ident option"
  t_retry :: int
  t_reclaim :: int
  t_parent :: "ident option"
  t_created :: seconds
  t_updated :: seconds
  t_failure :: "string option"

record dep_row =
  d_plan :: ident
  d_task :: ident
  d_on :: ident

record event_row =
  e_id :: int
  e_project :: "ident option"
  e_plan :: "ident option"
  e_task :: "ident option"
  e_kind :: string
  e_stream :: "string option"
  e_actor :: "string option"
  e_payload :: "payload_json option"
  e_at :: seconds

record session_row =
  s_id :: ident
  s_role :: string
  s_pid :: "int option"
  s_pid_start :: "string option"
  s_host :: "string option"
  s_started :: seconds
  s_heartbeat :: seconds

record worker_row =
  w_id :: ident
  w_session :: ident
  w_provider :: string
  w_model :: "string option"
  w_fanout :: int
  w_pid :: int
  w_pid_start :: string
  w_plan :: "ident option"
  w_task :: "ident option"
  w_started :: seconds
  w_heartbeat :: seconds
  w_status :: string

text \<open>Cost is kept as an integer number of micro-dollars: sums of it are exact, where the column is
  an SQLite REAL.\<close>

record spend_row =
  sp_id :: int
  sp_project :: "ident option"
  sp_worker :: "ident option"
  sp_provider :: string
  sp_model :: "string option"
  sp_input :: int
  sp_output :: int
  sp_cached :: int
  sp_cost :: int
  sp_at :: seconds

record message_row =
  m_id :: int
  m_worker :: "ident option"
  m_plan :: ident
  m_task :: ident
  m_role :: string
  m_content :: string
  m_at :: seconds

record metadata_row =
  md_plan :: ident
  md_task :: ident
  md_group_path :: string
  md_team_path :: string
  md_json :: string
  md_alias :: "string option"
  md_provider :: "string option"
  md_model :: "string option"
  md_effort :: "string option"
  md_domain :: "string option"
  md_session :: "string option"
  md_provider_session :: "string option"
  md_calibration :: "string option"
  md_capabilities :: "string option"
  md_evidence :: "string option"
  md_blocked_reason :: "string option"

record calibration_row =
  c_id :: ident
  c_alias :: string
  c_provider :: string
  c_model :: string
  c_effort :: string
  c_binary_path :: string
  c_binary_version :: string
  c_binary_sha256 :: string
  c_invocation_hash :: string
  c_inference_domain :: string
  c_control_domain :: string
  c_independence_domain :: string
  c_model_digest :: "string option"
  c_capabilities :: string
  c_evidence :: string
  c_created :: seconds

record attempt_row =
  a_plan :: ident
  a_task :: ident
  a_sequence :: int
  a_repetition :: int
  a_alias :: string
  a_provider :: string
  a_model :: string
  a_effort :: string
  a_session :: string
  a_provider_session :: "string option"
  a_output_sha256 :: string
  a_created :: seconds

record input_row =
  i_plan :: ident
  i_task :: ident
  i_path :: string
  i_sha256 :: string

record output_row =
  o_plan :: ident
  o_task :: ident
  o_path :: string
  o_mode :: string

record hook_row =
  h_session :: ident
  h_plan :: ident
  h_task :: ident
  h_state :: HookVerificationState
  h_updated :: nanos

section \<open>The store\<close>

record store =
  projects :: "project_row list"
  identifiers :: "identifier_row list"
  config :: "config_row list"
  plans :: "plan_row list"
  tasks :: "task_row list"
  deps :: "dep_row list"
  events :: "event_row list"
  sessions :: "session_row list"
  workers :: "worker_row list"
  spend :: "spend_row list"
  messages :: "message_row list"
  metadata :: "metadata_row list"
  calibrations :: "calibration_row list"
  attempts :: "attempt_row list"
  inputs :: "input_row list"
  outputs :: "output_row list"
  hooks :: "hook_row list"
  event_seq :: int
  spend_seq :: int
  message_seq :: int
  clock :: nanos

definition empty_store :: "nanos \<Rightarrow> store" where
  "empty_store now = \<lparr>projects = [], identifiers = [], config = [], plans = [], tasks = [],
     deps = [], events = [], sessions = [], workers = [], spend = [], messages = [],
     metadata = [], calibrations = [], attempts = [], inputs = [], outputs = [], hooks = [],
     event_seq = 0, spend_seq = 0, message_seq = 0, clock = now\<rparr>"

definition rfc3339 :: "nanos \<Rightarrow> seconds" where
  "rfc3339 t = t div 1000000000"

abbreviation now_of :: "store \<Rightarrow> seconds" where
  "now_of s \<equiv> rfc3339 (clock s)"

lemma rfc3339_mono: "t \<le> t' \<Longrightarrow> rfc3339 t \<le> rfc3339 t'"
  by (simp add: rfc3339_def zdiv_mono1)

section \<open>Errors and transactions\<close>

datatype constraint_kind = NotNullC | CheckC | UniqueC | ForeignKeyC

datatype store_error =
    ErrRequired string
  | ErrConstraint constraint_kind
  | ErrDuplicateTask ident ident
  | ErrSelfDep
  | ErrCycle ident ident
  | ErrNoReadyTask
  | ErrOutputReserved string
  | ErrTaskNotFound ident ident
  | ErrTaskNotOwnedRunning
  | ErrTaskNotRunning
  | ErrPlanNotFound
  | ErrDuplicateSlug
  | ErrTaskMetadataMissing
  | ErrDuplicateTaskMetadata
  | ErrTaskExecutionConflict
  | ErrTaskProviderSessionConflict
  | ErrCalibrationBound string string
  | ErrNotClearable TaskStatus
  | ErrCalibrationConflict string
  | ErrCalibrationNotFound
  | ErrProjectNotFound
  | ErrInvalidQuery string
  | ErrInvalidScope

type_synonym 'a op = "store \<Rightarrow> (store_error + 'a) \<times> store"

definition op_return :: "'a \<Rightarrow> 'a op" where
  "op_return x s = (Inr x, s)"

definition op_fail :: "store_error \<Rightarrow> 'a op" where
  "op_fail e s = (Inl e, s)"

text \<open>\<open>if err != nil { return err }\<close>.\<close>

definition op_bind :: "'a op \<Rightarrow> ('a \<Rightarrow> 'b op) \<Rightarrow> 'b op" where
  "op_bind m f s = (case m s of (Inl e, s') \<Rightarrow> (Inl e, s') | (Inr x, s') \<Rightarrow> f x s')"

text \<open>\<open>for _, x := range xs { if err := f(x); err != nil { return err } }\<close>.\<close>

fun op_each :: "('x \<Rightarrow> unit op) \<Rightarrow> 'x list \<Rightarrow> unit op" where
  "op_each f [] = op_return ()"
| "op_each f (x # xs) = op_bind (f x) (\<lambda>_. op_each f xs)"

definition in_tx :: "'a op \<Rightarrow> 'a op" where
  "in_tx body s = (case body s of (Inl e, s') \<Rightarrow> (Inl e, s) | (Inr x, s') \<Rightarrow> (Inr x, s'))"

text \<open>A transaction is atomic: an error leaves no trace, and an invariant its body keeps on the
  successful path is kept.\<close>

lemma in_tx_error: "fst (in_tx body s) = Inl e \<Longrightarrow> snd (in_tx body s) = s"
  by (auto simp: in_tx_def split: sum.splits prod.splits)

lemma in_tx_Inl: "in_tx body s = (Inl e, s') \<Longrightarrow> s' = s"
  by (auto simp: in_tx_def split: sum.splits prod.splits)

lemma in_tx_cases:
  assumes "in_tx body s = (r, s')"
  obtains (rolled_back) e where "r = Inl e" "s' = s"
        | (committed) x where "r = Inr x" "body s = (Inr x, s')"
  using assms by (auto simp: in_tx_def split: sum.splits prod.splits)

lemma in_tx_inv:
  assumes "P s" and "\<And>x s'. body s = (Inr x, s') \<Longrightarrow> P s'"
  shows "P (snd (in_tx body s))"
  using assms by (auto simp: in_tx_def split: sum.splits prod.splits)

lemma op_bind_Inr [simp]:
  "op_bind m f s = (Inr y, s') \<longleftrightarrow> (\<exists>x s1. m s = (Inr x, s1) \<and> f x s1 = (Inr y, s'))"
  by (auto simp: op_bind_def split: sum.splits prod.splits)

text \<open>An invariant of one iteration is an invariant of the loop.\<close>

lemma op_each_inv:
  assumes "\<And>x s s'. x \<in> set xs \<Longrightarrow> P s \<Longrightarrow> f x s = (Inr (), s') \<Longrightarrow> P s'"
    and "op_each f xs s = (Inr (), s')" and "P s"
  shows "P s'"
  using assms
proof (induction xs arbitrary: s)
  case Nil
  then show ?case by (simp add: op_return_def)
next
  case (Cons x xs)
  from Cons.prems(2) obtain s1 where "f x s = (Inr (), s1)" "op_each f xs s1 = (Inr (), s')"
    by auto
  with Cons.IH [of s1] Cons.prems(1) [of x s s1] Cons.prems(1,3) show ?case
    by (metis list.set_intros)
qed

end
