(* ===== verification/Go_Library.thy ===== *)
theory Go_Library
  imports Ralph_Prelude
begin

text \<open>
  The parts of Go's standard library the modelled code calls, as executable definitions on byte
  strings: \<open>json.Valid\<close> (the byte-driven scanner of \<open>encoding/json\<close> with its stack of open objects
  and arrays), \<open>filepath.Clean\<close> for slash-separated paths, and \<open>strings.Split\<close>, \<open>strings.Join\<close>.
\<close>

section \<open>encoding/json: Valid\<close>

datatype json_state =
    JBeginValueOrEmpty | JBeginValue | JBeginStringOrEmpty | JBeginString | JEndValue | JEndTop
  | JInString | JInStringEsc | JEscU nat | JNeg | J1 | J0 | JDot | JDot0 | JE | JESign | JE0
  | JLiteral string

datatype json_nest = JObjectKey | JObjectValue | JArrayValue

type_synonym json_scan = "json_state \<times> json_nest list"

definition json_space :: "char \<Rightarrow> bool" where
  "json_space c \<longleftrightarrow> c = CHR '' '' \<or> c = CHR 0x09 \<or> c = CHR 0x0D \<or> c = CHR 0x0A"

definition json_digit :: "char \<Rightarrow> bool" where
  "json_digit c \<longleftrightarrow> CHR ''0'' \<le> c \<and> c \<le> CHR ''9''"

definition json_hex :: "char \<Rightarrow> bool" where
  "json_hex c \<longleftrightarrow> json_digit c \<or> (CHR ''a'' \<le> c \<and> c \<le> CHR ''f'') \<or> (CHR ''A'' \<le> c \<and> c \<le> CHR ''F'')"

definition json_max_nesting :: nat where
  "json_max_nesting = 10000"

definition json_push :: "json_nest \<Rightarrow> json_state \<Rightarrow> json_nest list \<Rightarrow> json_scan option" where
  "json_push p st ps = (if length ps < json_max_nesting then Some (st, p # ps) else None)"

definition json_pop :: "json_nest list \<Rightarrow> json_scan option" where
  "json_pop ps = (case ps of [] \<Rightarrow> None | [_] \<Rightarrow> Some (JEndTop, []) | _ # q # qs \<Rightarrow> Some (JEndValue, q # qs))"

definition json_end_value :: "char \<Rightarrow> json_nest list \<Rightarrow> json_scan option" where
  "json_end_value c ps = (case ps of
     [] \<Rightarrow> (if json_space c then Some (JEndTop, []) else None)
   | p # qs \<Rightarrow>
       if json_space c then Some (JEndValue, ps)
       else (case p of
         JObjectKey \<Rightarrow> (if c = CHR '':'' then Some (JBeginValue, JObjectValue # qs) else None)
       | JObjectValue \<Rightarrow>
           (if c = CHR '','' then Some (JBeginString, JObjectKey # qs)
            else if c = CHR ''}'' then json_pop ps else None)
       | JArrayValue \<Rightarrow>
           (if c = CHR '','' then Some (JBeginValue, ps)
            else if c = CHR '']'' then json_pop ps else None)))"

definition json_begin_value :: "char \<Rightarrow> json_nest list \<Rightarrow> json_scan option" where
  "json_begin_value c ps =
    (if json_space c then Some (JBeginValue, ps)
     else if c = CHR ''{'' then json_push JObjectKey JBeginStringOrEmpty ps
     else if c = CHR ''['' then json_push JArrayValue JBeginValueOrEmpty ps
     else if c = CHR 0x22 then Some (JInString, ps)
     else if c = CHR ''-'' then Some (JNeg, ps)
     else if c = CHR ''0'' then Some (J0, ps)
     else if c = CHR ''t'' then Some (JLiteral ''rue'', ps)
     else if c = CHR ''f'' then Some (JLiteral ''alse'', ps)
     else if c = CHR ''n'' then Some (JLiteral ''ull'', ps)
     else if json_digit c then Some (J1, ps)
     else None)"

definition json_begin_string :: "char \<Rightarrow> json_nest list \<Rightarrow> json_scan option" where
  "json_begin_string c ps =
    (if json_space c then Some (JBeginString, ps)
     else if c = CHR 0x22 then Some (JInString, ps) else None)"

definition json_after_int :: "char \<Rightarrow> json_nest list \<Rightarrow> json_scan option" where
  "json_after_int c ps =
    (if c = CHR ''.'' then Some (JDot, ps)
     else if c = CHR ''e'' \<or> c = CHR ''E'' then Some (JE, ps)
     else json_end_value c ps)"

definition json_exp_sign :: "char \<Rightarrow> json_nest list \<Rightarrow> json_scan option" where
  "json_exp_sign c ps = (if json_digit c then Some (JE0, ps) else None)"

fun json_step :: "char \<Rightarrow> json_scan \<Rightarrow> json_scan option" where
  "json_step c (JBeginValueOrEmpty, ps) =
    (if json_space c then Some (JBeginValueOrEmpty, ps)
     else if c = CHR '']'' then json_end_value c ps else json_begin_value c ps)"
| "json_step c (JBeginValue, ps) = json_begin_value c ps"
| "json_step c (JBeginStringOrEmpty, ps) =
    (if json_space c then Some (JBeginStringOrEmpty, ps)
     else if c = CHR ''}'' then json_end_value c (JObjectValue # tl ps) else json_begin_string c ps)"
| "json_step c (JBeginString, ps) = json_begin_string c ps"
| "json_step c (JEndValue, ps) = json_end_value c ps"
| "json_step c (JEndTop, ps) = (if json_space c then Some (JEndTop, ps) else None)"
| "json_step c (JInString, ps) =
    (if c = CHR 0x22 then Some (JEndValue, ps)
     else if c = CHR 0x5C then Some (JInStringEsc, ps)
     else if c < CHR 0x20 then None else Some (JInString, ps))"
| "json_step c (JInStringEsc, ps) =
    (if c \<in> set ''bfnrt/'' \<or> c = CHR 0x5C \<or> c = CHR 0x22 then Some (JInString, ps)
     else if c = CHR ''u'' then Some (JEscU 3, ps) else None)"
| "json_step c (JEscU n, ps) =
    (if json_hex c then Some (case n of 0 \<Rightarrow> JInString | Suc m \<Rightarrow> JEscU m, ps) else None)"
| "json_step c (JNeg, ps) =
    (if c = CHR ''0'' then Some (J0, ps) else if json_digit c then Some (J1, ps) else None)"
| "json_step c (J1, ps) = (if json_digit c then Some (J1, ps) else json_after_int c ps)"
| "json_step c (J0, ps) = json_after_int c ps"
| "json_step c (JDot, ps) = (if json_digit c then Some (JDot0, ps) else None)"
| "json_step c (JDot0, ps) =
    (if json_digit c then Some (JDot0, ps)
     else if c = CHR ''e'' \<or> c = CHR ''E'' then Some (JE, ps) else json_end_value c ps)"
| "json_step c (JE, ps) =
    (if c = CHR ''+'' \<or> c = CHR ''-'' then Some (JESign, ps) else json_exp_sign c ps)"
| "json_step c (JESign, ps) = json_exp_sign c ps"
| "json_step c (JE0, ps) = (if json_digit c then Some (JE0, ps) else json_end_value c ps)"
| "json_step c (JLiteral w, ps) =
    (case w of [] \<Rightarrow> None
     | l # ls \<Rightarrow> if c = l then Some (if ls = [] then JEndValue else JLiteral ls, ps) else None)"

fun json_run :: "string \<Rightarrow> json_scan \<Rightarrow> json_scan option" where
  "json_run [] st = Some st"
| "json_run (c # cs) st = (case json_step c st of None \<Rightarrow> None | Some st' \<Rightarrow> json_run cs st')"

text \<open>The scanner's \<open>eof\<close>: a top-level value has ended, or ends when a space follows.\<close>

definition json_eof :: "json_scan \<Rightarrow> bool" where
  "json_eof st \<longleftrightarrow> fst st = JEndTop \<or>
     (case json_step (CHR '' '') st of None \<Rightarrow> False | Some st' \<Rightarrow> fst st' = JEndTop)"

definition json_valid :: "string \<Rightarrow> bool" where
  "json_valid raw = (case json_run raw (JBeginValue, []) of None \<Rightarrow> False | Some st \<Rightarrow> json_eof st)"

lemma json_empty_object: "json_valid ''{}''"
  by code_simp

section \<open>strings: Split and Join on one separator byte\<close>

fun split_on :: "char \<Rightarrow> string \<Rightarrow> string list" where
  "split_on sep [] = [[]]"
| "split_on sep (c # cs) =
    (if c = sep then [] # split_on sep cs
     else (case split_on sep cs of [] \<Rightarrow> [[c]] | w # ws \<Rightarrow> (c # w) # ws))"

fun join_with :: "string \<Rightarrow> string list \<Rightarrow> string" where
  "join_with sep [] = []"
| "join_with sep [w] = w"
| "join_with sep (w # ws) = w @ sep @ join_with sep ws"

lemma split_on_ne [simp]: "split_on sep s \<noteq> []"
  by (induction s) (auto split: list.splits)

lemma split_on_no_sep: "w \<in> set (split_on sep s) \<Longrightarrow> sep \<notin> set w"
proof (induction s arbitrary: w)
  case (Cons c cs)
  obtain v vs where "split_on sep cs = v # vs"
    by (meson split_on_ne list.exhaust)
  with Cons show ?case by (auto split: if_splits)
qed simp

lemma split_on_word: "sep \<notin> set w \<Longrightarrow> split_on sep w = [w]"
  by (induction w) auto

lemma split_on_append: "sep \<notin> set w \<Longrightarrow> split_on sep (w @ sep # r) = w # split_on sep r"
  by (induction w) auto

lemma split_join:
  assumes "ws \<noteq> []" and "\<forall>w \<in> set ws. sep \<notin> set w"
  shows "split_on sep (join_with [sep] ws) = ws"
  using assms
  by (induction "[sep]" ws rule: join_with.induct) (auto simp: split_on_word split_on_append)

lemma join_with_Cons:
  "ws \<noteq> [] \<Longrightarrow> join_with sep (w # ws) = w @ sep @ join_with sep ws"
  by (cases ws) auto

section \<open>path/filepath: Clean\<close>

text \<open>The kept elements are a stack, last element first.\<close>

fun clean_elems :: "bool \<Rightarrow> string list \<Rightarrow> string list \<Rightarrow> string list" where
  "clean_elems rooted out [] = rev out"
| "clean_elems rooted out (w # ws) =
    (if w = [] \<or> w = ''.'' then clean_elems rooted out ws
     else if w = ''..'' then
       (case out of
          p # ps \<Rightarrow> if p \<noteq> ''..'' then clean_elems rooted ps ws else clean_elems rooted (w # out) ws
        | [] \<Rightarrow> if rooted then clean_elems rooted [] ws else clean_elems rooted [w] ws)
     else clean_elems rooted (w # out) ws)"

definition rooted_path :: "string \<Rightarrow> bool" where
  "rooted_path p = (case p of [] \<Rightarrow> False | c # _ \<Rightarrow> c = CHR ''/'')"

definition filepath_Clean :: "string \<Rightarrow> string" where
  "filepath_Clean p =
    (let rooted = rooted_path p;
         body = join_with ''/'' (clean_elems rooted [] (split_on (CHR ''/'') p))
     in if rooted then CHR ''/'' # body else if body = [] then ''.'' else body)"

text \<open>A cleaned element list: leading \<open>..\<close> elements (none under a root), then ordinary names.\<close>

definition ordinary :: "string \<Rightarrow> bool" where
  "ordinary w \<longleftrightarrow> w \<noteq> [] \<and> w \<noteq> ''.'' \<and> w \<noteq> ''..'' \<and> CHR ''/'' \<notin> set w"

definition clean_form :: "bool \<Rightarrow> string list \<Rightarrow> bool" where
  "clean_form rooted ws \<longleftrightarrow> (\<exists>n ns. ws = replicate n ''..'' @ ns \<and> (\<forall>w \<in> set ns. ordinary w)
     \<and> (rooted \<longrightarrow> n = 0))"

lemma clean_form_snoc:
  assumes "clean_form rooted (rev out)" and "ordinary w"
  shows "clean_form rooted (rev (w # out))"
proof -
  from assms(1) obtain n ns where "rev out = replicate n ''..'' @ ns" "\<forall>v \<in> set ns. ordinary v"
    "rooted \<longrightarrow> n = 0"
    unfolding clean_form_def by blast
  then have "rev (w # out) = replicate n ''..'' @ (ns @ [w])" "\<forall>v \<in> set (ns @ [w]). ordinary v"
    "rooted \<longrightarrow> n = 0"
    using assms(2) by auto
  then show ?thesis unfolding clean_form_def by blast
qed

lemma clean_form_dotdot:
  assumes "clean_form False (rev out)" and "out = [] \<or> hd out = ''..''"
  shows "clean_form False (rev (''..'' # out))"
proof -
  from assms(1) obtain n ns where ns: "rev out = replicate n ''..'' @ ns" "\<forall>v \<in> set ns. ordinary v"
    unfolding clean_form_def by blast
  have "ns = []"
  proof (rule ccontr)
    assume "ns \<noteq> []"
    then have "hd out = last ns" "out \<noteq> []" "last ns \<in> set ns"
      using ns(1) by (metis Nil_is_append_conv hd_rev last_appendR rev_is_Nil_conv rev_rev_ident,
          metis ns(1) \<open>ns \<noteq> []\<close> append_is_Nil_conv rev.simps(1), simp)
    then show False
      using assms(2) ns(2) by (auto simp: ordinary_def)
  qed
  then have "rev (''..'' # out) = replicate (Suc n) ''..'' @ []"
    using ns(1) by (simp add: replicate_append_same)
  then show ?thesis unfolding clean_form_def by (metis empty_iff list.set(1))
qed

lemma clean_form_pop:
  assumes "clean_form rooted (rev (p # ps))" and "p \<noteq> ''..''"
  shows "clean_form rooted (rev ps)"
proof -
  from assms(1) obtain n ns where ns: "rev ps @ [p] = replicate n ''..'' @ ns"
    "\<forall>v \<in> set ns. ordinary v" "rooted \<longrightarrow> n = 0"
    unfolding clean_form_def by auto
  have "ns \<noteq> []"
  proof
    assume "ns = []"
    then have "p \<in> set (replicate n ''..'')" using ns(1) by (metis append_Nil2 in_set_conv_decomp)
    then show False using assms(2) by simp
  qed
  then obtain ms m where "ns = ms @ [m]" by (metis rev_exhaust)
  then have "rev ps = replicate n ''..'' @ ms" "\<forall>v \<in> set ms. ordinary v"
    using ns by auto
  then show ?thesis using ns(3) unfolding clean_form_def by blast
qed

lemma clean_elems_form:
  assumes "clean_form rooted (rev out)" and "\<forall>w \<in> set ws. CHR ''/'' \<notin> set w"
  shows "clean_form rooted (clean_elems rooted out ws)"
  using assms
proof (induction ws arbitrary: out)
  case Nil
  then show ?case by simp
next
  case (Cons w ws)
  have step: "clean_form rooted (clean_elems rooted out' ws)" if "clean_form rooted (rev out')" for out'
    using Cons that by simp
  consider "w = [] \<or> w = ''.''" | "w = ''..''" "out \<noteq> []" "hd out \<noteq> ''..''"
    | "w = ''..''" "rooted" "out = []" | "w = ''..''" "\<not> rooted" "out = [] \<or> hd out = ''..''"
    | "w = ''..''" "rooted" "out \<noteq> []" "hd out = ''..''" | "ordinary w"
    using Cons.prems(2) by (auto simp: ordinary_def)
  then show ?case
  proof cases
    case 2
    then obtain p ps where "out = p # ps" "p \<noteq> ''..''" by (cases out) auto
    then show ?thesis using 2 step clean_form_pop Cons.prems(1) by simp
  next
    case 4
    then show ?thesis
      using step [of "''..'' # out"] clean_form_dotdot [of out] Cons.prems(1) by (cases out) auto
  next
    case 5
    then show ?thesis using Cons.prems(1) by (cases out) (auto simp: clean_form_def ordinary_def)
  next
    case 6
    then have "clean_form rooted (rev (w # out))" using clean_form_snoc Cons.prems(1) by blast
    then show ?thesis using step 6 by (simp add: ordinary_def)
  qed (use step Cons.prems in auto)
qed

lemma clean_elems_ordinary:
  "\<forall>w \<in> set ns. ordinary w \<Longrightarrow> clean_elems rooted out ns = rev out @ ns"
  by (induction ns arbitrary: out) (auto simp: ordinary_def)

lemma clean_elems_dots:
  assumes "\<forall>w \<in> set out. w = ''..''" and "\<forall>w \<in> set ns. ordinary w"
  shows "clean_elems False out (replicate n ''..'' @ ns) = rev out @ replicate n ''..'' @ ns"
  using assms(1)
proof (induction n arbitrary: out)
  case 0
  then show ?case using clean_elems_ordinary assms(2) by simp
next
  case (Suc n)
  have "clean_elems False out (replicate (Suc n) ''..'' @ ns) =
        clean_elems False (''..'' # out) (replicate n ''..'' @ ns)"
    using Suc.prems by (cases out) auto
  with Suc show ?case by simp
qed

lemma clean_elems_fixed:
  "clean_form rooted ws \<Longrightarrow> clean_elems rooted [] ws = ws"
proof -
  assume "clean_form rooted ws"
  then obtain n ns where "ws = replicate n ''..'' @ ns" "\<forall>w \<in> set ns. ordinary w" "rooted \<longrightarrow> n = 0"
    unfolding clean_form_def by blast
  then show ?thesis
    using clean_elems_ordinary [of ns rooted "[]"] clean_elems_dots [of "[]" ns n] by (cases rooted) simp_all
qed

lemma clean_form_no_slash:
  assumes "clean_form rooted ws" and "w \<in> set ws"
  shows "w \<noteq> [] \<and> CHR ''/'' \<notin> set w"
proof -
  from assms(1) obtain n ns where ws: "ws = replicate n ''..'' @ ns" "\<forall>v \<in> set ns. ordinary v"
    unfolding clean_form_def by blast
  then consider "w = ''..''" | "ordinary w"
    using assms(2) by auto
  then show ?thesis by cases (auto simp: ordinary_def)
qed

lemma join_nonempty:
  "ws \<noteq> [] \<Longrightarrow> \<forall>w \<in> set ws. w \<noteq> [] \<Longrightarrow> join_with sep ws \<noteq> [] \<and> hd (join_with sep ws) = hd (hd ws)"
  by (cases ws; cases "tl ws") auto

text \<open>Cleaning a cleaned path changes nothing.\<close>

lemma filepath_Clean_idem: "filepath_Clean (filepath_Clean p) = filepath_Clean p"
proof -
  define r where "r = rooted_path p"
  define ws where "ws = clean_elems r [] (split_on (CHR ''/'') p)"
  have form: "clean_form r ws"
    unfolding ws_def by (rule clean_elems_form) (auto simp: clean_form_def dest: split_on_no_sep)
  have names: "\<forall>w \<in> set ws. w \<noteq> [] \<and> CHR ''/'' \<notin> set w"
    using clean_form_no_slash [OF form] by blast
  have clean_p: "filepath_Clean p =
      (if r then CHR ''/'' # join_with ''/'' ws
       else if join_with ''/'' ws = [] then ''.'' else join_with ''/'' ws)"
    by (simp add: filepath_Clean_def r_def ws_def Let_def)
  show ?thesis
  proof (cases "ws = []")
    case True
    then show ?thesis unfolding clean_p by (simp add: filepath_Clean_def rooted_path_def)
  next
    case False
    then have join: "join_with ''/'' ws \<noteq> []" "hd (join_with ''/'' ws) \<noteq> CHR ''/''"
      using join_nonempty [of ws "''/''"] names by (simp, metis hd_in_set join_nonempty)
    have split: "split_on (CHR ''/'') (join_with ''/'' ws) = ws"
      using split_join [of ws "CHR ''/''"] False names by simp
    have fixed: "clean_elems r [] ws = ws" by (rule clean_elems_fixed [OF form])
    show ?thesis
    proof (cases r)
      case True
      then show ?thesis
        unfolding clean_p using split fixed by (simp add: filepath_Clean_def rooted_path_def)
    next
      case False
      then have "\<not> rooted_path (join_with ''/'' ws)"
        using join by (cases "join_with ''/'' ws") (auto simp: rooted_path_def)
      then show ?thesis
        unfolding clean_p using split fixed join False by (simp add: filepath_Clean_def)
    qed
  qed
qed

end
