(* ===== verification/Store_Tasks.thy ===== *)
theory Store_Tasks
  imports Store_Schema Go_Library
begin

text \<open>
  The task lifecycle of \<open>internal/store\<close>: \<open>tasks.go\<close>, \<open>claim.go\<close> and \<open>output_reservation.go\<close>.  Task
  creation, dependency edges with their cycle check, the ready query, the two claim operations,
  the worker reports (done, failed, blocked, released), approval, and output-path reservations.
\<close>

section \<open>Statements on the task tables\<close>

text \<open>\<open>UPDATE tasks SET f WHERE P\<close>, with the \<open>tasks_updated_at\<close> trigger.\<close>

definition update_tasks :: "(task_row \<Rightarrow> bool) \<Rightarrow> (task_row \<Rightarrow> task_row) \<Rightarrow> store \<Rightarrow> store" where
  "update_tasks P f s = s\<lparr>tasks := upd_where P (\<lambda>t. (f t)\<lparr>t_updated := now_of s\<rparr>) (tasks s)\<rparr>"

abbreviation is_task :: "ident \<Rightarrow> ident \<Rightarrow> task_row \<Rightarrow> bool" where
  "is_task planID taskID t \<equiv> t_plan t = planID \<and> t_id t = taskID"

definition task_exists :: "ident \<Rightarrow> ident \<Rightarrow> store \<Rightarrow> bool" where
  "task_exists planID taskID s = list_ex (is_task planID taskID) (tasks s)"

definition plan_exists :: "ident \<Rightarrow> store \<Rightarrow> bool" where
  "plan_exists planID s = list_ex (\<lambda>p. p_id p = planID) (plans s)"

definition session_exists :: "ident \<Rightarrow> store \<Rightarrow> bool" where
  "session_exists sid s = list_ex (\<lambda>r. s_id r = sid) (sessions s)"

definition worker_exists :: "ident \<Rightarrow> store \<Rightarrow> bool" where
  "worker_exists wid s = list_ex (\<lambda>w. w_id w = wid) (workers s)"

definition project_exists :: "ident \<Rightarrow> store \<Rightarrow> bool" where
  "project_exists pid s = list_ex (\<lambda>p. pr_id p = pid) (projects s)"

text \<open>\<open>INSERT INTO events\<close>; the row id is AUTOINCREMENT, and a project id must name a project.\<close>

definition insert_event ::
  "ident option \<Rightarrow> ident option \<Rightarrow> ident option \<Rightarrow> string \<Rightarrow> string option \<Rightarrow> string option \<Rightarrow>
   payload_json option \<Rightarrow> unit op" where
  "insert_event prj plan task kind stream actor payload s =
    (if (case prj of None \<Rightarrow> True | Some p \<Rightarrow> project_exists p s)
     then (Inr (), s\<lparr>events := events s @ [\<lparr>e_id = event_seq s + 1, e_project = prj, e_plan = plan,
             e_task = task, e_kind = kind, e_stream = stream, e_actor = actor,
             e_payload = payload, e_at = now_of s\<rparr>], event_seq := event_seq s + 1\<rparr>)
     else (Inl (ErrConstraint ForeignKeyC), s))"

section \<open>Payloads\<close>

definition isZeroPayload :: "EventPayload \<Rightarrow> bool" where
  "isZeroPayload p \<longleftrightarrow> Summary p = [] \<and> Reason p = [] \<and> length (Evidence p) = 0 \<and>
     HandoffTo p = [] \<and> \<not> Retryable p \<and> length (NeedsContext p) = 0 \<and> \<not> ApprovalRequired p \<and>
     Provider p = [] \<and> ProviderSessionID p = [] \<and> FailureCategory p = [] \<and> OperatorAction p = []"

definition payloadJSON :: "EventPayload \<Rightarrow> payload_json" where
  "payloadJSON p = (if isZeroPayload p then PText ''{}'' else PPayload p)"

definition jsonOrEmptyObject :: "string \<Rightarrow> payload_json" where
  "jsonOrEmptyObject raw =
    (if raw = [] then PText ''{}'' else if json_valid raw then PText raw else PRaw raw)"

section \<open>The Go view of a task row\<close>

record Task =
  Task_ID :: ident
  Task_PlanID :: ident
  Task_Description :: string
  Task_Status :: TaskStatus
  Task_ParallelGroup :: "int option"
  Task_SequenceOrdinal :: "int option"
  Task_AcceptanceJSON :: string
  Task_ClaimedBySession :: ident
  Task_ClaimedByWorkerID :: ident
  Task_RetryCount :: int
  Task_ReclaimCount :: int
  Task_ParentTaskID :: ident
  Task_CreatedAt :: seconds
  Task_UpdatedAt :: seconds

definition scanTask :: "task_row \<Rightarrow> Task" where
  "scanTask t = \<lparr>Task_ID = t_id t, Task_PlanID = t_plan t, Task_Description = t_desc t,
     Task_Status = t_status t, Task_ParallelGroup = t_group t, Task_SequenceOrdinal = t_ordinal t,
     Task_AcceptanceJSON = coalesce (t_acceptance t), Task_ClaimedBySession = coalesce (t_session t),
     Task_ClaimedByWorkerID = coalesce (t_worker t), Task_RetryCount = t_retry t,
     Task_ReclaimCount = t_reclaim t, Task_ParentTaskID = coalesce (t_parent t),
     Task_CreatedAt = t_created t, Task_UpdatedAt = t_updated t\<rparr>"

definition scanTasks :: "task_row list \<Rightarrow> Task list" where
  "scanTasks rows = map scanTask rows"

definition AttemptCount :: "Task \<Rightarrow> int" where
  "AttemptCount t = Task_RetryCount t + Task_ReclaimCount t + 1"

section \<open>Creating tasks\<close>

record CreateTaskOpts =
  ct_PlanID :: ident
  ct_ID :: ident
  ct_Description :: string
  ct_ParallelGroup :: "int option"
  ct_SequenceOrdinal :: "int option"
  ct_AcceptanceJSON :: string
  ct_ParentTaskID :: ident
  ct_RequiresApproval :: bool

text \<open>The insert fails on an existing key before it fails on a missing plan or parent; a task may
  name itself as parent, since the check runs after the row is in the table.\<close>

definition new_task_row :: "CreateTaskOpts \<Rightarrow> store \<Rightarrow> task_row" where
  "new_task_row opts s = \<lparr>t_id = ct_ID opts, t_plan = ct_PlanID opts, t_desc = ct_Description opts,
     t_status = (if ct_RequiresApproval opts then TaskStatusReadyPendingApproval else TaskStatusPending),
     t_group = ct_ParallelGroup opts, t_ordinal = ct_SequenceOrdinal opts,
     t_acceptance = nullIfEmpty (ct_AcceptanceJSON opts), t_session = None, t_worker = None,
     t_retry = 0, t_reclaim = 0, t_parent = nullIfEmpty (ct_ParentTaskID opts),
     t_created = now_of s, t_updated = now_of s, t_failure = None\<rparr>"

definition createTaskOn :: "CreateTaskOpts \<Rightarrow> unit op" where
  "createTaskOn opts s =
    (if ct_PlanID opts = [] \<or> ct_ID opts = [] \<or> ct_Description opts = []
     then (Inl (ErrRequired ''PlanID, ID, and Description''), s)
     else if task_exists (ct_PlanID opts) (ct_ID opts) s
     then (Inl (ErrDuplicateTask (ct_ID opts) (ct_PlanID opts)), s)
     else if \<not> plan_exists (ct_PlanID opts) s \<or>
             \<not> (ct_ParentTaskID opts = [] \<or> ct_ParentTaskID opts = ct_ID opts \<or>
                 task_exists (ct_PlanID opts) (ct_ParentTaskID opts) s)
     then (Inl (ErrConstraint ForeignKeyC), s)
     else (Inr (), s\<lparr>tasks := tasks s @ [new_task_row opts s]\<rparr>))"

definition CreateTask :: "CreateTaskOpts \<Rightarrow> unit op" where
  "CreateTask opts = createTaskOn opts"

section \<open>Dependencies\<close>

definition dep_targets :: "dep_row list \<Rightarrow> ident \<Rightarrow> ident \<Rightarrow> ident list" where
  "dep_targets ds planID node = map d_on (filter (\<lambda>d. d_plan d = planID \<and> d_task d = node) ds)"

text \<open>The closure \<open>visit\<close> of \<open>wouldCreateCycleOn\<close> and its loop over the targets, as one function on
  the list of nodes still to visit; it threads the \<open>visited\<close> map.\<close>

function visit :: "dep_row list \<Rightarrow> ident \<Rightarrow> ident \<Rightarrow> ident list \<Rightarrow> ident list \<Rightarrow> bool \<times> ident list" where
  "visit ds planID task [] visited = (False, visited)"
| "visit ds planID task (node # rest) visited =
    (if node = task then (True, visited)
     else if node \<in> set visited then visit ds planID task rest visited
     else let r = visit ds planID task (dep_targets ds planID node) (node # visited) in
       if fst r then r else visit ds planID task rest (snd r))"
  by pat_completeness auto

lemma visit_grows:
  assumes "visit_dom (ds, planID, task, nodes, visited)"
  shows "set visited \<subseteq> set (snd (visit ds planID task nodes visited))"
  using assms
proof (induction rule: visit.pinduct)
  case (2 ds planID task node rest visited)
  define r where "r = visit ds planID task (dep_targets ds planID node) (node # visited)"
  show ?case
  proof (cases "node = task \<or> node \<in> set visited")
    case True
    then show ?thesis using 2 by (auto simp: visit.psimps)
  next
    case False
    then have "set visited \<subseteq> set (snd r)"
      using 2 by (auto simp: r_def)
    moreover have "set (snd r) \<subseteq> set (snd (visit ds planID task rest (snd r)))" if "\<not> fst r"
      using 2(4) False that by (simp add: r_def)
    ultimately show ?thesis
      using False 2(1) by (auto simp: visit.psimps Let_def r_def [symmetric])
  qed
qed (simp add: visit.psimps)

text \<open>A call on the targets of a new node either shrinks the unvisited part of the graph or, at a
  node without edges, has nothing left to visit.\<close>

definition unvisited :: "dep_row list \<Rightarrow> ident list \<Rightarrow> nat" where
  "unvisited ds visited = card (d_task ` set ds - set visited)"

lemma unvisited_mono: "set v \<subseteq> set v' \<Longrightarrow> unvisited ds v' \<le> unvisited ds v"
  unfolding unvisited_def by (rule card_mono) auto

lemma unvisited_new:
  assumes "node \<notin> set visited"
  shows "unvisited ds (node # visited) < unvisited ds visited \<or>
         unvisited ds (node # visited) = unvisited ds visited \<and> dep_targets ds planID node = []"
proof (cases "node \<in> d_task ` set ds")
  case True
  then have "d_task ` set ds - set (node # visited) \<subset> d_task ` set ds - set visited"
    using assms by auto
  then show ?thesis unfolding unvisited_def by (simp add: psubset_card_mono)
next
  case False
  then have "d_task ` set ds - set (node # visited) = d_task ` set ds - set visited"
    "dep_targets ds planID node = []"
    by (auto simp: dep_targets_def filter_empty_conv)
  then show ?thesis unfolding unvisited_def by metis
qed

termination visit
proof (relation "measures [\<lambda>(ds, _, _, _, visited). unvisited ds visited, \<lambda>(_, _, _, nodes, _). length nodes]",
    goal_cases)
  case (3 ds planID task node rest visited)
  then show ?case using unvisited_new [of node visited ds planID] by auto
next
  case (4 ds planID task node rest visited r)
  have "set (node # visited) \<subseteq> set (snd r)"
    using visit_grows [OF 4(5)] by (simp only: 4(3))
  then have "unvisited ds (snd r) \<le> unvisited ds visited"
    by (intro unvisited_mono) auto
  then show ?case by auto
qed auto

declare visit.simps(2) [simp del]

definition wouldCreateCycleOn :: "dep_row list \<Rightarrow> ident \<Rightarrow> ident \<Rightarrow> ident \<Rightarrow> bool" where
  "wouldCreateCycleOn ds planID task dep = fst (visit ds planID task [dep] [])"

text \<open>The schema's own checks on an edge: different ends, no duplicate, both ends exist.\<close>

definition addDepOn :: "ident \<Rightarrow> ident \<Rightarrow> ident \<Rightarrow> unit op" where
  "addDepOn planID taskID dependsOn s =
    (if taskID = dependsOn then (Inl ErrSelfDep, s)
     else if wouldCreateCycleOn (deps s) planID taskID dependsOn then (Inl (ErrCycle taskID dependsOn), s)
     else if list_ex (\<lambda>d. d_plan d = planID \<and> d_task d = taskID \<and> d_on d = dependsOn) (deps s)
     then (Inl (ErrConstraint UniqueC), s)
     else if \<not> task_exists planID taskID s \<or> \<not> task_exists planID dependsOn s
     then (Inl (ErrConstraint ForeignKeyC), s)
     else (Inr (), s\<lparr>deps := deps s @ [\<lparr>d_plan = planID, d_task = taskID, d_on = dependsOn\<rparr>]\<rparr>))"

definition AddDep :: "ident \<Rightarrow> ident \<Rightarrow> ident \<Rightarrow> unit op" where
  "AddDep planID taskID dependsOn = addDepOn planID taskID dependsOn"

section \<open>Output reservations\<close>

definition canonicalReservationPath :: "string \<Rightarrow> string" where
  "canonicalReservationPath path =
    (if path = [] then []
     else let cleaned = filepath_Clean path in if cleaned = ''.'' then [] else cleaned)"

definition reserveTaskOutputOn :: "ident \<Rightarrow> ident \<Rightarrow> string \<Rightarrow> string \<Rightarrow> unit op" where
  "reserveTaskOutputOn planID taskID path0 mode0 s =
    (let path = canonicalReservationPath path0;
         mode = (if mode0 = [] then ''exclusive'' else mode0)
     in if path = [] then (Inl (ErrRequired ''output path''), s)
        else if mode \<noteq> ''exclusive'' then (Inl (ErrConstraint CheckC), s)
        else if list_ex (\<lambda>r. o_plan r = planID \<and> o_task r = taskID \<and> o_path r = path) (outputs s)
        then (Inl (ErrConstraint UniqueC), s)
        else if \<not> task_exists planID taskID s then (Inl (ErrConstraint ForeignKeyC), s)
        else (Inr (), s\<lparr>outputs := outputs s @
                [\<lparr>o_plan = planID, o_task = taskID, o_path = path, o_mode = mode\<rparr>]\<rparr>))"

definition ReserveTaskOutput :: "ident \<Rightarrow> ident \<Rightarrow> string \<Rightarrow> string \<Rightarrow> unit op" where
  "ReserveTaskOutput planID taskID path mode =
    (if path = [] then op_fail (ErrRequired ''output path'')
     else reserveTaskOutputOn planID taskID path (if mode = [] then ''exclusive'' else mode))"

definition reserveTaskInputOn :: "ident \<Rightarrow> ident \<Rightarrow> string \<Rightarrow> string \<Rightarrow> unit op" where
  "reserveTaskInputOn planID taskID path0 sha256 s =
    (let path = canonicalReservationPath path0
     in if path = [] then (Inl (ErrRequired ''input path''), s)
        else if list_ex (\<lambda>r. i_plan r = planID \<and> i_task r = taskID \<and> i_path r = path) (inputs s)
        then (Inl (ErrConstraint UniqueC), s)
        else if \<not> task_exists planID taskID s then (Inl (ErrConstraint ForeignKeyC), s)
        else (Inr (), s\<lparr>inputs := inputs s @
                [\<lparr>i_plan = planID, i_task = taskID, i_path = path, i_sha256 = sha256\<rparr>]\<rparr>))"

definition ReserveTaskInput :: "ident \<Rightarrow> ident \<Rightarrow> string \<Rightarrow> string \<Rightarrow> unit op" where
  "ReserveTaskInput planID taskID path sha256 =
    (if path = [] then op_fail (ErrRequired ''input path'')
     else reserveTaskInputOn planID taskID path sha256)"

text \<open>The join of \<open>outputReservationConflict\<close> (and of the NOT EXISTS of \<open>ClaimNextReady\<close>): the
  paths of the task that a running task of the same project also declared.\<close>

definition conflicting_paths :: "ident \<Rightarrow> ident \<Rightarrow> store \<Rightarrow> string list" where
  "conflicting_paths planID taskID s =
    [o_path mine.
       mine \<leftarrow> outputs s, o_plan mine = planID \<and> o_task mine = taskID,
       mp \<leftarrow> plans s, p_id mp = o_plan mine,
       theirs \<leftarrow> outputs s, o_path theirs = o_path mine \<and>
         \<not> (o_plan theirs = o_plan mine \<and> o_task theirs = o_task mine),
       tp \<leftarrow> plans s, p_id tp = o_plan theirs \<and> p_project tp = p_project mp,
       holder \<leftarrow> tasks s, t_plan holder = o_plan theirs \<and> t_id holder = o_task theirs \<and>
         t_status holder = TaskStatusRunning]"

definition outputReservationConflict :: "ident \<Rightarrow> ident \<Rightarrow> store \<Rightarrow> string" where
  "outputReservationConflict planID taskID s =
    (case conflicting_paths planID taskID s of [] \<Rightarrow> [] | path # _ \<Rightarrow> path)"

section \<open>Readiness and claims\<close>

definition claimable :: "TaskStatus \<Rightarrow> bool" where
  "claimable st \<longleftrightarrow> st = TaskStatusPending \<or> st = TaskStatusReady"

definition satisfied :: "TaskStatus \<Rightarrow> bool" where
  "satisfied st \<longleftrightarrow> st = TaskStatusDone \<or> st = TaskStatusSkipped \<or> st = TaskStatusDecomposed"

definition deps_satisfied :: "store \<Rightarrow> task_row \<Rightarrow> bool" where
  "deps_satisfied s t \<longleftrightarrow> \<not> list_ex (\<lambda>d. d_plan d = t_plan t \<and> d_task d = t_id t \<and>
     list_ex (\<lambda>tdep. t_plan tdep = d_plan d \<and> t_id tdep = d_on d \<and> \<not> satisfied (t_status tdep))
       (tasks s)) (deps s)"

definition ready_rows :: "ident \<Rightarrow> store \<Rightarrow> task_row list" where
  "ready_rows planID s = filter (\<lambda>t. t_plan t = planID \<and> claimable (t_status t) \<and> deps_satisfied s t) (tasks s)"

definition Ready :: "ident \<Rightarrow> store \<Rightarrow> Task list" where
  "Ready planID s = scanTasks (order_by t_created (ready_rows planID s))"

definition GetTask :: "ident \<Rightarrow> ident \<Rightarrow> Task op" where
  "GetTask planID taskID s =
    (case select_row (is_task planID taskID) (tasks s) of
       None \<Rightarrow> (Inl (ErrTaskNotFound taskID planID), s)
     | Some t \<Rightarrow> (Inr (scanTask t), s))"

text \<open>The guarded UPDATE that takes a claim: foreign keys are checked when a row matches.\<close>

definition claim_update :: "ident \<Rightarrow> ident \<Rightarrow> ident \<Rightarrow> ident \<Rightarrow> nat op" where
  "claim_update planID taskID sessionID workerID s =
    (let P = (\<lambda>t. is_task planID taskID t \<and> claimable (t_status t)) in
     if list_ex P (tasks s) \<and> \<not> (session_exists sessionID s \<and> worker_exists workerID s)
     then (Inl (ErrConstraint ForeignKeyC), s)
     else (Inr (rows_affected P (tasks s)),
           update_tasks P (\<lambda>t. t\<lparr>t_status := TaskStatusRunning, t_session := Some sessionID,
             t_worker := Some workerID\<rparr>) s))"

definition claim_tail :: "ident \<Rightarrow> ident \<Rightarrow> ident \<Rightarrow> ident \<Rightarrow> ident op" where
  "claim_tail planID taskID sessionID workerID =
    op_bind (claim_update planID taskID sessionID workerID) (\<lambda>claimed.
      if claimed = 0 then op_fail ErrNoReadyTask
      else op_bind (insert_event None (Some planID) (Some taskID) ''task.claimed'' (Some ''worker'')
                     (Some sessionID) (Some (payloadJSON emptyPayload)))
             (\<lambda>_. op_return taskID))"

text \<open>\<open>ORDER BY CASE WHEN sequence_ordinal IS NULL THEN 1 ELSE 0 END, sequence_ordinal, created_at\<close>.\<close>

definition claim_key :: "task_row \<Rightarrow> nat \<times> int \<times> seconds" where
  "claim_key t = (case t_ordinal t of None \<Rightarrow> (1, 0, t_created t) | Some n \<Rightarrow> (0, n, t_created t))"

definition claim_candidates :: "ident \<Rightarrow> store \<Rightarrow> task_row list" where
  "claim_candidates planID s =
    order_by claim_key (filter (\<lambda>t. conflicting_paths (t_plan t) (t_id t) s = []) (ready_rows planID s))"

definition ClaimNextReady :: "ident \<Rightarrow> ident \<Rightarrow> ident \<Rightarrow> Task op" where
  "ClaimNextReady planID sessionID workerID =
    op_bind (in_tx (\<lambda>s. case claim_candidates planID s of
                         [] \<Rightarrow> (Inl ErrNoReadyTask, s)
                       | t # _ \<Rightarrow> claim_tail planID (t_id t) sessionID workerID s))
            (\<lambda>taskID. GetTask planID taskID)"

definition claimTaskOnce :: "ident \<Rightarrow> ident \<Rightarrow> ident \<Rightarrow> ident \<Rightarrow> Task op" where
  "claimTaskOnce planID taskID sessionID workerID =
    op_bind (in_tx (\<lambda>s. case select_row (\<lambda>t. t_id t = taskID) (ready_rows planID s) of
                         None \<Rightarrow> (Inl ErrNoReadyTask, s)
                       | Some t \<Rightarrow>
                           let conflict = outputReservationConflict planID (t_id t) s in
                           if conflict \<noteq> [] then (Inl (ErrOutputReserved conflict), s)
                           else claim_tail planID (t_id t) sessionID workerID s))
            (\<lambda>selected. GetTask planID selected)"

text \<open>Without \<open>SQLITE_BUSY\<close> and cancellation the retry loop of \<open>ClaimTask\<close> runs its body once.\<close>

definition ClaimTask :: "ident \<Rightarrow> ident \<Rightarrow> ident \<Rightarrow> ident \<Rightarrow> Task op" where
  "ClaimTask planID taskID sessionID workerID = claimTaskOnce planID taskID sessionID workerID"

section \<open>Worker reports\<close>

definition owned_running :: "ident \<Rightarrow> ident \<Rightarrow> ident \<Rightarrow> task_row \<Rightarrow> bool" where
  "owned_running planID taskID sessionID t \<longleftrightarrow>
     is_task planID taskID t \<and> t_status t = TaskStatusRunning \<and> t_session t = Some sessionID"

text \<open>The owner-guarded UPDATE followed by its event; no row matched is a stale report.\<close>

definition guarded_report ::
  "(task_row \<Rightarrow> bool) \<Rightarrow> (task_row \<Rightarrow> task_row) \<Rightarrow> ident \<Rightarrow> ident \<Rightarrow> string \<Rightarrow> string \<Rightarrow> ident \<Rightarrow>
   payload_json \<Rightarrow> unit op" where
  "guarded_report P f planID taskID kind stream actor payload s =
    (if rows_affected P (tasks s) = 0 then (Inl ErrTaskNotOwnedRunning, s)
     else insert_event None (Some planID) (Some taskID) kind (Some stream) (Some actor) (Some payload)
            (update_tasks P f s))"

definition unclaimed :: "TaskStatus \<Rightarrow> task_row \<Rightarrow> task_row" where
  "unclaimed st t = t\<lparr>t_status := st, t_session := None, t_worker := None\<rparr>"

definition MarkDone :: "ident \<Rightarrow> ident \<Rightarrow> ident \<Rightarrow> string \<Rightarrow> Task list op" where
  "MarkDone planID taskID sessionID evidenceJSON =
    op_bind (in_tx (guarded_report (owned_running planID taskID sessionID) (unclaimed TaskStatusDone)
                      planID taskID ''worker.completed'' ''worker'' sessionID
                      (jsonOrEmptyObject evidenceJSON)))
            (\<lambda>_ s. (Inr (Ready planID s), s))"

definition MarkFailedWithPayload :: "ident \<Rightarrow> ident \<Rightarrow> ident \<Rightarrow> EventPayload \<Rightarrow> int \<Rightarrow> bool op" where
  "MarkFailedWithPayload planID taskID sessionID payload maxRetries = in_tx (\<lambda>s.
    case select_row (owned_running planID taskID sessionID) (tasks s) of
      None \<Rightarrow> (Inl ErrTaskNotOwnedRunning, s)
    | Some r \<Rightarrow>
        if t_retry r + 1 \<le> maxRetries
        then op_bind (guarded_report (owned_running planID taskID sessionID)
                        (\<lambda>t. (unclaimed TaskStatusPending t)\<lparr>t_retry := t_retry t + 1, t_failure := None\<rparr>)
                        planID taskID ''task.failed'' ''worker'' sessionID (payloadJSON payload))
                     (\<lambda>_. op_return True) s
        else op_bind (guarded_report (owned_running planID taskID sessionID)
                        (\<lambda>t. (unclaimed TaskStatusFailed t)\<lparr>t_failure := nullIfEmpty (FailureCategory payload)\<rparr>)
                        planID taskID ''task.failed_terminal'' ''worker'' sessionID (payloadJSON payload))
                     (\<lambda>_. op_return False) s)"

definition MarkFailed :: "ident \<Rightarrow> ident \<Rightarrow> ident \<Rightarrow> string \<Rightarrow> int \<Rightarrow> bool op" where
  "MarkFailed planID taskID sessionID reason maxRetries =
    MarkFailedWithPayload planID taskID sessionID (emptyPayload\<lparr>Reason := reason\<rparr>) maxRetries"

text \<open>\<open>ReleaseClaim\<close> issues its two statements without a transaction.\<close>

definition ReleaseClaim :: "ident \<Rightarrow> ident \<Rightarrow> ident \<Rightarrow> string \<Rightarrow> unit op" where
  "ReleaseClaim planID taskID sessionID reason =
    guarded_report (owned_running planID taskID sessionID) (unclaimed TaskStatusPending)
      planID taskID ''task.released'' ''orch'' sessionID (payloadJSON (emptyPayload\<lparr>Reason := reason\<rparr>))"

definition MarkBlocked :: "ident \<Rightarrow> ident \<Rightarrow> ident \<Rightarrow> EventPayload \<Rightarrow> unit op" where
  "MarkBlocked planID taskID sessionID payload = in_tx (
    guarded_report (owned_running planID taskID sessionID) (unclaimed TaskStatusBlocked)
      planID taskID (if length (NeedsContext payload) > 0 then ''task.context_requested'' else ''task.blocked'')
      ''worker'' sessionID (payloadJSON payload))"

definition ApproveTask :: "ident \<Rightarrow> ident \<Rightarrow> (bool \<times> bool) op" where
  "ApproveTask planID taskID = in_tx (\<lambda>s.
    case select_row (is_task planID taskID) (tasks s) of
      None \<Rightarrow> (Inr (False, False), s)
    | Some t \<Rightarrow>
        if t_status t \<noteq> TaskStatusReadyPendingApproval then (Inr (True, False), s)
        else let P = (\<lambda>t. is_task planID taskID t \<and> t_status t = TaskStatusReadyPendingApproval) in
             (Inr (True, rows_affected P (tasks s) > 0),
              update_tasks P (\<lambda>t. t\<lparr>t_status := TaskStatusReady\<rparr>) s))"

section \<open>Listings and counts\<close>

definition status_rank :: "TaskStatus \<Rightarrow> nat" where
  "status_rank st = (case st of
     TaskStatusReadyPendingApproval \<Rightarrow> 0 | TaskStatusBlocked \<Rightarrow> 1 | TaskStatusRunning \<Rightarrow> 2
   | TaskStatusPending \<Rightarrow> 3 | TaskStatusDone \<Rightarrow> 4 | TaskStatusFailed \<Rightarrow> 5 | _ \<Rightarrow> 6)"

definition ListTasks :: "ident \<Rightarrow> TaskStatus list \<Rightarrow> store \<Rightarrow> Task list" where
  "ListTasks planID statuses s = scanTasks (order_by (\<lambda>t. (status_rank (t_status t), t_created t, t_id t))
     (filter (\<lambda>t. t_plan t = planID \<and> (statuses = [] \<or> t_status t \<in> set statuses)) (tasks s)))"

record StatusCounts =
  sc_ActivePlans :: nat
  sc_Ready :: nat
  sc_Running :: nat
  sc_Approval :: nat
  sc_Blocked :: nat
  sc_Failed :: nat

text \<open>\<open>SELECT status, COUNT(*) FROM tasks GROUP BY status\<close>, folded over its rows.\<close>

definition status_groups :: "store \<Rightarrow> (TaskStatus \<times> nat) list" where
  "status_groups s = map (\<lambda>st. (st, length (filter (\<lambda>t. t_status t = st) (tasks s))))
     (remdups (map t_status (tasks s)))"

definition count_group :: "TaskStatus \<times> nat \<Rightarrow> StatusCounts \<Rightarrow> StatusCounts" where
  "count_group g c = (case fst g of
     TaskStatusReady \<Rightarrow> c\<lparr>sc_Ready := snd g\<rparr>
   | TaskStatusRunning \<Rightarrow> c\<lparr>sc_Running := snd g\<rparr>
   | TaskStatusReadyPendingApproval \<Rightarrow> c\<lparr>sc_Approval := snd g\<rparr>
   | TaskStatusBlocked \<Rightarrow> c\<lparr>sc_Blocked := sc_Blocked c + snd g\<rparr>
   | TaskStatusBlockedCapability \<Rightarrow> c\<lparr>sc_Blocked := sc_Blocked c + snd g\<rparr>
   | TaskStatusBlockedInput \<Rightarrow> c\<lparr>sc_Blocked := sc_Blocked c + snd g\<rparr>
   | TaskStatusFailed \<Rightarrow> c\<lparr>sc_Failed := snd g\<rparr>
   | _ \<Rightarrow> c)"

definition StatusCounts_of :: "store \<Rightarrow> StatusCounts" where
  "StatusCounts_of s = fold count_group (status_groups s)
     \<lparr>sc_ActivePlans = length (filter (\<lambda>p. p_status p = PlanStatusActive) (plans s)),
      sc_Ready = 0, sc_Running = 0, sc_Approval = 0, sc_Blocked = 0, sc_Failed = 0\<rparr>"

end
