(* ===== verification/Store_Metadata.thy ===== *)
theory Store_Metadata
  imports Store_Tasks
begin

text \<open>
  Scheduling and provenance metadata of \<open>internal/store/task_metadata.go\<close>: the immutable half
  written at import, the calibration bound once per task, the execution tuple bound to an attempt,
  the provider session, the fail-closed pre-dispatch blocks and their release, and the roll-up by
  team.
\<close>

abbreviation is_metadata :: "ident \<Rightarrow> ident \<Rightarrow> metadata_row \<Rightarrow> bool" where
  "is_metadata planID taskID m \<equiv> md_plan m = planID \<and> md_task m = taskID"

definition update_metadata :: "(metadata_row \<Rightarrow> bool) \<Rightarrow> (metadata_row \<Rightarrow> metadata_row) \<Rightarrow> store \<Rightarrow> store" where
  "update_metadata P f s = s\<lparr>metadata := upd_where P f (metadata s)\<rparr>"

record TaskExecutionMetadata =
  tm_GroupPath :: string
  tm_TeamPath :: string
  tm_MetadataJSON :: string
  tm_AssignedAlias :: string
  tm_AssignedProvider :: string
  tm_AssignedModel :: string
  tm_AssignedEffort :: string
  tm_AssignedIndependenceDomain :: string
  tm_AssignedSessionID :: string
  tm_ProviderSessionID :: string
  tm_CalibrationID :: string
  tm_CapabilitySetJSON :: string
  tm_CompletionEvidenceJSON :: string
  tm_BlockedReason :: string

definition scanMetadata :: "metadata_row \<Rightarrow> TaskExecutionMetadata" where
  "scanMetadata m = \<lparr>tm_GroupPath = md_group_path m, tm_TeamPath = md_team_path m,
     tm_MetadataJSON = md_json m, tm_AssignedAlias = coalesce (md_alias m),
     tm_AssignedProvider = coalesce (md_provider m), tm_AssignedModel = coalesce (md_model m),
     tm_AssignedEffort = coalesce (md_effort m), tm_AssignedIndependenceDomain = coalesce (md_domain m),
     tm_AssignedSessionID = coalesce (md_session m),
     tm_ProviderSessionID = coalesce (md_provider_session m),
     tm_CalibrationID = coalesce (md_calibration m), tm_CapabilitySetJSON = coalesce (md_capabilities m),
     tm_CompletionEvidenceJSON = coalesce (md_evidence m), tm_BlockedReason = coalesce (md_blocked_reason m)\<rparr>"

definition GetTaskExecutionMetadata :: "ident \<Rightarrow> ident \<Rightarrow> TaskExecutionMetadata op" where
  "GetTaskExecutionMetadata planID taskID s =
    (case select_row (is_metadata planID taskID) (metadata s) of
       None \<Rightarrow> (Inl ErrTaskMetadataMissing, s)
     | Some m \<Rightarrow> (Inr (scanMetadata m), s))"

definition putTaskMetadataOn :: "ident \<Rightarrow> ident \<Rightarrow> string \<Rightarrow> string \<Rightarrow> string \<Rightarrow> unit op" where
  "putTaskMetadataOn planID taskID groupPath teamPath metadataJSON s =
    (if groupPath = [] then (Inl (ErrRequired ''group path''), s)
     else if list_ex (is_metadata planID taskID) (metadata s) then (Inl ErrDuplicateTaskMetadata, s)
     else if \<not> task_exists planID taskID s then (Inl (ErrConstraint ForeignKeyC), s)
     else (Inr (), s\<lparr>metadata := metadata s @
       [\<lparr>md_plan = planID, md_task = taskID, md_group_path = groupPath, md_team_path = teamPath,
         md_json = metadataJSON, md_alias = None, md_provider = None, md_model = None,
         md_effort = None, md_domain = None, md_session = None, md_provider_session = None,
         md_calibration = None, md_capabilities = None, md_evidence = None,
         md_blocked_reason = None\<rparr>]\<rparr>))"

definition PutTaskMetadata :: "ident \<Rightarrow> ident \<Rightarrow> string \<Rightarrow> string \<Rightarrow> string \<Rightarrow> unit op" where
  "PutTaskMetadata planID taskID groupPath teamPath metadataJSON =
    putTaskMetadataOn planID taskID groupPath teamPath metadataJSON"

text \<open>The Go map is filled row by row; a later row of the same task would win.\<close>

definition ListTaskGroupPaths :: "ident \<Rightarrow> store \<Rightarrow> (ident \<rightharpoonup> string)" where
  "ListTaskGroupPaths planID s =
    fold (\<lambda>m out. out(md_task m \<mapsto> md_group_path m)) (filter (\<lambda>m. md_plan m = planID) (metadata s)) Map.empty"

section \<open>Calibration binding\<close>

definition calibration_exists :: "ident \<Rightarrow> store \<Rightarrow> bool" where
  "calibration_exists cid s = list_ex (\<lambda>c. c_id c = cid) (calibrations s)"

definition BindTaskCalibration :: "ident \<Rightarrow> ident \<Rightarrow> ident \<Rightarrow> string \<Rightarrow> unit op" where
  "BindTaskCalibration planID taskID calibrationID capabilitySetJSON s =
    (if calibrationID = [] \<or> capabilitySetJSON = []
     then (Inl (ErrRequired ''calibration id and capability set''), s)
     else let P = (\<lambda>m. is_metadata planID taskID m \<and> coalesce (md_calibration m) = []) in
       if list_ex P (metadata s) \<and> \<not> calibration_exists calibrationID s
       then (Inl (ErrConstraint ForeignKeyC), s)
       else let s1 = update_metadata P (\<lambda>m. m\<lparr>md_calibration := Some calibrationID,
                       md_capabilities := Some capabilitySetJSON\<rparr>) s in
         if rows_affected P (metadata s) = 1 then (Inr (), s1)
         else (case select_row (is_metadata planID taskID) (metadata s1) of
             None \<Rightarrow> (Inl ErrTaskMetadataMissing, s1)
           | Some m \<Rightarrow>
               if coalesce (md_calibration m) = calibrationID \<and> coalesce (md_capabilities m) = capabilitySetJSON
               then (Inr (), s1)
               else (Inl (ErrCalibrationBound (coalesce (md_calibration m)) calibrationID), s1)))"

section \<open>Execution provenance\<close>

definition owns_running :: "ident \<Rightarrow> ident \<Rightarrow> ident \<Rightarrow> store \<Rightarrow> bool" where
  "owns_running planID taskID sessionID s = list_ex (owned_running planID taskID sessionID) (tasks s)"

definition bindable ::
  "ident \<Rightarrow> ident \<Rightarrow> string \<Rightarrow> string \<Rightarrow> string \<Rightarrow> string \<Rightarrow> string \<Rightarrow> ident \<Rightarrow> store \<Rightarrow> metadata_row \<Rightarrow> bool" where
  "bindable planID taskID alias provider model effort domain sessionID s m \<longleftrightarrow>
     is_metadata planID taskID m \<and> owns_running planID taskID sessionID s \<and>
     (coalesce (md_session m) \<noteq> sessionID \<or>
      (coalesce (md_alias m) = alias \<and> coalesce (md_provider m) = provider \<and>
       coalesce (md_model m) = model \<and> coalesce (md_effort m) = effort \<and>
       coalesce (md_domain m) = domain \<and> coalesce (md_session m) = sessionID))"

definition RecordTaskExecution ::
  "ident \<Rightarrow> ident \<Rightarrow> string \<Rightarrow> string \<Rightarrow> string \<Rightarrow> string \<Rightarrow> string \<Rightarrow> ident \<Rightarrow> unit op" where
  "RecordTaskExecution planID taskID alias provider model effort domain sessionID = in_tx (\<lambda>s.
    let P = bindable planID taskID alias provider model effort domain sessionID s;
        s1 = update_metadata P (\<lambda>m. m\<lparr>md_alias := Some alias, md_provider := Some provider,
               md_model := Some model, md_effort := Some effort, md_domain := Some domain,
               md_provider_session := (if md_session m = Some sessionID then md_provider_session m else None),
               md_session := Some sessionID, md_blocked_reason := None\<rparr>) s
    in if rows_affected P (metadata s) = 0
       then (case select_row (\<lambda>t. is_task planID taskID t \<and> t_status t = TaskStatusRunning) (tasks s1) of
               None \<Rightarrow> (Inl ErrTaskNotOwnedRunning, s1)
             | Some t \<Rightarrow>
                 if coalesce (t_session t) \<noteq> sessionID then (Inl ErrTaskNotOwnedRunning, s1)
                 else if \<not> list_ex (is_metadata planID taskID) (metadata s1) then (Inl ErrTaskMetadataMissing, s1)
                 else (Inl ErrTaskExecutionConflict, s1))
       else (Inr (), s1))"

definition session_writable :: "ident \<Rightarrow> ident \<Rightarrow> ident \<Rightarrow> string \<Rightarrow> store \<Rightarrow> metadata_row \<Rightarrow> bool" where
  "session_writable planID taskID claimingSessionID providerSessionID s m \<longleftrightarrow>
     is_metadata planID taskID m \<and> md_session m = Some claimingSessionID \<and>
     (md_provider_session m = None \<or>
      (providerSessionID \<noteq> [] \<and> md_provider_session m = Some providerSessionID)) \<and>
     owns_running planID taskID claimingSessionID s"

definition RecordTaskProviderSession :: "ident \<Rightarrow> ident \<Rightarrow> ident \<Rightarrow> string \<Rightarrow> unit op" where
  "RecordTaskProviderSession planID taskID claimingSessionID providerSessionID s =
    (let P = session_writable planID taskID claimingSessionID providerSessionID s;
         s1 = update_metadata P (\<lambda>m. m\<lparr>md_provider_session := nullIfEmpty providerSessionID\<rparr>) s
     in if rows_affected P (metadata s) = 0
        then (case [(t, m). t \<leftarrow> tasks s1, is_task planID taskID t \<and> t_status t = TaskStatusRunning,
                            m \<leftarrow> metadata s1, is_metadata planID taskID m] of
                [] \<Rightarrow> (Inl ErrTaskNotOwnedRunning, s1)
              | (t, m) # _ \<Rightarrow>
                  if coalesce (t_session t) \<noteq> claimingSessionID \<or> coalesce (md_session m) \<noteq> claimingSessionID
                  then (Inl ErrTaskNotOwnedRunning, s1)
                  else if coalesce (md_provider_session m) \<noteq> providerSessionID
                  then (Inl ErrTaskProviderSessionConflict, s1)
                  else (Inr (), s1))
        else (Inr (), s1))"

section \<open>Pre-dispatch blocks\<close>

definition blockable :: "TaskStatus \<Rightarrow> bool" where
  "blockable st \<longleftrightarrow> st \<in> set [TaskStatusPending, TaskStatusReady, TaskStatusBlockedCapability, TaskStatusBlockedInput]"

definition block_event_kind :: "TaskStatus \<Rightarrow> string" where
  "block_event_kind st =
    (if st = TaskStatusBlockedCapability then ''task.blocked_capability'' else ''task.blocked_input'')"

definition markMetadataBlocked :: "ident \<Rightarrow> ident \<Rightarrow> TaskStatus \<Rightarrow> string \<Rightarrow> bool op" where
  "markMetadataBlocked planID taskID status reason = in_tx (\<lambda>s.
    case select_row (is_task planID taskID) (tasks s) of
      None \<Rightarrow> (Inl ErrTaskNotRunning, s)
    | Some prior \<Rightarrow>
        let transitioned = (t_status prior \<noteq> status);
            P = (\<lambda>t. is_task planID taskID t \<and> blockable (t_status t));
            s1 = update_tasks P (\<lambda>t. t\<lparr>t_status := status\<rparr>) s
        in if rows_affected P (tasks s) = 0 then (Inl ErrTaskNotRunning, s1)
           else let s2 = update_metadata (is_metadata planID taskID) (\<lambda>m. m\<lparr>md_blocked_reason := Some reason\<rparr>) s1
             in if rows_affected (is_metadata planID taskID) (metadata s1) = 0
                then (Inl ErrTaskMetadataMissing, s2)
                else if transitioned
                then op_bind (insert_event None (Some planID) (Some taskID) (block_event_kind status)
                        (Some ''service'') None (Some (payloadJSON (emptyPayload\<lparr>Reason := reason\<rparr>))))
                      (\<lambda>_. op_return True) s2
                else (Inr False, s2))"

definition MarkBlockedCapability :: "ident \<Rightarrow> ident \<Rightarrow> string \<Rightarrow> bool op" where
  "MarkBlockedCapability planID taskID reason =
    markMetadataBlocked planID taskID TaskStatusBlockedCapability reason"

definition MarkBlockedInput :: "ident \<Rightarrow> ident \<Rightarrow> string \<Rightarrow> bool op" where
  "MarkBlockedInput planID taskID reason = markMetadataBlocked planID taskID TaskStatusBlockedInput reason"

definition ClearTaskBlock :: "ident \<Rightarrow> ident \<Rightarrow> TaskStatus \<Rightarrow> bool op" where
  "ClearTaskBlock planID taskID blocked =
    (if blocked \<noteq> TaskStatusBlockedCapability \<and> blocked \<noteq> TaskStatusBlockedInput
     then op_fail (ErrNotClearable blocked)
     else in_tx (\<lambda>s.
       let P = (\<lambda>t. is_task planID taskID t \<and> t_status t = blocked) in
       if rows_affected P (tasks s) = 0 then (Inr False, s)
       else (Inr True, update_metadata (is_metadata planID taskID) (\<lambda>m. m\<lparr>md_blocked_reason := Some []\<rparr>)
              (update_tasks P (\<lambda>t. t\<lparr>t_status := TaskStatusPending\<rparr>) s))))"

section \<open>Team roll-up\<close>

record TeamRollup =
  tr_TeamPath :: string
  tr_Total :: nat
  tr_Pending :: nat
  tr_Ready :: nat
  tr_Running :: nat
  tr_Done :: nat
  tr_Blocked :: nat
  tr_Failed :: nat
  tr_ActiveWorkers :: nat
  tr_Providers :: "(string \<times> nat) list"

text \<open>One row of the joined query: team, status, provider label, claiming worker.\<close>

type_synonym rollup_row = "string \<times> TaskStatus \<times> string \<times> string"

definition rollup_source :: "ident \<Rightarrow> store \<Rightarrow> rollup_row list" where
  "rollup_source projectID s =
    [(md_team_path m, t_status t,
      (if coalesce (md_alias m) \<noteq> [] then coalesce (md_alias m) else coalesce (md_provider m)),
      coalesce (t_worker t)).
       m \<leftarrow> metadata s,
       t \<leftarrow> tasks s, is_task (md_plan m) (md_task m) t,
       p \<leftarrow> plans s, p_id p = md_plan m \<and> (projectID = [] \<or> p_project p = projectID)]"

fun bump :: "string \<Rightarrow> (string \<times> nat) list \<Rightarrow> (string \<times> nat) list" where
  "bump k [] = [(k, 1)]"
| "bump k ((k', n) # rest) = (if k = k' then (k', n + 1) # rest else (k', n) # bump k rest)"

text \<open>The loop body on the roll-up of the row's team; \<open>byPath\<close> is a list of roll-ups with the set of
  workers seen for each.\<close>

definition add_row :: "rollup_row \<Rightarrow> TeamRollup \<times> string list \<Rightarrow> TeamRollup \<times> string list" where
  "add_row row acc = (case row of (team, status, provider, worker) \<Rightarrow>
     let r = (fst acc)\<lparr>tr_Total := tr_Total (fst acc) + 1\<rparr>;
         r = (case status of
             TaskStatusPending \<Rightarrow> r\<lparr>tr_Pending := tr_Pending r + 1\<rparr>
           | TaskStatusReady \<Rightarrow> r\<lparr>tr_Ready := tr_Ready r + 1\<rparr>
           | TaskStatusReadyPendingApproval \<Rightarrow> r\<lparr>tr_Ready := tr_Ready r + 1\<rparr>
           | TaskStatusRunning \<Rightarrow> r\<lparr>tr_Running := tr_Running r + 1\<rparr>
           | TaskStatusDone \<Rightarrow> r\<lparr>tr_Done := tr_Done r + 1\<rparr>
           | TaskStatusBlocked \<Rightarrow> r\<lparr>tr_Blocked := tr_Blocked r + 1\<rparr>
           | TaskStatusBlockedCapability \<Rightarrow> r\<lparr>tr_Blocked := tr_Blocked r + 1\<rparr>
           | TaskStatusBlockedInput \<Rightarrow> r\<lparr>tr_Blocked := tr_Blocked r + 1\<rparr>
           | TaskStatusFailed \<Rightarrow> r\<lparr>tr_Failed := tr_Failed r + 1\<rparr>
           | _ \<Rightarrow> r);
         r = (if provider \<noteq> [] then r\<lparr>tr_Providers := bump provider (tr_Providers r)\<rparr> else r)
     in (r, if status = TaskStatusRunning \<and> worker \<noteq> [] then List.insert worker (snd acc) else snd acc))"

definition empty_rollup :: "string \<Rightarrow> TeamRollup" where
  "empty_rollup team = \<lparr>tr_TeamPath = team, tr_Total = 0, tr_Pending = 0, tr_Ready = 0, tr_Running = 0,
     tr_Done = 0, tr_Blocked = 0, tr_Failed = 0, tr_ActiveWorkers = 0, tr_Providers = []\<rparr>"

fun add_to_team :: "rollup_row \<Rightarrow> (TeamRollup \<times> string list) list \<Rightarrow> (TeamRollup \<times> string list) list" where
  "add_to_team row [] = [add_row row (empty_rollup (fst row), [])]"
| "add_to_team row (acc # rest) =
    (if tr_TeamPath (fst acc) = fst row then add_row row acc # rest else acc # add_to_team row rest)"

definition sortTeamRollups :: "TeamRollup list \<Rightarrow> TeamRollup list" where
  "sortTeamRollups rollups = sort_key tr_TeamPath rollups"

definition TeamRollups :: "ident \<Rightarrow> store \<Rightarrow> TeamRollup list" where
  "TeamRollups projectID s = sortTeamRollups
     (map (\<lambda>acc. (fst acc)\<lparr>tr_ActiveWorkers := length (snd acc)\<rparr>)
       (fold add_to_team (rollup_source projectID s) []))"

end
