(* ===== verification/Store_Workers.thy ===== *)
theory Store_Workers
  imports Store_Tasks
begin

text \<open>
  Sessions, workers and the reaper of \<open>internal/store\<close>: \<open>workers.go\<close> and \<open>reaper.go\<close>.  Deleting a
  worker or a session runs the foreign-key actions of the schema: a session takes its workers and
  hook verifications with it, and a task, spend row or message that named a deleted row keeps
  NULL in its place.
\<close>

section \<open>Deletes with their foreign-key actions\<close>

definition names_one_of :: "ident list \<Rightarrow> ident option \<Rightarrow> bool" where
  "names_one_of gone c = (case c of None \<Rightarrow> False | Some x \<Rightarrow> x \<in> set gone)"

definition delete_workers :: "(worker_row \<Rightarrow> bool) \<Rightarrow> store \<Rightarrow> store" where
  "delete_workers P s =
    (let gone = map w_id (filter P (workers s)) in
     update_tasks (\<lambda>t. names_one_of gone (t_worker t)) (\<lambda>t. t\<lparr>t_worker := None\<rparr>)
       (s\<lparr>workers := filter (\<lambda>w. \<not> P w) (workers s),
          spend := upd_where (\<lambda>r. names_one_of gone (sp_worker r)) (\<lambda>r. r\<lparr>sp_worker := None\<rparr>) (spend s),
          messages := upd_where (\<lambda>r. names_one_of gone (m_worker r)) (\<lambda>r. r\<lparr>m_worker := None\<rparr>) (messages s)\<rparr>))"

definition delete_sessions :: "(session_row \<Rightarrow> bool) \<Rightarrow> store \<Rightarrow> store" where
  "delete_sessions P s =
    (let gone = map s_id (filter P (sessions s));
         s1 = delete_workers (\<lambda>w. w_session w \<in> set gone) s;
         s2 = update_tasks (\<lambda>t. names_one_of gone (t_session t)) (\<lambda>t. t\<lparr>t_session := None\<rparr>) s1
     in s2\<lparr>sessions := filter (\<lambda>r. \<not> P r) (sessions s2),
           hooks := filter (\<lambda>h. h_session h \<notin> set gone) (hooks s2)\<rparr>)"

section \<open>Sessions\<close>

record SessionOpts =
  so_ID :: ident
  so_Role :: string
  so_PID :: int
  so_PIDStartTime :: string
  so_Host :: string

text \<open>\<open>uuid\<close> is the identifier the store's generator returns.\<close>

definition CreateSession :: "ident \<Rightarrow> SessionOpts \<Rightarrow> ident op" where
  "CreateSession uuid opts s =
    (if so_Role opts = [] then (Inl (ErrRequired ''Role''), s)
     else let i = (if so_ID opts = [] then uuid else so_ID opts) in
       if session_exists i s then (Inl (ErrConstraint UniqueC), s)
       else (Inr i, s\<lparr>sessions := sessions s @
         [\<lparr>s_id = i, s_role = so_Role opts, s_pid = (if so_PID opts > 0 then Some (so_PID opts) else None),
           s_pid_start = nullIfEmpty (so_PIDStartTime opts), s_host = nullIfEmpty (so_Host opts),
           s_started = now_of s, s_heartbeat = now_of s\<rparr>]\<rparr>))"

definition HeartbeatSession :: "ident \<Rightarrow> unit op" where
  "HeartbeatSession sessionID s =
    (Inr (), s\<lparr>sessions := upd_where (\<lambda>r. s_id r = sessionID) (\<lambda>r. r\<lparr>s_heartbeat := now_of s\<rparr>) (sessions s)\<rparr>)"

definition CloseSession :: "ident \<Rightarrow> unit op" where
  "CloseSession sessionID s = (Inr (), delete_sessions (\<lambda>r. s_id r = sessionID) s)"

section \<open>Workers\<close>

record WorkerOpts =
  wo_SessionID :: ident
  wo_Provider :: string
  wo_Model :: string
  wo_NativeFanout :: bool
  wo_SubprocessPID :: int
  wo_SubprocessStartTime :: string

definition CreateWorker :: "ident \<Rightarrow> WorkerOpts \<Rightarrow> ident op" where
  "CreateWorker uuid opts s =
    (if wo_SessionID opts = [] \<or> wo_Provider opts = [] \<or> wo_SubprocessPID opts \<le> 0 \<or>
        wo_SubprocessStartTime opts = []
     then (Inl (ErrRequired ''SessionID, Provider, SubprocessPID, SubprocessStartTime''), s)
     else if worker_exists uuid s then (Inl (ErrConstraint UniqueC), s)
     else if \<not> session_exists (wo_SessionID opts) s then (Inl (ErrConstraint ForeignKeyC), s)
     else (Inr uuid, s\<lparr>workers := workers s @
       [\<lparr>w_id = uuid, w_session = wo_SessionID opts, w_provider = wo_Provider opts,
         w_model = nullIfEmpty (wo_Model opts), w_fanout = (if wo_NativeFanout opts then 1 else 0),
         w_pid = wo_SubprocessPID opts, w_pid_start = wo_SubprocessStartTime opts,
         w_plan = None, w_task = None, w_started = now_of s, w_heartbeat = now_of s,
         w_status = ''running''\<rparr>]\<rparr>))"

definition update_workers :: "(worker_row \<Rightarrow> bool) \<Rightarrow> (worker_row \<Rightarrow> worker_row) \<Rightarrow> store \<Rightarrow> store" where
  "update_workers P f s = s\<lparr>workers := upd_where P f (workers s)\<rparr>"

text \<open>The reference to the current task is checked when both columns are set.\<close>

definition SetWorkerTask :: "ident \<Rightarrow> ident \<Rightarrow> ident \<Rightarrow> unit op" where
  "SetWorkerTask workerID planID taskID s =
    (if worker_exists workerID s \<and> planID \<noteq> [] \<and> taskID \<noteq> [] \<and> \<not> task_exists planID taskID s
     then (Inl (ErrConstraint ForeignKeyC), s)
     else (Inr (), update_workers (\<lambda>w. w_id w = workerID)
            (\<lambda>w. w\<lparr>w_plan := nullIfEmpty planID, w_task := nullIfEmpty taskID,
                   w_status := ''running'', w_heartbeat := now_of s\<rparr>) s))"

definition HeartbeatWorker :: "ident \<Rightarrow> unit op" where
  "HeartbeatWorker workerID s =
    (Inr (), update_workers (\<lambda>w. w_id w = workerID) (\<lambda>w. w\<lparr>w_heartbeat := now_of s\<rparr>) s)"

definition HeartbeatWorkerAndSession :: "ident \<Rightarrow> unit op" where
  "HeartbeatWorkerAndSession workerID = in_tx (\<lambda>s.
    let s1 = update_workers (\<lambda>w. w_id w = workerID) (\<lambda>w. w\<lparr>w_heartbeat := now_of s\<rparr>) s in
    (Inr (), (case select_row (\<lambda>w. w_id w = workerID) (workers s1) of
       None \<Rightarrow> s1
     | Some w \<Rightarrow> s1\<lparr>sessions := upd_where (\<lambda>r. s_id r = w_session w)
                      (\<lambda>r. r\<lparr>s_heartbeat := now_of s\<rparr>) (sessions s1)\<rparr>)))"

definition CountRunningWorkers :: "store \<Rightarrow> nat" where
  "CountRunningWorkers s = length (filter (\<lambda>w. w_status w = ''running'') (workers s))"

record RunningWorker =
  rw_ID :: ident
  rw_Provider :: string
  rw_PlanID :: ident
  rw_TaskID :: ident

definition ListRunningWorkers :: "store \<Rightarrow> RunningWorker list" where
  "ListRunningWorkers s = map (\<lambda>w. \<lparr>rw_ID = w_id w, rw_Provider = w_provider w,
       rw_PlanID = coalesce (w_plan w), rw_TaskID = coalesce (w_task w)\<rparr>)
     (order_by w_started (filter (\<lambda>w. w_status w = ''running'') (workers s)))"

definition ClearWorkerTask :: "ident \<Rightarrow> string \<Rightarrow> unit op" where
  "ClearWorkerTask workerID status s =
    (Inr (), update_workers (\<lambda>w. w_id w = workerID)
       (\<lambda>w. w\<lparr>w_plan := None, w_task := None,
              w_status := (if status = [] then ''idle'' else status), w_heartbeat := now_of s\<rparr>) s)"

definition ReclaimWorker :: "ident \<Rightarrow> bool op" where
  "ReclaimWorker workerID = in_tx (\<lambda>s.
    if \<not> worker_exists workerID s then (Inr False, s)
    else (Inr True,
      update_workers (\<lambda>w. w_id w = workerID)
        (\<lambda>w. w\<lparr>w_plan := None, w_task := None, w_status := ''terminated'', w_heartbeat := now_of s\<rparr>)
        (update_tasks (\<lambda>t. t_worker t = Some workerID \<and> t_status t = TaskStatusRunning)
           (unclaimed TaskStatusPending) s)))"

section \<open>The reaper\<close>

definition staleSessionMultiplier :: int where
  "staleSessionMultiplier = 3"

definition stale_workers :: "seconds \<Rightarrow> store \<Rightarrow> ident list" where
  "stale_workers cutoff s = map w_id (filter (\<lambda>w. w_heartbeat w < cutoff) (workers s))"

definition reclaimable :: "seconds \<Rightarrow> store \<Rightarrow> task_row \<Rightarrow> bool" where
  "reclaimable cutoff s t \<longleftrightarrow> t_status t = TaskStatusRunning \<and>
     (case t_worker t of None \<Rightarrow> True | Some w \<Rightarrow> w \<in> set (stale_workers cutoff s))"

text \<open>The map \<open>reasons\<close>, filled before the UPDATE clears the worker column.\<close>

definition reclaim_reasons :: "seconds \<Rightarrow> store \<Rightarrow> (ident \<times> ident \<times> string) list" where
  "reclaim_reasons cutoff s =
    map (\<lambda>t. (t_plan t, t_id t, if t_worker t = None then ''orphaned_claim'' else ''stale_heartbeat''))
      (filter (reclaimable cutoff s) (tasks s))"

definition reclaim_reason :: "(ident \<times> ident \<times> string) list \<Rightarrow> ident \<Rightarrow> ident \<Rightarrow> string" where
  "reclaim_reason reasons planID taskID =
    (case select_row (\<lambda>r. fst r = planID \<and> fst (snd r) = taskID) (rev reasons) of
       None \<Rightarrow> ''unclassified'' | Some r \<Rightarrow> snd (snd r))"

text \<open>The UPDATE with its RETURNING rows, and one event for each of them.\<close>

definition requeue :: "task_row \<Rightarrow> task_row" where
  "requeue t = (unclaimed TaskStatusPending t)\<lparr>t_reclaim := t_reclaim t + 1\<rparr>"

definition log_reclaims :: "(ident \<times> ident \<times> string) list \<Rightarrow> int \<Rightarrow> (ident \<times> ident \<times> int) list \<Rightarrow> unit op" where
  "log_reclaims reasons concurrentClaims touched =
    op_each (\<lambda>rt. insert_event None (Some (fst rt)) (Some (fst (snd rt))) ''task.reclaimed''
      (Some ''service'') None
      (Some (PReclaimed (reclaim_reason reasons (fst rt) (fst (snd rt))) (snd (snd rt)) concurrentClaims)))
      touched"

definition reclaim_step1 :: "seconds \<Rightarrow> nat op" where
  "reclaim_step1 cutoff s =
    (let reasons = reclaim_reasons cutoff s;
         concurrentClaims = int (length (filter (\<lambda>t. t_status t = TaskStatusRunning) (tasks s)));
         touched = map (\<lambda>t. (t_plan t, t_id t, t_reclaim t + 1)) (filter (reclaimable cutoff s) (tasks s))
     in op_bind (log_reclaims reasons concurrentClaims touched) (\<lambda>_. op_return (length touched))
          (update_tasks (reclaimable cutoff s) requeue s))"

definition reclaim_step2 :: "seconds \<Rightarrow> seconds \<Rightarrow> store \<Rightarrow> store" where
  "reclaim_step2 staleCutoff deleteCutoff s =
    (let s1 = delete_workers (\<lambda>w. w_heartbeat w < deleteCutoff) s;
         live = map w_session (filter (\<lambda>w. w_heartbeat w \<ge> staleCutoff) (workers s1))
     in delete_sessions (\<lambda>r. s_heartbeat r < deleteCutoff \<and> s_id r \<notin> set live) s1)"

definition ReclaimStale :: "nanos \<Rightarrow> nat op" where
  "ReclaimStale staleAfter = in_tx (\<lambda>s.
    let staleCutoff = rfc3339 (clock s - staleAfter);
        deleteCutoff = rfc3339 (clock s - staleAfter * staleSessionMultiplier)
    in op_bind (reclaim_step1 staleCutoff)
         (\<lambda>reclaimed s1. (Inr reclaimed, reclaim_step2 staleCutoff deleteCutoff s1)) s)"

end
