(* ===== verification/Store_Plans.thy ===== *)
theory Store_Plans
  imports Store_Metadata Store_Workers
begin

text \<open>
  Plans and plan graphs of \<open>internal/store\<close>: \<open>plans.go\<close>, \<open>plan_graph.go\<close> and \<open>plan_delete.go\<close>.  A plan
  graph is written in one transaction: every node with its metadata and reservations, then every
  edge.  Deleting a plan removes its events and, through the cascades of the schema, its tasks and
  everything that hangs off them.
\<close>

section \<open>Plans\<close>

record Plan =
  Plan_ID :: ident
  Plan_ProjectID :: ident
  Plan_Slug :: string
  Plan_Title :: string
  Plan_Status :: PlanStatus
  Plan_SourceMarkdown :: string
  Plan_CreatedAt :: seconds
  Plan_UpdatedAt :: seconds
  Plan_LastSessionAt :: "seconds option"
  Plan_TagsJSON :: string

definition scanPlan :: "plan_row \<Rightarrow> Plan" where
  "scanPlan p = \<lparr>Plan_ID = p_id p, Plan_ProjectID = p_project p, Plan_Slug = p_slug p,
     Plan_Title = p_title p, Plan_Status = p_status p, Plan_SourceMarkdown = coalesce (p_source p),
     Plan_CreatedAt = p_created p, Plan_UpdatedAt = p_updated p,
     Plan_LastSessionAt = p_last_session p, Plan_TagsJSON = coalesce (p_tags p)\<rparr>"

record CreatePlanOpts =
  cp_ProjectID :: ident
  cp_Slug :: string
  cp_Title :: string
  cp_SourceMarkdown :: string
  cp_TagsJSON :: string

text \<open>A clash on the generated id and a clash on (project, slug) are both unique violations.\<close>

definition createPlanOn :: "ident \<Rightarrow> CreatePlanOpts \<Rightarrow> ident op" where
  "createPlanOn uuid opts s =
    (if cp_ProjectID opts = [] \<or> cp_Slug opts = [] \<or> cp_Title opts = []
     then (Inl (ErrRequired ''ProjectID, Slug, and Title''), s)
     else if plan_exists uuid s \<or>
             list_ex (\<lambda>p. p_project p = cp_ProjectID opts \<and> p_slug p = cp_Slug opts) (plans s)
     then (Inl ErrDuplicateSlug, s)
     else if \<not> project_exists (cp_ProjectID opts) s then (Inl (ErrConstraint ForeignKeyC), s)
     else (Inr uuid, s\<lparr>plans := plans s @
       [\<lparr>p_id = uuid, p_project = cp_ProjectID opts, p_slug = cp_Slug opts, p_title = cp_Title opts,
         p_status = PlanStatusDraft, p_source = nullIfEmpty (cp_SourceMarkdown opts),
         p_created = now_of s, p_updated = now_of s, p_last_session = None,
         p_tags = nullIfEmpty (cp_TagsJSON opts)\<rparr>]\<rparr>))"

definition CreatePlan :: "ident \<Rightarrow> CreatePlanOpts \<Rightarrow> ident op" where
  "CreatePlan uuid opts = createPlanOn uuid opts"

definition GetPlan :: "ident \<Rightarrow> Plan op" where
  "GetPlan planID s =
    (case select_row (\<lambda>p. p_id p = planID) (plans s) of
       None \<Rightarrow> (Inl ErrPlanNotFound, s) | Some p \<Rightarrow> (Inr (scanPlan p), s))"

text \<open>The \<open>plans_updated_at\<close> trigger stamps the row.\<close>

definition setPlanStatusOn :: "ident \<Rightarrow> PlanStatus \<Rightarrow> unit op" where
  "setPlanStatusOn planID status s =
    (if rows_affected (\<lambda>p. p_id p = planID) (plans s) = 0 then (Inl ErrPlanNotFound, s)
     else (Inr (), s\<lparr>plans := upd_where (\<lambda>p. p_id p = planID)
             (\<lambda>p. p\<lparr>p_status := status, p_updated := now_of s\<rparr>) (plans s)\<rparr>))"

definition SetPlanStatus :: "ident \<Rightarrow> PlanStatus \<Rightarrow> unit op" where
  "SetPlanStatus planID status = setPlanStatusOn planID status"

definition ListPlans :: "ident \<Rightarrow> PlanStatus list \<Rightarrow> store \<Rightarrow> Plan list" where
  "ListPlans projectID statuses0 s =
    (let statuses = (if statuses0 = [] then [PlanStatusActive, PlanStatusPaused] else statuses0) in
     map scanPlan (order_by (\<lambda>p. - p_updated p)
       (filter (\<lambda>p. p_status p \<in> set statuses \<and> (projectID = [] \<or> p_project p = projectID)) (plans s))))"

section \<open>Plan graphs\<close>

record TaskInputSpec =
  in_Path :: string
  in_SHA256 :: string

record TaskOutputSpec =
  out_Path :: string
  out_Mode :: string

record GraphTaskSpec =
  gt_Task :: CreateTaskOpts
  gt_DependsOn :: "ident list"
  gt_GroupPath :: string
  gt_TeamPath :: string
  gt_MetadataJSON :: string
  gt_Inputs :: "TaskInputSpec list"
  gt_Outputs :: "TaskOutputSpec list"

record CreatePlanGraphOpts =
  cg_Plan :: CreatePlanOpts
  cg_Tasks :: "GraphTaskSpec list"
  cg_Activate :: bool

definition node_metadata :: "ident \<Rightarrow> GraphTaskSpec \<Rightarrow> unit op" where
  "node_metadata planID task =
    (if gt_GroupPath task \<noteq> []
     then putTaskMetadataOn planID (ct_ID (gt_Task task)) (gt_GroupPath task) (gt_TeamPath task)
            (if gt_MetadataJSON task = [] then ''{}'' else gt_MetadataJSON task)
     else op_return ())"

definition write_node :: "ident \<Rightarrow> GraphTaskSpec \<Rightarrow> unit op" where
  "write_node planID task =
    op_bind (createTaskOn ((gt_Task task)\<lparr>ct_PlanID := planID\<rparr>)) (\<lambda>_.
    op_bind (node_metadata planID task) (\<lambda>_.
    op_bind (op_each (\<lambda>i. reserveTaskInputOn planID (ct_ID (gt_Task task)) (in_Path i) (in_SHA256 i)) (gt_Inputs task)) (\<lambda>_.
    op_each (\<lambda>r. reserveTaskOutputOn planID (ct_ID (gt_Task task)) (out_Path r) (out_Mode r)) (gt_Outputs task))))"

definition write_edges :: "ident \<Rightarrow> GraphTaskSpec \<Rightarrow> unit op" where
  "write_edges planID task =
    op_each (\<lambda>dep. addDepOn planID (ct_ID (gt_Task task)) dep) (gt_DependsOn task)"

definition writeGraphTasksOn :: "ident \<Rightarrow> GraphTaskSpec list \<Rightarrow> unit op" where
  "writeGraphTasksOn planID specs =
    op_bind (op_each (write_node planID) specs) (\<lambda>_. op_each (write_edges planID) specs)"

definition CreatePlanGraph :: "ident \<Rightarrow> CreatePlanGraphOpts \<Rightarrow> ident op" where
  "CreatePlanGraph uuid opts = in_tx (
    op_bind (createPlanOn uuid (cg_Plan opts)) (\<lambda>planID.
    op_bind (writeGraphTasksOn planID (cg_Tasks opts)) (\<lambda>_.
    op_bind (if cg_Activate opts then setPlanStatusOn planID PlanStatusActive else op_return ()) (\<lambda>_.
    op_return planID))))"

definition MaterializePlanGraph :: "ident \<Rightarrow> GraphTaskSpec list \<Rightarrow> unit op" where
  "MaterializePlanGraph planID specs = in_tx (writeGraphTasksOn planID specs)"

section \<open>Deleting a plan\<close>

text \<open>The cascades from \<open>plans\<close> to \<open>tasks\<close> and from there to dependencies, metadata, reservations,
  attempts, messages and hook verifications; a worker's current-task reference becomes NULL.\<close>

definition cascade_plan :: "ident \<Rightarrow> store \<Rightarrow> store" where
  "cascade_plan planID s = s\<lparr>
     plans := filter (\<lambda>p. p_id p \<noteq> planID) (plans s),
     tasks := filter (\<lambda>t. t_plan t \<noteq> planID) (tasks s),
     deps := filter (\<lambda>d. d_plan d \<noteq> planID) (deps s),
     metadata := filter (\<lambda>m. md_plan m \<noteq> planID) (metadata s),
     attempts := filter (\<lambda>a. a_plan a \<noteq> planID) (attempts s),
     inputs := filter (\<lambda>r. i_plan r \<noteq> planID) (inputs s),
     outputs := filter (\<lambda>r. o_plan r \<noteq> planID) (outputs s),
     messages := filter (\<lambda>m. m_plan m \<noteq> planID) (messages s),
     hooks := filter (\<lambda>h. h_plan h \<noteq> planID) (hooks s),
     workers := upd_where (\<lambda>w. w_plan w = Some planID \<and> w_task w \<noteq> None)
       (\<lambda>w. w\<lparr>w_plan := None, w_task := None\<rparr>) (workers s)\<rparr>"

text \<open>\<open>FOREIGN KEY (plan_id, parent_task_id) REFERENCES tasks(plan_id, id) ON DELETE SET NULL\<close> nulls
  both columns of a child whose parent goes, and \<open>plan_id\<close> is NOT NULL.  Rows are deleted in insertion
  order and a parent is inserted before its children, so the cascade fails as soon as the plan
  has a task with another task as parent.\<close>

definition has_subtask :: "ident \<Rightarrow> store \<Rightarrow> bool" where
  "has_subtask planID s = list_ex (\<lambda>t. t_plan t = planID \<and>
     (case t_parent t of None \<Rightarrow> False | Some q \<Rightarrow> q \<noteq> t_id t \<and> task_exists planID q s)) (tasks s)"

definition DeletePlan :: "ident \<Rightarrow> unit op" where
  "DeletePlan planID = in_tx (\<lambda>s.
    let s1 = s\<lparr>events := filter (\<lambda>e. e_plan e \<noteq> Some planID) (events s)\<rparr>
    in if rows_affected (\<lambda>p. p_id p = planID) (plans s1) = 0 then (Inl ErrPlanNotFound, s1)
       else if has_subtask planID s1 then (Inl (ErrConstraint NotNullC), s1)
       else (Inr (), cascade_plan planID s1))"

end
