(* ===== verification/Store_Events.thy ===== *)
theory Store_Events
  imports Store_Plans
begin

text \<open>
  The event log of \<open>internal/store\<close>: \<open>events.go\<close> and \<open>ListTaskEvents\<close> of \<open>tasks.go\<close>.  Appending events,
  the newest-first listings, and the tail query with its cursor and its project scope.
\<close>

record Event =
  Event_ID :: int
  Event_ProjectID :: ident
  Event_PlanID :: ident
  Event_TaskID :: ident
  Event_Kind :: string
  Event_Stream :: string
  Event_Actor :: string
  Event_Payload :: "payload_json option"
  Event_OccurredAt :: seconds

definition scanEvent :: "event_row \<Rightarrow> Event" where
  "scanEvent e = \<lparr>Event_ID = e_id e, Event_ProjectID = coalesce (e_project e),
     Event_PlanID = coalesce (e_plan e), Event_TaskID = coalesce (e_task e), Event_Kind = e_kind e,
     Event_Stream = coalesce (e_stream e), Event_Actor = coalesce (e_actor e),
     Event_Payload = e_payload e, Event_OccurredAt = e_at e\<rparr>"

record EmitOpts =
  em_ProjectID :: ident
  em_PlanID :: ident
  em_TaskID :: ident
  em_Kind :: string
  em_Stream :: string
  em_Actor :: string
  em_PayloadJSON :: string

definition Emit :: "EmitOpts \<Rightarrow> unit op" where
  "Emit o' s =
    (if em_Kind o' = [] then (Inl (ErrRequired ''Kind''), s)
     else insert_event (nullIfEmpty (em_ProjectID o')) (nullIfEmpty (em_PlanID o'))
            (nullIfEmpty (em_TaskID o')) (em_Kind o') (nullIfEmpty (em_Stream o'))
            (nullIfEmpty (em_Actor o')) (Some (jsonOrEmptyObject (em_PayloadJSON o'))) s)"

text \<open>\<open>ORDER BY occurred_at DESC, id DESC LIMIT n\<close>.\<close>

definition newest_first :: "int \<Rightarrow> event_row list \<Rightarrow> event_row list" where
  "newest_first limit rows = take (nat (if limit \<le> 0 then 20 else limit))
     (order_by (\<lambda>e. (- e_at e, - e_id e)) rows)"

definition ListTaskEvents :: "ident \<Rightarrow> ident \<Rightarrow> int \<Rightarrow> store \<Rightarrow> Event list" where
  "ListTaskEvents planID taskID limit s = map scanEvent
     (newest_first limit (filter (\<lambda>e. e_plan e = Some planID \<and> e_task e = Some taskID) (events s)))"

text \<open>An explicit project wins; the plan decides only when the event names no project.\<close>

definition plan_in_project :: "ident \<Rightarrow> store \<Rightarrow> ident \<Rightarrow> bool" where
  "plan_in_project projectID s planID = list_ex (\<lambda>p. p_id p = planID \<and> p_project p = projectID) (plans s)"

definition eventProjectScope :: "ident \<Rightarrow> store \<Rightarrow> event_row \<Rightarrow> bool" where
  "eventProjectScope projectID s e = (case e_project e of
     Some p \<Rightarrow> p = projectID
   | None \<Rightarrow> (case e_plan e of None \<Rightarrow> False | Some pl \<Rightarrow> plan_in_project projectID s pl))"

definition ListProjectEvents :: "ident \<Rightarrow> int \<Rightarrow> store \<Rightarrow> Event list" where
  "ListProjectEvents projectID limit s = map scanEvent
     (newest_first limit (filter (eventProjectScope projectID s) (events s)))"

text \<open>The LEFT JOIN of \<open>EventsAfter\<close>: plan and task identifiers are blanked when the plan is not one
  of the project's.\<close>

definition blank_foreign :: "ident \<Rightarrow> store \<Rightarrow> event_row \<Rightarrow> Event" where
  "blank_foreign projectID s e =
    (case e_plan e of
       Some pl \<Rightarrow> if plan_in_project projectID s pl then scanEvent e
                  else (scanEvent e)\<lparr>Event_PlanID := [], Event_TaskID := []\<rparr>
     | None \<Rightarrow> (scanEvent e)\<lparr>Event_PlanID := [], Event_TaskID := []\<rparr>)"

definition scoped_after :: "ident \<Rightarrow> int \<Rightarrow> store \<Rightarrow> event_row list" where
  "scoped_after projectID afterID s =
    order_by e_id (filter (\<lambda>e. e_id e > afterID \<and> eventProjectScope projectID s e) (events s))"

definition EventsAfter :: "ident \<Rightarrow> int \<Rightarrow> int \<Rightarrow> store \<Rightarrow> Event list" where
  "EventsAfter projectID afterID limit s =
    map (blank_foreign projectID s)
      (take (nat (if limit \<le> 0 then 256 else limit)) (scoped_after projectID afterID s))"

definition MaxEventID :: "ident \<Rightarrow> store \<Rightarrow> int" where
  "MaxEventID projectID s =
    (case map e_id (filter (eventProjectScope projectID s) (events s)) of
       [] \<Rightarrow> 0 | i # is \<Rightarrow> fold max is i)"

end
