(* ===== verification/Store_Lifecycle.thy ===== *)
theory Store_Lifecycle
  imports Store_Events
begin

text \<open>
  What the operations do to task rows.  \<open>lifecycle\<close> is the graph of status changes; a step
  \<^emph>\<open>evolves\<close> the task table when every row keeps its identity and moves along that graph, it is
  \<^emph>\<open>calm\<close> when in addition no row becomes running and the graph, the reservations and the plans
  stay as they are, and \<^emph>\<open>quiet\<close> when it also leaves the approval gate alone.  The locale \<open>calm_op\<close>
  is the contract of a calm operation and \<open>quiet_op\<close> that of a quiet one; every operation of the
  store that is not a claim or an insertion of a node, edge, reservation or plan meets the second,
  except \<open>ApproveTask\<close>, which meets the first.
\<close>

section \<open>Status changes\<close>

definition lifecycle :: "TaskStatus \<Rightarrow> TaskStatus \<Rightarrow> bool" where
  "lifecycle a b \<longleftrightarrow> a = b \<or> (case a of
     TaskStatusPending \<Rightarrow> b \<in> {TaskStatusRunning, TaskStatusBlockedCapability, TaskStatusBlockedInput}
   | TaskStatusReady \<Rightarrow> b \<in> {TaskStatusRunning, TaskStatusBlockedCapability, TaskStatusBlockedInput}
   | TaskStatusReadyPendingApproval \<Rightarrow> b = TaskStatusReady
   | TaskStatusRunning \<Rightarrow> b \<in> {TaskStatusDone, TaskStatusFailed, TaskStatusPending, TaskStatusBlocked}
   | TaskStatusBlockedCapability \<Rightarrow> b \<in> {TaskStatusPending, TaskStatusBlockedInput}
   | TaskStatusBlockedInput \<Rightarrow> b \<in> {TaskStatusPending, TaskStatusBlockedCapability}
   | _ \<Rightarrow> False)"

definition unclaimed_ok :: "task_row \<Rightarrow> bool" where
  "unclaimed_ok t \<longleftrightarrow> t_status t \<noteq> TaskStatusRunning \<longrightarrow> t_session t = None \<and> t_worker t = None"

definition same_task :: "task_row \<Rightarrow> task_row \<Rightarrow> bool" where
  "same_task t t' \<longleftrightarrow> t_id t' = t_id t \<and> t_plan t' = t_plan t \<and> t_desc t' = t_desc t \<and>
     t_group t' = t_group t \<and> t_ordinal t' = t_ordinal t \<and> t_acceptance t' = t_acceptance t \<and>
     t_parent t' = t_parent t \<and> t_created t' = t_created t"

definition task_evolves :: "task_row \<Rightarrow> task_row \<Rightarrow> bool" where
  "task_evolves t t' \<longleftrightarrow> same_task t t' \<and> lifecycle (t_status t) (t_status t') \<and>
     (unclaimed_ok t \<longrightarrow> unclaimed_ok t')"

text \<open>A row that does not start running, and whose claim, if any, is one it had.\<close>

definition calm_evolves :: "task_row \<Rightarrow> task_row \<Rightarrow> bool" where
  "calm_evolves t t' \<longleftrightarrow> task_evolves t t' \<and>
     (t_status t' = TaskStatusRunning \<longrightarrow> t_status t = TaskStatusRunning) \<and>
     t_session t' \<in> {None, t_session t} \<and> t_worker t' \<in> {None, t_worker t}"

text \<open>A gated row stays gated.\<close>

definition quiet_evolves :: "task_row \<Rightarrow> task_row \<Rightarrow> bool" where
  "quiet_evolves t t' \<longleftrightarrow> calm_evolves t t' \<and>
     (t_status t = TaskStatusReadyPendingApproval \<longrightarrow> t_status t' = TaskStatusReadyPendingApproval)"

text \<open>Only columns of the claim are dropped.\<close>

definition drops_claim :: "task_row \<Rightarrow> task_row \<Rightarrow> bool" where
  "drops_claim t t' \<longleftrightarrow> same_task t t' \<and> t_status t' = t_status t \<and>
     t_session t' \<in> {None, t_session t} \<and> t_worker t' \<in> {None, t_worker t}"

lemmas evolve_defs = quiet_evolves_def calm_evolves_def task_evolves_def drops_claim_def same_task_def unclaimed_ok_def

lemma lifecycle_refl [simp]: "lifecycle a a"
  by (simp add: lifecycle_def)

lemma quiet_refl [simp]: "quiet_evolves t t"
  by (auto simp: evolve_defs)

lemma drops_refl [simp]: "drops_claim t t"
  by (auto simp: evolve_defs)

lemma calm_task_evolves: "calm_evolves t t' \<Longrightarrow> task_evolves t t'"
  by (simp add: calm_evolves_def)

lemma quiet_calm_evolves: "quiet_evolves t t' \<Longrightarrow> calm_evolves t t'"
  by (simp add: quiet_evolves_def)

lemma quiet_drops: "quiet_evolves t t' \<Longrightarrow> drops_claim t' t'' \<Longrightarrow> quiet_evolves t t''"
  by (auto simp: evolve_defs)

lemma drops_trans: "drops_claim t t' \<Longrightarrow> drops_claim t' t'' \<Longrightarrow> drops_claim t t''"
  by (auto simp: evolve_defs)

lemma drops_quiet: "drops_claim t t' \<Longrightarrow> quiet_evolves t t'"
  by (auto simp: evolve_defs)

section \<open>Statements\<close>

lemma update_tasks_tasks [simp]:
  "tasks (update_tasks P f s) = upd_where P (\<lambda>t. (f t)\<lparr>t_updated := now_of s\<rparr>) (tasks s)"
  by (simp add: update_tasks_def)

lemma update_tasks_frame [frame_simps, simp]:
  "projects (update_tasks P f s) = projects s" "plans (update_tasks P f s) = plans s"
  "deps (update_tasks P f s) = deps s" "events (update_tasks P f s) = events s"
  "sessions (update_tasks P f s) = sessions s" "workers (update_tasks P f s) = workers s"
  "metadata (update_tasks P f s) = metadata s" "outputs (update_tasks P f s) = outputs s"
  "inputs (update_tasks P f s) = inputs s" "hooks (update_tasks P f s) = hooks s"
  "calibrations (update_tasks P f s) = calibrations s" "attempts (update_tasks P f s) = attempts s"
  "spend (update_tasks P f s) = spend s" "messages (update_tasks P f s) = messages s"
  "event_seq (update_tasks P f s) = event_seq s" "clock (update_tasks P f s) = clock s"
  by (simp_all add: update_tasks_def)

lemma insert_event_None:
  "insert_event None plan task kind stream actor payload s =
    (Inr (), s\<lparr>events := events s @ [\<lparr>e_id = event_seq s + 1, e_project = None, e_plan = plan,
       e_task = task, e_kind = kind, e_stream = stream, e_actor = actor, e_payload = payload,
       e_at = now_of s\<rparr>], event_seq := event_seq s + 1\<rparr>)"
  by (simp add: insert_event_def)

lemma upd_where_all2:
  assumes "\<And>t. t \<in> set rows \<Longrightarrow> P t \<Longrightarrow> R t (f t)" and "\<And>t. R t t"
  shows "list_all2 R rows (upd_where P f rows)"
  using assms by (induction rows) auto

lemma upd_where_all2_right:
  assumes "list_all2 R xs ys" and "\<And>x y. R x y \<Longrightarrow> P y \<Longrightarrow> R x (f y)"
  shows "list_all2 R xs (upd_where P f ys)"
  using assms(1) by (induction rule: list_all2_induct) (auto intro: assms(2))

section \<open>Quiet steps\<close>

definition plan_keys :: "store \<Rightarrow> (ident \<times> ident) list" where
  "plan_keys s = map (\<lambda>p. (p_id p, p_project p)) (plans s)"

definition quiet :: "store \<Rightarrow> store \<Rightarrow> bool" where
  "quiet s s' \<longleftrightarrow> list_all2 quiet_evolves (tasks s) (tasks s') \<and> deps s' = deps s \<and>
     outputs s' = outputs s \<and> plan_keys s' = plan_keys s"

definition calm :: "store \<Rightarrow> store \<Rightarrow> bool" where
  "calm s s' \<longleftrightarrow> list_all2 calm_evolves (tasks s) (tasks s') \<and> deps s' = deps s \<and>
     outputs s' = outputs s \<and> plan_keys s' = plan_keys s"

lemma quiet_calm: "quiet s s' \<Longrightarrow> calm s s'"
  by (auto simp: quiet_def calm_def intro: list_all2_mono quiet_calm_evolves)

lemma quiet_same:
  "tasks s' = tasks s \<Longrightarrow> deps s' = deps s \<Longrightarrow> outputs s' = outputs s \<Longrightarrow> plans s' = plans s \<Longrightarrow> quiet s s'"
  by (simp add: quiet_def plan_keys_def list_all2_refl)

lemma quiet_refl_store [simp]: "quiet s s"
  by (rule quiet_same) auto

lemma quiet_upd:
  assumes "\<And>t. t \<in> set (tasks s) \<Longrightarrow> P t \<Longrightarrow> quiet_evolves t (f t)"
    and "tasks s' = upd_where P f (tasks s)" "deps s' = deps s" "outputs s' = outputs s"
    and "plans s' = plans s"
  shows "quiet s s'"
  using assms by (simp add: quiet_def plan_keys_def upd_where_all2)

text \<open>A quiet step followed by one that only drops claims.\<close>

lemma quiet_then_drop:
  assumes "quiet s s1" and "list_all2 drops_claim (tasks s1) (tasks s2)"
    and "deps s2 = deps s1" "outputs s2 = outputs s1" "plans s2 = plans s1"
  shows "quiet s s2"
proof -
  have "list_all2 quiet_evolves (tasks s) (tasks s2)"
    using assms(1,2) quiet_drops unfolding quiet_def by (blast intro: list_all2_trans)
  then show ?thesis using assms by (simp add: quiet_def plan_keys_def)
qed

locale calm_op =
  fixes run :: "store \<Rightarrow> store"
  assumes run_calm: "calm s (run s)"
begin

lemma keys_kept: "map (\<lambda>t. (t_plan t, t_id t)) (tasks (run s)) = map (\<lambda>t. (t_plan t, t_id t)) (tasks s)"
proof -
  have "list_all2 calm_evolves (tasks s) (tasks (run s))" using run_calm by (simp add: calm_def)
  then show ?thesis
    by (induction rule: list_all2_induct) (auto simp: evolve_defs)
qed

lemma row_origin:
  assumes "t' \<in> set (tasks (run s))"
  obtains t where "t \<in> set (tasks s)" "calm_evolves t t'"
  using run_calm [of s] assms unfolding calm_def by (metis list_all2_conv_all_nth in_set_conv_nth)

lemma nothing_starts:
  assumes "t' \<in> set (tasks (run s))" and "t_status t' = TaskStatusRunning"
  shows "\<exists>t \<in> set (tasks s). same_task t t' \<and> t_status t = TaskStatusRunning"
  using assms(1) by (rule row_origin) (use assms(2) in \<open>auto simp: calm_evolves_def task_evolves_def\<close>)

end

locale quiet_op =
  fixes run :: "store \<Rightarrow> store"
  assumes run_quiet: "quiet s (run s)"

sublocale quiet_op \<subseteq> calm: calm_op run
  by unfold_locales (rule quiet_calm [OF run_quiet])

context quiet_op
begin

lemma gate_holds:
  assumes "t' \<in> set (tasks (run s))" and "t_status t' \<noteq> TaskStatusReadyPendingApproval"
  shows "\<exists>t \<in> set (tasks s). same_task t t' \<and> t_status t \<noteq> TaskStatusReadyPendingApproval"
proof -
  obtain t where "t \<in> set (tasks s)" "quiet_evolves t t'"
    using run_quiet [of s] assms(1) unfolding quiet_def
    by (metis list_all2_conv_all_nth in_set_conv_nth)
  then show ?thesis using assms(2) by (auto simp: quiet_evolves_def calm_evolves_def task_evolves_def)
qed

end

section \<open>The quiet operations\<close>

lemma guarded_report_quiet:
  assumes "\<And>t. P t \<Longrightarrow> quiet_evolves t ((f t)\<lparr>t_updated := now_of s\<rparr>)"
  shows "quiet s (snd (guarded_report P f planID taskID kind stream actor payload s))"
proof (cases "rows_affected P (tasks s) = 0")
  case False
  then show ?thesis
    by (intro quiet_upd [where P = P and f = "\<lambda>t. (f t)\<lparr>t_updated := now_of s\<rparr>"] assms)
      (use False in \<open>auto simp: guarded_report_def insert_event_None\<close>)
qed (simp add: guarded_report_def)

lemma in_tx_quiet: "quiet s (snd (body s)) \<Longrightarrow> quiet s (snd (in_tx body s))"
  by (auto simp: in_tx_def split: sum.splits prod.splits)

lemma op_bind_read:
  assumes "quiet s (snd (m s))" and "\<And>x s1. snd (f x s1) = s1"
  shows "quiet s (snd (op_bind m f s))"
  using assms by (auto simp: op_bind_def split: sum.splits prod.splits)

lemma unclaimed_quiet:
  assumes "t_status t = TaskStatusRunning"
    and "st = TaskStatusDone \<or> st = TaskStatusFailed \<or> st = TaskStatusPending \<or> st = TaskStatusBlocked"
  shows "quiet_evolves t ((unclaimed st t)\<lparr>t_updated := n\<rparr>)"
    and "quiet_evolves t ((unclaimed st t)\<lparr>t_retry := r, t_failure := fc, t_updated := n\<rparr>)"
    and "quiet_evolves t ((unclaimed st t)\<lparr>t_failure := fc, t_updated := n\<rparr>)"
    and "quiet_evolves t ((unclaimed st t)\<lparr>t_reclaim := r, t_updated := n\<rparr>)"
  using assms by (auto simp: evolve_defs unclaimed_def lifecycle_def)

interpretation mark_done: quiet_op "\<lambda>s. snd (MarkDone planID taskID sessionID ev s)"
  by unfold_locales
    (auto simp: MarkDone_def owned_running_def intro!: op_bind_read in_tx_quiet guarded_report_quiet unclaimed_quiet)

interpretation release_claim: quiet_op "\<lambda>s. snd (ReleaseClaim planID taskID sessionID reason s)"
  by unfold_locales
    (auto simp: ReleaseClaim_def owned_running_def intro!: guarded_report_quiet unclaimed_quiet)

interpretation mark_blocked: quiet_op "\<lambda>s. snd (MarkBlocked planID taskID sessionID payload s)"
  by unfold_locales
    (auto simp: MarkBlocked_def owned_running_def intro!: in_tx_quiet guarded_report_quiet unclaimed_quiet)

interpretation mark_failed: quiet_op "\<lambda>s. snd (MarkFailedWithPayload planID taskID sessionID payload maxRetries s)"
  by unfold_locales
    (auto simp: MarkFailedWithPayload_def owned_running_def op_return_def split: option.split
      intro!: in_tx_quiet op_bind_read guarded_report_quiet unclaimed_quiet)

interpretation approve_task: calm_op "\<lambda>s. snd (ApproveTask planID taskID s)"
proof
  fix s :: store
  let ?P = "\<lambda>t. is_task planID taskID t \<and> t_status t = TaskStatusReadyPendingApproval"
  have "list_all2 calm_evolves (tasks s) (upd_where ?P (\<lambda>t. t\<lparr>t_status := TaskStatusReady, t_updated := now_of s\<rparr>) (tasks s))"
    by (rule upd_where_all2) (auto simp: evolve_defs lifecycle_def)
  then show "calm s (snd (ApproveTask planID taskID s))"
    by (auto simp: ApproveTask_def in_tx_def Let_def calm_def plan_keys_def list_all2_refl evolve_defs
        split: option.split)
qed

lemma delete_workers_drops:
  "list_all2 drops_claim (tasks s) (tasks (delete_workers P s))"
  by (auto simp: delete_workers_def Let_def evolve_defs intro!: upd_where_all2)

lemma delete_workers_frame [frame_simps, simp]:
  "deps (delete_workers P s) = deps s" "outputs (delete_workers P s) = outputs s"
  "plans (delete_workers P s) = plans s" "sessions (delete_workers P s) = sessions s"
  "workers (delete_workers P s) = filter (\<lambda>w. \<not> P w) (workers s)"
  "events (delete_workers P s) = events s" "clock (delete_workers P s) = clock s"
  "hooks (delete_workers P s) = hooks s"
  by (simp_all add: delete_workers_def Let_def)

lemma delete_sessions_drops:
  "list_all2 drops_claim (tasks s) (tasks (delete_sessions P s))"
proof -
  let ?gone = "map s_id (filter P (sessions s))"
  let ?s1 = "delete_workers (\<lambda>w. w_session w \<in> set ?gone) s"
  have "list_all2 drops_claim (tasks s) (tasks ?s1)" by (rule delete_workers_drops)
  then have "list_all2 drops_claim (tasks s)
      (upd_where (\<lambda>t. names_one_of ?gone (t_session t)) (\<lambda>t. t\<lparr>t_session := None, t_updated := now_of ?s1\<rparr>) (tasks ?s1))"
    by (rule upd_where_all2_right) (auto simp: evolve_defs)
  then show ?thesis by (simp add: delete_sessions_def Let_def)
qed

lemma delete_sessions_frame [frame_simps, simp]:
  "deps (delete_sessions P s) = deps s" "outputs (delete_sessions P s) = outputs s"
  "plans (delete_sessions P s) = plans s" "events (delete_sessions P s) = events s"
  "sessions (delete_sessions P s) = filter (\<lambda>r. \<not> P r) (sessions s)"
  "workers (delete_sessions P s) =
     filter (\<lambda>w. w_session w \<notin> set (map s_id (filter P (sessions s)))) (workers s)"
  by (simp_all add: delete_sessions_def Let_def)

lemma drops_only_quiet:
  "list_all2 drops_claim (tasks s) (tasks s') \<Longrightarrow> deps s' = deps s \<Longrightarrow> outputs s' = outputs s \<Longrightarrow>
   plans s' = plans s \<Longrightarrow> quiet s s'"
  using quiet_then_drop [of s s s'] by simp

interpretation close_session: quiet_op "\<lambda>s. snd (CloseSession sessionID s)"
  by unfold_locales (simp add: CloseSession_def drops_only_quiet delete_sessions_drops)

interpretation reclaim_worker: quiet_op "\<lambda>s. snd (ReclaimWorker workerID s)"
proof
  fix s :: store
  let ?P = "\<lambda>t. t_worker t = Some workerID \<and> t_status t = TaskStatusRunning"
  let ?f = "\<lambda>t. (unclaimed TaskStatusPending t)\<lparr>t_updated := now_of s\<rparr>"
  have "quiet s (update_workers Q g (update_tasks ?P (unclaimed TaskStatusPending) s))" for Q g
    by (rule quiet_upd [where P = ?P and f = ?f]) (auto simp: update_workers_def intro: unclaimed_quiet)
  then show "quiet s (snd (ReclaimWorker workerID s))"
    unfolding ReclaimWorker_def by (intro in_tx_quiet) simp
qed

lemma op_each_events:
  assumes "op_each (\<lambda>x. insert_event None (f1 x) (f2 x) k st ac (f3 x)) xs s = (r, s')"
  shows "r = Inr () \<and> (\<exists>es n. s' = s\<lparr>events := es, event_seq := n\<rparr>)"
  using assms
proof (induction xs arbitrary: s)
  case Nil
  have "s = s\<lparr>events := events s, event_seq := event_seq s\<rparr>" by simp
  with Nil show ?case by (metis op_each.simps(1) op_return_def prod.inject)
next
  case (Cons x xs)
  obtain e1 n1 where "insert_event None (f1 x) (f2 x) k st ac (f3 x) s = (Inr (), s\<lparr>events := e1, event_seq := n1\<rparr>)"
    using insert_event_None by blast
  with Cons.prems have "op_each (\<lambda>x. insert_event None (f1 x) (f2 x) k st ac (f3 x)) xs
      (s\<lparr>events := e1, event_seq := n1\<rparr>) = (r, s')"
    by (simp add: op_bind_def)
  from Cons.IH [OF this] show ?case by auto
qed

lemma log_reclaims_result:
  obtains es n where "log_reclaims reasons k touched s = (Inr (), s\<lparr>events := es, event_seq := n\<rparr>)"
proof -
  obtain r s' where r: "log_reclaims reasons k touched s = (r, s')" by fastforce
  with op_each_events [OF r [unfolded log_reclaims_def]] that show thesis by blast
qed

lemma reclaim_step1_result:
  obtains es n where "reclaim_step1 cutoff s =
    (Inr (length (filter (reclaimable cutoff s) (tasks s))),
     (update_tasks (reclaimable cutoff s) requeue s)\<lparr>events := es, event_seq := n\<rparr>)"
proof -
  let ?touched = "map (\<lambda>t. (t_plan t, t_id t, t_reclaim t + 1)) (filter (reclaimable cutoff s) (tasks s))"
  let ?k = "int (length (filter (\<lambda>t. t_status t = TaskStatusRunning) (tasks s)))"
  obtain es n where "log_reclaims (reclaim_reasons cutoff s) ?k ?touched (update_tasks (reclaimable cutoff s) requeue s) =
      (Inr (), (update_tasks (reclaimable cutoff s) requeue s)\<lparr>events := es, event_seq := n\<rparr>)"
    by (rule log_reclaims_result)
  then show thesis
    by (intro that [where es = es and n = n]) (simp add: reclaim_step1_def Let_def op_bind_def op_return_def)
qed

lemma requeue_quiet:
  "quiet s ((update_tasks (reclaimable cutoff s) requeue s)\<lparr>events := es, event_seq := n\<rparr>)"
  by (rule quiet_upd [where P = "reclaimable cutoff s"
        and f = "\<lambda>t. (requeue t)\<lparr>t_updated := now_of s\<rparr>"])
    (auto simp: requeue_def reclaimable_def intro: unclaimed_quiet)

lemma reclaim_step2_drops:
  "list_all2 drops_claim (tasks s) (tasks (reclaim_step2 c d s))"
  unfolding reclaim_step2_def Let_def
  by (rule list_all2_trans [OF drops_trans delete_workers_drops delete_sessions_drops])

text \<open>The reaper always succeeds; its result is the requeue followed by the two deletes.\<close>

lemma ReclaimStale_result:
  fixes s :: store and staleAfter :: nanos
  defines "c \<equiv> rfc3339 (clock s - staleAfter)"
  obtains es n where "ReclaimStale staleAfter s =
    (Inr (length (filter (reclaimable c s) (tasks s))),
     reclaim_step2 c (rfc3339 (clock s - staleAfter * staleSessionMultiplier))
       ((update_tasks (reclaimable c s) requeue s)\<lparr>events := es, event_seq := n\<rparr>))"
proof -
  obtain es n where "reclaim_step1 c s =
    (Inr (length (filter (reclaimable c s) (tasks s))),
     (update_tasks (reclaimable c s) requeue s)\<lparr>events := es, event_seq := n\<rparr>)"
    by (rule reclaim_step1_result)
  then show thesis
    by (intro that [where es = es and n = n]) (simp add: ReclaimStale_def Let_def in_tx_def op_bind_def c_def)
qed

interpretation reclaim_stale: quiet_op "\<lambda>s. snd (ReclaimStale staleAfter s)"
proof
  fix s :: store
  let ?c = "rfc3339 (clock s - staleAfter)"
  obtain es n where r: "snd (ReclaimStale staleAfter s) =
      reclaim_step2 ?c (rfc3339 (clock s - staleAfter * staleSessionMultiplier))
        ((update_tasks (reclaimable ?c s) requeue s)\<lparr>events := es, event_seq := n\<rparr>)"
    by (metis ReclaimStale_result snd_conv)
  show "quiet s (snd (ReclaimStale staleAfter s))"
    unfolding r
    by (rule quiet_then_drop [OF requeue_quiet reclaim_step2_drops]) (simp_all add: reclaim_step2_def Let_def)
qed

lemma update_metadata_frame [frame_simps, simp]:
  "tasks (update_metadata P f s) = tasks s" "deps (update_metadata P f s) = deps s"
  "outputs (update_metadata P f s) = outputs s" "plans (update_metadata P f s) = plans s"
  "events (update_metadata P f s) = events s" "event_seq (update_metadata P f s) = event_seq s"
  "workers (update_metadata P f s) = workers s" "sessions (update_metadata P f s) = sessions s"
  "calibrations (update_metadata P f s) = calibrations s" "clock (update_metadata P f s) = clock s"
  by (simp_all add: update_metadata_def)

lemma block_quiet:
  assumes "status = TaskStatusBlockedCapability \<or> status = TaskStatusBlockedInput"
    and "tasks s' = tasks (update_tasks (\<lambda>t. is_task planID taskID t \<and> blockable (t_status t)) (\<lambda>t. t\<lparr>t_status := status\<rparr>) s)"
    and "deps s' = deps s" "outputs s' = outputs s" "plans s' = plans s"
  shows "quiet s s'"
  by (rule quiet_upd [where P = "\<lambda>t. is_task planID taskID t \<and> blockable (t_status t)"
        and f = "\<lambda>t. t\<lparr>t_status := status, t_updated := now_of s\<rparr>"])
    (use assms in \<open>auto simp: evolve_defs lifecycle_def blockable_def\<close>)

lemma markMetadataBlocked_quiet:
  assumes "status = TaskStatusBlockedCapability \<or> status = TaskStatusBlockedInput"
  shows "quiet s (snd (markMetadataBlocked planID taskID status reason s))"
  unfolding markMetadataBlocked_def
  by (rule in_tx_quiet)
    (auto simp: Let_def op_bind_def op_return_def insert_event_None split: option.split
      intro!: block_quiet [OF assms, of _ planID taskID])

interpretation block_capability: quiet_op "\<lambda>s. snd (MarkBlockedCapability planID taskID reason s)"
  by unfold_locales (simp add: MarkBlockedCapability_def markMetadataBlocked_quiet)

interpretation block_input: quiet_op "\<lambda>s. snd (MarkBlockedInput planID taskID reason s)"
  by unfold_locales (simp add: MarkBlockedInput_def markMetadataBlocked_quiet)

interpretation clear_block: quiet_op "\<lambda>s. snd (ClearTaskBlock planID taskID blocked s)"
proof
  fix s :: store
  show "quiet s (snd (ClearTaskBlock planID taskID blocked s))"
  proof (cases "blocked = TaskStatusBlockedCapability \<or> blocked = TaskStatusBlockedInput")
    case True
    have "quiet s (update_metadata Q g (update_tasks (\<lambda>t. is_task planID taskID t \<and> t_status t = blocked)
             (\<lambda>t. t\<lparr>t_status := TaskStatusPending\<rparr>) s))" for Q g
      by (rule quiet_upd [where P = "\<lambda>t. is_task planID taskID t \<and> t_status t = blocked"
            and f = "\<lambda>t. t\<lparr>t_status := TaskStatusPending, t_updated := now_of s\<rparr>"])
        (use True in \<open>auto simp: evolve_defs lifecycle_def\<close>)
    then show ?thesis
      unfolding ClearTaskBlock_def using True by (auto simp: Let_def intro!: in_tx_quiet)
  qed (simp add: ClearTaskBlock_def op_fail_def)
qed

text \<open>Operations that leave tasks, edges, reservations and plans alone.\<close>

interpretation put_metadata: quiet_op "\<lambda>s. snd (PutTaskMetadata planID taskID groupPath teamPath json s)"
  by unfold_locales (auto simp: PutTaskMetadata_def putTaskMetadataOn_def intro!: quiet_same)

interpretation bind_calibration: quiet_op "\<lambda>s. snd (BindTaskCalibration planID taskID cid caps s)"
  by unfold_locales (auto simp: BindTaskCalibration_def Let_def split: option.split intro!: quiet_same)

interpretation record_execution: quiet_op
  "\<lambda>s. snd (RecordTaskExecution planID taskID alias provider model effort domain sessionID s)"
  by unfold_locales
    (auto simp: RecordTaskExecution_def Let_def split: option.split intro!: in_tx_quiet quiet_same)

interpretation record_provider_session: quiet_op
  "\<lambda>s. snd (RecordTaskProviderSession planID taskID claimingSessionID providerSessionID s)"
  by unfold_locales
    (auto simp: RecordTaskProviderSession_def Let_def split: list.split intro!: quiet_same)

interpretation create_session: quiet_op "\<lambda>s. snd (CreateSession uuid so s)"
  by unfold_locales (auto simp: CreateSession_def Let_def intro!: quiet_same)

interpretation heartbeat_session: quiet_op "\<lambda>s. snd (HeartbeatSession sessionID s)"
  by unfold_locales (auto simp: HeartbeatSession_def intro!: quiet_same)

interpretation create_worker: quiet_op "\<lambda>s. snd (CreateWorker uuid wo s)"
  by unfold_locales (auto simp: CreateWorker_def intro!: quiet_same)

interpretation set_worker_task: quiet_op "\<lambda>s. snd (SetWorkerTask workerID planID taskID s)"
  by unfold_locales (auto simp: SetWorkerTask_def update_workers_def intro!: quiet_same)

interpretation heartbeat_worker: quiet_op "\<lambda>s. snd (HeartbeatWorker workerID s)"
  by unfold_locales (auto simp: HeartbeatWorker_def update_workers_def intro!: quiet_same)

interpretation heartbeat_both: quiet_op "\<lambda>s. snd (HeartbeatWorkerAndSession workerID s)"
  by unfold_locales
    (auto simp: HeartbeatWorkerAndSession_def update_workers_def Let_def split: option.split
      intro!: in_tx_quiet quiet_same)

interpretation clear_worker_task: quiet_op "\<lambda>s. snd (ClearWorkerTask workerID status s)"
  by unfold_locales (auto simp: ClearWorkerTask_def update_workers_def intro!: quiet_same)

interpretation emit: quiet_op "\<lambda>s. snd (Emit eo s)"
  by unfold_locales (auto simp: Emit_def insert_event_def intro!: quiet_same)

interpretation set_plan_status: quiet_op "\<lambda>s. snd (SetPlanStatus planID status s)"
  by unfold_locales
    (auto simp: SetPlanStatus_def setPlanStatusOn_def quiet_def plan_keys_def map_upd_where list_all2_refl)

end
