(* ===== verification/Store_Graph.thy ===== *)
theory Store_Graph
  imports Store_Lifecycle
begin

text \<open>
  The dependency graph of a plan.  The depth-first search of \<open>wouldCreateCycleOn\<close> answers exactly
  whether the new edge would close a cycle, so the edges of every plan stay acyclic.
\<close>

definition edges :: "dep_row list \<Rightarrow> ident \<Rightarrow> (ident \<times> ident) set" where
  "edges ds planID = set (map (\<lambda>d. (d_task d, d_on d)) (filter (\<lambda>d. d_plan d = planID) ds))"

lemma set_dep_targets: "set (dep_targets ds planID n) = {m. (n, m) \<in> edges ds planID}"
  by (auto simp: dep_targets_def edges_def)

lemma edges_append [simp]:
  "edges (ds @ ds') planID = edges ds planID \<union> edges ds' planID"
  by (auto simp: edges_def)

lemma edges_filter_other:
  "edges (filter (\<lambda>d. d_plan d \<noteq> q) ds) planID = (if planID = q then {} else edges ds planID)"
  by (auto simp: edges_def)

section \<open>The search\<close>

lemma visit_superset: "set visited \<subseteq> set (snd (visit ds planID task nodes visited))"
proof (induction ds planID task nodes visited rule: visit.induct)
  case (2 ds planID task node rest visited)
  let ?r = "visit ds planID task (dep_targets ds planID node) (node # visited)"
  consider "node = task \<or> node \<in> set visited" | "node \<noteq> task" "node \<notin> set visited" by blast
  then show ?case
  proof cases
    case fresh: 2
    have "set visited \<subseteq> set (snd ?r)" using 2(2) [OF fresh] by auto
    moreover have "set (snd ?r) \<subseteq> set (snd (visit ds planID task rest (snd ?r)))" if "\<not> fst ?r"
      using 2(3) [OF fresh refl that] .
    ultimately show ?thesis using fresh by (auto simp: visit.simps(2) Let_def)
  qed (use 2(1) in \<open>auto simp: visit.simps(2)\<close>)
qed simp

lemma visit_found:
  "fst (visit ds planID task nodes visited) \<Longrightarrow> \<exists>n \<in> set nodes. (n, task) \<in> (edges ds planID)\<^sup>*"
proof (induction ds planID task nodes visited rule: visit.induct)
  case (2 ds planID task node rest visited)
  let ?r = "visit ds planID task (dep_targets ds planID node) (node # visited)"
  consider "node = task" | "node \<noteq> task" "node \<in> set visited"
    | "node \<noteq> task" "node \<notin> set visited" "fst ?r" | "node \<noteq> task" "node \<notin> set visited" "\<not> fst ?r"
    by blast
  then show ?case
  proof cases
    case 3
    then obtain m where "(node, m) \<in> edges ds planID" "(m, task) \<in> (edges ds planID)\<^sup>*"
      using 2(2) by (auto simp: set_dep_targets)
    then show ?thesis by (auto intro: converse_rtrancl_into_rtrancl)
  next
    case 4
    then show ?thesis using 2(3,4) by (simp add: visit.simps(2) Let_def)
  qed (use 2(1,4) in \<open>auto simp: visit.simps(2)\<close>)
qed simp

lemma visit_not_found:
  assumes "\<not> fst (visit ds planID task nodes visited)" and "task \<notin> set visited"
  shows "set nodes \<subseteq> set (snd (visit ds planID task nodes visited)) \<and>
         task \<notin> set (snd (visit ds planID task nodes visited)) \<and>
         (\<forall>n \<in> set (snd (visit ds planID task nodes visited)) - set visited.
            set (dep_targets ds planID n) \<subseteq> set (snd (visit ds planID task nodes visited)))"
  using assms
proof (induction ds planID task nodes visited rule: visit.induct)
  case (2 ds planID task node rest visited)
  let ?r = "visit ds planID task (dep_targets ds planID node) (node # visited)"
  have neq: "node \<noteq> task" using 2(4) by (auto simp: visit.simps(2))
  show ?case
  proof (cases "node \<in> set visited")
    case True
    then have "visit ds planID task (node # rest) visited = visit ds planID task rest visited"
      using neq by (simp add: visit.simps(2))
    then show ?thesis
      using 2(1) [OF neq True] 2(4,5) True visit_superset [of visited ds planID task rest] by auto
  next
    case False
    let ?v = "snd (visit ds planID task rest (snd ?r))"
    have nf: "\<not> fst ?r" "\<not> fst (visit ds planID task rest (snd ?r))"
      using 2(4) neq False by (auto simp: visit.simps(2) Let_def split: if_splits)
    have eq: "snd (visit ds planID task (node # rest) visited) = ?v"
      using neq False nf by (simp add: visit.simps(2) Let_def)
    have inner: "set (dep_targets ds planID node) \<subseteq> set (snd ?r)" "task \<notin> set (snd ?r)"
      "\<forall>n \<in> set (snd ?r) - set (node # visited). set (dep_targets ds planID n) \<subseteq> set (snd ?r)"
      using 2(2) [OF neq False nf(1)] 2(5) neq by auto
    have outer: "set rest \<subseteq> set ?v" "task \<notin> set ?v"
      "\<forall>n \<in> set ?v - set (snd ?r). set (dep_targets ds planID n) \<subseteq> set ?v"
      using 2(3) [OF neq False refl nf(1) nf(2) inner(2)] by auto
    have grow: "set (snd ?r) \<subseteq> set ?v" "set (node # visited) \<subseteq> set (snd ?r)"
      by (rule visit_superset)+
    have "\<forall>n \<in> set ?v - set visited. set (dep_targets ds planID n) \<subseteq> set ?v"
    proof
      fix n assume "n \<in> set ?v - set visited"
      then consider "n \<in> set ?v - set (snd ?r)" | "n = node" | "n \<in> set (snd ?r) - set (node # visited)"
        by auto
      then show "set (dep_targets ds planID n) \<subseteq> set ?v"
        using inner(1,3) outer(3) grow(1) by cases blast+
    qed
    then show ?thesis unfolding eq using outer grow by auto
  qed
qed auto

theorem wouldCreateCycle_reach:
  "wouldCreateCycleOn ds planID task dep \<longleftrightarrow> (dep, task) \<in> (edges ds planID)\<^sup>*"
proof
  assume "wouldCreateCycleOn ds planID task dep"
  then show "(dep, task) \<in> (edges ds planID)\<^sup>*"
    using visit_found [of ds planID task "[dep]" "[]"] by (simp add: wouldCreateCycleOn_def)
next
  assume path: "(dep, task) \<in> (edges ds planID)\<^sup>*"
  show "wouldCreateCycleOn ds planID task dep"
  proof (rule ccontr)
    assume "\<not> wouldCreateCycleOn ds planID task dep"
    define v where "v = set (snd (visit ds planID task [dep] []))"
    have v: "dep \<in> v" "task \<notin> v" "\<And>n m. n \<in> v \<Longrightarrow> (n, m) \<in> edges ds planID \<Longrightarrow> m \<in> v"
      using visit_not_found [of ds planID task "[dep]" "[]"] \<open>\<not> wouldCreateCycleOn ds planID task dep\<close>
      by (auto simp: wouldCreateCycleOn_def v_def set_dep_targets)
    have "x \<in> v" if "(dep, x) \<in> (edges ds planID)\<^sup>*" for x
      using that by (induction rule: rtrancl_induct) (use v in auto)
    then show False using path v(2) by blast
  qed
qed

section \<open>Acyclicity\<close>

definition graph_acyclic :: "store \<Rightarrow> bool" where
  "graph_acyclic s \<longleftrightarrow> (\<forall>planID. acyclic (edges (deps s) planID))"

lemma addDepOn_ok:
  assumes "addDepOn planID taskID dependsOn s = (Inr (), s')"
  shows "taskID \<noteq> dependsOn" "(dependsOn, taskID) \<notin> (edges (deps s) planID)\<^sup>*"
    "task_exists planID taskID s" "task_exists planID dependsOn s"
    "s' = s\<lparr>deps := deps s @ [\<lparr>d_plan = planID, d_task = taskID, d_on = dependsOn\<rparr>]\<rparr>"
  using assms by (auto simp: addDepOn_def wouldCreateCycle_reach split: if_splits)

lemma edges_snoc:
  "edges (ds @ [\<lparr>d_plan = p, d_task = t, d_on = d\<rparr>]) planID =
    (if planID = p then insert (t, d) (edges ds planID) else edges ds planID)"
  by (auto simp: edges_def)

lemma addDepOn_acyclic:
  assumes "graph_acyclic s"
  shows "graph_acyclic (snd (addDepOn planID taskID dependsOn s))"
proof (cases "fst (addDepOn planID taskID dependsOn s)")
  case (Inl e)
  then have "snd (addDepOn planID taskID dependsOn s) = s"
    by (auto simp: addDepOn_def split: if_splits)
  then show ?thesis using assms by simp
next
  case (Inr u)
  then obtain s' where r: "addDepOn planID taskID dependsOn s = (Inr (), s')"
    by (metis prod.collapse old.unit.exhaust)
  from addDepOn_ok [OF r] assms show ?thesis
    unfolding r by (auto simp: graph_acyclic_def edges_snoc simp del: edges_append)
qed

end
