(* ===== verification/Store_Invariant.thy ===== *)
theory Store_Invariant
  imports Store_Graph
begin

text \<open>
  The invariant of the store and its preservation.  \<open>store_inv\<close> says: task keys and plan ids are
  unique, edges and reservations name existing tasks, no claim survives outside \<open>running\<close>, every
  plan's graph is acyclic, and no two running tasks of a project reserve the same output path.
  \<open>store_step\<close> is the step relation of the whole component, one rule per operation.
\<close>

section \<open>The invariant\<close>

definition task_keys :: "store \<Rightarrow> (ident \<times> ident) list" where
  "task_keys s = map (\<lambda>t. (t_plan t, t_id t)) (tasks s)"

definition key_inv :: "store \<Rightarrow> bool" where
  "key_inv s \<longleftrightarrow> distinct (task_keys s) \<and> distinct (map fst (plan_keys s))"

definition ref_inv :: "store \<Rightarrow> bool" where
  "ref_inv s \<longleftrightarrow> (\<forall>t \<in> set (tasks s). t_plan t \<in> fst ` set (plan_keys s)) \<and>
     (\<forall>d \<in> set (deps s). (d_plan d, d_task d) \<in> set (task_keys s) \<and> (d_plan d, d_on d) \<in> set (task_keys s)) \<and>
     (\<forall>r \<in> set (outputs s). (o_plan r, o_task r) \<in> set (task_keys s) \<and> o_path r \<noteq> [])"

definition claims_inv :: "store \<Rightarrow> bool" where
  "claims_inv s \<longleftrightarrow> (\<forall>t \<in> set (tasks s). unclaimed_ok t)"

definition running_in :: "store \<Rightarrow> ident \<Rightarrow> ident \<Rightarrow> bool" where
  "running_in s planID taskID \<longleftrightarrow> (\<exists>t \<in> set (tasks s). is_task planID taskID t \<and> t_status t = TaskStatusRunning)"

definition same_project :: "store \<Rightarrow> ident \<Rightarrow> ident \<Rightarrow> bool" where
  "same_project s p q \<longleftrightarrow> (\<exists>prj. (p, prj) \<in> set (plan_keys s) \<and> (q, prj) \<in> set (plan_keys s))"

definition output_exclusive :: "store \<Rightarrow> bool" where
  "output_exclusive s \<longleftrightarrow> (\<forall>a \<in> set (outputs s). \<forall>b \<in> set (outputs s).
     o_path a = o_path b \<and> same_project s (o_plan a) (o_plan b) \<and>
     running_in s (o_plan a) (o_task a) \<and> running_in s (o_plan b) (o_task b) \<longrightarrow>
     o_plan a = o_plan b \<and> o_task a = o_task b)"

definition store_inv :: "store \<Rightarrow> bool" where
  "store_inv s \<longleftrightarrow> key_inv s \<and> ref_inv s \<and> claims_inv s \<and> graph_acyclic s \<and> output_exclusive s"

lemmas inv_defs = store_inv_def key_inv_def ref_inv_def claims_inv_def

lemma empty_store_inv: "store_inv (empty_store now)"
  by (simp add: inv_defs graph_acyclic_def output_exclusive_def empty_store_def task_keys_def plan_keys_def edges_def
      acyclic_def)

lemma task_exists_keys: "task_exists p i s \<longleftrightarrow> (p, i) \<in> set (task_keys s)"
  by (auto simp: task_exists_def task_keys_def list_ex_iff)

lemma plan_exists_keys: "plan_exists p s \<longleftrightarrow> p \<in> fst ` set (plan_keys s)"
  by (force simp: plan_exists_def plan_keys_def list_ex_iff)

section \<open>Calm operations keep it\<close>

lemma evolves_keys:
  "list_all2 task_evolves ts ts' \<Longrightarrow> map (\<lambda>t. (t_plan t, t_id t)) ts' = map (\<lambda>t. (t_plan t, t_id t)) ts"
  by (induction rule: list_all2_induct) (auto simp: evolve_defs)

lemma evolves_origin:
  "list_all2 R ts ts' \<Longrightarrow> t' \<in> set ts' \<Longrightarrow> \<exists>t \<in> set ts. R t t'"
  by (induction rule: list_all2_induct) auto

text \<open>The part of the invariant that any evolution of the task table keeps.\<close>

lemma evolves_inv:
  assumes "list_all2 task_evolves (tasks s) (tasks s')" "deps s' = deps s" "outputs s' = outputs s"
    "plan_keys s' = plan_keys s" and "store_inv s" and "output_exclusive s'"
  shows "store_inv s'"
proof -
  have keys: "task_keys s' = task_keys s" using evolves_keys [OF assms(1)] by (simp add: task_keys_def)
  have origin: "\<exists>t \<in> set (tasks s). task_evolves t t'" if "t' \<in> set (tasks s')" for t'
    using evolves_origin [OF assms(1) that] .
  have "claims_inv s'"
    using assms(5) origin by (fastforce simp: inv_defs task_evolves_def)
  moreover have "t_plan t' \<in> fst ` set (plan_keys s')" if "t' \<in> set (tasks s')" for t'
    using origin [OF that] assms(4,5) by (auto simp: inv_defs task_evolves_def same_task_def)
  ultimately show ?thesis
    using assms keys by (simp add: inv_defs graph_acyclic_def)
qed

lemma calm_running: "calm s s' \<Longrightarrow> running_in s' p i \<Longrightarrow> running_in s p i"
  by (auto simp: calm_def running_in_def calm_evolves_def task_evolves_def same_task_def
      dest!: evolves_origin)

lemma calm_inv:
  assumes "calm s s'" and "store_inv s"
  shows "store_inv s'"
proof (rule evolves_inv [OF _ _ _ _ assms(2)])
  show "list_all2 task_evolves (tasks s) (tasks s')"
    using assms(1) by (auto simp: calm_def intro: list_all2_mono calm_task_evolves)
  show "output_exclusive s'"
    using assms calm_running [OF assms(1)]
    by (fastforce simp: store_inv_def output_exclusive_def same_project_def calm_def)
qed (use assms(1) in \<open>auto simp: calm_def\<close>)

lemmas quiet_inv = calm_inv [OF quiet_calm]
lemmas quiet_running = calm_running [OF quiet_calm]

section \<open>Claims\<close>

text \<open>What a successful claim did: it took one ready row whose reserved paths no running task of the
  project holds.\<close>

definition claimed :: "ident \<Rightarrow> ident \<Rightarrow> ident \<Rightarrow> ident \<Rightarrow> store \<Rightarrow> store \<Rightarrow> bool" where
  "claimed planID taskID sessionID workerID s s' \<longleftrightarrow>
     (\<exists>t \<in> set (ready_rows planID s). t_id t = taskID) \<and> conflicting_paths planID taskID s = [] \<and>
     session_exists sessionID s \<and> worker_exists workerID s \<and>
     tasks s' = upd_where (\<lambda>t. is_task planID taskID t \<and> claimable (t_status t))
       (\<lambda>t. t\<lparr>t_status := TaskStatusRunning, t_session := Some sessionID, t_worker := Some workerID,
              t_updated := now_of s\<rparr>) (tasks s) \<and>
     deps s' = deps s \<and> outputs s' = outputs s \<and> plans s' = plans s \<and>
     sessions s' = sessions s \<and> workers s' = workers s \<and> metadata s' = metadata s \<and>
     clock s' = clock s"

lemma claim_tail_cases:
  assumes "claim_tail planID taskID sessionID workerID s = (r, s')"
    and "\<exists>t \<in> set (ready_rows planID s). t_id t = taskID" and "conflicting_paths planID taskID s = []"
  shows "(r = Inl (ErrConstraint ForeignKeyC) \<and> s' = s) \<or>
         (r = Inr taskID \<and> claimed planID taskID sessionID workerID s s')"
proof -
  let ?P = "\<lambda>t. is_task planID taskID t \<and> claimable (t_status t)"
  have "list_ex ?P (tasks s)" using assms(2) by (auto simp: ready_rows_def list_ex_iff)
  moreover from this have "rows_affected ?P (tasks s) \<noteq> 0" by (auto simp: list_ex_iff)
  ultimately show ?thesis
    using assms
    by (auto simp: claim_tail_def claim_update_def Let_def op_bind_def op_return_def insert_event_None
        claimed_def split: if_splits)
qed

lemma in_plan_keys: "mp \<in> set (plans s) \<Longrightarrow> (p_id mp, p_project mp) \<in> set (plan_keys s)"
  by (auto simp: plan_keys_def)

lemma in_conflicting_paths:
  "path \<in> set (conflicting_paths planID taskID s) \<longleftrightarrow>
    (\<exists>mine \<in> set (outputs s). \<exists>theirs \<in> set (outputs s).
       o_plan mine = planID \<and> o_task mine = taskID \<and> o_path mine = path \<and> o_path theirs = path \<and>
       \<not> (o_plan theirs = planID \<and> o_task theirs = taskID) \<and>
       same_project s planID (o_plan theirs) \<and> running_in s (o_plan theirs) (o_task theirs))"
  (is "?L \<longleftrightarrow> ?R")
proof
  assume ?L
  then obtain mine mp theirs tp holder where j: "mine \<in> set (outputs s)" "theirs \<in> set (outputs s)"
    "mp \<in> set (plans s)" "tp \<in> set (plans s)" "holder \<in> set (tasks s)"
    "o_plan mine = planID" "o_task mine = taskID" "o_path mine = path" "o_path theirs = path"
    "\<not> (o_plan theirs = planID \<and> o_task theirs = taskID)" "p_id mp = planID" "p_id tp = o_plan theirs"
    "p_project tp = p_project mp" "is_task (o_plan theirs) (o_task theirs) holder"
    "t_status holder = TaskStatusRunning"
    by (clarsimp simp: conflicting_paths_def split: if_splits) blast
  have "(planID, p_project mp) \<in> set (plan_keys s)" "(o_plan theirs, p_project mp) \<in> set (plan_keys s)"
    using j in_plan_keys [of mp s] in_plan_keys [of tp s] by simp_all
  then have "same_project s planID (o_plan theirs)" "running_in s (o_plan theirs) (o_task theirs)"
    using j by (auto simp: same_project_def running_in_def)
  then show ?R using j by blast
next
  assume ?R
  then obtain mine theirs mp tp holder where "mine \<in> set (outputs s)" "theirs \<in> set (outputs s)"
    "mp \<in> set (plans s)" "tp \<in> set (plans s)" "holder \<in> set (tasks s)"
    "o_plan mine = planID" "o_task mine = taskID" "o_path mine = path" "o_path theirs = path"
    "\<not> (o_plan theirs = planID \<and> o_task theirs = taskID)" "p_id mp = planID" "p_id tp = o_plan theirs"
    "p_project tp = p_project mp" "is_task (o_plan theirs) (o_task theirs) holder"
    "t_status holder = TaskStatusRunning"
    unfolding same_project_def plan_keys_def running_in_def by auto
  then show ?L unfolding conflicting_paths_def by (auto intro!: bexI)
qed

lemma claimed_inv:
  assumes "claimed planID taskID sessionID workerID s s'" and "store_inv s"
  shows "store_inv s'"
proof (rule evolves_inv [OF _ _ _ _ assms(2)])
  let ?P = "\<lambda>t. is_task planID taskID t \<and> claimable (t_status t)"
  show "list_all2 task_evolves (tasks s) (tasks s')"
    using assms(1) by (auto simp: claimed_def evolve_defs lifecycle_def claimable_def intro!: upd_where_all2)
  have run: "running_in s' p i \<Longrightarrow> running_in s p i \<or> p = planID \<and> i = taskID" for p i
    using assms(1) by (auto simp: claimed_def running_in_def split: if_splits)
  have free: "running_in s (o_plan b) (o_task b) \<Longrightarrow> same_project s planID (o_plan b) \<Longrightarrow>
      a \<in> set (outputs s) \<Longrightarrow> b \<in> set (outputs s) \<Longrightarrow> o_plan a = planID \<Longrightarrow> o_task a = taskID \<Longrightarrow>
      o_path a = o_path b \<Longrightarrow> o_plan b = planID \<and> o_task b = taskID" for a b
    using assms(1) in_conflicting_paths [of "o_path a" planID taskID s] unfolding claimed_def by force
  have plans: "same_project s' p q = same_project s p q" "outputs s' = outputs s" for p q
    using assms(1) by (auto simp: claimed_def same_project_def plan_keys_def)
  show "output_exclusive s'"
    unfolding output_exclusive_def plans
  proof (intro ballI impI, elim conjE)
    fix a b
    assume ab: "a \<in> set (outputs s)" "b \<in> set (outputs s)" "o_path a = o_path b"
      and sp: "same_project s (o_plan a) (o_plan b)"
      and ra: "running_in s' (o_plan a) (o_task a)" and rb: "running_in s' (o_plan b) (o_task b)"
    have sp': "same_project s (o_plan b) (o_plan a)" using sp by (auto simp: same_project_def)
    consider "running_in s (o_plan a) (o_task a)" "running_in s (o_plan b) (o_task b)"
      | "o_plan a = planID" "o_task a = taskID" "running_in s (o_plan b) (o_task b)"
      | "o_plan b = planID" "o_task b = taskID" "running_in s (o_plan a) (o_task a)"
      | "o_plan a = planID" "o_task a = taskID" "o_plan b = planID" "o_task b = taskID"
      using run [OF ra] run [OF rb] by blast
    then show "o_plan a = o_plan b \<and> o_task a = o_task b"
    proof cases
      case 1
      then show ?thesis using assms(2) ab sp by (auto simp: store_inv_def output_exclusive_def)
    next
      case 2
      then show ?thesis using free [of b a] ab sp by auto
    next
      case 3
      then show ?thesis using free [of a b] ab sp' by auto
    qed simp
  qed
qed (use assms(1) in \<open>auto simp: claimed_def plan_keys_def\<close>)

lemma claimed_keys: "claimed planID i sessionID workerID s s' \<Longrightarrow> task_keys s' = task_keys s"
  by (simp add: claimed_def task_keys_def map_upd_where)

lemma claimed_row:
  assumes "claimed planID i sessionID workerID s s'"
  obtains t' where "select_row (is_task planID i) (tasks s') = Some t'"
proof -
  from assms have "(planID, i) \<in> set (task_keys s')"
    by (subst claimed_keys [OF assms]) (auto simp: claimed_def ready_rows_def task_keys_def)
  then have "\<exists>t' \<in> set (tasks s'). is_task planID i t'" by (auto simp: task_keys_def)
  then show thesis using that by (metis (mono_tags, lifting) find_None_iff_all not_Some_eq)
qed

text \<open>Both claim operations run their transaction and then read the row back; the row is there.\<close>

lemma claim_op_cases:
  assumes "op_bind (in_tx body) (GetTask planID) s = (r, s')"
    and "\<And>i s1. body s = (Inr i, s1) \<Longrightarrow> claimed planID i sessionID workerID s s1"
  obtains (refused) e s1 where "r = Inl e" "s' = s" "body s = (Inl e, s1)"
        | (taken) i t' where "body s = (Inr i, s')" "claimed planID i sessionID workerID s s'"
            "select_row (is_task planID i) (tasks s') = Some t'" "r = Inr (scanTask t')"
proof (cases "body s")
  case (Pair r1 s1)
  show thesis
  proof (cases r1)
    case (Inl e)
    then show thesis using assms(1) Pair by (intro refused [of e s1]) (auto simp: op_bind_def in_tx_def)
  next
    case (Inr i)
    then have c: "claimed planID i sessionID workerID s s1" using assms(2) Pair by simp
    then obtain t' where t': "select_row (is_task planID i) (tasks s1) = Some t'"
      by (rule claimed_row)
    then have "r = Inr (scanTask t')" "s' = s1"
      using assms(1) Pair Inr by (auto simp: op_bind_def in_tx_def GetTask_def)
    then show thesis using taken [of i t'] c t' Pair Inr by simp
  qed
qed

lemma candidates_in_ready:
  "t \<in> set (claim_candidates planID s) \<longleftrightarrow>
     t \<in> set (ready_rows planID s) \<and> conflicting_paths planID (t_id t) s = []"
  by (auto simp: claim_candidates_def ready_rows_def)

lemma next_body_claimed:
  assumes "(case claim_candidates planID s of [] \<Rightarrow> (Inl ErrNoReadyTask, s)
     | t # _ \<Rightarrow> claim_tail planID (t_id t) sessionID workerID s) = (Inr i, s1)"
  shows "claimed planID i sessionID workerID s s1 \<and> claim_candidates planID s \<noteq> [] \<and>
         i = t_id (hd (claim_candidates planID s))"
proof (cases "claim_candidates planID s")
  case (Cons t ts)
  then have "t \<in> set (claim_candidates planID s)" by simp
  then have "\<exists>u \<in> set (ready_rows planID s). t_id u = t_id t" "conflicting_paths planID (t_id t) s = []"
    by (auto simp: candidates_in_ready)
  from claim_tail_cases [OF _ this] assms Cons show ?thesis by force
qed (use assms in simp)

lemma once_body_claimed:
  assumes "(case select_row (\<lambda>t. t_id t = taskID) (ready_rows planID s) of None \<Rightarrow> (Inl ErrNoReadyTask, s)
     | Some t \<Rightarrow> let conflict = outputReservationConflict planID (t_id t) s in
         if conflict \<noteq> [] then (Inl (ErrOutputReserved conflict), s)
         else claim_tail planID (t_id t) sessionID workerID s) = (Inr i, s1)"
    and "ref_inv s"
  shows "claimed planID i sessionID workerID s s1 \<and> i = taskID"
proof (cases "select_row (\<lambda>t. t_id t = taskID) (ready_rows planID s)")
  case (Some t)
  then have t: "t \<in> set (ready_rows planID s)" "t_id t = taskID" by (auto dest: find_SomeD)
  have "outputReservationConflict planID taskID s = []"
    using assms(1) Some t by (auto simp: Let_def split: if_splits)
  then have "conflicting_paths planID taskID s = []"
  proof (cases "conflicting_paths planID taskID s")
    case (Cons path ps)
    then have "path \<in> set (conflicting_paths planID taskID s)" by simp
    then have "path \<noteq> []" using assms(2) by (auto simp: in_conflicting_paths ref_inv_def)
    then show ?thesis
      using Cons \<open>outputReservationConflict planID taskID s = []\<close> by (simp add: outputReservationConflict_def)
  qed
  then show ?thesis
    using claim_tail_cases [of planID taskID sessionID workerID s "Inr i" s1] assms(1) Some t
    by (auto simp: Let_def split: if_splits)
qed (use assms in simp)

lemma ClaimNextReady_cases:
  assumes "ClaimNextReady planID sessionID workerID s = (r, s')"
  obtains (refused) e where "r = Inl e" "s' = s"
        | (taken) t' where "claim_candidates planID s \<noteq> []"
            "claimed planID (t_id (hd (claim_candidates planID s))) sessionID workerID s s'"
            "select_row (is_task planID (t_id (hd (claim_candidates planID s)))) (tasks s') = Some t'"
            "r = Inr (scanTask t')"
proof (rule claim_op_cases [OF assms [unfolded ClaimNextReady_def], of sessionID workerID], goal_cases)
  case (1 i s1)
  then show ?case using next_body_claimed by blast
next
  case (2 e s1)
  then show ?case by (intro refused)
next
  case (3 i t')
  then show ?case using next_body_claimed taken by blast
qed

lemma ClaimTask_cases:
  assumes "ClaimTask planID taskID sessionID workerID s = (r, s')" and "ref_inv s"
  obtains (refused) e where "r = Inl e" "s' = s"
        | (taken) t' where "claimed planID taskID sessionID workerID s s'"
            "select_row (is_task planID taskID) (tasks s') = Some t'" "r = Inr (scanTask t')"
proof (rule claim_op_cases [OF assms(1) [unfolded ClaimTask_def claimTaskOnce_def], of sessionID workerID],
    goal_cases)
  case (1 i s1)
  then show ?case using once_body_claimed [OF _ assms(2)] by blast
next
  case (2 e s1)
  then show ?case by (intro refused)
next
  case (3 i t')
  then show ?case using once_body_claimed [OF _ assms(2)] taken by blast
qed

lemma ClaimNextReady_inv:
  assumes "store_inv s"
  shows "store_inv (snd (ClaimNextReady planID sessionID workerID s))"
proof (cases "ClaimNextReady planID sessionID workerID s")
  case (Pair r s')
  then show ?thesis by (cases rule: ClaimNextReady_cases) (use assms claimed_inv Pair in auto)
qed

lemma ClaimTask_inv:
  assumes "store_inv s"
  shows "store_inv (snd (ClaimTask planID taskID sessionID workerID s))"
proof (cases "ClaimTask planID taskID sessionID workerID s")
  case (Pair r s')
  have "ref_inv s" using assms by (simp add: store_inv_def)
  with Pair show ?thesis by (cases rule: ClaimTask_cases) (use assms claimed_inv Pair in auto)
qed

section \<open>Nodes, edges, reservations and plans\<close>

lemma createTaskOn_cases:
  assumes "createTaskOn opts s = (r, s')"
  obtains (refused) e where "r = Inl e" "s' = s"
        | (created) "r = Inr ()" "s' = s\<lparr>tasks := tasks s @ [new_task_row opts s]\<rparr>"
            "\<not> task_exists (ct_PlanID opts) (ct_ID opts) s" "plan_exists (ct_PlanID opts) s"
  using assms by (auto simp: createTaskOn_def split: if_splits)

lemma new_row_not_running [simp]:
  "t_status (new_task_row opts s) \<noteq> TaskStatusRunning" "unclaimed_ok (new_task_row opts s)"
  "t_plan (new_task_row opts s) = ct_PlanID opts" "t_id (new_task_row opts s) = ct_ID opts"
  by (auto simp: new_task_row_def unclaimed_ok_def)

lemma add_task_inv:
  assumes "store_inv s" and "\<not> task_exists (ct_PlanID opts) (ct_ID opts) s" "plan_exists (ct_PlanID opts) s"
  shows "store_inv (s\<lparr>tasks := tasks s @ [new_task_row opts s]\<rparr>)"
proof -
  let ?s = "s\<lparr>tasks := tasks s @ [new_task_row opts s]\<rparr>"
  have keys: "task_keys ?s = task_keys s @ [(ct_PlanID opts, ct_ID opts)]" "plan_keys ?s = plan_keys s"
    by (simp_all add: task_keys_def plan_keys_def)
  have "running_in ?s p i = running_in s p i" for p i by (auto simp: running_in_def)
  then have "output_exclusive ?s"
    using assms(1) by (simp add: store_inv_def output_exclusive_def same_project_def keys)
  moreover have "ref_inv ?s"
    using assms(1,3) by (auto simp: inv_defs keys plan_exists_keys)
  ultimately show ?thesis
    using assms by (auto simp: inv_defs keys graph_acyclic_def task_exists_keys)
qed

lemma createTaskOn_inv: "store_inv s \<Longrightarrow> store_inv (snd (createTaskOn opts s))"
proof (cases "createTaskOn opts s")
  case (Pair r s')
  then show "store_inv s \<Longrightarrow> ?thesis"
    by (cases rule: createTaskOn_cases) (use Pair in \<open>auto intro: add_task_inv\<close>)
qed

lemma createPlanOn_inv:
  assumes "store_inv s"
  shows "store_inv (snd (createPlanOn uuid opts s))"
proof (cases "createPlanOn uuid opts s")
  case (Pair r s')
  have "s' = s \<or> (\<exists>row. s' = s\<lparr>plans := plans s @ [row]\<rparr> \<and> p_id row = uuid \<and> \<not> plan_exists uuid s)"
    using Pair by (auto simp: createPlanOn_def split: if_splits)
  then show ?thesis
  proof
    assume "\<exists>row. s' = s\<lparr>plans := plans s @ [row]\<rparr> \<and> p_id row = uuid \<and> \<not> plan_exists uuid s"
    then obtain row where row: "s' = s\<lparr>plans := plans s @ [row]\<rparr>" "p_id row = uuid" "\<not> plan_exists uuid s"
      by blast
    have keys: "plan_keys s' = plan_keys s @ [(uuid, p_project row)]" "task_keys s' = task_keys s"
      "tasks s' = tasks s" "outputs s' = outputs s" "deps s' = deps s"
      using row by (simp_all add: plan_keys_def task_keys_def)
    have old: "o_plan a \<in> fst ` set (plan_keys s)" if "a \<in> set (outputs s)" for a
      using assms that by (force simp: inv_defs task_keys_def)
    have "same_project s' (o_plan a) (o_plan b) = same_project s (o_plan a) (o_plan b)"
      if "a \<in> set (outputs s)" "b \<in> set (outputs s)" for a b
      using old [OF that(1)] old [OF that(2)] row(3) by (auto simp: same_project_def keys plan_exists_keys)
    then have "output_exclusive s'"
      using assms unfolding store_inv_def output_exclusive_def running_in_def keys by blast
    moreover have "ref_inv s'" using assms by (auto simp: inv_defs keys)
    ultimately show ?thesis
      using assms row(3) Pair by (auto simp: inv_defs keys graph_acyclic_def plan_exists_keys)
  qed (use assms Pair in auto)
qed

lemma addDepOn_inv:
  assumes "store_inv s"
  shows "store_inv (snd (addDepOn planID taskID dependsOn s))"
proof (cases "addDepOn planID taskID dependsOn s")
  case (Pair r s')
  show ?thesis
  proof (cases r)
    case (Inl e)
    then have "s' = s" using Pair by (auto simp: addDepOn_def split: if_splits)
    then show ?thesis using assms Pair by simp
  next
    case (Inr u)
    then have ok: "addDepOn planID taskID dependsOn s = (Inr (), s')" using Pair by simp
    note d = addDepOn_ok [OF ok]
    have "graph_acyclic s'" using addDepOn_acyclic [of s planID taskID dependsOn] assms Pair
      by (simp add: store_inv_def)
    then show ?thesis
      using assms d unfolding Pair
      by (auto simp: inv_defs task_keys_def plan_keys_def output_exclusive_def same_project_def
          running_in_def task_exists_keys)
  qed
qed

lemma reserve_cases:
  assumes "reserveTaskOutputOn planID taskID path mode s = (r, s')"
  obtains (refused) e where "r = Inl e" "s' = s"
        | (reserved) "r = Inr ()" "canonicalReservationPath path \<noteq> []" "task_exists planID taskID s"
            "s' = s\<lparr>outputs := outputs s @ [\<lparr>o_plan = planID, o_task = taskID,
               o_path = canonicalReservationPath path, o_mode = ''exclusive''\<rparr>]\<rparr>"
proof (cases r)
  case (Inl e)
  then have "s' = s" using assms by (auto simp: reserveTaskOutputOn_def Let_def split: if_splits)
  with Inl show thesis by (rule refused)
next
  case (Inr u)
  with assms have "canonicalReservationPath path \<noteq> []" "task_exists planID taskID s"
    "s' = s\<lparr>outputs := outputs s @ [\<lparr>o_plan = planID, o_task = taskID,
               o_path = canonicalReservationPath path, o_mode = ''exclusive''\<rparr>]\<rparr>"
    by (auto simp: reserveTaskOutputOn_def Let_def split: if_splits)
  with Inr show thesis by (intro reserved) auto
qed

text \<open>A reservation of a task that is not running cannot create a clash.\<close>

lemma reserveTaskOutputOn_inv:
  assumes "store_inv s" and "\<not> running_in s planID taskID"
  shows "store_inv (snd (reserveTaskOutputOn planID taskID path mode s))"
proof (cases "reserveTaskOutputOn planID taskID path mode s")
  case (Pair r s')
  then show ?thesis
  proof (cases rule: reserve_cases)
    case reserved
    then have keys: "task_keys s' = task_keys s" "plan_keys s' = plan_keys s" "tasks s' = tasks s"
      "deps s' = deps s" by (simp_all add: task_keys_def plan_keys_def)
    have "output_exclusive s'"
      using assms reserved(4)
      by (auto simp: store_inv_def output_exclusive_def same_project_def running_in_def plan_keys_def)
    moreover have "ref_inv s'"
      using assms reserved by (auto simp: inv_defs task_keys_def plan_keys_def task_exists_keys)
    ultimately show ?thesis
      using assms Pair by (simp add: inv_defs keys graph_acyclic_def)
  qed (use assms Pair in simp)
qed

lemma ClaimNextReady_kind:
  "snd (ClaimNextReady planID sessionID workerID s) = s \<or>
   (\<exists>i. claimed planID i sessionID workerID s (snd (ClaimNextReady planID sessionID workerID s)))"
proof (cases "ClaimNextReady planID sessionID workerID s")
  case (Pair r s')
  then show ?thesis by (cases rule: ClaimNextReady_cases) (use Pair in auto)
qed

lemma ClaimTask_kind:
  assumes "ref_inv s"
  shows "snd (ClaimTask planID taskID sessionID workerID s) = s \<or>
     claimed planID taskID sessionID workerID s (snd (ClaimTask planID taskID sessionID workerID s))"
proof (cases "ClaimTask planID taskID sessionID workerID s")
  case (Pair r s')
  then show ?thesis using assms by (cases rule: ClaimTask_cases) (use Pair in auto)
qed

end
