(* ===== verification/Store_Registry.thy ===== *)
theory Store_Registry
  imports Store_Lifecycle
begin

text \<open>
  Project identity and configuration of \<open>internal/store\<close>: \<open>projects.go\<close> and \<open>config.go\<close>.  A project is
  known by the fingerprints it has accumulated; a fingerprint belongs to one project and is never
  taken over by another.
\<close>

section \<open>Fingerprints\<close>

record Fingerprint =
  fp_Kind :: string
  fp_Value :: string

abbreviation is_identifier :: "Fingerprint \<Rightarrow> identifier_row \<Rightarrow> bool" where
  "is_identifier fp r \<equiv> pi_kind r = fp_Kind fp \<and> pi_value r = fp_Value fp"

definition blank_fp :: "Fingerprint \<Rightarrow> bool" where
  "blank_fp fp \<longleftrightarrow> fp_Kind fp = [] \<or> fp_Value fp = []"

fun ResolveProject :: "Fingerprint list \<Rightarrow> store \<Rightarrow> ident \<times> bool" where
  "ResolveProject [] s = ([], False)"
| "ResolveProject (fp # fps) s =
    (if blank_fp fp then ResolveProject fps s
     else case select_row (is_identifier fp) (identifiers s) of
            Some r \<Rightarrow> (pi_project r, True)
          | None \<Rightarrow> ResolveProject fps s)"

text \<open>The guarded upsert: a new fingerprint is inserted, one of the same project gets a new
  \<open>added_at\<close>, one of another project is left alone.\<close>

definition upsert_identifier :: "ident \<Rightarrow> seconds \<Rightarrow> Fingerprint \<Rightarrow> unit op" where
  "upsert_identifier projectID addedAt fp s =
    (if blank_fp fp then (Inr (), s)
     else if list_ex (is_identifier fp) (identifiers s)
     then (Inr (), s\<lparr>identifiers := upd_where (\<lambda>r. is_identifier fp r \<and> pi_project r = projectID)
              (\<lambda>r. r\<lparr>pi_added := addedAt\<rparr>) (identifiers s)\<rparr>)
     else if \<not> project_exists projectID s then (Inl (ErrConstraint ForeignKeyC), s)
     else (Inr (), s\<lparr>identifiers := identifiers s @
              [\<lparr>pi_project = projectID, pi_kind = fp_Kind fp, pi_value = fp_Value fp, pi_added = addedAt\<rparr>]\<rparr>))"

definition insertIdentifiers :: "ident \<Rightarrow> Fingerprint list \<Rightarrow> seconds \<Rightarrow> unit op" where
  "insertIdentifiers projectID fps addedAt = op_each (upsert_identifier projectID addedAt) fps"

definition CreateProject :: "ident \<Rightarrow> string \<Rightarrow> Fingerprint list \<Rightarrow> ident op" where
  "CreateProject uuid displayName fps = in_tx (\<lambda>s.
    if project_exists uuid s then (Inl (ErrConstraint UniqueC), s)
    else op_bind (insertIdentifiers uuid fps (now_of s)) (\<lambda>_. op_return uuid)
           (s\<lparr>projects := projects s @ [\<lparr>pr_id = uuid, pr_display_name = nullIfEmpty displayName,
                pr_created = now_of s, pr_updated = now_of s, pr_last_seen = Some (now_of s)\<rparr>]\<rparr>))"

definition AddProjectIdentifiers :: "ident \<Rightarrow> Fingerprint list \<Rightarrow> unit op" where
  "AddProjectIdentifiers projectID fps =
    (if projectID = [] then op_fail (ErrRequired ''projectID'')
     else in_tx (\<lambda>s. insertIdentifiers projectID fps (now_of s) s))"

text \<open>The \<open>projects_updated_at\<close> trigger stamps the row.\<close>

definition TouchProjectLastSeen :: "ident \<Rightarrow> unit op" where
  "TouchProjectLastSeen projectID s =
    (Inr (), s\<lparr>projects := upd_where (\<lambda>p. pr_id p = projectID)
       (\<lambda>p. p\<lparr>pr_last_seen := Some (now_of s), pr_updated := now_of s\<rparr>) (projects s)\<rparr>)"

text \<open>\<open>ORDER BY added_at DESC, rowid DESC LIMIT 1\<close>: the last of the rows with the latest stamp, rows
  standing in insertion order.\<close>

definition ProjectAbsPath :: "ident \<Rightarrow> store \<Rightarrow> string \<times> bool" where
  "ProjectAbsPath projectID s =
    (case rev (order_by pi_added (filter (\<lambda>r. pi_project r = projectID \<and> pi_kind r = ''abs_path'') (identifiers s))) of
       [] \<Rightarrow> ([], False) | r # _ \<Rightarrow> (pi_value r, True))"

section \<open>Configuration\<close>

definition GetProjectConfig :: "ident \<Rightarrow> store \<Rightarrow> (string \<rightharpoonup> string)" where
  "GetProjectConfig projectID s =
    fold (\<lambda>r out. out(cf_key r \<mapsto> cf_value r)) (filter (\<lambda>r. cf_project r = projectID) (config s)) Map.empty"

definition delete_config :: "ident \<Rightarrow> string \<Rightarrow> store \<Rightarrow> store" where
  "delete_config projectID key s =
    s\<lparr>config := filter (\<lambda>r. \<not> (cf_project r = projectID \<and> cf_key r = key)) (config s)\<rparr>"

definition upsert_config :: "ident \<Rightarrow> string \<times> string \<Rightarrow> unit op" where
  "upsert_config projectID kv s =
    (let P = (\<lambda>r. cf_project r = projectID \<and> cf_key r = fst kv) in
     if list_ex P (config s)
     then (Inr (), s\<lparr>config := upd_where P (\<lambda>r. r\<lparr>cf_value := snd kv, cf_updated := now_of s\<rparr>) (config s)\<rparr>)
     else if \<not> project_exists projectID s then (Inl (ErrConstraint ForeignKeyC), s)
     else (Inr (), s\<lparr>config := config s @
             [\<lparr>cf_project = projectID, cf_key = fst kv, cf_value = snd kv, cf_updated = now_of s\<rparr>]\<rparr>))"

text \<open>The Go map of upserts is given as an association list with distinct keys; both loops run in
  sorted key order, deletes first.\<close>

definition ApplyProjectConfig :: "ident \<Rightarrow> (string \<times> string) list \<Rightarrow> string list \<Rightarrow> unit op" where
  "ApplyProjectConfig projectID upserts deleteKeys =
    (if projectID = [] then op_fail (ErrRequired ''projectID'')
     else if list_ex (\<lambda>kv. fst kv = []) upserts then op_fail (ErrRequired ''config upsert key'')
     else if list_ex (\<lambda>k. k = []) deleteKeys then op_fail (ErrRequired ''config delete key'')
     else in_tx (\<lambda>s. op_each (upsert_config projectID) (sort_key fst upserts)
            (fold (delete_config projectID) (sort deleteKeys) s)))"

definition SetProjectConfig :: "ident \<Rightarrow> string \<Rightarrow> string \<Rightarrow> unit op" where
  "SetProjectConfig projectID key value = ApplyProjectConfig projectID [(key, value)] []"

end
