(* ===== verification/Store_Evidence.thy ===== *)
theory Store_Evidence
  imports Store_Lifecycle
begin

text \<open>
  Recorded observations of \<open>internal/store\<close>: provider calibrations and their attempts
  (\<open>calibrations.go\<close>), the Stop-hook verdicts (\<open>hook_sessions.go\<close>, \<open>hook_verifications.go\<close>), spend
  (\<open>spend.go\<close>), the A2A message log (\<open>a2a.go\<close>) and the operator's paged view of it
  (\<open>operator_messages.go\<close>).
\<close>

section \<open>Calibrations\<close>

record ProviderCalibration =
  pc_ID :: ident
  pc_Alias :: string
  pc_Provider :: string
  pc_Model :: string
  pc_Effort :: string
  pc_BinaryPath :: string
  pc_BinaryVersion :: string
  pc_BinarySHA256 :: string
  pc_InvocationHash :: string
  pc_InferenceDomain :: string
  pc_ControlDomain :: string
  pc_IndependenceDomain :: string
  pc_ModelDigest :: string
  pc_CapabilitiesJSON :: string
  pc_EvidenceJSON :: string

text \<open>The identity fields that the content address covers, in the order they are encoded.  The
  address itself is SHA-256 of their JSON encoding, the parameter \<open>digest\<close>.\<close>

definition calibration_identity :: "ProviderCalibration \<Rightarrow> string list" where
  "calibration_identity c = [pc_Alias c, pc_Provider c, pc_Model c, pc_Effort c, pc_BinaryPath c,
     pc_BinaryVersion c, pc_BinarySHA256 c, pc_InvocationHash c, pc_InferenceDomain c,
     pc_ControlDomain c, pc_IndependenceDomain c, pc_ModelDigest c]"

definition contentAddress :: "(string list \<Rightarrow> ident) \<Rightarrow> ProviderCalibration \<Rightarrow> ident" where
  "contentAddress digest c = digest (calibration_identity c)"

definition scanCalibration :: "calibration_row \<Rightarrow> ProviderCalibration" where
  "scanCalibration r = \<lparr>pc_ID = c_id r, pc_Alias = c_alias r, pc_Provider = c_provider r,
     pc_Model = c_model r, pc_Effort = c_effort r, pc_BinaryPath = c_binary_path r,
     pc_BinaryVersion = c_binary_version r, pc_BinarySHA256 = c_binary_sha256 r,
     pc_InvocationHash = c_invocation_hash r, pc_InferenceDomain = c_inference_domain r,
     pc_ControlDomain = c_control_domain r, pc_IndependenceDomain = c_independence_domain r,
     pc_ModelDigest = coalesce (c_model_digest r), pc_CapabilitiesJSON = c_capabilities r,
     pc_EvidenceJSON = c_evidence r\<rparr>"

definition GetCalibrationByAlias :: "string \<Rightarrow> ProviderCalibration op" where
  "GetCalibrationByAlias alias s =
    (case select_row (\<lambda>r. c_alias r = alias) (calibrations s) of
       None \<Rightarrow> (Inl ErrCalibrationNotFound, s) | Some r \<Rightarrow> (Inr (scanCalibration r), s))"

definition calibration_row_of :: "ident \<Rightarrow> ProviderCalibration \<Rightarrow> seconds \<Rightarrow> calibration_row" where
  "calibration_row_of i c now = \<lparr>c_id = i, c_alias = pc_Alias c, c_provider = pc_Provider c,
     c_model = pc_Model c, c_effort = pc_Effort c, c_binary_path = pc_BinaryPath c,
     c_binary_version = pc_BinaryVersion c, c_binary_sha256 = pc_BinarySHA256 c,
     c_invocation_hash = pc_InvocationHash c, c_inference_domain = pc_InferenceDomain c,
     c_control_domain = pc_ControlDomain c, c_independence_domain = pc_IndependenceDomain c,
     c_model_digest = nullIfEmpty (pc_ModelDigest c), c_capabilities = pc_CapabilitiesJSON c,
     c_evidence = pc_EvidenceJSON c, c_created = now\<rparr>"

text \<open>After the insert failed on a unique key the row is read again by its alias.\<close>

definition RecordCalibration :: "(string list \<Rightarrow> ident) \<Rightarrow> ProviderCalibration \<Rightarrow> ProviderCalibration op" where
  "RecordCalibration digest c0 s =
    (if pc_Alias c0 = [] \<or> pc_Provider c0 = [] \<or> pc_InvocationHash c0 = []
     then (Inl (ErrRequired ''alias, provider, and invocation hash''), s)
     else let i = contentAddress digest c0; c = c0\<lparr>pc_ID := i\<rparr> in
       case GetCalibrationByAlias (pc_Alias c) s of
         (Inr existing, _) \<Rightarrow>
           if pc_ID existing = i then (Inr existing, s) else (Inl (ErrCalibrationConflict (pc_Alias c)), s)
       | (Inl _, _) \<Rightarrow>
           if list_ex (\<lambda>r. c_id r = i) (calibrations s) then (Inl ErrCalibrationNotFound, s)
           else (Inr c, s\<lparr>calibrations := calibrations s @ [calibration_row_of i c (now_of s)]\<rparr>))"

definition ListCalibrations :: "store \<Rightarrow> ProviderCalibration list" where
  "ListCalibrations s = map scanCalibration (order_by c_alias (calibrations s))"

record CalibrationAttempt =
  ca_PlanID :: ident
  ca_TaskID :: ident
  ca_AttemptSequence :: int
  ca_Repetition :: int
  ca_Alias :: string
  ca_Provider :: string
  ca_Model :: string
  ca_Effort :: string
  ca_SessionID :: ident
  ca_ProviderSessionID :: string
  ca_AssistantOutputSHA256 :: string

definition RecordCalibrationAttempt :: "CalibrationAttempt \<Rightarrow> unit op" where
  "RecordCalibrationAttempt a =
    (if ca_PlanID a = [] \<or> ca_TaskID a = [] then op_fail (ErrRequired ''plan and task'')
     else if ca_AttemptSequence a \<le> 0 \<or> ca_Repetition a \<le> 0
     then op_fail (ErrRequired ''positive attempt sequence and repetition'')
     else if ca_AssistantOutputSHA256 a = [] then op_fail (ErrRequired ''output digest'')
     else in_tx (\<lambda>s.
       case select_row (is_task (ca_PlanID a) (ca_TaskID a)) (tasks s) of
         None \<Rightarrow> (Inl ErrTaskNotOwnedRunning, s)
       | Some t \<Rightarrow>
           if t_status t \<noteq> TaskStatusRunning \<or> coalesce (t_session t) \<noteq> ca_SessionID a
           then (Inl ErrTaskNotOwnedRunning, s)
           else if list_ex (\<lambda>r. a_plan r = ca_PlanID a \<and> a_task r = ca_TaskID a \<and>
                     a_sequence r = ca_AttemptSequence a \<and> a_repetition r = ca_Repetition a) (attempts s)
           then (Inl (ErrConstraint UniqueC), s)
           else (Inr (), s\<lparr>attempts := attempts s @
             [\<lparr>a_plan = ca_PlanID a, a_task = ca_TaskID a, a_sequence = ca_AttemptSequence a,
               a_repetition = ca_Repetition a, a_alias = ca_Alias a, a_provider = ca_Provider a,
               a_model = ca_Model a, a_effort = ca_Effort a, a_session = ca_SessionID a,
               a_provider_session = nullIfEmpty (ca_ProviderSessionID a),
               a_output_sha256 = ca_AssistantOutputSHA256 a, a_created = now_of s\<rparr>]\<rparr>)))"

definition scanAttempt :: "attempt_row \<Rightarrow> CalibrationAttempt" where
  "scanAttempt r = \<lparr>ca_PlanID = a_plan r, ca_TaskID = a_task r, ca_AttemptSequence = a_sequence r,
     ca_Repetition = a_repetition r, ca_Alias = a_alias r, ca_Provider = a_provider r,
     ca_Model = a_model r, ca_Effort = a_effort r, ca_SessionID = a_session r,
     ca_ProviderSessionID = coalesce (a_provider_session r), ca_AssistantOutputSHA256 = a_output_sha256 r\<rparr>"

definition ListCalibrationAttempts :: "ident \<Rightarrow> ident \<Rightarrow> store \<Rightarrow> CalibrationAttempt list" where
  "ListCalibrationAttempts planID taskID s = map scanAttempt
     (order_by (\<lambda>r. (a_sequence r, a_repetition r))
       (filter (\<lambda>r. a_plan r = planID \<and> a_task r = taskID) (attempts s)))"

section \<open>Stop-hook verdicts\<close>

record HookTask =
  ht_PlanID :: ident
  ht_TaskID :: ident
  ht_WorkerID :: ident
  ht_Provider :: string

definition RunningHookTasks :: "ident \<Rightarrow> HookTask list op" where
  "RunningHookTasks sessionID s =
    (if sessionID = [] then (Inl (ErrRequired ''hook session id''), s)
     else (Inr (map (\<lambda>tm. \<lparr>ht_PlanID = t_plan (fst tm), ht_TaskID = t_id (fst tm),
                ht_WorkerID = coalesce (t_worker (fst tm)), ht_Provider = coalesce (md_provider (snd tm))\<rparr>)
            (order_by (\<lambda>tm. (t_plan (fst tm), t_id (fst tm)))
              [(t, m). t \<leftarrow> tasks s, t_status t = TaskStatusRunning \<and> t_session t = Some sessionID,
                       m \<leftarrow> metadata s, is_metadata (t_plan t) (t_id t) m \<and> md_session m = Some sessionID])), s))"

text \<open>The EXISTS of both writes: the session still runs the task and its metadata names it.\<close>

definition hook_owner :: "ident \<Rightarrow> ident \<Rightarrow> ident \<Rightarrow> store \<Rightarrow> bool" where
  "hook_owner sessionID planID taskID s \<longleftrightarrow>
     list_ex (\<lambda>t. owned_running planID taskID sessionID t \<and>
       list_ex (\<lambda>m. is_metadata planID taskID m \<and> md_session m = Some sessionID) (metadata s)) (tasks s)"

abbreviation is_hook :: "ident \<Rightarrow> ident \<Rightarrow> ident \<Rightarrow> hook_row \<Rightarrow> bool" where
  "is_hook sessionID planID taskID h \<equiv> h_session h = sessionID \<and> h_plan h = planID \<and> h_task h = taskID"

definition HookVerificationStates :: "ident \<Rightarrow> store \<Rightarrow> (ident \<times> ident \<rightharpoonup> HookVerificationState)" where
  "HookVerificationStates sessionID s =
    fold (\<lambda>h out. out((h_plan h, h_task h) \<mapsto> h_state h)) (filter (\<lambda>h. h_session h = sessionID) (hooks s)) Map.empty"

definition SetHookVerificationPending :: "ident \<Rightarrow> ident \<Rightarrow> ident \<Rightarrow> bool op" where
  "SetHookVerificationPending sessionID planID taskID s =
    (if \<not> hook_owner sessionID planID taskID s then (Inr False, s)
     else if list_ex (is_hook sessionID planID taskID) (hooks s)
     then (Inr True, s\<lparr>hooks := upd_where (is_hook sessionID planID taskID)
             (\<lambda>h. h\<lparr>h_state := HookVerificationPending, h_updated := clock s\<rparr>) (hooks s)\<rparr>)
     else if \<not> session_exists sessionID s then (Inl (ErrConstraint ForeignKeyC), s)
     else (Inr True, s\<lparr>hooks := hooks s @
             [\<lparr>h_session = sessionID, h_plan = planID, h_task = taskID,
               h_state = HookVerificationPending, h_updated = clock s\<rparr>]\<rparr>))"

definition SetHookVerificationResult :: "ident \<Rightarrow> ident \<Rightarrow> ident \<Rightarrow> bool \<Rightarrow> unit op" where
  "SetHookVerificationResult sessionID planID taskID passed s =
    (Inr (), s\<lparr>hooks := upd_where (\<lambda>h. is_hook sessionID planID taskID h \<and> hook_owner sessionID planID taskID s)
       (\<lambda>h. h\<lparr>h_state := (if passed then HookVerificationPassed else HookVerificationFailed), h_updated := clock s\<rparr>)
       (hooks s)\<rparr>)"

definition InvalidateHookVerifications :: "ident \<Rightarrow> unit op" where
  "InvalidateHookVerifications sessionID s =
    (Inr (), s\<lparr>hooks := filter (\<lambda>h. h_session h \<noteq> sessionID) (hooks s)\<rparr>)"

definition ClearHookVerification :: "ident \<Rightarrow> ident \<Rightarrow> ident \<Rightarrow> unit op" where
  "ClearHookVerification sessionID planID taskID s =
    (Inr (), s\<lparr>hooks := filter (\<lambda>h. \<not> is_hook sessionID planID taskID h) (hooks s)\<rparr>)"

section \<open>Spend\<close>

record RecordSpendOpts =
  rs_ProjectID :: ident
  rs_WorkerID :: ident
  rs_Provider :: string
  rs_Model :: string
  rs_InputTokens :: int
  rs_OutputTokens :: int
  rs_CachedTokens :: int
  rs_Cost :: int

definition RecordSpend :: "RecordSpendOpts \<Rightarrow> unit op" where
  "RecordSpend opts s =
    (if rs_ProjectID opts = [] \<or> rs_Provider opts = [] then (Inl (ErrRequired ''ProjectID and Provider''), s)
     else if \<not> project_exists (rs_ProjectID opts) s \<or>
             \<not> (rs_WorkerID opts = [] \<or> worker_exists (rs_WorkerID opts) s)
     then (Inl (ErrConstraint ForeignKeyC), s)
     else (Inr (), s\<lparr>spend := spend s @
       [\<lparr>sp_id = spend_seq s + 1, sp_project = Some (rs_ProjectID opts),
         sp_worker = nullIfEmpty (rs_WorkerID opts), sp_provider = rs_Provider opts,
         sp_model = nullIfEmpty (rs_Model opts), sp_input = rs_InputTokens opts,
         sp_output = rs_OutputTokens opts, sp_cached = rs_CachedTokens opts,
         sp_cost = rs_Cost opts, sp_at = now_of s\<rparr>], spend_seq := spend_seq s + 1\<rparr>))"

definition provider_total :: "ident \<Rightarrow> string \<Rightarrow> store \<Rightarrow> int" where
  "provider_total projectID provider s =
    sum_list (map sp_cost (filter (\<lambda>r. sp_project r = Some projectID \<and> sp_provider r = provider) (spend s)))"

definition ProjectSpendByProvider :: "ident \<Rightarrow> store \<Rightarrow> (string \<rightharpoonup> int)" where
  "ProjectSpendByProvider projectID s =
    map_of (map (\<lambda>provider. (provider, provider_total projectID provider s))
      (remdups (map sp_provider (filter (\<lambda>r. sp_project r = Some projectID) (spend s)))))"

section \<open>A2A messages\<close>

record A2AMessage =
  am_ID :: int
  am_WorkerID :: ident
  am_PlanID :: ident
  am_TaskID :: ident
  am_Role :: string
  am_ContentJSON :: string
  am_OccurredAt :: seconds

record AppendMessageOpts =
  ao_WorkerID :: ident
  ao_PlanID :: ident
  ao_TaskID :: ident
  ao_Role :: string
  ao_ContentJSON :: string

definition AppendMessage :: "AppendMessageOpts \<Rightarrow> unit op" where
  "AppendMessage opts s =
    (if ao_PlanID opts = [] \<or> ao_TaskID opts = [] \<or> ao_Role opts = [] \<or> ao_ContentJSON opts = []
     then (Inl (ErrRequired ''PlanID, TaskID, Role, and ContentJSON''), s)
     else if \<not> task_exists (ao_PlanID opts) (ao_TaskID opts) s \<or>
             \<not> (ao_WorkerID opts = [] \<or> worker_exists (ao_WorkerID opts) s)
     then (Inl (ErrConstraint ForeignKeyC), s)
     else (Inr (), s\<lparr>messages := messages s @
       [\<lparr>m_id = message_seq s + 1, m_worker = nullIfEmpty (ao_WorkerID opts), m_plan = ao_PlanID opts,
         m_task = ao_TaskID opts, m_role = ao_Role opts, m_content = ao_ContentJSON opts,
         m_at = now_of s\<rparr>], message_seq := message_seq s + 1\<rparr>))"

definition ListMessages :: "ident \<Rightarrow> ident \<Rightarrow> store \<Rightarrow> A2AMessage list" where
  "ListMessages planID taskID s = map (\<lambda>m. \<lparr>am_ID = m_id m, am_WorkerID = coalesce (m_worker m),
       am_PlanID = m_plan m, am_TaskID = m_task m, am_Role = m_role m, am_ContentJSON = m_content m,
       am_OccurredAt = m_at m\<rparr>)
     (order_by (\<lambda>m. (m_at m, m_id m)) (filter (\<lambda>m. m_plan m = planID \<and> m_task m = taskID) (messages s)))"

section \<open>The operator's page of messages\<close>

record OperatorMessageQuery =
  oq_ProjectID :: ident
  oq_PlanID :: ident
  oq_TaskID :: ident
  oq_AfterID :: int
  oq_Limit :: int

record OperatorMessageMetadata =
  om_ID :: int
  om_WorkerID :: ident
  om_PlanID :: ident
  om_TaskID :: ident
  om_Role :: string
  om_OccurredAt :: seconds

record OperatorMessagePage =
  op_Items :: "OperatorMessageMetadata list"
  op_HasMore :: bool
  op_NextAfterID :: int

definition normalizeOperatorLimit :: "string \<Rightarrow> int \<Rightarrow> int \<Rightarrow> int \<Rightarrow> store_error + int" where
  "normalizeOperatorLimit name value defaultValue maxValue =
    (if value = 0 then Inr defaultValue
     else if value < 0 \<or> value > maxValue then Inl (ErrInvalidQuery name)
     else Inr value)"

definition validateOperatorMessageQuery :: "OperatorMessageQuery \<Rightarrow> store_error + int" where
  "validateOperatorMessageQuery q =
    (if oq_ProjectID q = [] then Inl (ErrInvalidQuery ''project_id'')
     else if oq_TaskID q \<noteq> [] \<and> oq_PlanID q = [] then Inl (ErrInvalidQuery ''task_id'')
     else if oq_AfterID q < 0 then Inl (ErrInvalidQuery ''after_id'')
     else normalizeOperatorLimit ''limit'' (oq_Limit q) 100 500)"

definition message_in_scope :: "OperatorMessageQuery \<Rightarrow> store \<Rightarrow> message_row \<Rightarrow> bool" where
  "message_in_scope q s m \<longleftrightarrow> plan_in_project (oq_ProjectID q) s (m_plan m) \<and>
     (oq_PlanID q = [] \<or> m_plan m = oq_PlanID q) \<and> (oq_TaskID q = [] \<or> m_task m = oq_TaskID q)"

definition validateOperatorMessageScope :: "OperatorMessageQuery \<Rightarrow> store \<Rightarrow> store_error option" where
  "validateOperatorMessageScope q s =
    (if oq_PlanID q = [] then None
     else if \<not> plan_in_project (oq_ProjectID q) s (oq_PlanID q) then Some ErrPlanNotFound
     else if oq_TaskID q = [] then None
     else if \<not> task_exists (oq_PlanID q) (oq_TaskID q) s then Some (ErrTaskNotFound (oq_TaskID q) (oq_PlanID q))
     else None)"

definition validateOperatorMessageCursor :: "OperatorMessageQuery \<Rightarrow> store \<Rightarrow> store_error option" where
  "validateOperatorMessageCursor q s =
    (if oq_AfterID q = 0 then None
     else if list_ex (\<lambda>m. m_id m = oq_AfterID q \<and> message_in_scope q s m) (messages s) then None
     else Some ErrInvalidScope)"

definition scope_after :: "OperatorMessageQuery \<Rightarrow> store \<Rightarrow> message_row list" where
  "scope_after q s = order_by m_id (filter (\<lambda>m. message_in_scope q s m \<and> m_id m > oq_AfterID q) (messages s))"

definition scanOperatorMessage :: "message_row \<Rightarrow> OperatorMessageMetadata" where
  "scanOperatorMessage m = \<lparr>om_ID = m_id m, om_WorkerID = coalesce (m_worker m), om_PlanID = m_plan m,
     om_TaskID = m_task m, om_Role = m_role m, om_OccurredAt = m_at m\<rparr>"

definition ListOperatorMessages :: "OperatorMessageQuery \<Rightarrow> store \<Rightarrow> store_error + OperatorMessagePage" where
  "ListOperatorMessages q s =
    (case validateOperatorMessageQuery q of
       Inl e \<Rightarrow> Inl e
     | Inr limit \<Rightarrow>
         if \<not> project_exists (oq_ProjectID q) s then Inl ErrProjectNotFound
         else (case validateOperatorMessageScope q s of
           Some e \<Rightarrow> Inl e
         | None \<Rightarrow> (case validateOperatorMessageCursor q s of
             Some e \<Rightarrow> Inl e
           | None \<Rightarrow>
               let items = map scanOperatorMessage (take (nat (limit + 1)) (scope_after q s)) in
               if int (length items) > limit
               then Inr \<lparr>op_Items = take (nat limit) items, op_HasMore = True,
                         op_NextAfterID = om_ID (last (take (nat limit) items))\<rparr>
               else Inr \<lparr>op_Items = items, op_HasMore = False, op_NextAfterID = 0\<rparr>)))"

end
