(* ===== verification/Store_Steps.thy ===== *)
theory Store_Steps
  imports Store_Invariant Store_Registry Store_Evidence
begin

text \<open>
  Plan graphs and plan deletion keep the store invariant, and with them every step of the store
  does: \<open>store_step\<close> has one rule per operation that writes, \<open>store_reachable\<close> is its closure from an
  empty database.
\<close>

section \<open>Writing a graph\<close>

lemma putTaskMetadataOn_quiet: "quiet s (snd (putTaskMetadataOn planID taskID g tp js s))"
  using put_metadata.run_quiet by (simp add: PutTaskMetadata_def)

lemma reserveTaskInputOn_quiet: "quiet s (snd (reserveTaskInputOn planID taskID path sha s))"
  by (auto simp: reserveTaskInputOn_def Let_def intro!: quiet_same)

text \<open>The invariant together with a task that is not running, through the reservation loops.\<close>

definition idle_inv :: "ident \<Rightarrow> ident \<Rightarrow> store \<Rightarrow> bool" where
  "idle_inv planID taskID s \<longleftrightarrow> store_inv s \<and> \<not> running_in s planID taskID"

lemma idle_quiet: "quiet s s' \<Longrightarrow> idle_inv p i s \<Longrightarrow> idle_inv p i s'"
  using quiet_inv quiet_running by (auto simp: idle_inv_def)

lemma idle_reserve:
  assumes "idle_inv p i s" and "reserveTaskOutputOn p i path mode s = (r, s')"
  shows "idle_inv p i s'"
proof -
  have "store_inv s'" using reserveTaskOutputOn_inv [of s p i path mode] assms by (simp add: idle_inv_def)
  moreover have "tasks s' = tasks s" using assms(2) by (cases rule: reserve_cases) auto
  ultimately show ?thesis using assms(1) by (simp add: idle_inv_def running_in_def)
qed

lemma created_idle:
  assumes "createTaskOn opts s = (Inr (), s')" and "store_inv s"
  shows "idle_inv (ct_PlanID opts) (ct_ID opts) s'"
proof -
  have "store_inv s'" using createTaskOn_inv [of s opts] assms by simp
  moreover have "\<not> running_in s' (ct_PlanID opts) (ct_ID opts)"
    using assms(1)
    by (cases rule: createTaskOn_cases) (auto simp: running_in_def task_exists_def list_ex_iff)
  ultimately show ?thesis by (simp add: idle_inv_def)
qed

text \<open>The stages of a successful graph write.\<close>

lemma write_node_stages:
  assumes "write_node planID spec s = (Inr (), s')"
  obtains s1 s2 s3 where "createTaskOn ((gt_Task spec)\<lparr>ct_PlanID := planID\<rparr>) s = (Inr (), s1)"
    "node_metadata planID spec s1 = (Inr (), s2)"
    "op_each (\<lambda>i. reserveTaskInputOn planID (ct_ID (gt_Task spec)) (in_Path i) (in_SHA256 i)) (gt_Inputs spec) s2 = (Inr (), s3)"
    "op_each (\<lambda>r. reserveTaskOutputOn planID (ct_ID (gt_Task spec)) (out_Path r) (out_Mode r)) (gt_Outputs spec) s3 = (Inr (), s')"
  using assms unfolding write_node_def by auto

lemma writeGraph_stages:
  assumes "writeGraphTasksOn planID specs s = (Inr (), s')"
  obtains s1 where "op_each (write_node planID) specs s = (Inr (), s1)"
    "op_each (write_edges planID) specs s1 = (Inr (), s')"
  using assms unfolding writeGraphTasksOn_def by auto

lemma CreatePlanGraph_stages:
  assumes "CreatePlanGraph uuid opts s = (Inr x, s')"
  obtains s1 s2 where "createPlanOn uuid (cg_Plan opts) s = (Inr x, s1)"
    "writeGraphTasksOn x (cg_Tasks opts) s1 = (Inr (), s2)"
    "(if cg_Activate opts then setPlanStatusOn x PlanStatusActive else op_return ()) s2 = (Inr (), s')"
  using assms unfolding CreatePlanGraph_def
  by (elim in_tx_cases) (auto simp: op_return_def)

lemma node_metadata_quiet: "quiet s (snd (node_metadata planID spec s))"
  by (simp add: node_metadata_def putTaskMetadataOn_quiet op_return_def)

lemma write_node_inv:
  assumes "write_node planID spec s = (Inr (), s')" and "store_inv s"
  shows "store_inv s'"
  using assms(1)
proof (cases rule: write_node_stages)
  case (1 s1 s2 s3)
  let ?idle = "idle_inv planID (ct_ID (gt_Task spec))"
  have i1: "?idle s1" using created_idle [OF 1(1) assms(2)] by simp
  have i2: "?idle s2" using idle_quiet [OF node_metadata_quiet i1] 1(2) by (metis snd_conv)
  have i3: "?idle s3"
    by (rule op_each_inv [where P = ?idle, OF _ 1(3) i2]) (metis idle_quiet reserveTaskInputOn_quiet snd_conv)
  have "?idle s'"
    by (rule op_each_inv [where P = ?idle, OF _ 1(4) i3]) (rule idle_reserve)
  then show ?thesis by (simp add: idle_inv_def)
qed

lemma write_edges_inv:
  assumes "write_edges planID spec s = (Inr (), s')" and "store_inv s"
  shows "store_inv s'"
  by (rule op_each_inv [where P = store_inv, OF _ assms(1) [unfolded write_edges_def] assms(2)])
    (metis addDepOn_inv snd_conv)

lemma writeGraphTasksOn_inv:
  assumes "writeGraphTasksOn planID specs s = (Inr (), s')" and "store_inv s"
  shows "store_inv s'"
  using assms(1)
proof (cases rule: writeGraph_stages)
  case (1 s1)
  have i1: "store_inv s1" by (rule op_each_inv [where P = store_inv, OF _ 1(1) assms(2)]) (rule write_node_inv)
  show ?thesis by (rule op_each_inv [where P = store_inv, OF _ 1(2) i1]) (rule write_edges_inv)
qed

lemma MaterializePlanGraph_inv: "store_inv s \<Longrightarrow> store_inv (snd (MaterializePlanGraph planID specs s))"
  unfolding MaterializePlanGraph_def by (rule in_tx_inv) (auto intro: writeGraphTasksOn_inv)

lemma CreatePlanGraph_error: "CreatePlanGraph uuid opts s = (Inl e, s') \<Longrightarrow> s' = s"
  unfolding CreatePlanGraph_def by (rule in_tx_Inl)

lemma CreatePlanGraph_inv:
  assumes "store_inv s"
  shows "store_inv (snd (CreatePlanGraph uuid opts s))"
proof (cases "CreatePlanGraph uuid opts s")
  case (Pair r s')
  show ?thesis
  proof (cases r)
    case (Inl e)
    then have "s' = s" using Pair CreatePlanGraph_error by blast
    then show ?thesis using Pair assms by simp
  next
    case (Inr x)
    then have "CreatePlanGraph uuid opts s = (Inr x, s')" using Pair by simp
    then show ?thesis
    proof (cases rule: CreatePlanGraph_stages)
      case (1 s1 s2)
      have "store_inv s1" using createPlanOn_inv [OF assms, of uuid "cg_Plan opts"] 1(1) by simp
      then have i2: "store_inv s2" using writeGraphTasksOn_inv [OF 1(2)] by simp
      have "quiet s2 s'"
        using 1(3) set_plan_status.run_quiet [of s2 x PlanStatusActive]
        by (auto simp: op_return_def SetPlanStatus_def split: if_splits)
      then show ?thesis using quiet_inv i2 Pair by simp
    qed
  qed
qed

section \<open>Deleting a plan\<close>

lemma cascade_plan_inv:
  assumes "store_inv s" and "tasks s1 = tasks s" "deps s1 = deps s" "outputs s1 = outputs s" "plans s1 = plans s"
  shows "store_inv (cascade_plan planID s1)"
proof -
  let ?s = "cascade_plan planID s1"
  have keys: "task_keys ?s = filter (\<lambda>k. fst k \<noteq> planID) (task_keys s)"
    "plan_keys ?s = filter (\<lambda>k. fst k \<noteq> planID) (plan_keys s)"
    using assms(2,5) by (simp_all add: cascade_plan_def task_keys_def plan_keys_def filter_map comp_def)
  have rows: "set (tasks ?s) = {t \<in> set (tasks s). t_plan t \<noteq> planID}"
    "set (outputs ?s) = {r \<in> set (outputs s). o_plan r \<noteq> planID}"
    "deps ?s = filter (\<lambda>d. d_plan d \<noteq> planID) (deps s)"
    using assms by (auto simp: cascade_plan_def)
  have "graph_acyclic ?s"
    using assms(1) by (simp add: store_inv_def graph_acyclic_def rows edges_filter_other acyclic_def)
  moreover have "output_exclusive ?s"
    using assms(1) unfolding store_inv_def output_exclusive_def
    by (fastforce simp: rows keys same_project_def running_in_def)
  moreover have "key_inv ?s"
    using assms(1) by (simp add: inv_defs keys distinct_map_filter)
  moreover have "ref_inv ?s" "claims_inv ?s"
    using assms(1) by (fastforce simp: inv_defs keys rows)+
  ultimately show ?thesis by (simp add: store_inv_def)
qed

lemma DeletePlan_inv: "store_inv s \<Longrightarrow> store_inv (snd (DeletePlan planID s))"
  unfolding DeletePlan_def
  by (rule in_tx_inv) (auto simp: Let_def split: if_splits intro: cascade_plan_inv)

section \<open>The remaining quiet operations\<close>

lemma op_each_quiet:
  assumes "\<And>x s. tasks (snd (f x s)) = tasks s \<and> deps (snd (f x s)) = deps s \<and>
     outputs (snd (f x s)) = outputs s \<and> plans (snd (f x s)) = plans s"
  shows "quiet s (snd (op_each f xs s))"
proof (rule quiet_same)
  have "tasks (snd (op_each f xs s)) = tasks s \<and> deps (snd (op_each f xs s)) = deps s \<and>
      outputs (snd (op_each f xs s)) = outputs s \<and> plans (snd (op_each f xs s)) = plans s"
  proof (induction xs arbitrary: s)
    case (Cons x xs)
    show ?case
      using Cons.IH [of "snd (f x s)"] assms [of x s]
      by (cases "f x s") (auto simp: op_bind_def split: sum.splits)
  qed (simp add: op_return_def)
  then show "tasks (snd (op_each f xs s)) = tasks s" "deps (snd (op_each f xs s)) = deps s"
    "outputs (snd (op_each f xs s)) = outputs s" "plans (snd (op_each f xs s)) = plans s"
    by auto
qed

lemma insertIdentifiers_quiet: "quiet s (snd (insertIdentifiers projectID fps addedAt s))"
  unfolding insertIdentifiers_def by (rule op_each_quiet) (simp add: upsert_identifier_def)

lemma fold_delete_config_frame:
  "tasks (fold (delete_config projectID) ks s) = tasks s \<and> deps (fold (delete_config projectID) ks s) = deps s \<and>
   outputs (fold (delete_config projectID) ks s) = outputs s \<and> plans (fold (delete_config projectID) ks s) = plans s"
  by (induction ks arbitrary: s) (auto simp: delete_config_def)

text \<open>\<open>quiet\<close> sees only four tables.\<close>

lemma quiet_cong:
  "quiet s1 s' \<Longrightarrow> tasks s1 = tasks s \<Longrightarrow> deps s1 = deps s \<Longrightarrow> outputs s1 = outputs s \<Longrightarrow> plans s1 = plans s \<Longrightarrow> quiet s s'"
  by (simp add: quiet_def plan_keys_def)

interpretation create_project: quiet_op "\<lambda>s. snd (CreateProject uuid name fps s)"
proof
  fix s :: store
  have "quiet s (snd (insertIdentifiers uuid fps n (s\<lparr>projects := ps\<rparr>)))" for n ps
    by (rule quiet_cong [OF insertIdentifiers_quiet]) simp_all
  then show "quiet s (snd (CreateProject uuid name fps s))"
    unfolding CreateProject_def
    by (intro in_tx_quiet) (auto simp: op_bind_def op_return_def split: sum.splits prod.splits dest!: arg_cong [where f = snd])
qed

interpretation add_identifiers: quiet_op "\<lambda>s. snd (AddProjectIdentifiers projectID fps s)"
  by unfold_locales
    (auto simp: AddProjectIdentifiers_def op_fail_def intro!: in_tx_quiet insertIdentifiers_quiet)

interpretation touch_project: quiet_op "\<lambda>s. snd (TouchProjectLastSeen projectID s)"
  by unfold_locales (auto simp: TouchProjectLastSeen_def intro!: quiet_same)

interpretation apply_config: quiet_op "\<lambda>s. snd (ApplyProjectConfig projectID upserts deleteKeys s)"
proof
  fix s :: store
  have "quiet s (snd (op_each (upsert_config projectID) kvs (fold (delete_config projectID) ks s)))" for kvs ks
    by (rule quiet_cong [OF op_each_quiet]) (auto simp: upsert_config_def Let_def fold_delete_config_frame)
  then show "quiet s (snd (ApplyProjectConfig projectID upserts deleteKeys s))"
    by (auto simp: ApplyProjectConfig_def op_fail_def intro!: in_tx_quiet)
qed

interpretation record_calibration: quiet_op "\<lambda>s. snd (RecordCalibration digest c s)"
  by unfold_locales (auto simp: RecordCalibration_def Let_def split: prod.split sum.split intro!: quiet_same)

interpretation record_attempt: quiet_op "\<lambda>s. snd (RecordCalibrationAttempt a s)"
  by unfold_locales
    (auto simp: RecordCalibrationAttempt_def op_fail_def split: option.split intro!: in_tx_quiet quiet_same)

interpretation hook_pending: quiet_op "\<lambda>s. snd (SetHookVerificationPending sessionID planID taskID s)"
  by unfold_locales (auto simp: SetHookVerificationPending_def intro!: quiet_same)

interpretation hook_result: quiet_op "\<lambda>s. snd (SetHookVerificationResult sessionID planID taskID passed s)"
  by unfold_locales (auto simp: SetHookVerificationResult_def intro!: quiet_same)

interpretation hook_invalidate: quiet_op "\<lambda>s. snd (InvalidateHookVerifications sessionID s)"
  by unfold_locales (auto simp: InvalidateHookVerifications_def intro!: quiet_same)

interpretation hook_clear: quiet_op "\<lambda>s. snd (ClearHookVerification sessionID planID taskID s)"
  by unfold_locales (auto simp: ClearHookVerification_def intro!: quiet_same)

interpretation record_spend: quiet_op "\<lambda>s. snd (RecordSpend ro s)"
  by unfold_locales (auto simp: RecordSpend_def intro!: quiet_same)

interpretation append_message: quiet_op "\<lambda>s. snd (AppendMessage ao s)"
  by unfold_locales (auto simp: AppendMessage_def intro!: quiet_same)

interpretation reserve_input: quiet_op "\<lambda>s. snd (ReserveTaskInput planID taskID path sha s)"
  by unfold_locales (auto simp: ReserveTaskInput_def op_fail_def intro!: reserveTaskInputOn_quiet)

section \<open>Steps of the store\<close>

text \<open>\<open>tick\<close> is the passing of time.  A reservation is added while its task is not running: plan import,
  its only caller, adds reservations with the task itself.\<close>

inductive store_step :: "store \<Rightarrow> store \<Rightarrow> bool" where
  tick: "now \<ge> clock s \<Longrightarrow> store_step s (s\<lparr>clock := now\<rparr>)"
| create_task: "store_step s (snd (CreateTask cto s))"
| add_dep: "store_step s (snd (AddDep planID taskID dependsOn s))"
| claim_next: "store_step s (snd (ClaimNextReady planID sessionID workerID s))"
| claim_task: "store_step s (snd (ClaimTask planID taskID sessionID workerID s))"
| mark_done: "store_step s (snd (MarkDone planID taskID sessionID evidence s))"
| mark_failed: "store_step s (snd (MarkFailedWithPayload planID taskID sessionID payload maxRetries s))"
| release_claim: "store_step s (snd (ReleaseClaim planID taskID sessionID reason s))"
| mark_blocked: "store_step s (snd (MarkBlocked planID taskID sessionID payload s))"
| approve_task: "store_step s (snd (ApproveTask planID taskID s))"
| reserve_output: "\<not> running_in s planID taskID \<Longrightarrow> store_step s (snd (ReserveTaskOutput planID taskID path mode s))"
| reserve_input: "store_step s (snd (ReserveTaskInput planID taskID path sha s))"
| put_metadata: "store_step s (snd (PutTaskMetadata planID taskID groupPath teamPath json s))"
| bind_calibration: "store_step s (snd (BindTaskCalibration planID taskID cid caps s))"
| record_execution: "store_step s (snd (RecordTaskExecution planID taskID alias provider model effort domain sessionID s))"
| record_provider_session: "store_step s (snd (RecordTaskProviderSession planID taskID claiming provSession s))"
| block_capability: "store_step s (snd (MarkBlockedCapability planID taskID reason s))"
| block_input: "store_step s (snd (MarkBlockedInput planID taskID reason s))"
| clear_block: "store_step s (snd (ClearTaskBlock planID taskID blocked s))"
| create_session: "store_step s (snd (CreateSession uuid so s))"
| heartbeat_session: "store_step s (snd (HeartbeatSession sessionID s))"
| close_session: "store_step s (snd (CloseSession sessionID s))"
| create_worker: "store_step s (snd (CreateWorker uuid wo s))"
| set_worker_task: "store_step s (snd (SetWorkerTask workerID planID taskID s))"
| heartbeat_worker: "store_step s (snd (HeartbeatWorker workerID s))"
| heartbeat_both: "store_step s (snd (HeartbeatWorkerAndSession workerID s))"
| clear_worker_task: "store_step s (snd (ClearWorkerTask workerID status s))"
| reclaim_worker: "store_step s (snd (ReclaimWorker workerID s))"
| reclaim_stale: "store_step s (snd (ReclaimStale staleAfter s))"
| create_plan: "store_step s (snd (CreatePlan uuid cpo s))"
| set_plan_status: "store_step s (snd (SetPlanStatus planID pstatus s))"
| create_plan_graph: "store_step s (snd (CreatePlanGraph uuid cgo s))"
| materialize: "store_step s (snd (MaterializePlanGraph planID specs s))"
| delete_plan: "store_step s (snd (DeletePlan planID s))"
| emit: "store_step s (snd (Emit eo s))"
| create_project: "store_step s (snd (CreateProject uuid name fps s))"
| add_identifiers: "store_step s (snd (AddProjectIdentifiers projectID fps s))"
| touch_project: "store_step s (snd (TouchProjectLastSeen projectID s))"
| apply_config: "store_step s (snd (ApplyProjectConfig projectID upserts deleteKeys s))"
| record_calibration: "store_step s (snd (RecordCalibration digest c s))"
| record_attempt: "store_step s (snd (RecordCalibrationAttempt a s))"
| hook_pending: "store_step s (snd (SetHookVerificationPending sessionID planID taskID s))"
| hook_result: "store_step s (snd (SetHookVerificationResult sessionID planID taskID passed s))"
| hook_invalidate: "store_step s (snd (InvalidateHookVerifications sessionID s))"
| hook_clear: "store_step s (snd (ClearHookVerification sessionID planID taskID s))"
| record_spend: "store_step s (snd (RecordSpend ro s))"
| append_message: "store_step s (snd (AppendMessage ao s))"

inductive store_reachable :: "store \<Rightarrow> bool" where
  start: "store_reachable (empty_store now)"
| step: "store_reachable s \<Longrightarrow> store_step s s' \<Longrightarrow> store_reachable s'"

lemmas quiet_facts = mark_done.run_quiet mark_failed.run_quiet release_claim.run_quiet
  mark_blocked.run_quiet put_metadata.run_quiet bind_calibration.run_quiet
  record_execution.run_quiet record_provider_session.run_quiet block_capability.run_quiet
  block_input.run_quiet clear_block.run_quiet create_session.run_quiet heartbeat_session.run_quiet
  close_session.run_quiet create_worker.run_quiet set_worker_task.run_quiet heartbeat_worker.run_quiet
  heartbeat_both.run_quiet clear_worker_task.run_quiet reclaim_worker.run_quiet reclaim_stale.run_quiet
  set_plan_status.run_quiet emit.run_quiet create_project.run_quiet add_identifiers.run_quiet
  touch_project.run_quiet apply_config.run_quiet record_calibration.run_quiet record_attempt.run_quiet
  hook_pending.run_quiet hook_result.run_quiet hook_invalidate.run_quiet hook_clear.run_quiet
  record_spend.run_quiet append_message.run_quiet reserve_input.run_quiet

text \<open>Every step is quiet, a claim, or an insertion or deletion of nodes, edges, reservations or plans.\<close>

lemma step_inv:
  assumes "store_step s s'" and "store_inv s"
  shows "store_inv s'"
  using assms(1)
proof cases
  case (tick now)
  then have "quiet s s'" by (intro quiet_same) auto
  then show ?thesis using assms(2) quiet_inv by blast
next
  case (create_task cto)
  then show ?thesis using assms(2) createTaskOn_inv by (simp add: CreateTask_def)
next
  case (add_dep planID taskID dependsOn)
  then show ?thesis using assms(2) addDepOn_inv by (simp add: AddDep_def)
next
  case (reserve_output planID taskID path mode)
  then show ?thesis using assms(2) reserveTaskOutputOn_inv by (simp add: ReserveTaskOutput_def op_fail_def)
next
  case (create_plan uuid cpo)
  then show ?thesis using assms(2) createPlanOn_inv by (simp add: CreatePlan_def)
qed (simp_all add: assms(2) quiet_facts [THEN quiet_inv] approve_task.run_calm [THEN calm_inv] ClaimNextReady_inv ClaimTask_inv
      CreatePlanGraph_inv MaterializePlanGraph_inv DeletePlan_inv)

lemma reachable_inv: "store_reachable s \<Longrightarrow> store_inv s"
  by (induction rule: store_reachable.induct) (auto intro: empty_store_inv step_inv)

end
