(* ===== verification/Store_Demo.thy ===== *)
theory Store_Demo
  imports Store_Steps
begin

text \<open>
  A small database, built by running the operations themselves, on which the properties are
  instantiated: project \<open>j\<close>, plan \<open>p\<close> with the tasks \<open>a\<close>, \<open>b\<close> (after \<open>a\<close>), \<open>c\<close> and the gated \<open>g\<close>, of
  which the first three write the same file; session \<open>s\<close> with worker \<open>w\<close>; and the store after that
  worker claimed \<open>a\<close>.
\<close>

definition demo_task :: "ident \<Rightarrow> bool \<Rightarrow> CreateTaskOpts" where
  "demo_task i gated = \<lparr>ct_PlanID = [], ct_ID = i, ct_Description = ''d'', ct_ParallelGroup = None,
     ct_SequenceOrdinal = None, ct_AcceptanceJSON = [], ct_ParentTaskID = [], ct_RequiresApproval = gated\<rparr>"

definition demo_spec :: "ident \<Rightarrow> bool \<Rightarrow> ident list \<Rightarrow> string list \<Rightarrow> GraphTaskSpec" where
  "demo_spec i gated ds outs = \<lparr>gt_Task = demo_task i gated, gt_DependsOn = ds, gt_GroupPath = ''0'', gt_TeamPath = [],
     gt_MetadataJSON = [], gt_Inputs = [], gt_Outputs = map (\<lambda>f. \<lparr>out_Path = f, out_Mode = []\<rparr>) outs\<rparr>"

definition demo_opts :: CreatePlanGraphOpts where
  "demo_opts = \<lparr>cg_Plan = \<lparr>cp_ProjectID = ''j'', cp_Slug = ''s'', cp_Title = ''t'', cp_SourceMarkdown = [],
       cp_TagsJSON = []\<rparr>,
     cg_Tasks = [demo_spec ''a'' False [] [''./o''], demo_spec ''b'' False [''a''] [''o''],
                 demo_spec ''c'' False [] [''x/../o''], demo_spec ''g'' True [] []],
     cg_Activate = True\<rparr>"

definition demo_project :: store where
  "demo_project = snd (CreateProject ''j'' [] [] (empty_store 0))"

definition demo_graph :: store where
  "demo_graph = snd (CreatePlanGraph ''p'' demo_opts demo_project)"

definition demo_live :: store where
  "demo_live = snd (CreateWorker ''w'' \<lparr>wo_SessionID = ''s'', wo_Provider = ''x'', wo_Model = [],
       wo_NativeFanout = False, wo_SubprocessPID = 7, wo_SubprocessStartTime = ''0''\<rparr>
     (snd (CreateSession ''s'' \<lparr>so_ID = [], so_Role = ''r'', so_PID = 0, so_PIDStartTime = [], so_Host = []\<rparr>
        demo_graph)))"

definition demo_running :: store where
  "demo_running = snd (ClaimTask ''p'' ''a'' ''s'' ''w'' demo_live)"

text \<open>The same store a minute later, the worker silent since its claim.\<close>

definition demo_late :: store where
  "demo_late = demo_running\<lparr>clock := 60 * 1000000000\<rparr>"

lemma demo_reachable:
  "store_reachable demo_project" "store_reachable demo_graph" "store_reachable demo_live"
  "store_reachable demo_running" "store_reachable demo_late"
proof -
  show p: "store_reachable demo_project"
    unfolding demo_project_def by (rule step [OF start create_project])
  show g: "store_reachable demo_graph"
    unfolding demo_graph_def by (rule step [OF p create_plan_graph])
  show l: "store_reachable demo_live"
    unfolding demo_live_def by (rule step [OF step [OF g create_session] create_worker])
  show r: "store_reachable demo_running"
    unfolding demo_running_def by (rule step [OF l claim_task])
  have "clock demo_running \<le> 60 * 1000000000" by code_simp
  then show "store_reachable demo_late"
    unfolding demo_late_def by (rule step [OF r tick])
qed

lemmas demo_inv = demo_reachable [THEN reachable_inv]

end
