(* ===== verification/Store_Transitions.thy ===== *)
theory Store_Transitions
  imports Store_Demo
begin

text \<open>
  What one step of the store may do to the tasks: the kinds of steps, the life cycle every task
  follows, the terminal states, and the approval gate.
\<close>

section \<open>Kinds of steps\<close>

definition fresh_row :: "task_row \<Rightarrow> bool" where
  "fresh_row t \<longleftrightarrow> t_status t \<in> {TaskStatusPending, TaskStatusReadyPendingApproval}"

definition extends :: "store \<Rightarrow> store \<Rightarrow> bool" where
  "extends s s' \<longleftrightarrow> (\<exists>new. tasks s' = tasks s @ new \<and> (\<forall>t \<in> set new. fresh_row t))"

definition prunes :: "store \<Rightarrow> store \<Rightarrow> bool" where
  "prunes s s' \<longleftrightarrow> set (tasks s') \<subseteq> set (tasks s)"

lemma extends_refl [simp]: "extends s s"
  by (auto simp: extends_def)

lemma extends_same: "tasks s' = tasks s \<Longrightarrow> extends s s'"
  by (simp add: extends_def)

lemma extends_trans: "extends s s1 \<Longrightarrow> extends s1 s2 \<Longrightarrow> extends s s2"
  unfolding extends_def by (metis (no_types, lifting) Un_iff append.assoc set_append)

lemma createTaskOn_extends: "createTaskOn opts s = (r, s') \<Longrightarrow> extends s s'"
  by (erule createTaskOn_cases)
    (auto simp: extends_def fresh_row_def new_task_row_def)

lemma reserve_extends: "reserveTaskOutputOn p i path mode s = (r, s') \<Longrightarrow> extends s s'"
  by (erule reserve_cases) (auto intro: extends_same)

lemma addDepOn_extends: "addDepOn p t d s = (r, s') \<Longrightarrow> extends s s'"
  by (auto simp: addDepOn_def intro!: extends_same split: if_splits)

lemma putTaskMetadataOn_extends: "putTaskMetadataOn p i g tp js s = (r, s') \<Longrightarrow> extends s s'"
  by (auto simp: putTaskMetadataOn_def intro!: extends_same split: if_splits)

lemma reserveTaskInputOn_extends: "reserveTaskInputOn p i path sha s = (r, s') \<Longrightarrow> extends s s'"
  by (auto simp: reserveTaskInputOn_def Let_def intro!: extends_same split: if_splits)

lemma createPlanOn_extends: "createPlanOn uuid opts s = (r, s') \<Longrightarrow> extends s s'"
  by (auto simp: createPlanOn_def intro!: extends_same split: if_splits)

lemma setPlanStatusOn_extends: "setPlanStatusOn p st s = (r, s') \<Longrightarrow> extends s s'"
  by (auto simp: setPlanStatusOn_def intro!: extends_same split: if_splits)

lemma op_each_extends:
  assumes "\<And>x s s'. f x s = (Inr (), s') \<Longrightarrow> extends s s'" and "op_each f xs s = (Inr (), s')"
  shows "extends s s'"
  by (rule op_each_inv [where P = "extends s", OF _ assms(2)]) (auto intro: extends_trans assms(1))

lemma node_metadata_extends: "node_metadata planID spec s = (Inr (), s') \<Longrightarrow> extends s s'"
  by (auto simp: node_metadata_def op_return_def intro: putTaskMetadataOn_extends split: if_splits)

lemma write_node_extends:
  assumes "write_node planID spec s = (Inr (), s')"
  shows "extends s s'"
  using assms
proof (cases rule: write_node_stages)
  case (1 s1 s2 s3)
  have "extends s2 s3" by (rule op_each_extends [OF _ 1(3)]) (rule reserveTaskInputOn_extends)
  moreover have "extends s3 s'" by (rule op_each_extends [OF _ 1(4)]) (rule reserve_extends)
  ultimately show ?thesis
    using createTaskOn_extends [OF 1(1)] node_metadata_extends [OF 1(2)] extends_trans by blast
qed

lemma write_edges_extends: "write_edges planID spec s = (Inr (), s') \<Longrightarrow> extends s s'"
  unfolding write_edges_def by (erule op_each_extends [rotated]) (rule addDepOn_extends)

lemma writeGraphTasksOn_extends:
  assumes "writeGraphTasksOn planID specs s = (Inr (), s')"
  shows "extends s s'"
  using assms
proof (cases rule: writeGraph_stages)
  case (1 s1)
  have "extends s s1" by (rule op_each_extends [OF _ 1(1)]) (rule write_node_extends)
  moreover have "extends s1 s'" by (rule op_each_extends [OF _ 1(2)]) (rule write_edges_extends)
  ultimately show ?thesis by (rule extends_trans)
qed

lemma MaterializePlanGraph_extends: "extends s (snd (MaterializePlanGraph planID specs s))"
  unfolding MaterializePlanGraph_def
  by (rule in_tx_inv [where P = "extends s"]) (auto intro: writeGraphTasksOn_extends)

lemma CreatePlanGraph_extends: "extends s (snd (CreatePlanGraph uuid opts s))"
proof (cases "CreatePlanGraph uuid opts s")
  case (Pair r s')
  show ?thesis
  proof (cases r)
    case (Inl e)
    then have "s' = s" using Pair CreatePlanGraph_error by blast
    then show ?thesis using Pair by simp
  next
    case (Inr x)
    then have "CreatePlanGraph uuid opts s = (Inr x, s')" using Pair by simp
    then show ?thesis
    proof (cases rule: CreatePlanGraph_stages)
      case (1 s1 s2)
      have "extends s2 s'"
        using 1(3) by (auto simp: op_return_def intro: setPlanStatusOn_extends split: if_splits)
      then show ?thesis
        using Pair createPlanOn_extends [OF 1(1)] writeGraphTasksOn_extends [OF 1(2)] extends_trans
        by (metis snd_conv)
    qed
  qed
qed

lemma DeletePlan_prunes: "prunes s (snd (DeletePlan planID s))"
  by (auto simp: DeletePlan_def in_tx_def Let_def prunes_def cascade_plan_def)

lemma step_kinds:
  assumes "store_step s s'" and "store_inv s"
  shows "quiet s s' \<or> (\<exists>p i. s' = snd (ApproveTask p i s)) \<or> extends s s' \<or> prunes s s' \<or>
         (\<exists>p i se w. claimed p i se w s s')"
  using assms(1)
proof cases
  case (tick now)
  then show ?thesis by (simp add: quiet_same)
next
  case (create_task cto)
  then show ?thesis using createTaskOn_extends by (metis CreateTask_def surj_pair snd_conv)
next
  case (add_dep planID taskID dependsOn)
  then show ?thesis using addDepOn_extends by (metis AddDep_def surj_pair snd_conv)
next
  case (reserve_output planID taskID path mode)
  have "extends s (snd (reserveTaskOutputOn planID taskID path m s))" for m
    by (metis reserve_extends surj_pair snd_conv)
  with reserve_output show ?thesis by (simp add: ReserveTaskOutput_def op_fail_def)
next
  case (create_plan uuid cpo)
  then show ?thesis using createPlanOn_extends by (metis CreatePlan_def surj_pair snd_conv)
next
  case (claim_next planID sessionID workerID)
  then show ?thesis using ClaimNextReady_kind [of planID sessionID workerID s] by fastforce
next
  case (claim_task planID taskID sessionID workerID)
  have "ref_inv s" using assms(2) by (simp add: store_inv_def)
  then show ?thesis using claim_task ClaimTask_kind [of s planID taskID sessionID workerID] by fastforce
next
  case (approve_task planID taskID)
  then show ?thesis by blast
qed (simp_all add: quiet_facts CreatePlanGraph_extends MaterializePlanGraph_extends DeletePlan_prunes)

section \<open>The life cycle\<close>

text \<open>Where a row of the new store comes from.\<close>

lemma step_origin:
  assumes "store_step s s'" "store_inv s" and "t' \<in> set (tasks s')"
  shows "(\<exists>t \<in> set (tasks s). task_evolves t t') \<or> fresh_row t' \<and> unclaimed_ok t' \<and> extends s s'"
proof -
  have inv': "store_inv s'" using step_inv assms(1,2) by blast
  have refl: "task_evolves t t" for t by (auto simp: evolve_defs)
  from step_kinds [OF assms(1,2)] consider "calm s s'" | "extends s s'" | "prunes s s'"
    | p i se w where "claimed p i se w s s'"
    using quiet_calm approve_task.run_calm by blast
  then show ?thesis
  proof cases
    case 1
    then show ?thesis
      using evolves_origin assms(3) by (fastforce simp: calm_def intro: calm_task_evolves)
  next
    case 2
    then obtain new where new: "tasks s' = tasks s @ new" "\<forall>t \<in> set new. fresh_row t"
      by (auto simp: extends_def)
    have "unclaimed_ok t'" using inv' assms(3) by (simp add: store_inv_def claims_inv_def)
    moreover have "t' \<in> set (tasks s) \<or> fresh_row t'" using new assms(3) by auto
    ultimately show ?thesis using 2 refl by blast
  next
    case 3
    then show ?thesis using assms(3) refl by (auto simp: prunes_def)
  next
    case 4
    have "list_all2 task_evolves (tasks s) (tasks s')"
      using 4 by (auto simp: claimed_def evolve_defs lifecycle_def claimable_def intro!: upd_where_all2)
    then show ?thesis using evolves_origin assms(3) by fast
  qed
qed

lemma same_key_same_row:
  "store_inv s \<Longrightarrow> t \<in> set (tasks s) \<Longrightarrow> u \<in> set (tasks s) \<Longrightarrow> t_plan t = t_plan u \<Longrightarrow> t_id t = t_id u \<Longrightarrow> t = u"
  by (auto simp: inv_defs task_keys_def dest: distinct_map_inj)

lemma step_lifecycle:
  assumes "store_step s s'" "store_inv s"
    and "t \<in> set (tasks s)" "t' \<in> set (tasks s')" "t_plan t' = t_plan t" "t_id t' = t_id t"
  shows "task_evolves t t'"
  using step_origin [OF assms(1,2,4)]
proof
  assume "\<exists>u \<in> set (tasks s). task_evolves u t'"
  then obtain u where "u \<in> set (tasks s)" "task_evolves u t'" by blast
  then show ?thesis
    using same_key_same_row [OF assms(2,3), of u] assms(5,6) by (auto simp: task_evolves_def same_task_def)
next
  assume "fresh_row t' \<and> unclaimed_ok t' \<and> extends s s'"
  then have "t \<in> set (tasks s')" using assms(3) by (auto simp: extends_def)
  then have "t' = t"
    using same_key_same_row [OF step_inv [OF assms(1,2)] _ assms(4)] assms(5,6) by metis
  then show ?thesis by (auto simp: evolve_defs)
qed

text \<open>\<^bold>\<open>C1.\<close> Every step of the store moves every task along the life cycle: a task of a reachable store that
  is still there after a step has kept its identity and has the status it had or one that
  \<open>lifecycle\<close> allows from it; in particular a task that is done, failed, skipped or decomposed
  never changes its status again.\<close>

theorem tasks_follow_lifecycle:
  assumes "store_reachable s" "store_step s s'"
    and "t \<in> set (tasks s)" "t' \<in> set (tasks s')" "t_plan t' = t_plan t" "t_id t' = t_id t"
  shows "lifecycle (t_status t) (t_status t') \<and> same_task t t' \<and>
         (t_status t \<in> {TaskStatusDone, TaskStatusFailed, TaskStatusSkipped, TaskStatusDecomposed} \<longrightarrow>
          t_status t' = t_status t)"
proof -
  have "task_evolves t t'" by (rule step_lifecycle [OF assms(2) reachable_inv [OF assms(1)] assms(3-6)])
  then show ?thesis by (auto simp: task_evolves_def lifecycle_def)
qed

theorem tasks_follow_lifecycle_witness:
  "let t = hd (tasks demo_live); t' = hd (tasks demo_running) in
   t_status t = TaskStatusPending \<and> t_status t' = TaskStatusRunning \<and>
   lifecycle (t_status t) (t_status t') \<and> same_task t t'"
proof -
  have step: "store_step demo_live demo_running" unfolding demo_running_def by (rule claim_task)
  have "hd (tasks demo_live) \<in> set (tasks demo_live)" "hd (tasks demo_running) \<in> set (tasks demo_running)"
    "t_plan (hd (tasks demo_running)) = t_plan (hd (tasks demo_live))"
    "t_id (hd (tasks demo_running)) = t_id (hd (tasks demo_live))"
    "t_status (hd (tasks demo_live)) = TaskStatusPending" "t_status (hd (tasks demo_running)) = TaskStatusRunning"
    by code_simp+
  then show ?thesis
    using tasks_follow_lifecycle [OF demo_reachable(3) step] unfolding Let_def by blast
qed

text \<open>\<^bold>\<open>C18.\<close> The approval gate: when a step takes a task out of \<open>ready_pending_approval\<close>, the step is
  \<open>ApproveTask\<close> for that task and the task is then \<open>ready\<close>; no other operation of the store, claims
  and the reaper included, opens the gate.\<close>

theorem only_approval_opens_gate:
  assumes "store_reachable s" "store_step s s'"
    and "t \<in> set (tasks s)" "t' \<in> set (tasks s')" "t_plan t' = t_plan t" "t_id t' = t_id t"
    and "t_status t = TaskStatusReadyPendingApproval" "t_status t' \<noteq> TaskStatusReadyPendingApproval"
  shows "s' = snd (ApproveTask (t_plan t) (t_id t) s) \<and> t_status t' = TaskStatusReady"
proof -
  have inv: "store_inv s" using reachable_inv assms(1) by blast
  have inv': "store_inv s'" using step_inv assms(2) inv by blast
  have ev: "task_evolves t t'" by (rule step_lifecycle [OF assms(2) inv assms(3-6)])
  then have ready: "t_status t' = TaskStatusReady"
    using assms(7,8) by (auto simp: task_evolves_def lifecycle_def)
  have moved: "t \<notin> set (tasks s')" "t' \<notin> set (tasks s)"
  proof -
    have differ: "t' \<noteq> t" using assms(7,8) by auto
    show "t \<notin> set (tasks s')"
      using same_key_same_row [OF inv' assms(4) _ assms(5,6)] differ by blast
    show "t' \<notin> set (tasks s)"
      using same_key_same_row [OF inv _ assms(3) assms(5,6)] differ by blast
  qed
  from step_kinds [OF assms(2) inv] consider "quiet s s'" | p i where "s' = snd (ApproveTask p i s)"
    | "extends s s'" | "prunes s s'" | p i se w where "claimed p i se w s s'"
    by blast
  then show ?thesis
  proof cases
    case 1
    then have "list_all2 quiet_evolves (tasks s) (tasks s')" by (simp add: quiet_def)
    from evolves_origin [OF this assms(4)] obtain u where u: "u \<in> set (tasks s)" "quiet_evolves u t'"
      by blast
    then have "same_task u t'" by (simp add: quiet_evolves_def calm_evolves_def task_evolves_def)
    then have "t_plan u = t_plan t" "t_id u = t_id t"
      using assms(5,6) unfolding same_task_def by metis+
    then have "u = t" by (rule same_key_same_row [OF inv u(1) assms(3)])
    then show ?thesis using u(2) assms(7,8) by (simp add: quiet_evolves_def)
  next
    case (2 p i)
    have "p = t_plan t \<and> i = t_id t"
    proof (rule ccontr)
      assume "\<not> (p = t_plan t \<and> i = t_id t)"
      then have "t \<in> set (tasks s')"
        using assms(3) 2 by (auto simp: ApproveTask_def in_tx_def Let_def set_upd_where split: option.split)
      then show False using moved by simp
    qed
    then show ?thesis using 2 ready by simp
  next
    case 3
    then show ?thesis using moved assms(3) by (auto simp: extends_def)
  next
    case 4
    then show ?thesis using moved assms(4) by (auto simp: prunes_def)
  next
    case 5
    then show ?thesis
      using assms(4) ready moved(2) by (auto simp: claimed_def set_upd_where)
  qed
qed

theorem only_approval_opens_gate_witness:
  "let s' = snd (ApproveTask ''p'' ''g'' demo_live) in
   t_status (last (tasks demo_live)) = TaskStatusReadyPendingApproval \<and>
   s' = snd (ApproveTask (t_plan (last (tasks demo_live))) (t_id (last (tasks demo_live))) demo_live) \<and>
   t_status (last (tasks s')) = TaskStatusReady"
proof -
  let ?s' = "snd (ApproveTask ''p'' ''g'' demo_live)"
  have step: "store_step demo_live ?s'" by (rule approve_task)
  have "last (tasks demo_live) \<in> set (tasks demo_live)" "last (tasks ?s') \<in> set (tasks ?s')"
    "t_plan (last (tasks ?s')) = t_plan (last (tasks demo_live))"
    "t_id (last (tasks ?s')) = t_id (last (tasks demo_live))"
    "t_status (last (tasks demo_live)) = TaskStatusReadyPendingApproval"
    "t_status (last (tasks ?s')) \<noteq> TaskStatusReadyPendingApproval"
    by code_simp+
  then show ?thesis
    using only_approval_opens_gate [OF demo_reachable(3) step] unfolding Let_def by blast
qed

end
