(* ===== verification/Store_Claim_Laws.thy ===== *)
theory Store_Claim_Laws
  imports Store_Transitions
begin

text \<open>
  The promises of admission: what a claim takes, when it refuses, which task it prefers, and what
  holds of the tasks that run at the same time.
\<close>

section \<open>Claims\<close>

text \<open>A row that a claim touches is the one with the claimed key, in a claimable status.\<close>

lemma claimed_unique_row:
  assumes "claimed planID i se w s s'" and "store_inv s"
  obtains t where "t \<in> set (ready_rows planID s)" "t_id t = i"
    "\<And>u. u \<in> set (tasks s) \<Longrightarrow> is_task planID i u \<Longrightarrow> u = t"
proof -
  from assms(1) obtain t where t: "t \<in> set (ready_rows planID s)" "t_id t = i" by (auto simp: claimed_def)
  then have "t \<in> set (tasks s)" "t_plan t = planID" by (auto simp: ready_rows_def)
  then show thesis using that [OF t] same_key_same_row [OF assms(2)] t(2) by metis
qed

lemma claimed_new_row:
  assumes "claimed planID i se w s s'" and "store_inv s" and "t' \<in> set (tasks s')" "is_task planID i t'"
  shows "t_status t' = TaskStatusRunning \<and> t_session t' = Some se \<and> t_worker t' = Some w"
  using assms(1,2)
proof (rule claimed_unique_row)
  fix t assume t: "t \<in> set (ready_rows planID s)" "t_id t = i"
    and uniq: "\<And>u. u \<in> set (tasks s) \<Longrightarrow> is_task planID i u \<Longrightarrow> u = t"
  have cl: "claimable (t_status t)" using t by (simp add: ready_rows_def)
  let ?P = "\<lambda>t. is_task planID i t \<and> claimable (t_status t)"
  let ?f = "\<lambda>t. t\<lparr>t_status := TaskStatusRunning, t_session := Some se, t_worker := Some w, t_updated := now_of s\<rparr>"
  have "t' \<in> set (upd_where ?P ?f (tasks s))" using assms(1,3) by (simp add: claimed_def)
  then obtain u where u: "u \<in> set (tasks s)" "t' = (if ?P u then ?f u else u)" by (rule in_upd_where)
  have "t_plan t' = t_plan u" "t_id t' = t_id u" using u(2) by simp_all
  then have key: "is_task planID i u" using assms(4) by simp
  then have "u = t" by (rule uniq [OF u(1)])
  then have "t' = ?f u" using u(2) cl key by (simp only: if_True conj_absorb) simp
  then show ?thesis by simp
qed

lemma claimed_others:
  assumes "claimed planID i se w s s'"
  shows "filter (\<lambda>t. \<not> is_task planID i t) (tasks s') = filter (\<lambda>t. \<not> is_task planID i t) (tasks s)"
proof -
  have "filter (\<lambda>t. \<not> is_task planID i t) (upd_where (\<lambda>t. is_task planID i t \<and> claimable (t_status t)) f rows)
      = filter (\<lambda>t. \<not> is_task planID i t) rows" if "\<And>t. t_plan (f t) = t_plan t \<and> t_id (f t) = t_id t" for f rows
    by (induction rows) (auto simp: that)
  then show ?thesis using assms by (simp add: claimed_def)
qed

text \<open>\<^bold>\<open>C2.\<close> A named claim is exact and exclusive.  When \<open>ClaimTask\<close> succeeds, the task it returns is the
  one named; it was pending or approved, all its dependencies were satisfied and no running task of
  the project held one of its output paths; it now runs under exactly the given session and
  worker, every other task is as it was, and a second claim of it by anyone finds no ready task.\<close>

theorem claim_exact_and_exclusive:
  assumes "store_reachable s" and "ClaimTask planID taskID sessionID workerID s = (Inr tk, s')"
  shows "Task_ID tk = taskID \<and> Task_PlanID tk = planID \<and> Task_Status tk = TaskStatusRunning \<and>
         Task_ClaimedBySession tk = sessionID \<and> Task_ClaimedByWorkerID tk = workerID \<and>
         (\<exists>t \<in> set (tasks s). is_task planID taskID t \<and> claimable (t_status t) \<and> deps_satisfied s t) \<and>
         conflicting_paths planID taskID s = [] \<and>
         filter (\<lambda>t. \<not> is_task planID taskID t) (tasks s') = filter (\<lambda>t. \<not> is_task planID taskID t) (tasks s) \<and>
         ClaimTask planID taskID sessionID2 workerID2 s' = (Inl ErrNoReadyTask, s')"
proof -
  have inv: "store_inv s" using reachable_inv assms(1) by blast
  then have ref: "ref_inv s" by (simp add: store_inv_def)
  from assms(2) ref obtain t' where c: "claimed planID taskID sessionID workerID s s'"
    and t': "select_row (is_task planID taskID) (tasks s') = Some t'" and tk: "tk = scanTask t'"
    by (cases rule: ClaimTask_cases) auto
  have row: "t' \<in> set (tasks s')" "is_task planID taskID t'" using find_SomeD [OF t'] by auto
  have new: "t_status t' = TaskStatusRunning \<and> t_session t' = Some sessionID \<and> t_worker t' = Some workerID"
    by (rule claimed_new_row [OF c inv row])
  have "select_row (\<lambda>t. t_id t = taskID) (ready_rows planID s') = None"
    using claimed_new_row [OF c inv] by (auto simp: find_None_iff_all ready_rows_def claimable_def)
  then have again: "ClaimTask planID taskID sessionID2 workerID2 s' = (Inl ErrNoReadyTask, s')"
    by (simp add: ClaimTask_def claimTaskOnce_def op_bind_def in_tx_def)
  have "\<exists>t \<in> set (tasks s). is_task planID taskID t \<and> claimable (t_status t) \<and> deps_satisfied s t"
    "conflicting_paths planID taskID s = []"
    using c by (auto simp: claimed_def ready_rows_def)
  then show ?thesis using new row tk again claimed_others [OF c] by (simp add: scanTask_def)
qed

theorem claim_exact_and_exclusive_witness:
  "(\<exists>tk. ClaimTask ''p'' ''a'' ''s'' ''w'' demo_live = (Inr tk, demo_running) \<and>
         Task_ID tk = ''a'' \<and> Task_ClaimedByWorkerID tk = ''w'') \<and>
   ClaimTask ''p'' ''a'' ''s2'' ''w2'' demo_running = (Inl ErrNoReadyTask, demo_running)"
proof -
  have "case fst (ClaimTask ''p'' ''a'' ''s'' ''w'' demo_live) of Inr tk \<Rightarrow> True | Inl e \<Rightarrow> False" by code_simp
  then obtain tk where "ClaimTask ''p'' ''a'' ''s'' ''w'' demo_live = (Inr tk, demo_running)"
    unfolding demo_running_def by (cases "ClaimTask ''p'' ''a'' ''s'' ''w'' demo_live") (auto split: sum.splits)
  with claim_exact_and_exclusive [OF demo_reachable(3) this, of "''s2''" "''w2''"] show ?thesis by blast
qed

text \<open>What the unnamed claim may take.\<close>

definition admissible :: "ident \<Rightarrow> store \<Rightarrow> task_row \<Rightarrow> bool" where
  "admissible planID s t \<longleftrightarrow> t \<in> set (tasks s) \<and> t_plan t = planID \<and> claimable (t_status t) \<and>
     deps_satisfied s t \<and> conflicting_paths planID (t_id t) s = []"

text \<open>The author order: steps with an ordinal first and by it, then by creation time.\<close>

definition author_first :: "task_row \<Rightarrow> task_row \<Rightarrow> bool" where
  "author_first t u \<longleftrightarrow> (case (t_ordinal t, t_ordinal u) of
     (Some n, None) \<Rightarrow> True
   | (None, Some m) \<Rightarrow> False
   | (Some n, Some m) \<Rightarrow> n < m \<or> n = m \<and> t_created t \<le> t_created u
   | (None, None) \<Rightarrow> t_created t \<le> t_created u)"

lemma claim_key_author: "claim_key t \<le> claim_key u \<longleftrightarrow> author_first t u"
  by (auto simp: claim_key_def author_first_def less_eq_prod_def less_prod_def split: option.split)

lemma admissible_claim:
  assumes "admissible planID s t" "session_exists sessionID s" "worker_exists workerID s"
  obtains s1 t' where "claim_tail planID (t_id t) sessionID workerID s = (Inr (t_id t), s1)"
    "select_row (is_task planID (t_id t)) (tasks s1) = Some t'"
proof -
  have ready: "\<exists>u \<in> set (ready_rows planID s). t_id u = t_id t" "conflicting_paths planID (t_id t) s = []"
    using assms(1) by (auto simp: admissible_def ready_rows_def)
  obtain r s1 where run: "claim_tail planID (t_id t) sessionID workerID s = (r, s1)" by force
  have "r \<noteq> Inl (ErrConstraint ForeignKeyC)"
    using run assms(2,3)
    by (auto simp: claim_tail_def claim_update_def Let_def op_bind_def op_return_def op_fail_def
        insert_event_None split: if_splits)
  then have "r = Inr (t_id t)" "claimed planID (t_id t) sessionID workerID s s1"
    using claim_tail_cases [OF run ready] by auto
  then show thesis using that run claimed_row by metis
qed

text \<open>The unnamed claim.  With an existing session and worker, \<open>ClaimNextReady\<close> reports
  \<open>ErrNoReadyTask\<close> exactly when no task of the plan is claimable, has satisfied dependencies and is
  free of reservation conflicts; otherwise it claims one whose place in the author order
  (sequence ordinal, unordered steps last, then creation time) no admissible task precedes.\<close>

theorem claim_next_takes_first:
  assumes "session_exists sessionID s" "worker_exists workerID s"
  shows "(fst (ClaimNextReady planID sessionID workerID s) = Inl ErrNoReadyTask \<longleftrightarrow> \<not> (\<exists>t. admissible planID s t)) \<and>
         (\<forall>tk. fst (ClaimNextReady planID sessionID workerID s) = Inr tk \<longrightarrow>
            (\<exists>t. admissible planID s t \<and> t_id t = Task_ID tk \<and> (\<forall>u. admissible planID s u \<longrightarrow> author_first t u)))"
proof -
  have cand: "t \<in> set (claim_candidates planID s) \<longleftrightarrow> admissible planID s t" for t
    by (auto simp: candidates_in_ready ready_rows_def admissible_def)
  obtain r s' where run: "ClaimNextReady planID sessionID workerID s = (r, s')" by force
  show ?thesis
  proof (cases "claim_candidates planID s")
    case Nil
    then have "r = Inl ErrNoReadyTask"
      using run by (auto simp: ClaimNextReady_def op_bind_def in_tx_def)
    moreover have "\<not> admissible planID s t" for t using cand [of t] Nil by simp
    ultimately show ?thesis using run by auto
  next
    case (Cons t ts)
    then have adm: "admissible planID s t" using cand [of t] by simp
    obtain s1 t' where body: "claim_tail planID (t_id t) sessionID workerID s = (Inr (t_id t), s1)"
      and t': "select_row (is_task planID (t_id t)) (tasks s1) = Some t'"
      using adm assms by (auto elim!: admissible_claim)
    have "fst (ClaimNextReady planID sessionID workerID s) = Inr (scanTask t')"
      using Cons body t' by (simp add: ClaimNextReady_def op_bind_def in_tx_def GetTask_def)
    moreover have "Task_ID (scanTask t') = t_id t" using find_SomeD [OF t'] by (simp add: scanTask_def)
    moreover have "claim_key t \<le> claim_key u" if "admissible planID s u" for u
    proof -
      let ?rows = "filter (\<lambda>t. conflicting_paths (t_plan t) (t_id t) s = []) (ready_rows planID s)"
      have "u \<in> set ?rows" using that cand [of u] by (auto simp: claim_candidates_def)
      then have "claim_key (hd (order_by claim_key ?rows)) \<le> claim_key u"
        by (intro hd_sort_key_min) (metis empty_iff list.set(1))
      then show ?thesis using Cons by (simp add: claim_candidates_def)
    qed
    ultimately show ?thesis using adm run by (auto simp: claim_key_author)
  qed
qed

theorem claim_next_takes_first_witness:
  "fst (ClaimNextReady ''none'' ''s'' ''w'' demo_live) = Inl ErrNoReadyTask \<and>
   (\<exists>t. t \<in> set (tasks demo_live) \<and> claimable (t_status t) \<and> deps_satisfied demo_live t \<and> t_id t = ''a'')"
proof -
  have ex: "session_exists ''s'' demo_live" "worker_exists ''w'' demo_live" by code_simp+
  have "case fst (ClaimNextReady ''p'' ''s'' ''w'' demo_live) of Inr tk \<Rightarrow> Task_ID tk = ''a'' | Inl e \<Rightarrow> False"
    by code_simp
  then obtain tk where "fst (ClaimNextReady ''p'' ''s'' ''w'' demo_live) = Inr tk" "Task_ID tk = ''a''"
    by (auto split: sum.splits)
  then obtain t where "admissible ''p'' demo_live t" "t_id t = ''a''"
    using claim_next_takes_first [OF ex, of "''p''"] by auto
  moreover have "\<not> list_ex (\<lambda>t. t_plan t = ''none'') (tasks demo_live)" by code_simp
  then have "\<not> (\<exists>t. admissible ''none'' demo_live t)" by (auto simp: list_ex_iff admissible_def)
  then have "fst (ClaimNextReady ''none'' ''s'' ''w'' demo_live) = Inl ErrNoReadyTask"
    using claim_next_takes_first [OF ex, of "''none''"] by simp
  ultimately show ?thesis by (auto simp: admissible_def)
qed

end
