(* ===== verification/Store_Report_Laws.thy ===== *)
theory Store_Report_Laws
  imports Store_Demo
begin

text \<open>
  The promises about tasks that are running: reports are accepted from the owner only, failures are
  charged to the retry budget, and the reaper requeues exactly the tasks whose worker is gone.
\<close>

lemma same_key_row:
  "store_inv s \<Longrightarrow> t \<in> set (tasks s) \<Longrightarrow> u \<in> set (tasks s) \<Longrightarrow> is_task p i t \<Longrightarrow> is_task p i u \<Longrightarrow> t = u"
  by (auto simp: inv_defs task_keys_def dest: distinct_map_inj)

section \<open>Owner-guarded reports\<close>

definition holds_claim :: "ident \<Rightarrow> ident \<Rightarrow> ident \<Rightarrow> task_row \<Rightarrow> bool" where
  "holds_claim planID taskID sessionID t \<longleftrightarrow> t_plan t = planID \<and> t_id t = taskID \<and>
     t_status t = TaskStatusRunning \<and> t_session t = Some sessionID"

definition owner_guarded :: "ident \<Rightarrow> ident \<Rightarrow> ident \<Rightarrow> store \<Rightarrow> (store_error + 'a) \<times> store \<Rightarrow> bool" where
  "owner_guarded planID taskID sessionID s res \<longleftrightarrow>
     (if \<exists>t \<in> set (tasks s). holds_claim planID taskID sessionID t then (\<exists>x. fst res = Inr x)
      else res = (Inl ErrTaskNotOwnedRunning, s)) \<and>
     (\<forall>t \<in> set (tasks s). \<not> holds_claim planID taskID sessionID t \<longrightarrow> t \<in> set (tasks (snd res)))"

lemma holds_claim_owned: "holds_claim planID taskID sessionID t \<longleftrightarrow> owned_running planID taskID sessionID t"
  by (auto simp: holds_claim_def owned_running_def)

lemma holds_claim_owns: "(\<exists>t \<in> set (tasks s). holds_claim planID taskID sessionID t) \<longleftrightarrow> owns_running planID taskID sessionID s"
  by (simp add: holds_claim_owned owns_running_def list_ex_iff)

text \<open>The contract of a worker report: without a live claim of the reporting session it is refused and
  changes nothing; with one it succeeds; and it never touches the row of another task or of
  another session's claim.\<close>

locale owner_op =
  fixes report :: "store \<Rightarrow> (store_error + 'a) \<times> store"
    and planID taskID sessionID :: ident
  assumes stale: "\<not> owns_running planID taskID sessionID s \<Longrightarrow> report s = (Inl ErrTaskNotOwnedRunning, s)"
    and owner: "owns_running planID taskID sessionID s \<Longrightarrow> \<exists>x. fst (report s) = Inr x"
    and foreign: "t \<in> set (tasks s) \<Longrightarrow> \<not> owned_running planID taskID sessionID t \<Longrightarrow> t \<in> set (tasks (snd (report s)))"
begin

lemma guarded: "owner_guarded planID taskID sessionID s (report s)"
  using stale owner foreign unfolding owner_guarded_def holds_claim_owns by (auto simp: holds_claim_owned)

lemma refused_unchanged: "fst (report s) = Inl e \<Longrightarrow> report s = (Inl ErrTaskNotOwnedRunning, s)"
  using stale owner by (metis Inl_Inr_False)

end

lemma not_owner_rows: "\<not> owns_running planID taskID sessionID s \<longleftrightarrow>
    rows_affected (owned_running planID taskID sessionID) (tasks s) = 0"
  by (simp add: owns_running_def list_ex_iff)

lemma owner_rows: "owns_running planID taskID sessionID s \<Longrightarrow>
    0 < rows_affected (owned_running planID taskID sessionID) (tasks s)"
  using not_owner_rows by blast

lemma guarded_report_cases:
  "guarded_report P f planID taskID kind stream actor payload s =
    (if rows_affected P (tasks s) = 0 then (Inl ErrTaskNotOwnedRunning, s)
     else (Inr (), (update_tasks P f s)\<lparr>events := events s @
        [\<lparr>e_id = event_seq s + 1, e_project = None, e_plan = Some planID, e_task = Some taskID,
          e_kind = kind, e_stream = Some stream, e_actor = Some actor, e_payload = Some payload,
          e_at = now_of s\<rparr>], event_seq := event_seq s + 1\<rparr>))"
  by (simp add: guarded_report_def insert_event_None)

lemma kept_by_update: "t \<in> set rows \<Longrightarrow> \<not> P t \<Longrightarrow> t \<in> set (upd_where P f rows)"
  by (auto simp: set_upd_where)

interpretation done_report: owner_op "MarkDone planID taskID sessionID ev" planID taskID sessionID
  by unfold_locales
    (auto simp: MarkDone_def not_owner_rows guarded_report_cases in_tx_def op_bind_def
      simp del: rows_affected_0 intro: kept_by_update owner_rows)

interpretation released_report: owner_op "ReleaseClaim planID taskID sessionID reason" planID taskID sessionID
  by unfold_locales
    (auto simp: ReleaseClaim_def not_owner_rows guarded_report_cases simp del: rows_affected_0
      intro: kept_by_update owner_rows)

interpretation blocked_report: owner_op "MarkBlocked planID taskID sessionID payload" planID taskID sessionID
  by unfold_locales
    (auto simp: MarkBlocked_def not_owner_rows guarded_report_cases in_tx_def
      simp del: rows_affected_0 intro: kept_by_update owner_rows)

text \<open>The branch of \<open>MarkFailedWithPayload\<close> for the owner, as one update and one event.\<close>

definition failed_row :: "EventPayload \<Rightarrow> bool \<Rightarrow> task_row \<Rightarrow> task_row" where
  "failed_row payload retried t =
    (if retried then (unclaimed TaskStatusPending t)\<lparr>t_retry := t_retry t + 1, t_failure := None\<rparr>
     else (unclaimed TaskStatusFailed t)\<lparr>t_failure := nullIfEmpty (FailureCategory payload)\<rparr>)"

lemma MarkFailed_cases:
  "MarkFailedWithPayload planID taskID sessionID payload maxRetries s =
    (case select_row (owned_running planID taskID sessionID) (tasks s) of
       None \<Rightarrow> (Inl ErrTaskNotOwnedRunning, s)
     | Some r \<Rightarrow> let retried = (t_retry r + 1 \<le> maxRetries) in
         (Inr retried, (update_tasks (owned_running planID taskID sessionID) (failed_row payload retried) s)
            \<lparr>events := events s @ [\<lparr>e_id = event_seq s + 1, e_project = None, e_plan = Some planID,
               e_task = Some taskID, e_kind = (if retried then ''task.failed'' else ''task.failed_terminal''),
               e_stream = Some ''worker'', e_actor = Some sessionID, e_payload = Some (payloadJSON payload),
               e_at = now_of s\<rparr>], event_seq := event_seq s + 1\<rparr>))"
proof (cases "select_row (owned_running planID taskID sessionID) (tasks s)")
  case None
  then show ?thesis by (simp add: MarkFailedWithPayload_def in_tx_def)
next
  case (Some r)
  have "rows_affected (owned_running planID taskID sessionID) (tasks s) \<noteq> 0"
    using find_SomeD [OF Some] by auto
  then show ?thesis
    using Some
    by (simp add: MarkFailedWithPayload_def in_tx_def op_bind_def op_return_def guarded_report_cases
        failed_row_def [abs_def] Let_def del: rows_affected_0)
qed

lemma owner_selected:
  assumes "owns_running planID taskID sessionID s"
  obtains r where "select_row (owned_running planID taskID sessionID) (tasks s) = Some r"
proof (cases "select_row (owned_running planID taskID sessionID) (tasks s)")
  case None
  then show thesis using assms by (simp add: owns_running_def list_ex_iff find_None_iff_all)
qed (rule that)

interpretation failed_report: owner_op "MarkFailedWithPayload planID taskID sessionID payload maxRetries"
    planID taskID sessionID
proof unfold_locales
  fix s :: store and t
  let ?run = "MarkFailedWithPayload planID taskID sessionID payload maxRetries s"
  show "?run = (Inl ErrTaskNotOwnedRunning, s)" if "\<not> owns_running planID taskID sessionID s"
    using that by (auto simp: MarkFailed_cases owns_running_def list_ex_iff split: option.split dest: find_SomeD)
  show "\<exists>x. fst ?run = Inr x" if "owns_running planID taskID sessionID s"
    using that by (rule owner_selected) (simp add: MarkFailed_cases Let_def)
  show "t \<in> set (tasks (snd ?run))" if "t \<in> set (tasks s)" "\<not> owned_running planID taskID sessionID t"
    using that by (auto simp: MarkFailed_cases Let_def split: option.split intro: kept_by_update)
qed

text \<open>\<^bold>\<open>C7.\<close> A report about a running task counts only from its owner.  Completion, failure, blocking
  and release are refused with \<open>ErrTaskNotOwnedRunning\<close> and leave the database untouched when the
  reporting session does not hold the live claim of the task, and succeed when it does; either way
  every row other than the reporting session's own running one is kept as it is.\<close>

theorem reports_only_from_owner:
  "owner_guarded planID taskID sessionID s (MarkDone planID taskID sessionID ev s) \<and>
   owner_guarded planID taskID sessionID s (MarkFailedWithPayload planID taskID sessionID payload maxRetries s) \<and>
   owner_guarded planID taskID sessionID s (MarkBlocked planID taskID sessionID payload s) \<and>
   owner_guarded planID taskID sessionID s (ReleaseClaim planID taskID sessionID reason s)"
  by (simp add: done_report.guarded failed_report.guarded blocked_report.guarded released_report.guarded)

section \<open>The retry budget\<close>

text \<open>\<^bold>\<open>C19.\<close> Retry accounting.  A failure reported by the owner of a running task requeues the task exactly
  when one more retry fits the budget: then its retry count goes up by one, it is pending, and the
  recorded failure category is cleared; otherwise it is failed for good with the reported category
  and an unchanged count.  Either way the claim is dropped, reclaims are not charged, and one event
  of the matching kind is appended.\<close>

theorem failure_charges_one_retry:
  assumes "store_reachable s" and "t \<in> set (tasks s)" and "owned_running planID taskID sessionID t"
  shows "\<exists>s' t' ev. MarkFailedWithPayload planID taskID sessionID payload maxRetries s =
           (Inr (t_retry t + 1 \<le> maxRetries), s') \<and>
         t' \<in> set (tasks s') \<and> same_task t t' \<and> t_session t' = None \<and> t_worker t' = None \<and>
         t_reclaim t' = t_reclaim t \<and>
         (if t_retry t + 1 \<le> maxRetries
          then t_status t' = TaskStatusPending \<and> t_retry t' = t_retry t + 1 \<and> t_failure t' = None
          else t_status t' = TaskStatusFailed \<and> t_retry t' = t_retry t \<and>
               t_failure t' = nullIfEmpty (FailureCategory payload)) \<and>
         events s' = events s @ [ev] \<and> e_plan ev = Some planID \<and> e_task ev = Some taskID \<and>
         e_kind ev = (if t_retry t + 1 \<le> maxRetries then ''task.failed'' else ''task.failed_terminal'')"
proof -
  let ?P = "owned_running planID taskID sessionID"
  let ?b = "t_retry t + 1 \<le> maxRetries"
  have "select_row ?P (tasks s) \<noteq> None" using assms(2,3) by (auto simp: find_None_iff_all)
  then obtain r where r: "select_row ?P (tasks s) = Some r" by blast
  have "r = t"
    using find_SomeD [OF r] assms(2,3) same_key_row [OF reachable_inv [OF assms(1)]]
    by (simp add: owned_running_def)
  let ?t' = "(failed_row payload ?b t)\<lparr>t_updated := now_of s\<rparr>"
  have "?t' \<in> set (upd_where ?P (\<lambda>t. (failed_row payload ?b t)\<lparr>t_updated := now_of s\<rparr>) (tasks s))"
    using assms(2,3) by (force simp: set_upd_where)
  then show ?thesis
    using r \<open>r = t\<close>
    by (intro exI [of _ "snd (MarkFailedWithPayload planID taskID sessionID payload maxRetries s)"] exI [of _ ?t'])
      (simp add: MarkFailed_cases Let_def failed_row_def unclaimed_def same_task_def)
qed

theorem failure_charges_one_retry_witness:
  "fst (MarkFailedWithPayload ''p'' ''a'' ''s'' emptyPayload 1 demo_running) = Inr True \<and>
   fst (MarkFailedWithPayload ''p'' ''a'' ''s'' emptyPayload 0 demo_running) = Inr False"
proof -
  have "hd (tasks demo_running) \<in> set (tasks demo_running)"
    "owned_running ''p'' ''a'' ''s'' (hd (tasks demo_running))" "t_retry (hd (tasks demo_running)) = 0"
    by code_simp+
  then show ?thesis
    using failure_charges_one_retry [OF demo_reachable(4), of _ "''p''" "''a''" "''s''" emptyPayload 1]
      failure_charges_one_retry [OF demo_reachable(4), of _ "''p''" "''a''" "''s''" emptyPayload 0]
    by fastforce
qed

end
