(* ===== verification/Store_Reaper_Laws.thy ===== *)
theory Store_Reaper_Laws
  imports Store_Demo
begin

text \<open>
  The reaper: one pass requeues exactly the running tasks whose worker is gone or silent, charges
  them a reclaim and no retry, and never takes the worker, the session or the claim away from a
  task whose worker is alive.
\<close>

lemma rfc3339_cutoffs:
  "0 \<le> staleAfter \<Longrightarrow> rfc3339 (clock s - staleAfter * staleSessionMultiplier) \<le> rfc3339 (clock s - staleAfter)"
  by (intro rfc3339_mono) (simp add: staleSessionMultiplier_def)

text \<open>What one pass does to a row, in terms of the store it started from.\<close>

definition reaped :: "seconds \<Rightarrow> store \<Rightarrow> task_row \<Rightarrow> task_row \<Rightarrow> bool" where
  "reaped c s t t' \<longleftrightarrow> same_task t t' \<and> t_retry t' = t_retry t \<and> t_failure t' = t_failure t \<and>
     (if reclaimable c s t
      then t_status t' = TaskStatusPending \<and> t_session t' = None \<and> t_worker t' = None \<and>
           t_reclaim t' = t_reclaim t + 1
      else t_status t' = t_status t \<and> t_reclaim t' = t_reclaim t \<and>
           (t_status t = TaskStatusRunning \<longrightarrow> t_worker t' = t_worker t \<and>
             (\<forall>w \<in> set (workers s). c \<le> w_heartbeat w \<and> t_session t = Some (w_session w) \<longrightarrow> t' = t)))"

lemma reaped_requeue:
  "list_all2 (reaped c s) (tasks s) (upd_where (reclaimable c s) (\<lambda>t. (requeue t)\<lparr>t_updated := n\<rparr>) (tasks s))"
proof -
  have "list_all2 (reaped c s) rows (upd_where (reclaimable c s) (\<lambda>t. (requeue t)\<lparr>t_updated := n\<rparr>) rows)" for rows
    by (induction rows) (auto simp: reaped_def requeue_def unclaimed_def same_task_def)
  then show ?thesis .
qed

text \<open>Dropping the reference to a worker none of whose rows is fresh, or to a session without a fresh
  worker, is compatible with it.\<close>

lemma reaped_drop_worker:
  assumes "reaped c s t t'" and "names_one_of gone (t_worker t')"
    and "\<And>i. i \<in> set gone \<Longrightarrow> i \<in> set (stale_workers c s)"
  shows "reaped c s t (t'\<lparr>t_worker := None, t_updated := n\<rparr>)"
  using assms
  by (cases "t_worker t") (auto simp: reaped_def same_task_def names_one_of_def reclaimable_def split: option.splits)

lemma reaped_drop_session:
  assumes "reaped c s t t'" and "names_one_of gone (t_session t')"
    and "\<And>w. w \<in> set (workers s) \<Longrightarrow> c \<le> w_heartbeat w \<Longrightarrow> w_session w \<notin> set gone"
  shows "reaped c s t (t'\<lparr>t_session := None, t_updated := n\<rparr>)"
proof (cases "reclaimable c s t")
  case True
  then show ?thesis using assms(1) by (auto simp: reaped_def same_task_def)
next
  case False
  have "t_status t \<noteq> TaskStatusRunning \<or>
      \<not> (\<exists>w \<in> set (workers s). c \<le> w_heartbeat w \<and> t_session t = Some (w_session w))"
    using assms False by (auto simp: reaped_def names_one_of_def)
  then show ?thesis using assms(1) False by (auto simp: reaped_def same_task_def)
qed

lemma reclaim_step2_reaped:
  assumes "list_all2 (reaped c s) (tasks s) (tasks s1)" and "workers s1 = workers s" and "d \<le> c"
  shows "list_all2 (reaped c s) (tasks s) (tasks (reclaim_step2 c d s1))"
proof -
  let ?s2 = "delete_workers (\<lambda>w. w_heartbeat w < d) s1"
  let ?live = "map w_session (filter (\<lambda>w. c \<le> w_heartbeat w) (workers ?s2))"
  let ?Q = "\<lambda>r. s_heartbeat r < d \<and> s_id r \<notin> set ?live"
  let ?gone = "map s_id (filter ?Q (sessions ?s2))"
  let ?s3 = "delete_workers (\<lambda>w. w_session w \<in> set ?gone) ?s2"
  have live: "w_session w \<notin> set ?gone" if "w \<in> set (workers s)" "c \<le> w_heartbeat w" for w
  proof -
    have "w_session w \<in> set ?live" using that assms(2,3) by (auto simp: delete_workers_def Let_def)
    then show ?thesis by auto
  qed
  have "list_all2 (reaped c s) (tasks s) (tasks ?s2)"
    unfolding delete_workers_def Let_def
    by (simp, rule upd_where_all2_right [OF assms(1)], rule reaped_drop_worker)
      (use assms(2,3) in \<open>auto simp: stale_workers_def\<close>)
  then have "list_all2 (reaped c s) (tasks s) (tasks ?s3)"
    by (subst delete_workers_def, simp add: Let_def, elim upd_where_all2_right, intro reaped_drop_worker)
      (use assms(2) live in \<open>fastforce simp: stale_workers_def not_le\<close>)+
  then have "list_all2 (reaped c s) (tasks s)
     (upd_where (\<lambda>t. names_one_of ?gone (t_session t)) (\<lambda>t. t\<lparr>t_session := None, t_updated := now_of ?s3\<rparr>) (tasks ?s3))"
    by (elim upd_where_all2_right) (use live in \<open>auto intro!: reaped_drop_session\<close>)
  then show ?thesis by (simp add: reclaim_step2_def delete_sessions_def Let_def)
qed

section \<open>The log of a pass\<close>

lemma log_reclaims_events:
  assumes "log_reclaims reasons k touched s = (r, s')"
  shows "\<exists>log. events s' = events s @ log \<and> (\<forall>e \<in> set log. e_kind e = ''task.reclaimed'') \<and>
    map (\<lambda>e. (e_plan e, e_task e)) log = map (\<lambda>x. (Some (fst x), Some (fst (snd x)))) touched"
  using assms
proof (induction touched arbitrary: s)
  case Nil
  then show ?case by (auto simp: log_reclaims_def op_return_def)
next
  case (Cons x xs)
  obtain ev where one: "insert_event None (Some (fst x)) (Some (fst (snd x))) ''task.reclaimed'' (Some ''service'') None
        (Some (PReclaimed (reclaim_reason reasons (fst x) (fst (snd x))) (snd (snd x)) k)) s =
      (Inr (), s\<lparr>events := events s @ [ev], event_seq := event_seq s + 1\<rparr>)"
    and ev: "e_kind ev = ''task.reclaimed''" "e_plan ev = Some (fst x)" "e_task ev = Some (fst (snd x))"
    by (simp add: insert_event_None)
  have "log_reclaims reasons k xs (s\<lparr>events := events s @ [ev], event_seq := event_seq s + 1\<rparr>) = (r, s')"
    using Cons.prems one by (simp add: log_reclaims_def op_bind_def)
  from Cons.IH [OF this] obtain log where "events s' = events s @ ev # log"
    "\<forall>e \<in> set log. e_kind e = ''task.reclaimed''"
    "map (\<lambda>e. (e_plan e, e_task e)) log = map (\<lambda>x. (Some (fst x), Some (fst (snd x)))) xs"
    by auto
  then show ?case using ev by (intro exI [of _ "ev # log"]) simp
qed

text \<open>One pass, taken apart: the rows, the log and the workers.\<close>

definition reclaim_log :: "seconds \<Rightarrow> store \<Rightarrow> store \<Rightarrow> bool" where
  "reclaim_log c s s' \<longleftrightarrow> (\<exists>log. events s' = events s @ log \<and> (\<forall>e \<in> set log. e_kind e = ''task.reclaimed'') \<and>
     map (\<lambda>e. (e_plan e, e_task e)) log = map (\<lambda>t. (Some (t_plan t), Some (t_id t))) (filter (reclaimable c s) (tasks s)))"

lemma reclaim_step2_frame [simp]:
  "events (reclaim_step2 c d s) = events s"
  by (simp add: reclaim_step2_def delete_sessions_def delete_workers_def Let_def)

lemma not_in_excluded: "x \<in> L \<Longrightarrow> x \<notin> set (map k (filter (\<lambda>r. Q r \<and> k r \<notin> L) rows))"
  by auto

lemma reclaim_step2_keeps_live:
  assumes "w \<in> set (workers s)" "c \<le> w_heartbeat w" "d \<le> c"
  shows "w \<in> set (workers (reclaim_step2 c d s))"
proof -
  let ?live = "map w_session (filter (\<lambda>w. c \<le> w_heartbeat w) (filter (\<lambda>w. \<not> w_heartbeat w < d) (workers s)))"
  have "w_session w \<in> set ?live" using assms by simp
  then have "w_session w \<notin> set (map s_id (filter (\<lambda>r. s_heartbeat r < d \<and> s_id r \<notin> set ?live) (sessions s)))"
    by (rule not_in_excluded)
  then show ?thesis
    using assms(1-3) by (simp add: reclaim_step2_def delete_sessions_def delete_workers_def Let_def)
qed

lemma ReclaimStale_log:
  "reclaim_log (rfc3339 (clock s - staleAfter)) s (snd (ReclaimStale staleAfter s))"
proof -
  let ?c = "rfc3339 (clock s - staleAfter)"
  let ?touched = "map (\<lambda>t. (t_plan t, t_id t, t_reclaim t + 1)) (filter (reclaimable ?c s) (tasks s))"
  let ?k = "int (length (filter (\<lambda>t. t_status t = TaskStatusRunning) (tasks s)))"
  let ?s1 = "update_tasks (reclaimable ?c s) requeue s"
  obtain es n where run: "log_reclaims (reclaim_reasons ?c s) ?k ?touched ?s1 = (Inr (), ?s1\<lparr>events := es, event_seq := n\<rparr>)"
    by (rule log_reclaims_result)
  have ev: "events (snd (ReclaimStale staleAfter s)) = es"
    using run by (simp add: ReclaimStale_def reclaim_step1_def Let_def in_tx_def op_bind_def op_return_def)
  show ?thesis
    using log_reclaims_events [OF run] by (auto simp: reclaim_log_def ev o_def)
qed

lemma reaped_clears:
  "list_all2 (reaped c s) ts ts' \<Longrightarrow> list_all (\<lambda>t. t_status t = TaskStatusRunning \<longrightarrow> reclaimable c s t) ts \<Longrightarrow>
   \<not> list_ex (\<lambda>t. t_status t = TaskStatusRunning) ts'"
  by (induction rule: list_all2_induct) (auto simp: reaped_def split: if_splits)

text \<open>\<^bold>\<open>C17.\<close> The reaper.  One pass succeeds and reports the number of running tasks that have no worker or
  a worker silent for longer than the limit.  Exactly these become pending again without a claim,
  charged one reclaim and no retry, one \<open>task.reclaimed\<close> event each; every other task keeps its
  status and counters, and a running task whose worker is fresh is not touched at all, nor is any
  fresh worker, even where the heartbeat of its session is old.\<close>

theorem reaper_requeues_exactly_the_dead:
  assumes "0 \<le> staleAfter"
  shows "let c = rfc3339 (clock s - staleAfter); s' = snd (ReclaimStale staleAfter s) in
    fst (ReclaimStale staleAfter s) = Inr (length (filter (reclaimable c s) (tasks s))) \<and>
    list_all2 (reaped c s) (tasks s) (tasks s') \<and> reclaim_log c s s' \<and>
    (\<forall>w \<in> set (workers s). c \<le> w_heartbeat w \<longrightarrow> w \<in> set (workers s'))"
proof -
  let ?c = "rfc3339 (clock s - staleAfter)"
  let ?d = "rfc3339 (clock s - staleAfter * staleSessionMultiplier)"
  obtain es n where r: "ReclaimStale staleAfter s = (Inr (length (filter (reclaimable ?c s) (tasks s))),
      reclaim_step2 ?c ?d ((update_tasks (reclaimable ?c s) requeue s)\<lparr>events := es, event_seq := n\<rparr>))"
    by (rule ReclaimStale_result)
  let ?s1 = "(update_tasks (reclaimable ?c s) requeue s)\<lparr>events := es, event_seq := n\<rparr>"
  have d: "?d \<le> ?c" by (rule rfc3339_cutoffs [OF assms])
  have "list_all2 (reaped ?c s) (tasks s) (tasks ?s1)"
    by (simp add: reaped_requeue)
  then have "list_all2 (reaped ?c s) (tasks s) (tasks (reclaim_step2 ?c ?d ?s1))"
    by (rule reclaim_step2_reaped) (simp_all add: d)
  moreover have "w \<in> set (workers (reclaim_step2 ?c ?d ?s1))" if "w \<in> set (workers s)" "?c \<le> w_heartbeat w" for w
    using that d by (intro reclaim_step2_keeps_live) simp_all
  ultimately show ?thesis using ReclaimStale_log [of s staleAfter] by (simp add: Let_def r)
qed

theorem reaper_requeues_exactly_the_dead_witness:
  "fst (ReclaimStale 10000000000 demo_late) = Inr 1 \<and>
   list_ex (\<lambda>t. t_status t = TaskStatusRunning) (tasks demo_late) \<and>
   \<not> list_ex (\<lambda>t. t_status t = TaskStatusRunning) (tasks (snd (ReclaimStale 10000000000 demo_late)))"
proof -
  let ?c = "rfc3339 (clock demo_late - 10000000000)"
  have "length (filter (reclaimable ?c demo_late) (tasks demo_late)) = 1"
    "list_ex (\<lambda>t. t_status t = TaskStatusRunning) (tasks demo_late)"
    "list_all (\<lambda>t. t_status t = TaskStatusRunning \<longrightarrow> reclaimable ?c demo_late t) (tasks demo_late)"
    by code_simp+
  moreover have "list_all2 (reaped ?c demo_late) (tasks demo_late) (tasks (snd (ReclaimStale 10000000000 demo_late)))"
    using reaper_requeues_exactly_the_dead [of 10000000000 demo_late] unfolding Let_def by simp
  ultimately show ?thesis
    using reaper_requeues_exactly_the_dead [of 10000000000 demo_late] reaped_clears unfolding Let_def by fastforce
qed

end
