(* ===== verification/Store_Plan_Laws.thy ===== *)
theory Store_Plan_Laws
  imports Store_Demo
begin

text \<open>
  The promises about plans as a whole: the graph of every plan stays acyclic and no two running
  tasks of a project write the same path, a plan graph is written completely or not at all, and
  deleting a plan removes it and nothing else.
\<close>

section \<open>What holds in every reachable store\<close>

text \<open>\<^bold>\<open>C6.\<close> Output paths are exclusive.  In every reachable store two different running tasks of one
  project, of the same plan or of two plans, never have a reservation of the same canonical path.\<close>

theorem running_tasks_share_no_output:
  assumes "store_reachable s"
    and "t \<in> set (tasks s)" "t_status t = TaskStatusRunning"
    and "u \<in> set (tasks s)" "t_status u = TaskStatusRunning" "(t_plan t, t_id t) \<noteq> (t_plan u, t_id u)"
    and "p \<in> set (plans s)" "p_id p = t_plan t" "q \<in> set (plans s)" "p_id q = t_plan u" "p_project p = p_project q"
    and "a \<in> set (outputs s)" "o_plan a = t_plan t" "o_task a = t_id t"
    and "b \<in> set (outputs s)" "o_plan b = t_plan u" "o_task b = t_id u"
  shows "o_path a \<noteq> o_path b"
proof
  assume eq: "o_path a = o_path b"
  have "same_project s (o_plan a) (o_plan b)"
    using in_plan_keys [OF assms(7)] in_plan_keys [OF assms(9)] assms(8,10,11,13,16)
    by (auto simp: same_project_def)
  moreover have "running_in s (o_plan a) (o_task a)" "running_in s (o_plan b) (o_task b)"
    using assms by (auto simp: running_in_def)
  moreover have "output_exclusive s" using reachable_inv [OF assms(1)] by (simp add: store_inv_def)
  ultimately have "o_plan a = o_plan b \<and> o_task a = o_task b"
    using eq assms(12,15) by (auto simp: output_exclusive_def)
  then show False using assms(6,13,14,16,17) by simp
qed

text \<open>A store in which two tasks of the project run with reservations of their own.\<close>

definition demo_two_opts :: CreatePlanGraphOpts where
  "demo_two_opts = demo_opts\<lparr>cg_Tasks := [demo_spec ''a'' False [] [''./o''], demo_spec ''b'' False [] [''n''],
     demo_spec ''c'' False [] [''o'']]\<rparr>"

definition demo_two :: store where
  "demo_two = snd (ClaimTask ''p'' ''b'' ''s'' ''w'' (snd (ClaimTask ''p'' ''a'' ''s'' ''w''
     (snd (CreateWorker ''w'' \<lparr>wo_SessionID = ''s'', wo_Provider = ''x'', wo_Model = [],
        wo_NativeFanout = False, wo_SubprocessPID = 7, wo_SubprocessStartTime = ''0''\<rparr>
      (snd (CreateSession ''s'' \<lparr>so_ID = [], so_Role = ''r'', so_PID = 0, so_PIDStartTime = [], so_Host = []\<rparr>
        (snd (CreatePlanGraph ''p'' demo_two_opts demo_project)))))))))"

lemma demo_two_reachable: "store_reachable demo_two"
  unfolding demo_two_def
  by (rule step [OF step [OF step [OF step [OF step [OF demo_reachable(1) create_plan_graph] create_session]
    create_worker] claim_task] claim_task])

theorem running_tasks_share_no_output_witness:
  "o_path (outputs demo_two ! 0) \<noteq> o_path (outputs demo_two ! 1) \<and>
   fst (ClaimTask ''p'' ''c'' ''s'' ''w'' demo_two) = Inl (ErrOutputReserved ''o'')"
proof
  have "tasks demo_two ! 0 \<in> set (tasks demo_two)" "t_status (tasks demo_two ! 0) = TaskStatusRunning"
    "tasks demo_two ! 1 \<in> set (tasks demo_two)" "t_status (tasks demo_two ! 1) = TaskStatusRunning"
    "(t_plan (tasks demo_two ! 0), t_id (tasks demo_two ! 0)) \<noteq> (t_plan (tasks demo_two ! 1), t_id (tasks demo_two ! 1))"
    "hd (plans demo_two) \<in> set (plans demo_two)" "p_id (hd (plans demo_two)) = t_plan (tasks demo_two ! 0)"
    "hd (plans demo_two) \<in> set (plans demo_two)" "p_id (hd (plans demo_two)) = t_plan (tasks demo_two ! 1)"
    "p_project (hd (plans demo_two)) = p_project (hd (plans demo_two))"
    "outputs demo_two ! 0 \<in> set (outputs demo_two)" "o_plan (outputs demo_two ! 0) = t_plan (tasks demo_two ! 0)"
    "o_task (outputs demo_two ! 0) = t_id (tasks demo_two ! 0)"
    "outputs demo_two ! 1 \<in> set (outputs demo_two)" "o_plan (outputs demo_two ! 1) = t_plan (tasks demo_two ! 1)"
    "o_task (outputs demo_two ! 1) = t_id (tasks demo_two ! 1)"
    by code_simp+
  then show "o_path (outputs demo_two ! 0) \<noteq> o_path (outputs demo_two ! 1)"
    by (rule running_tasks_share_no_output [OF demo_two_reachable])
  show "fst (ClaimTask ''p'' ''c'' ''s'' ''w'' demo_two) = Inl (ErrOutputReserved ''o'')" by code_simp
qed

text \<open>\<^bold>\<open>C24.\<close> The cycle check is exact.  In a reachable store the edges of every plan are acyclic, and an
  edge between two different tasks of the plan that is not there yet is refused exactly when
  adding it would close a cycle; otherwise it is added.\<close>

theorem cycle_check_exact:
  assumes "store_reachable s" "taskID \<noteq> dependsOn"
    and "task_exists planID taskID s" "task_exists planID dependsOn s"
    and "(taskID, dependsOn) \<notin> edges (deps s) planID"
  shows "acyclic (edges (deps s) planID) \<and>
    (fst (AddDep planID taskID dependsOn s) = Inl (ErrCycle taskID dependsOn) \<longleftrightarrow>
       \<not> acyclic (insert (taskID, dependsOn) (edges (deps s) planID))) \<and>
    (fst (AddDep planID taskID dependsOn s) = Inr () \<longleftrightarrow>
       acyclic (insert (taskID, dependsOn) (edges (deps s) planID)))"
proof -
  have ac: "acyclic (edges (deps s) planID)"
    using reachable_inv [OF assms(1)] by (simp add: store_inv_def graph_acyclic_def)
  have fresh: "\<not> list_ex (\<lambda>d. d_plan d = planID \<and> d_task d = taskID \<and> d_on d = dependsOn) (deps s)"
    using assms(5) by (auto simp: edges_def list_ex_iff)
  show ?thesis
    using ac fresh assms(2-4)
    by (auto simp: AddDep_def addDepOn_def wouldCreateCycle_reach)
qed

theorem cycle_check_exact_witness:
  "fst (AddDep ''p'' ''a'' ''b'' demo_live) = Inl (ErrCycle ''a'' ''b'') \<and>
   \<not> acyclic (insert (''a'', ''b'') (edges (deps demo_live) ''p''))"
proof -
  have "fst (AddDep ''p'' ''a'' ''b'' demo_live) = Inl (ErrCycle ''a'' ''b'')"
    "task_exists ''p'' ''a'' demo_live" "task_exists ''p'' ''b'' demo_live"
    "(''a'', ''b'') \<notin> edges (deps demo_live) ''p''"
    by code_simp+
  then show ?thesis using cycle_check_exact [OF demo_reachable(3), of "''a''" "''b''" "''p''"] by simp
qed

section \<open>Writing a graph\<close>

text \<open>The rows a graph write appends, from its specifications alone.\<close>

definition spec_task :: "ident \<Rightarrow> nanos \<Rightarrow> GraphTaskSpec \<Rightarrow> task_row" where
  "spec_task planID now spec = new_task_row ((gt_Task spec)\<lparr>ct_PlanID := planID\<rparr>) (empty_store now)"

definition spec_deps :: "ident \<Rightarrow> GraphTaskSpec \<Rightarrow> dep_row list" where
  "spec_deps planID spec = map (\<lambda>d. \<lparr>d_plan = planID, d_task = ct_ID (gt_Task spec), d_on = d\<rparr>) (gt_DependsOn spec)"

definition spec_outputs :: "ident \<Rightarrow> GraphTaskSpec \<Rightarrow> output_row list" where
  "spec_outputs planID spec = map (\<lambda>o'. \<lparr>o_plan = planID, o_task = ct_ID (gt_Task spec),
     o_path = canonicalReservationPath (out_Path o'), o_mode = ''exclusive''\<rparr>) (gt_Outputs spec)"

definition graph_plan_row :: "ident \<Rightarrow> CreatePlanGraphOpts \<Rightarrow> seconds \<Rightarrow> plan_row" where
  "graph_plan_row uuid opts now = \<lparr>p_id = uuid, p_project = cp_ProjectID (cg_Plan opts),
     p_slug = cp_Slug (cg_Plan opts), p_title = cp_Title (cg_Plan opts),
     p_status = (if cg_Activate opts then PlanStatusActive else PlanStatusDraft),
     p_source = nullIfEmpty (cp_SourceMarkdown (cg_Plan opts)), p_created = now, p_updated = now,
     p_last_session = None, p_tags = nullIfEmpty (cp_TagsJSON (cg_Plan opts))\<rparr>"

text \<open>\<open>grown s s' ts ds os\<close>: \<open>s'\<close> has these rows more than \<open>s\<close>, and nothing else changed in the graph.\<close>

definition grown :: "store \<Rightarrow> store \<Rightarrow> task_row list \<Rightarrow> dep_row list \<Rightarrow> output_row list \<Rightarrow> bool" where
  "grown s s' ts ds os \<longleftrightarrow> tasks s' = tasks s @ ts \<and> deps s' = deps s @ ds \<and> outputs s' = outputs s @ os \<and>
     plans s' = plans s \<and> clock s' = clock s"

lemma grown_trans: "grown s s1 ts ds os \<Longrightarrow> grown s1 s2 ts' ds' os' \<Longrightarrow> grown s s2 (ts @ ts') (ds @ ds') (os @ os')"
  by (simp add: grown_def)

lemma op_each_grown:
  assumes "\<And>x s s'. f x s = (Inr (), s') \<Longrightarrow> grown s s' (ft (clock s) x) (fd x) (fo x)"
    and "op_each f xs s = (Inr (), s')"
  shows "grown s s' (concat (map (ft (clock s)) xs)) (concat (map fd xs)) (concat (map fo xs))"
  using assms(2)
proof (induction xs arbitrary: s)
  case Nil
  then show ?case by (simp add: op_return_def grown_def)
next
  case (Cons x xs)
  then obtain s1 where 1: "f x s = (Inr (), s1)" "op_each f xs s1 = (Inr (), s')" by auto
  have "grown s s1 (ft (clock s) x) (fd x) (fo x)" by (rule assms(1) [OF 1(1)])
  moreover from this have "clock s1 = clock s" by (simp add: grown_def)
  ultimately show ?case using grown_trans [OF _ Cons.IH [OF 1(2)]] by simp
qed

lemma createTaskOn_grown:
  "createTaskOn ((gt_Task spec)\<lparr>ct_PlanID := planID\<rparr>) s = (Inr (), s') \<Longrightarrow> grown s s' [spec_task planID (clock s) spec] [] []"
  by (erule createTaskOn_cases) (auto simp: grown_def spec_task_def new_task_row_def empty_store_def)

lemma node_metadata_grown: "node_metadata planID spec s = (Inr (), s') \<Longrightarrow> grown s s' [] [] []"
  by (auto simp: node_metadata_def putTaskMetadataOn_def op_return_def grown_def split: if_splits)

lemma reserveTaskInputOn_grown: "reserveTaskInputOn p i path sha s = (Inr (), s') \<Longrightarrow> grown s s' [] [] []"
  by (auto simp: reserveTaskInputOn_def Let_def grown_def split: if_splits)

lemma reserveTaskOutputOn_grown:
  "reserveTaskOutputOn p i path mode s = (Inr (), s') \<Longrightarrow>
   grown s s' [] [] [\<lparr>o_plan = p, o_task = i, o_path = canonicalReservationPath path, o_mode = ''exclusive''\<rparr>]"
  by (erule reserve_cases) (auto simp: grown_def)

lemma concat_singletons [simp]: "concat (map (\<lambda>x. [g x]) xs) = map g xs"
  by (induction xs) auto

lemma concat_empties [simp]: "concat (map (\<lambda>_. []) xs) = []"
  by (induction xs) auto

lemma addDepOn_grown:
  "addDepOn p i d s = (Inr (), s') \<Longrightarrow> grown s s' [] [\<lparr>d_plan = p, d_task = i, d_on = d\<rparr>] []"
  using addDepOn_ok(5) by (fastforce simp: grown_def)

lemma write_node_grown:
  assumes "write_node planID spec s = (Inr (), s')"
  shows "grown s s' [spec_task planID (clock s) spec] [] (spec_outputs planID spec)"
  using assms
proof (cases rule: write_node_stages)
  case (1 s1 s2 s3)
  have "grown s2 s3 [] [] []"
    using op_each_grown [where ft = "\<lambda>_ _. []" and fd = "\<lambda>_. []" and fo = "\<lambda>_. []", OF _ 1(3)]
      reserveTaskInputOn_grown by auto
  moreover have "grown s3 s' [] [] (spec_outputs planID spec)"
    using op_each_grown [where ft = "\<lambda>_ _. []" and fd = "\<lambda>_. []", OF reserveTaskOutputOn_grown 1(4)]
    by (simp add: spec_outputs_def)
  ultimately show ?thesis
    using grown_trans [OF grown_trans [OF grown_trans [OF createTaskOn_grown [OF 1(1)] node_metadata_grown [OF 1(2)]]]]
    by fastforce
qed

lemma write_edges_grown:
  assumes "write_edges planID spec s = (Inr (), s')"
  shows "grown s s' [] (spec_deps planID spec) []"
  using op_each_grown [where ft = "\<lambda>_ _. []" and fo = "\<lambda>_. []", OF addDepOn_grown assms [unfolded write_edges_def]]
  by (simp add: spec_deps_def)

lemma writeGraphTasksOn_grown:
  assumes "writeGraphTasksOn planID specs s = (Inr (), s')"
  shows "grown s s' (map (spec_task planID (clock s)) specs) (concat (map (spec_deps planID) specs))
           (concat (map (spec_outputs planID) specs))"
  using assms
proof (cases rule: writeGraph_stages)
  case (1 s1)
  have "grown s s1 (map (spec_task planID (clock s)) specs) [] (concat (map (spec_outputs planID) specs))"
    using op_each_grown [where ft = "\<lambda>c spec. [spec_task planID c spec]" and fd = "\<lambda>_. []", OF write_node_grown 1(1)]
    by simp
  moreover have "grown s1 s' [] (concat (map (spec_deps planID) specs)) []"
    using op_each_grown [where ft = "\<lambda>_ _. []" and fo = "\<lambda>_. []", OF write_edges_grown 1(2)] by simp
  ultimately show ?thesis using grown_trans by fastforce
qed

lemma CreatePlanGraph_rows:
  assumes "CreatePlanGraph uuid opts s = (Inr x, s')"
  shows "x = uuid \<and> \<not> plan_exists uuid s \<and> plans s' = plans s @ [graph_plan_row uuid opts (now_of s)] \<and>
    tasks s' = tasks s @ map (spec_task uuid (clock s)) (cg_Tasks opts) \<and>
    deps s' = deps s @ concat (map (spec_deps uuid) (cg_Tasks opts)) \<and>
    outputs s' = outputs s @ concat (map (spec_outputs uuid) (cg_Tasks opts))"
  using assms
proof (cases rule: CreatePlanGraph_stages)
    case (1 s1 s2)
    let ?row = "graph_plan_row uuid (opts\<lparr>cg_Activate := False\<rparr>) (now_of s)"
    have s1: "x = uuid" "s1 = s\<lparr>plans := plans s @ [?row]\<rparr>" "\<not> plan_exists uuid s"
      using 1(1) by (auto simp: createPlanOn_def graph_plan_row_def split: if_splits)
    have g: "grown s1 s2 (map (spec_task uuid (clock s)) (cg_Tasks opts)) (concat (map (spec_deps uuid) (cg_Tasks opts)))
         (concat (map (spec_outputs uuid) (cg_Tasks opts)))"
      using writeGraphTasksOn_grown [OF 1(2)] s1 by simp
    have others: "upd_where (\<lambda>p. p_id p = uuid) f (plans s) = plans s" for f
      using s1(3) by (auto simp: plan_exists_def list_ex_iff intro: upd_where_id)
    have last: "upd_where (\<lambda>p. p_id p = uuid) f (plans s @ [?row]) = plans s @ [f ?row]" for f
      using others [of f] by (simp add: upd_where_def graph_plan_row_def)
    have s': "plans s' = plans s @ [graph_plan_row uuid opts (now_of s)]" "tasks s' = tasks s2" "deps s' = deps s2"
      "outputs s' = outputs s2"
      using 1(3) g s1 last
      by (auto simp: setPlanStatusOn_def op_return_def grown_def graph_plan_row_def split: if_splits)
    show ?thesis using s' g s1 by (simp add: grown_def)
qed

text \<open>\<^bold>\<open>C20.\<close> A plan graph is written completely or not at all.  When \<open>CreatePlanGraph\<close> reports an error the
  database is what it was; when it succeeds there is one new plan row under the generated id,
  active exactly when asked for, one task per specification in order, every declared dependency
  edge and every declared output reservation under its canonical path, and no other row of these
  tables was added, changed or lost.\<close>

theorem plan_graph_all_or_nothing:
  "case CreatePlanGraph uuid opts s of
     (Inl e, s') \<Rightarrow> s' = s
   | (Inr x, s') \<Rightarrow> x = uuid \<and> plans s' = plans s @ [graph_plan_row uuid opts (now_of s)] \<and>
       tasks s' = tasks s @ map (spec_task uuid (clock s)) (cg_Tasks opts) \<and>
       deps s' = deps s @ concat (map (spec_deps uuid) (cg_Tasks opts)) \<and>
       outputs s' = outputs s @ concat (map (spec_outputs uuid) (cg_Tasks opts))"
proof (cases "CreatePlanGraph uuid opts s")
  case (Pair r s')
  then show ?thesis by (cases r) (auto dest: CreatePlanGraph_error CreatePlanGraph_rows)
qed

section \<open>Deleting a plan\<close>

text \<open>Everything the database holds about one plan.\<close>

definition plan_data :: "ident \<Rightarrow> store \<Rightarrow> _" where
  "plan_data q s = (filter (\<lambda>r. p_id r = q) (plans s), filter (\<lambda>r. t_plan r = q) (tasks s),
     filter (\<lambda>r. d_plan r = q) (deps s), filter (\<lambda>r. e_plan r = Some q) (events s),
     filter (\<lambda>r. md_plan r = q) (metadata s), filter (\<lambda>r. a_plan r = q) (attempts s),
     filter (\<lambda>r. i_plan r = q) (inputs s), filter (\<lambda>r. o_plan r = q) (outputs s),
     filter (\<lambda>r. m_plan r = q) (messages s), filter (\<lambda>r. h_plan r = q) (hooks s))"

lemma has_subtask_events [simp]: "has_subtask planID (s\<lparr>events := es\<rparr>) = has_subtask planID s"
proof -
  have "task_exists planID x (s\<lparr>events := es\<rparr>) = task_exists planID x s" for x by (simp add: task_exists_def)
  then show ?thesis by (simp add: has_subtask_def cong: option.case_cong)
qed

text \<open>\<^bold>\<open>C27.\<close> Deleting a plan.  \<open>DeletePlan\<close> succeeds exactly when the plan exists and no task of it has another task
  of it as parent.  On success nothing the database held about the plan is left, no worker points
  at one of its tasks, and what it holds about any other plan is what it was; on failure nothing
  changes at all.\<close>

theorem delete_plan_is_complete:
  "(fst (DeletePlan planID s) = Inr () \<longleftrightarrow> plan_exists planID s \<and> \<not> has_subtask planID s) \<and>
   (if fst (DeletePlan planID s) = Inr ()
    then plan_data planID (snd (DeletePlan planID s)) = ([], [], [], [], [], [], [], [], [], []) \<and>
         filter (\<lambda>w. w_plan w = Some planID \<and> w_task w \<noteq> None) (workers (snd (DeletePlan planID s))) = [] \<and>
         (q = planID \<or> plan_data q (snd (DeletePlan planID s)) = plan_data q s)
    else snd (DeletePlan planID s) = s)"
proof -
  let ?s1 = "s\<lparr>events := filter (\<lambda>e. e_plan e \<noteq> Some planID) (events s)\<rparr>"
  have ok: "fst (DeletePlan planID s) = Inr () \<longleftrightarrow> plan_exists planID s \<and> \<not> has_subtask planID s"
    by (auto simp: DeletePlan_def in_tx_def Let_def plan_exists_def list_ex_iff)
  show ?thesis
  proof (cases "fst (DeletePlan planID s) = Inr ()")
    case True
    then have s': "snd (DeletePlan planID s) = cascade_plan planID ?s1"
      by (auto simp: DeletePlan_def in_tx_def Let_def split: if_splits)
    have "plan_data planID (cascade_plan planID ?s1) = ([], [], [], [], [], [], [], [], [], [])"
      by (simp add: plan_data_def cascade_plan_def)
    moreover have "filter (\<lambda>w. w_plan w = Some planID \<and> w_task w \<noteq> None) (workers (cascade_plan planID ?s1)) = []"
      by (auto simp: cascade_plan_def filter_empty_conv)
    moreover have "q = planID \<or> plan_data q (cascade_plan planID ?s1) = plan_data q s"
      by (cases "q = planID") (auto simp: plan_data_def cascade_plan_def intro!: filter_cong)
    ultimately show ?thesis using True ok s' by simp
  next
    case False
    then have "snd (DeletePlan planID s) = s"
      by (auto simp: DeletePlan_def in_tx_def Let_def split: if_splits)
    then show ?thesis using False ok by auto
  qed
qed

text \<open>A plan with a subtask cannot be deleted.  Once a task has been created under another task of its
  plan, \<open>DeletePlan\<close> fails with a NOT NULL violation and keeps the whole plan: the foreign key of the
  parent column nulls \<open>plan_id\<close> as well.\<close>

theorem subtask_pins_plan:
  assumes "CreateTask opts s = (Inr (), s')" "ct_ParentTaskID opts \<noteq> []" "ct_ParentTaskID opts \<noteq> ct_ID opts"
  shows "DeletePlan (ct_PlanID opts) s' = (Inl (ErrConstraint NotNullC), s')"
proof -
  have s': "s' = s\<lparr>tasks := tasks s @ [new_task_row opts s]\<rparr>" "plan_exists (ct_PlanID opts) s"
    "task_exists (ct_PlanID opts) (ct_ParentTaskID opts) s"
    using assms by (auto simp: CreateTask_def createTaskOn_def split: if_splits)
  have "t_parent (new_task_row opts s) = Some (ct_ParentTaskID opts)"
    using assms(2) by (simp add: new_task_row_def nullIfEmpty_def)
  then have "has_subtask (ct_PlanID opts) s'"
    using s' assms(3) by (auto simp: has_subtask_def task_exists_def list_ex_iff)
  moreover have "plan_exists (ct_PlanID opts) s'" using s' by (simp add: plan_exists_def)
  ultimately show ?thesis
    by (auto simp: DeletePlan_def in_tx_def Let_def plan_exists_def list_ex_iff)
qed

theorem subtask_pins_plan_witness:
  "let s' = snd (CreateTask (demo_task ''k'' False\<lparr>ct_PlanID := ''p'', ct_ParentTaskID := ''a''\<rparr>) demo_graph) in
   DeletePlan ''p'' s' = (Inl (ErrConstraint NotNullC), s')"
proof -
  let ?opts = "demo_task ''k'' False\<lparr>ct_PlanID := ''p'', ct_ParentTaskID := ''a''\<rparr>"
  have "isl (fst (CreateTask ?opts demo_graph)) = False" "ct_ParentTaskID ?opts \<noteq> []" "ct_ParentTaskID ?opts \<noteq> ct_ID ?opts"
    "ct_PlanID ?opts = ''p''"
    by code_simp+
  moreover from this have "CreateTask ?opts demo_graph = (Inr (), snd (CreateTask ?opts demo_graph))"
    by (cases "CreateTask ?opts demo_graph", cases "fst (CreateTask ?opts demo_graph)") auto
  ultimately show ?thesis using subtask_pins_plan [of ?opts] unfolding Let_def by metis
qed

end
