(* ===== verification/Store_Metadata_Laws.thy ===== *)
theory Store_Metadata_Laws
  imports Store_Demo
begin

text \<open>
  The promises about scheduling metadata: the half written at import never changes, a calibration
  binding and the provenance of an attempt are written once, and the pre-dispatch blocks are
  announced once and cleared only by their own cause.
\<close>

section \<open>How metadata rows evolve\<close>

definition md_key :: "metadata_row \<Rightarrow> ident \<times> ident" where
  "md_key m = (md_plan m, md_task m)"

definition md_keys :: "store \<Rightarrow> (ident \<times> ident) list" where
  "md_keys s = map md_key (metadata s)"

text \<open>The immutable half, and the calibration once it is there.\<close>

definition md_evolves :: "metadata_row \<Rightarrow> metadata_row \<Rightarrow> bool" where
  "md_evolves m m' \<longleftrightarrow> md_key m' = md_key m \<and> md_group_path m' = md_group_path m \<and>
     md_team_path m' = md_team_path m \<and> md_json m' = md_json m \<and>
     (coalesce (md_calibration m) \<noteq> [] \<longrightarrow>
        md_calibration m' = md_calibration m \<and> md_capabilities m' = md_capabilities m)"

lemma md_evolves_refl [simp]: "md_evolves m m"
  by (simp add: md_evolves_def)

definition md_extends :: "store \<Rightarrow> store \<Rightarrow> bool" where
  "md_extends s s' \<longleftrightarrow> (\<exists>new. metadata s' = metadata s @ new \<and> (distinct (md_keys s) \<longrightarrow> distinct (md_keys s')))"

text \<open>A step keeps the key unique and lets every surviving row evolve.\<close>

definition md_step :: "store \<Rightarrow> store \<Rightarrow> bool" where
  "md_step s s' \<longleftrightarrow> (distinct (md_keys s) \<longrightarrow> distinct (md_keys s') \<and>
     (\<forall>m \<in> set (metadata s). \<forall>m' \<in> set (metadata s'). md_key m' = md_key m \<longrightarrow> md_evolves m m'))"

lemma md_same_key:
  "distinct (md_keys s) \<Longrightarrow> m \<in> set (metadata s) \<Longrightarrow> m' \<in> set (metadata s) \<Longrightarrow> md_key m = md_key m' \<Longrightarrow> m = m'"
  by (auto simp: md_keys_def dest: distinct_map_inj)

lemma md_step_same: "metadata s' = metadata s \<Longrightarrow> md_step s s'"
  unfolding md_step_def by (metis md_evolves_refl md_keys_def md_same_key)

lemma md_step_extends: "md_extends s s' \<Longrightarrow> md_step s s'"
  unfolding md_step_def md_extends_def
  by (metis Un_iff md_evolves_refl md_same_key set_append)

lemma md_step_prunes: "metadata s' = filter P (metadata s) \<Longrightarrow> md_step s s'"
  unfolding md_step_def
  by (metis (mono_tags, lifting) distinct_map_filter filter_is_subset md_evolves_refl md_keys_def md_same_key subsetD)

lemma md_step_update:
  assumes "metadata s' = upd_where P f (metadata s)"
    and "\<And>m. m \<in> set (metadata s) \<Longrightarrow> P m \<Longrightarrow> md_evolves m (f m)"
  shows "md_step s s'"
proof -
  have row: "md_key (if P m then f m else m) = md_key m \<and> md_evolves m (if P m then f m else m)"
    if "m \<in> set (metadata s)" for m
    using assms(2) [OF that] by (simp add: md_evolves_def)
  then have keys: "md_keys s' = md_keys s" by (simp add: md_keys_def assms(1) upd_where_def)
  moreover have "md_evolves m m'"
    if keys: "distinct (md_keys s)" and rows: "m \<in> set (metadata s)" "m' \<in> set (metadata s')" "md_key m' = md_key m" for m m'
  proof -
    obtain u where u: "u \<in> set (metadata s)" "m' = (if P u then f u else u)"
      using rows(2) unfolding assms(1) by (rule in_upd_where)
    then have "u = m" using row [OF u(1)] md_same_key [OF keys u(1) rows(1)] rows(3) by metis
    then show ?thesis using row [OF u(1)] u(2) by metis
  qed
  ultimately show ?thesis by (simp add: md_step_def)
qed

section \<open>Every step\<close>

lemma in_tx_snd: "snd (in_tx body s) = (case fst (body s) of Inl e \<Rightarrow> s | Inr x \<Rightarrow> snd (body s))"
  by (simp add: in_tx_def split: prod.split sum.split)

lemma update_tasks_metadata [simp]: "metadata (update_tasks P f s) = metadata s"
  by (simp add: update_tasks_def)

lemma update_metadata_metadata [simp]: "metadata (update_metadata P f s) = upd_where P f (metadata s)"
  by (simp add: update_metadata_def)

lemma insert_event_metadata [simp]: "metadata (snd (insert_event a b c d e f g s)) = metadata s"
  by (simp add: insert_event_def)

lemma delete_metadata [simp]:
  "metadata (delete_workers P s) = metadata s" "metadata (delete_sessions Q s) = metadata s"
  by (simp_all add: delete_sessions_def delete_workers_def Let_def)

lemma guarded_report_metadata [simp]: "metadata (snd (guarded_report P f p i k st ac pl s)) = metadata s"
  by (simp add: guarded_report_def)

lemma op_each_metadata:
  "(\<And>x s. metadata (snd (f x s)) = metadata s) \<Longrightarrow> metadata (snd (op_each f xs s)) = metadata s"
proof (induction xs arbitrary: s)
  case (Cons x xs)
  show ?case
    using Cons.IH [OF Cons.prems, of "snd (f x s)"] Cons.prems [of x s]
    by (cases "f x s") (auto simp: op_bind_def split: sum.splits)
qed (simp add: op_return_def)

lemma in_tx_metadata: "metadata (snd (body s)) = metadata s \<Longrightarrow> metadata (snd (in_tx body s)) = metadata s"
  by (auto simp: in_tx_snd split: sum.split)

lemma op_bind_metadata:
  "metadata (snd (m s)) = metadata s \<Longrightarrow> (\<And>x s1. metadata (snd (f x s1)) = metadata s1) \<Longrightarrow>
   metadata (snd (op_bind m f s)) = metadata s"
  by (auto simp: op_bind_def split: prod.split sum.split)

lemma read_metadata [simp]: "metadata (snd (GetTask p i s)) = metadata s"
  by (simp add: GetTask_def split: option.split)

lemma claim_tail_metadata: "metadata (snd (claim_tail p i se w s)) = metadata s"
  unfolding claim_tail_def
  by (rule op_bind_metadata) (auto simp: claim_update_def Let_def op_fail_def op_return_def intro!: op_bind_metadata)

lemma report_metadata:
  "metadata (snd (ClaimNextReady p se w s)) = metadata s"
  "metadata (snd (ClaimTask p i se w s)) = metadata s"
  "metadata (snd (MarkDone p i se ev s)) = metadata s"
  "metadata (snd (MarkFailedWithPayload p i se pl n s)) = metadata s"
  "metadata (snd (ReleaseClaim p i se r s)) = metadata s"
  "metadata (snd (MarkBlocked p i se pl s)) = metadata s"
  "metadata (snd (ApproveTask p i s)) = metadata s"
  by (auto simp: ClaimNextReady_def ClaimTask_def claimTaskOnce_def MarkDone_def MarkFailedWithPayload_def
      ReleaseClaim_def MarkBlocked_def ApproveTask_def Let_def claim_tail_metadata op_return_def split: list.split option.split
      intro!: op_bind_metadata in_tx_metadata)

lemma worker_metadata:
  "metadata (snd (CreateSession u so s)) = metadata s" "metadata (snd (HeartbeatSession i s)) = metadata s"
  "metadata (snd (CloseSession i s)) = metadata s" "metadata (snd (CreateWorker u wo s)) = metadata s"
  "metadata (snd (SetWorkerTask w p i s)) = metadata s" "metadata (snd (HeartbeatWorker w s)) = metadata s"
  "metadata (snd (HeartbeatWorkerAndSession w s)) = metadata s" "metadata (snd (ClearWorkerTask w st s)) = metadata s"
  "metadata (snd (ReclaimWorker w s)) = metadata s"
  by (auto simp: CreateSession_def HeartbeatSession_def CloseSession_def CreateWorker_def SetWorkerTask_def
      HeartbeatWorker_def HeartbeatWorkerAndSession_def ClearWorkerTask_def ReclaimWorker_def update_workers_def
      Let_def split: option.split intro!: in_tx_metadata)

lemma reaper_metadata: "metadata (snd (ReclaimStale staleAfter s)) = metadata s"
proof -
  obtain es n where r: "ReclaimStale staleAfter s = (Inr (length (filter (reclaimable (rfc3339 (clock s - staleAfter)) s) (tasks s))),
      reclaim_step2 (rfc3339 (clock s - staleAfter)) (rfc3339 (clock s - staleAfter * staleSessionMultiplier))
        ((update_tasks (reclaimable (rfc3339 (clock s - staleAfter)) s) requeue s)\<lparr>events := es, event_seq := n\<rparr>))"
    by (rule ReclaimStale_result)
  show ?thesis unfolding r by (simp add: reclaim_step2_def Let_def)
qed

lemma log_metadata:
  "metadata (snd (CreateTask cto s)) = metadata s" "metadata (snd (AddDep p i d s)) = metadata s"
  "metadata (snd (ReserveTaskOutput p i path mode s)) = metadata s"
  "metadata (snd (ReserveTaskInput p i path sha s)) = metadata s"
  "metadata (snd (CreatePlan u cpo s)) = metadata s" "metadata (snd (SetPlanStatus p ps s)) = metadata s"
  "metadata (snd (Emit eo s)) = metadata s"
  "metadata (snd (TouchProjectLastSeen p s)) = metadata s"
  "metadata (snd (RecordCalibration digest c s)) = metadata s" "metadata (snd (RecordCalibrationAttempt a s)) = metadata s"
  "metadata (snd (SetHookVerificationPending se p i s)) = metadata s"
  "metadata (snd (SetHookVerificationResult se p i b s)) = metadata s"
  "metadata (snd (InvalidateHookVerifications se s)) = metadata s"
  "metadata (snd (ClearHookVerification se p i s)) = metadata s"
  "metadata (snd (RecordSpend ro s)) = metadata s" "metadata (snd (AppendMessage ao s)) = metadata s"
  subgoal by (simp add: CreateTask_def createTaskOn_def)
  subgoal by (simp add: AddDep_def addDepOn_def)
  subgoal by (simp add: ReserveTaskOutput_def op_fail_def reserveTaskOutputOn_def Let_def)
  subgoal by (simp add: ReserveTaskInput_def op_fail_def reserveTaskInputOn_def Let_def)
  subgoal by (simp add: CreatePlan_def createPlanOn_def)
  subgoal by (simp add: SetPlanStatus_def setPlanStatusOn_def)
  subgoal by (simp add: Emit_def)
  subgoal by (simp add: TouchProjectLastSeen_def)
  subgoal by (simp add: RecordCalibration_def Let_def split: prod.split sum.split)
  subgoal by (auto simp: RecordCalibrationAttempt_def op_fail_def split: option.split intro!: in_tx_metadata)
  subgoal by (simp add: SetHookVerificationPending_def)
  subgoal by (simp add: SetHookVerificationResult_def)
  subgoal by (simp add: InvalidateHookVerifications_def)
  subgoal by (simp add: ClearHookVerification_def)
  subgoal by (simp add: RecordSpend_def)
  subgoal by (simp add: AppendMessage_def)
  done

lemma project_metadata:
  "metadata (snd (CreateProject u nm fps s)) = metadata s"
  "metadata (snd (AddProjectIdentifiers p fps s)) = metadata s"
  "metadata (snd (ApplyProjectConfig p ups dels s)) = metadata s"
proof -
  have ids: "metadata (snd (insertIdentifiers p fps n s)) = metadata s" for p n s
    unfolding insertIdentifiers_def by (rule op_each_metadata) (simp add: upsert_identifier_def)
  have dels: "metadata (fold (delete_config p) ks s) = metadata s" for ks s
    by (induction ks arbitrary: s) (auto simp: delete_config_def)
  have ups: "metadata (snd (op_each (upsert_config p) kvs s)) = metadata s" for kvs s
    by (rule op_each_metadata) (simp add: upsert_config_def Let_def)
  show "metadata (snd (AddProjectIdentifiers p fps s)) = metadata s"
    by (auto simp: AddProjectIdentifiers_def op_fail_def ids intro!: in_tx_metadata)
  show "metadata (snd (ApplyProjectConfig p ups dels s)) = metadata s"
    by (auto simp: ApplyProjectConfig_def op_fail_def dels ups intro!: in_tx_metadata)
  show "metadata (snd (CreateProject u nm fps s)) = metadata s"
    by (auto simp: CreateProject_def op_return_def ids intro!: in_tx_metadata op_bind_metadata [THEN trans])
qed

lemma PutTaskMetadata_extends: "md_extends s (snd (putTaskMetadataOn p i g tp js s))"
  by (auto simp: putTaskMetadataOn_def md_extends_def md_keys_def md_key_def list_ex_iff)

lemma md_extends_trans: "md_extends s s1 \<Longrightarrow> md_extends s1 s2 \<Longrightarrow> md_extends s s2"
  unfolding md_extends_def by (metis append.assoc)

lemma md_extends_same: "metadata s' = metadata s \<Longrightarrow> md_extends s s'"
  by (simp add: md_extends_def md_keys_def)

lemma op_each_md_extends:
  assumes "\<And>x s s'. f x s = (Inr (), s') \<Longrightarrow> md_extends s s'" and "op_each f xs s = (Inr (), s')"
  shows "md_extends s s'"
  by (rule op_each_inv [where P = "md_extends s", OF _ assms(2)]) (auto intro: md_extends_trans assms(1) md_extends_same)

lemma write_node_md_extends:
  assumes "write_node planID spec s = (Inr (), s')"
  shows "md_extends s s'"
  using assms
proof (cases rule: write_node_stages)
  case (1 s1 s2 s3)
  have "md_extends s s1" using log_metadata(1) [of _ s] 1(1) by (metis CreateTask_def md_extends_same snd_conv)
  moreover have "md_extends s1 s2"
    using 1(2) PutTaskMetadata_extends by (auto simp: node_metadata_def op_return_def md_extends_same split: if_splits) (metis snd_conv)+
  moreover have "md_extends s2 s3"
    by (rule op_each_md_extends [OF _ 1(3)]) (auto simp: reserveTaskInputOn_def Let_def intro!: md_extends_same split: if_splits)
  moreover have "md_extends s3 s'"
    by (rule op_each_md_extends [OF _ 1(4)]) (erule reserve_cases, auto intro: md_extends_same)
  ultimately show ?thesis using md_extends_trans by blast
qed

lemma writeGraph_md_extends:
  assumes "writeGraphTasksOn planID specs s = (Inr (), s')"
  shows "md_extends s s'"
  using assms
proof (cases rule: writeGraph_stages)
  case (1 s1)
  have "md_extends s s1" by (rule op_each_md_extends [OF write_node_md_extends 1(1)])
  moreover have "md_extends t t'" if "write_edges planID spec t = (Inr (), t')" for spec t t'
    by (rule op_each_md_extends [OF _ that [unfolded write_edges_def]])
      (metis AddDep_def log_metadata(2) md_extends_same snd_conv)
  then have "md_extends s1 s'" by (rule op_each_md_extends [OF _ 1(2)])
  ultimately show ?thesis by (rule md_extends_trans)
qed

lemma graph_md_extends:
  "md_extends s (snd (MaterializePlanGraph planID specs s))" "md_extends s (snd (CreatePlanGraph uuid opts s))"
proof -
  show "md_extends s (snd (MaterializePlanGraph planID specs s))"
    unfolding MaterializePlanGraph_def
    by (rule in_tx_inv [where P = "md_extends s"]) (auto intro: writeGraph_md_extends md_extends_same)
  show "md_extends s (snd (CreatePlanGraph uuid opts s))"
  proof (cases "CreatePlanGraph uuid opts s")
    case (Pair r s')
    show ?thesis
    proof (cases r)
      case (Inl e)
      then have "s' = s" using Pair CreatePlanGraph_error by blast
      then show ?thesis using Pair by (simp add: md_extends_same)
    next
      case (Inr x)
      with Pair have "CreatePlanGraph uuid opts s = (Inr x, s')" by simp
      then show ?thesis
      proof (cases rule: CreatePlanGraph_stages)
        case (1 s1 s2)
        have "metadata s1 = metadata s" "metadata s' = metadata s2"
          using 1(1,3) by (auto simp: createPlanOn_def setPlanStatusOn_def op_return_def split: if_splits)
        then show ?thesis using writeGraph_md_extends [OF 1(2)] Pair by (simp add: md_extends_def md_keys_def)
      qed
    qed
  qed
qed

lemma binding_md_steps:
  "md_step s (snd (BindTaskCalibration p i c caps s))"
  "md_step s (snd (RecordTaskExecution p i al pr mo ef dm se s))"
  "md_step s (snd (RecordTaskProviderSession p i se ps s))"
  "md_step s (snd (markMetadataBlocked p i st r s))"
  "md_step s (snd (ClearTaskBlock p i st s))"
  "md_step s (snd (DeletePlan p s))"
proof -
  have upd: "md_step s (update_metadata P f s)" if "\<And>m. P m \<Longrightarrow> md_evolves m (f m)" for P f and s :: store
    by (rule md_step_update [where P = P and f = f]) (simp_all add: that)
  have same: "md_step s s" for s by (rule md_step_same) simp
  show "md_step s (snd (BindTaskCalibration p i c caps s))"
    by (auto simp: BindTaskCalibration_def Let_def same md_evolves_def md_key_def split: option.split intro!: upd)
  show "md_step s (snd (RecordTaskProviderSession p i se ps s))"
    by (auto simp: RecordTaskProviderSession_def Let_def same md_evolves_def md_key_def split: list.split intro!: upd)
  show "md_step s (snd (RecordTaskExecution p i al pr mo ef dm se s))"
    unfolding RecordTaskExecution_def
    by (rule in_tx_inv [where P = "md_step s"])
      (auto simp: Let_def same md_evolves_def md_key_def split: if_splits option.splits intro!: upd)
  show "md_step s (snd (DeletePlan p s))"
    unfolding DeletePlan_def
    by (rule in_tx_inv [where P = "md_step s"])
      (auto simp: Let_def same cascade_plan_def split: if_splits intro!: md_step_prunes [where P = "\<lambda>m. md_plan m \<noteq> p"])
  show "md_step s (snd (markMetadataBlocked p i st r s))"
    unfolding markMetadataBlocked_def
    by (rule in_tx_inv [where P = "md_step s"])
      (auto simp: Let_def same insert_event_def op_return_def md_evolves_def md_key_def split: if_splits option.splits
        intro!: md_step_update)
  show "md_step s (snd (ClearTaskBlock p i st s))"
    by (auto simp: ClearTaskBlock_def op_fail_def in_tx_def Let_def same md_evolves_def md_key_def intro!: md_step_update)
qed

lemma step_metadata: "store_step s s' \<Longrightarrow> md_step s s'"
  by (induction rule: store_step.induct)
    (simp_all add: md_step_same report_metadata worker_metadata reaper_metadata log_metadata project_metadata
      PutTaskMetadata_def PutTaskMetadata_extends graph_md_extends md_step_extends binding_md_steps
      MarkBlockedCapability_def MarkBlockedInput_def)

lemma reachable_md_keys: "store_reachable s \<Longrightarrow> distinct (md_keys s)"
proof (induction rule: store_reachable.induct)
  case (start now)
  then show ?case by (simp add: md_keys_def empty_store_def)
next
  case (step s s')
  then show ?case using step_metadata by (auto simp: md_step_def)
qed

text \<open>Scheduling metadata is immutable.  Whatever the store does to a task that keeps its metadata, the
  group path, the team path and the authored JSON stay as they were at import, and a calibration
  binding, once made, keeps its calibration and its capability set.\<close>

theorem metadata_immutable:
  assumes "store_reachable s" "store_step s s'"
    and "m \<in> set (metadata s)" "m' \<in> set (metadata s')" "md_plan m' = md_plan m" "md_task m' = md_task m"
  shows "md_group_path m' = md_group_path m \<and> md_team_path m' = md_team_path m \<and> md_json m' = md_json m \<and>
    (coalesce (md_calibration m) \<noteq> [] \<longrightarrow>
       md_calibration m' = md_calibration m \<and> md_capabilities m' = md_capabilities m)"
proof -
  have "md_step s s'" by (rule step_metadata [OF assms(2)])
  moreover have "distinct (md_keys s)" by (rule reachable_md_keys [OF assms(1)])
  moreover have "md_key m' = md_key m" using assms(5,6) by (simp add: md_key_def)
  ultimately have "md_evolves m m'" using assms(3,4) by (simp add: md_step_def)
  then show ?thesis by (simp add: md_evolves_def)
qed

theorem metadata_immutable_witness:
  "let m = hd (metadata demo_live); m' = hd (metadata (snd (MarkBlockedCapability ''p'' ''a'' ''why'' demo_live))) in
   md_blocked_reason m' \<noteq> md_blocked_reason m \<and> md_group_path m' = md_group_path m \<and> md_json m' = md_json m"
proof -
  let ?s' = "snd (MarkBlockedCapability ''p'' ''a'' ''why'' demo_live)"
  have "hd (metadata demo_live) \<in> set (metadata demo_live)" "hd (metadata ?s') \<in> set (metadata ?s')"
    "md_plan (hd (metadata ?s')) = md_plan (hd (metadata demo_live))"
    "md_task (hd (metadata ?s')) = md_task (hd (metadata demo_live))"
    "md_blocked_reason (hd (metadata ?s')) \<noteq> md_blocked_reason (hd (metadata demo_live))"
    by code_simp+
  then show ?thesis
    using metadata_immutable [OF demo_reachable(3) block_capability] unfolding Let_def by blast
qed

section \<open>Bindings are written once\<close>

lemma md_unique:
  "distinct (md_keys s) \<Longrightarrow> m \<in> set (metadata s) \<Longrightarrow> m' \<in> set (metadata s) \<Longrightarrow>
   is_metadata p i m \<Longrightarrow> is_metadata p i m' \<Longrightarrow> m' = m"
  using md_same_key by (metis md_key_def)

lemma select_metadata:
  assumes "distinct (md_keys s)" "m \<in> set (metadata s)" "is_metadata p i m"
  shows "select_row (is_metadata p i) (metadata s) = Some m"
proof (cases "select_row (is_metadata p i) (metadata s)")
  case None
  then show ?thesis using assms by (auto simp: find_None_iff_all)
next
  case (Some m')
  then show ?thesis using find_SomeD [OF Some] md_unique [OF assms(1,2) _ assms(3)] by auto
qed

lemma upd_where_keys: "(\<And>m. md_key (f m) = md_key m) \<Longrightarrow> map md_key (upd_where P f rows) = map md_key rows"
  by (rule map_upd_where)

text \<open>A task is bound to one calibration.  After a successful \<open>BindTaskCalibration\<close> the metadata names
  exactly that calibration and capability set; from then on the same binding succeeds again and
  changes nothing, and any other is refused with \<open>ErrCalibrationBound\<close>, naming both, and changes
  nothing.\<close>

theorem calibration_bound_once:
  assumes "store_reachable s" "BindTaskCalibration planID taskID c caps s = (Inr (), s1)"
  shows "(\<exists>tm. GetTaskExecutionMetadata planID taskID s1 = (Inr tm, s1) \<and> tm_CalibrationID tm = c \<and>
            tm_CapabilitySetJSON tm = caps) \<and>
    (if c' = [] \<or> caps' = [] then fst (BindTaskCalibration planID taskID c' caps' s1) \<noteq> Inr ()
     else BindTaskCalibration planID taskID c' caps' s1 =
       (if c' = c \<and> caps' = caps then Inr () else Inl (ErrCalibrationBound c c'), s1))"
proof -
  let ?P = "\<lambda>m. is_metadata planID taskID m \<and> coalesce (md_calibration m) = []"
  let ?f = "\<lambda>m. m\<lparr>md_calibration := Some c, md_capabilities := Some caps\<rparr>"
  have keys: "distinct (md_keys s)" by (rule reachable_md_keys [OF assms(1)])
  have nonempty: "c \<noteq> []" "caps \<noteq> []" using assms(2) by (auto simp: BindTaskCalibration_def split: if_splits)
  have s1: "s1 = update_metadata ?P ?f s"
    using assms(2) by (auto simp: BindTaskCalibration_def Let_def split: if_splits option.splits)
  have keys1: "distinct (md_keys s1)"
    using keys by (simp add: s1 md_keys_def upd_where_keys md_key_def)
  obtain m1 where m1: "m1 \<in> set (metadata s1)" "is_metadata planID taskID m1"
    "coalesce (md_calibration m1) = c" "coalesce (md_capabilities m1) = caps"
  proof (cases "rows_affected ?P (metadata s) = 1")
    case True
    then obtain m where "m \<in> set (metadata s)" "?P m"
      using rows_affected_pos [of ?P "metadata s"] by auto
    then show thesis by (intro that [of "?f m"]) (auto simp: s1 set_upd_where)
  next
    case False
    then obtain m where m: "select_row (is_metadata planID taskID) (metadata s1) = Some m"
      "coalesce (md_calibration m) = c" "coalesce (md_capabilities m) = caps"
      using assms(2) by (auto simp: BindTaskCalibration_def Let_def s1 split: if_splits option.splits)
    then show thesis using find_SomeD [OF m(1)] by (intro that [of m]) auto
  qed
  have sel: "select_row (is_metadata planID taskID) (metadata s1) = Some m1"
    by (rule select_metadata [OF keys1 m1(1,2)])
  have none: "\<not> ?P m" if "m \<in> set (metadata s1)" for m
    using md_unique [OF keys1 m1(1) that m1(2)] m1(3) nonempty by auto
  have idle: "update_metadata ?P g s1 = s1" for g
    using none by (simp add: update_metadata_def upd_where_id)
  have noneb: "\<not> list_ex ?P (metadata s1)" "rows_affected ?P (metadata s1) = 0"
    using none by (auto simp: list_ex_iff)
  have "BindTaskCalibration planID taskID c' caps' s1 =
      (if c' = c \<and> caps' = caps then Inr () else Inl (ErrCalibrationBound c c'), s1)" if "c' \<noteq> []" "caps' \<noteq> []"
    using that noneb unfolding BindTaskCalibration_def Let_def idle by (simp del: rows_affected_0 add: sel m1(3,4))
  then show ?thesis
    using sel m1(3,4) by (simp add: BindTaskCalibration_def GetTaskExecutionMetadata_def scanMetadata_def)
qed

text \<open>The demonstration store with a calibration.\<close>

definition demo_calibration :: ProviderCalibration where
  "demo_calibration = \<lparr>pc_ID = [], pc_Alias = ''al'', pc_Provider = ''x'', pc_Model = ''m'', pc_Effort = ''e'',
     pc_BinaryPath = [], pc_BinaryVersion = [], pc_BinarySHA256 = [], pc_InvocationHash = ''h'',
     pc_InferenceDomain = [], pc_ControlDomain = [], pc_IndependenceDomain = [], pc_ModelDigest = [],
     pc_CapabilitiesJSON = ''{}'', pc_EvidenceJSON = ''{}''\<rparr>"

definition demo_calibrated :: store where
  "demo_calibrated = snd (RecordCalibration (\<lambda>fields. hd fields) demo_calibration demo_running)"

lemma demo_calibrated_reachable: "store_reachable demo_calibrated"
  unfolding demo_calibrated_def by (rule step [OF demo_reachable(4) record_calibration])

theorem calibration_bound_once_witness:
  "let s1 = snd (BindTaskCalibration ''p'' ''a'' ''al'' ''[]'' demo_calibrated) in
   BindTaskCalibration ''p'' ''a'' ''al'' ''[]'' s1 = (Inr (), s1) \<and>
   BindTaskCalibration ''p'' ''a'' ''other'' ''[]'' s1 = (Inl (ErrCalibrationBound ''al'' ''other''), s1)"
proof -
  let ?r = "BindTaskCalibration ''p'' ''a'' ''al'' ''[]'' demo_calibrated"
  have "\<not> isl (fst ?r)" by code_simp
  then have "?r = (Inr (), snd ?r)" by (cases ?r, cases "fst ?r") auto
  from calibration_bound_once [OF demo_calibrated_reachable this, of "''al''" "''[]''"]
    calibration_bound_once [OF demo_calibrated_reachable this, of "''other''" "''[]''"]
  show ?thesis unfolding Let_def by simp
qed

text \<open>\<^bold>\<open>C35.\<close> The provenance of an attempt is written once.  After \<open>RecordTaskExecution\<close> succeeded for the session
  that runs the task, the same call changes nothing, and a call of that session that names another
  alias, provider, model, effort or independence domain is refused with
  \<open>ErrTaskExecutionConflict\<close> and changes nothing.\<close>

theorem provenance_written_once:
  assumes "store_reachable s" "sessionID \<noteq> []"
    and "RecordTaskExecution planID taskID al pr mo ef dm sessionID s = (Inr (), s1)"
  shows "RecordTaskExecution planID taskID al' pr' mo' ef' dm' sessionID s1 =
    (if (al', pr', mo', ef', dm') = (al, pr, mo, ef, dm) then Inr () else Inl ErrTaskExecutionConflict, s1)"
proof -
  let ?P = "bindable planID taskID al pr mo ef dm sessionID s"
  let ?P' = "bindable planID taskID al' pr' mo' ef' dm' sessionID s1"
  let ?f = "\<lambda>al pr mo ef dm m. m\<lparr>md_alias := Some al, md_provider := Some pr,
      md_model := Some mo, md_effort := Some ef, md_domain := Some dm,
      md_provider_session := (if md_session m = Some sessionID then md_provider_session m else None),
      md_session := Some sessionID, md_blocked_reason := None\<rparr>"
  have keys: "distinct (md_keys s)" by (rule reachable_md_keys [OF assms(1)])
  have s1: "s1 = update_metadata ?P (?f al pr mo ef dm) s" "rows_affected ?P (metadata s) \<noteq> 0"
    using assms(3) by (auto simp: RecordTaskExecution_def in_tx_def Let_def split: if_splits option.splits)
  then obtain m where m: "m \<in> set (metadata s)" "?P m" by auto
  define m1 where "m1 = ?f al pr mo ef dm m"
  have keys1: "distinct (md_keys s1)"
    using keys by (simp add: s1 md_keys_def upd_where_keys md_key_def)
  have m1: "m1 \<in> set (metadata s1)" "is_metadata planID taskID m1"
    using m by (force simp: s1 set_upd_where m1_def bindable_def)+
  have owns: "owns_running planID taskID sessionID s1" "tasks s1 = tasks s"
    using m(2) by (simp_all add: s1 update_metadata_def bindable_def owns_running_def)
  have P': "?P' r \<longleftrightarrow> r = m1 \<and> (al', pr', mo', ef', dm') = (al, pr, mo, ef, dm)" if "r \<in> set (metadata s1)" for r
    using md_unique [OF keys1 m1(1) that m1(2)] m1(2) owns(1) by (auto simp: bindable_def m1_def)
  show ?thesis
  proof (cases "(al', pr', mo', ef', dm') = (al, pr, mo, ef, dm)")
    case True
    have "upd_where ?P' (?f al' pr' mo' ef' dm') (metadata s1) = metadata s1"
    proof -
      have "(if ?P' r then ?f al' pr' mo' ef' dm' r else r) = r" if "r \<in> set (metadata s1)" for r
        using P' [OF that] True by (auto simp: m1_def)
      then show ?thesis unfolding upd_where_def by (intro map_idI)
    qed
    moreover have "rows_affected ?P' (metadata s1) \<noteq> 0" using P' m1(1) True by auto
    ultimately show ?thesis
      using True by (simp add: RecordTaskExecution_def in_tx_def Let_def update_metadata_def del: rows_affected_0)
  next
    case False
    have "rows_affected ?P' (metadata s1) = 0" "upd_where ?P' g (metadata s1) = metadata s1" for g
      using P' False by (auto intro: upd_where_id)
    moreover obtain t where t: "select_row (\<lambda>t. is_task planID taskID t \<and> t_status t = TaskStatusRunning) (tasks s1) = Some t"
      "coalesce (t_session t) = sessionID"
    proof -
      obtain u where u: "u \<in> set (tasks s)" "owned_running planID taskID sessionID u"
        using owns by (auto simp: owns_running_def list_ex_iff)
      let ?R = "\<lambda>t. is_task planID taskID t \<and> t_status t = TaskStatusRunning"
      have "select_row ?R (tasks s) \<noteq> None" using u by (auto simp: find_None_iff_all owned_running_def)
      then obtain t where t: "select_row ?R (tasks s) = Some t" by blast
      have "t = u"
        using find_SomeD [OF t] u reachable_inv [OF assms(1)]
        by (auto simp: inv_defs task_keys_def owned_running_def dest: distinct_map_inj)
      then show thesis using that t u(2) owns(2) by (simp add: owned_running_def)
    qed
    moreover have "list_ex (is_metadata planID taskID) (metadata s1)" using m1 by (auto simp: list_ex_iff)
    ultimately show ?thesis
      using False unfolding RecordTaskExecution_def in_tx_def Let_def update_metadata_def
      by (simp del: rows_affected_0)
  qed
qed

theorem provenance_written_once_witness:
  "let s1 = snd (RecordTaskExecution ''p'' ''a'' ''al'' ''x'' ''m'' ''e'' ''d'' ''s'' demo_running) in
   RecordTaskExecution ''p'' ''a'' ''al'' ''x'' ''m'' ''e'' ''d'' ''s'' s1 = (Inr (), s1) \<and>
   RecordTaskExecution ''p'' ''a'' ''al'' ''y'' ''m'' ''e'' ''d'' ''s'' s1 = (Inl ErrTaskExecutionConflict, s1)"
proof -
  let ?r = "RecordTaskExecution ''p'' ''a'' ''al'' ''x'' ''m'' ''e'' ''d'' ''s'' demo_running"
  have "\<not> isl (fst ?r)" by code_simp
  then have "?r = (Inr (), snd ?r)" by (cases ?r, cases "fst ?r") auto
  from provenance_written_once [OF demo_reachable(4) _ this]
  show ?thesis unfolding Let_def by simp
qed

section \<open>Blocks\<close>

lemma task_unique:
  "store_inv s \<Longrightarrow> t \<in> set (tasks s) \<Longrightarrow> u \<in> set (tasks s) \<Longrightarrow> is_task p i t \<Longrightarrow> is_task p i u \<Longrightarrow> u = t"
  by (auto simp: inv_defs task_keys_def dest: distinct_map_inj)

lemma select_task:
  assumes "store_inv s" "t \<in> set (tasks s)" "is_task p i t"
  shows "select_row (is_task p i) (tasks s) = Some t"
proof (cases "select_row (is_task p i) (tasks s)")
  case None
  then show ?thesis using assms by (auto simp: find_None_iff_all)
next
  case (Some u)
  then show ?thesis using find_SomeD [OF Some] task_unique [OF assms(1,2) _ assms(3)] by auto
qed

lemma updated_row: "r \<in> set rows \<Longrightarrow> P r \<Longrightarrow> f r \<in> set (upd_where P f rows)"
  by (force simp: set_upd_where)

lemma rows_affected_upd_where: "(\<And>r. P (f r) = P r) \<Longrightarrow> rows_affected P (upd_where Q f rows) = rows_affected P rows"
  by (induction rows) (auto simp: rows_affected_def)

text \<open>A successful block, and what a block of a task already in the target status does.\<close>

lemma markMetadataBlocked_cases:
  assumes "markMetadataBlocked p i st r s = (Inr b, s1)"
  obtains t where "select_row (is_task p i) (tasks s) = Some t" "b \<longleftrightarrow> t_status t \<noteq> st"
    "\<exists>u \<in> set (tasks s). is_task p i u \<and> blockable (t_status u)"
    "tasks s1 = tasks (update_tasks (\<lambda>t. is_task p i t \<and> blockable (t_status t)) (\<lambda>t. t\<lparr>t_status := st\<rparr>) s)"
    "metadata s1 = upd_where (is_metadata p i) (\<lambda>m. m\<lparr>md_blocked_reason := Some r\<rparr>) (metadata s)"
    "rows_affected (is_metadata p i) (metadata s) \<noteq> 0"
    "clock s1 = clock s"
    "\<exists>log. events s1 = events s @ log \<and> map (\<lambda>e. (e_plan e, e_task e, e_kind e)) log =
       (if b then [(Some p, Some i, block_event_kind st)] else [])"
proof -
  let ?Q = "\<lambda>t. is_task p i t \<and> blockable (t_status t)"
  obtain t where t: "select_row (is_task p i) (tasks s) = Some t"
    using assms by (auto simp: markMetadataBlocked_def in_tx_def split: option.splits)
  have 1: "rows_affected ?Q (tasks s) \<noteq> 0" "rows_affected (is_metadata p i) (metadata s) \<noteq> 0"
    using assms t by (auto simp: markMetadataBlocked_def in_tx_def Let_def update_tasks_def split: if_splits)
  have run: "markMetadataBlocked p i st r s =
     (let s2 = update_metadata (is_metadata p i) (\<lambda>m. m\<lparr>md_blocked_reason := Some r\<rparr>)
          (update_tasks ?Q (\<lambda>t. t\<lparr>t_status := st\<rparr>) s) in
      if t_status t \<noteq> st
      then (Inr True, snd (insert_event None (Some p) (Some i) (block_event_kind st) (Some ''service'') None
             (Some (payloadJSON (emptyPayload\<lparr>Reason := r\<rparr>))) s2))
      else (Inr False, s2))"
    using t 1 by (simp add: markMetadataBlocked_def in_tx_def Let_def op_bind_def op_return_def insert_event_None
        del: rows_affected_0)
  show thesis
    using assms 1 unfolding run Let_def
    by (intro that [OF t])
      (auto simp: insert_event_None update_metadata_def update_tasks_def split: if_splits)
qed

text \<open>A pre-dispatch block is announced once and cleared by its own cause only.  When
  \<open>MarkBlockedCapability\<close> succeeds the task was pending, ready or already blocked before dispatch; it is
  now \<open>blocked_capability\<close>, and exactly when it was not so before one event is appended and the result
  is true.  Blocking it again appends nothing; clearing the other cause does nothing; clearing this
  one makes the task pending and empties the reason.\<close>

theorem block_announced_once:
  assumes "store_reachable s" "MarkBlockedCapability planID taskID reason s = (Inr b, s1)"
  shows "(\<exists>t \<in> set (tasks s). is_task planID taskID t \<and> blockable (t_status t) \<and>
            (b \<longleftrightarrow> t_status t \<noteq> TaskStatusBlockedCapability)) \<and>
    (\<exists>log. events s1 = events s @ log \<and> map e_kind log = (if b then [''task.blocked_capability''] else [])) \<and>
    (\<exists>s2. MarkBlockedCapability planID taskID reason2 s1 = (Inr False, s2) \<and> events s2 = events s1) \<and>
    ClearTaskBlock planID taskID TaskStatusBlockedInput s1 = (Inr False, s1) \<and>
    (\<exists>s3 t3. ClearTaskBlock planID taskID TaskStatusBlockedCapability s1 = (Inr True, s3) \<and>
       t3 \<in> set (tasks s3) \<and> is_task planID taskID t3 \<and> t_status t3 = TaskStatusPending \<and>
       (\<forall>m \<in> set (metadata s3). is_metadata planID taskID m \<longrightarrow> md_blocked_reason m = Some []))"
proof -
  let ?Q = "\<lambda>t. is_task planID taskID t \<and> blockable (t_status t)"
  let ?cap = "TaskStatusBlockedCapability"
  have inv: "store_inv s" by (rule reachable_inv [OF assms(1)])
  have reach1: "store_reachable s1"
    using step [OF assms(1) block_capability [of s planID taskID reason]] assms(2) by simp
  then have inv1: "store_inv s1" by (rule reachable_inv)
  from assms(2) obtain t log where t: "select_row (is_task planID taskID) (tasks s) = Some t" and b: "b \<longleftrightarrow> t_status t \<noteq> ?cap"
    and q: "\<exists>u \<in> set (tasks s). ?Q u"
    and ts: "tasks s1 = tasks (update_tasks ?Q (\<lambda>t. t\<lparr>t_status := ?cap\<rparr>) s)"
    and ms: "metadata s1 = upd_where (is_metadata planID taskID) (\<lambda>m. m\<lparr>md_blocked_reason := Some reason\<rparr>) (metadata s)"
      "rows_affected (is_metadata planID taskID) (metadata s) \<noteq> 0"
    and log: "events s1 = events s @ log" "map (\<lambda>e. (e_plan e, e_task e, e_kind e)) log =
       (if b then [(Some planID, Some taskID, block_event_kind ?cap)] else [])"
    unfolding MarkBlockedCapability_def by (elim markMetadataBlocked_cases) blast
  have tq: "t \<in> set (tasks s)" "?Q t" using find_SomeD [OF t] q task_unique [OF inv] by auto
  let ?t1 = "t\<lparr>t_status := ?cap, t_updated := now_of s\<rparr>"
  have t1: "?t1 \<in> set (tasks s1)" "is_task planID taskID ?t1"
    using tq by (force simp: ts update_tasks_def set_upd_where)+
  have only: "u = ?t1" if "u \<in> set (tasks s1)" "is_task planID taskID u" for u
    by (rule task_unique [OF inv1 t1(1) that(1) t1(2) that(2)])
  have kinds: "map e_kind log = (if b then [''task.blocked_capability''] else [])"
    using arg_cong [where f = "map (\<lambda>x. snd (snd x))", OF log(2)] by (auto simp: block_event_kind_def o_def split: if_splits)
  have md1: "rows_affected (is_metadata planID taskID) (metadata s1) \<noteq> 0"
    using ms(2) unfolding ms(1) by (subst rows_affected_upd_where) simp_all
  have again: "\<exists>s2. MarkBlockedCapability planID taskID reason2 s1 = (Inr False, s2) \<and> events s2 = events s1"
  proof -
    have "select_row (is_task planID taskID) (tasks s1) = Some ?t1" by (rule select_task [OF inv1 t1])
    moreover have "rows_affected ?Q (tasks s1) \<noteq> 0" using t1 by (auto simp: blockable_def intro!: bexI [OF _ t1(1)])
    ultimately show ?thesis
      using md1 by (simp add: MarkBlockedCapability_def markMetadataBlocked_def in_tx_def Let_def update_metadata_def
          update_tasks_def del: rows_affected_0)
  qed
  have other: "ClearTaskBlock planID taskID TaskStatusBlockedInput s1 = (Inr False, s1)"
  proof -
    have "t_status u = ?cap" if "u \<in> set (tasks s1)" "is_task planID taskID u" for u
      using only [OF that] by (metis task_row.select_convs(4) task_row.surjective task_row.update_convs(4,14))
    then have "rows_affected (\<lambda>t. is_task planID taskID t \<and> t_status t = TaskStatusBlockedInput) (tasks s1) = 0"
      by auto
    then show ?thesis by (simp add: ClearTaskBlock_def in_tx_def del: rows_affected_0)
  qed
  let ?s3 = "update_metadata (is_metadata planID taskID) (\<lambda>m. m\<lparr>md_blocked_reason := Some []\<rparr>)
     (update_tasks (\<lambda>t. is_task planID taskID t \<and> t_status t = ?cap) (\<lambda>t. t\<lparr>t_status := TaskStatusPending\<rparr>) s1)"
  let ?t3 = "?t1\<lparr>t_status := TaskStatusPending, t_updated := now_of s1\<rparr>"
  have "rows_affected (\<lambda>t. is_task planID taskID t \<and> t_status t = ?cap) (tasks s1) \<noteq> 0"
    using t1 by (auto intro!: bexI [OF _ t1(1)])
  then have "ClearTaskBlock planID taskID ?cap s1 = (Inr True, ?s3)"
    by (simp add: ClearTaskBlock_def in_tx_def Let_def del: rows_affected_0)
  moreover have "?t3 \<in> set (tasks ?s3)"
    using t1 unfolding update_metadata_def update_tasks_def
    by (simp, intro updated_row [where f = "\<lambda>t. t\<lparr>t_status := TaskStatusPending, t_updated := now_of s1\<rparr>", OF t1(1), simplified]) simp
  moreover have "is_task planID taskID ?t3" using t1(2) by simp
  moreover have "\<forall>m \<in> set (metadata ?s3). is_metadata planID taskID m \<longrightarrow> md_blocked_reason m = Some []"
    by (auto simp: update_metadata_def update_tasks_def)
  ultimately have own: "\<exists>s3 t3. ClearTaskBlock planID taskID ?cap s1 = (Inr True, s3) \<and> t3 \<in> set (tasks s3) \<and>
      is_task planID taskID t3 \<and> t_status t3 = TaskStatusPending \<and>
      (\<forall>m \<in> set (metadata s3). is_metadata planID taskID m \<longrightarrow> md_blocked_reason m = Some [])"
    by (intro exI [of _ ?s3] exI [of _ ?t3]) simp
  show ?thesis using tq b log(1) kinds again other own by blast
qed

theorem block_announced_once_witness:
  "let s1 = snd (MarkBlockedCapability ''p'' ''a'' ''no'' demo_live) in
   fst (MarkBlockedCapability ''p'' ''a'' ''no'' demo_live) = Inr True \<and>
   fst (MarkBlockedCapability ''p'' ''a'' ''still'' s1) = Inr False \<and>
   ClearTaskBlock ''p'' ''a'' TaskStatusBlockedInput s1 = (Inr False, s1)"
proof -
  let ?r = "MarkBlockedCapability ''p'' ''a'' ''no'' demo_live"
  have "fst ?r = Inr True" by code_simp
  then have "?r = (Inr True, snd ?r)" by (metis prod.collapse)
  from block_announced_once [OF demo_reachable(3) this, of "''still''"] \<open>fst ?r = Inr True\<close>
  show ?thesis unfolding Let_def by auto
qed

end
