(* ===== verification/Store_Query_Laws.thy ===== *)
theory Store_Query_Laws
  imports Store_Demo
begin

text \<open>
  The promises of the read side: the event tail and the operator's message pages lose and repeat
  nothing and never cross a project, the status bar counts are the counts, and spend adds up.
\<close>

section \<open>Pages over an increasing key\<close>

text \<open>A page is the first \<open>n\<close> rows above a cursor in key order; the next page starts above its last row.\<close>

definition rows_after :: "('r \<Rightarrow> int) \<Rightarrow> int \<Rightarrow> 'r list \<Rightarrow> 'r list" where
  "rows_after k a rows = order_by k (filter (\<lambda>r. k r > a) rows)"

lemma sorted_rows_after:
  "distinct (map k rows) \<Longrightarrow> sorted_wrt (<) (map k (rows_after k a rows))"
  by (simp add: rows_after_def strict_sorted_iff distinct_map) (auto intro: inj_on_subset)

lemma set_rows_after: "set (rows_after k a rows) = {r \<in> set rows. k r > a}"
  by (auto simp: rows_after_def)

lemma filter_sort_key: "filter P (sort_key k xs) = sort_key k (filter P xs)"
  by (simp add: filter_sort)

lemma rows_after_later: "a \<le> b \<Longrightarrow> rows_after k b rows = filter (\<lambda>r. k r > b) (rows_after k a rows)"
  by (auto simp: rows_after_def filter_sort intro!: arg_cong [where f = "sort_key k"] filter_cong)

lemma sorted_last: "sorted ys \<Longrightarrow> y \<in> set ys \<Longrightarrow> y \<le> last ys"
  by (induction ys) auto

lemma strictly_sorted_tail:
  assumes "sorted_wrt (<) (map k xs)" "0 < n" "n \<le> length xs"
  shows "filter (\<lambda>r. k r > (k (last (take n xs)) :: int)) xs = drop n xs"
proof -
  have before: "k r \<le> k (last (take n xs))" if "r \<in> set (take n xs)" for r
  proof -
    have "sorted (map k (take n xs))" using assms(1) by (simp add: strict_sorted_iff sorted_wrt_take flip: take_map)
    then have "k r \<le> last (map k (take n xs))" using that by (intro sorted_last) auto
    then show ?thesis using that by (metis empty_iff empty_set last_map)
  qed
  have after: "k r > k (last (take n xs))" if "r \<in> set (drop n xs)" for r
  proof -
    have "sorted_wrt (<) (map k (take n xs) @ map k (drop n xs))"
      using assms(1) by (metis append_take_drop_id map_append)
    moreover have "last (take n xs) \<in> set (take n xs)" using assms(2,3) by (intro last_in_set) auto
    ultimately show ?thesis using that by (auto simp: sorted_wrt_append)
  qed
  have "filter (\<lambda>r. k r > k (last (take n xs))) (take n xs) = []"
    "filter (\<lambda>r. k r > k (last (take n xs))) (drop n xs) = drop n xs"
    using before after by (auto simp: filter_empty_conv filter_id_conv not_less)
  then show ?thesis by (metis append_Nil append_take_drop_id filter_append)
qed

text \<open>Two consecutive pages are one page of the joint size.\<close>

lemma pages_join:
  assumes "distinct (map k rows)" "0 < n" and page_def: "page = take n (rows_after k a rows)"
  shows "page @ take m (rows_after k (if page = [] then a else k (last page)) rows) =
    take (n + m) (rows_after k a rows)"
proof (cases "n \<le> length (rows_after k a rows)")
  case True
  let ?xs = "rows_after k a rows"
  have nonempty: "page \<noteq> []" using True assms(2) by (auto simp: page_def)
  then have "last page \<in> set page" by (rule last_in_set)
  then have "last page \<in> set ?xs" unfolding page_def by (rule in_set_takeD)
  then have "a \<le> k (last page)" by (simp add: set_rows_after)
  then have "rows_after k (k (last page)) rows = filter (\<lambda>r. k r > k (last page)) ?xs" by (rule rows_after_later)
  also have "\<dots> = drop n ?xs"
    unfolding page_def by (rule strictly_sorted_tail [OF sorted_rows_after [OF assms(1)] assms(2) True])
  finally show ?thesis using nonempty by (simp add: take_add) (simp add: page_def)
next
  case False
  let ?xs = "rows_after k a rows"
  have page: "page = ?xs" using False by (simp add: page_def)
  have "rows_after k (if page = [] then a else k (last page)) rows = []"
  proof (cases "?xs = []")
    case True
    then show ?thesis using page by simp
  next
    case nonempty: False
    then have "last ?xs \<in> set ?xs" by (rule last_in_set)
    then have "a \<le> k (last ?xs)" by (simp add: set_rows_after)
    then have "rows_after k (k (last ?xs)) rows = filter (\<lambda>r. k r > k (last ?xs)) ?xs" by (rule rows_after_later)
    also have "\<dots> = []"
      using strictly_sorted_tail [OF sorted_rows_after [OF assms(1)], of "length ?xs" a] nonempty by simp
    finally show ?thesis using page nonempty by simp
  qed
  then show ?thesis using page False by simp
qed

section \<open>The event tail\<close>

lemma scoped_after_rows:
  "scoped_after p a s = rows_after e_id a (filter (eventProjectScope p s) (events s))"
  by (simp add: scoped_after_def rows_after_def conj_commute)

lemma blank_foreign_id [simp]: "Event_ID (blank_foreign p s e) = e_id e"
  by (simp add: blank_foreign_def scanEvent_def split: option.split)

text \<open>The event tail of a project is complete and isolated.  With unique event ids, reading a page and
  then, from the id of its last event, another one gives exactly what one larger read gives: no
  event is lost, repeated or reordered.  Every event read names the project or no project, and it
  names a plan only when that plan is one of the project's.\<close>

theorem event_tail_complete_and_isolated:
  assumes "distinct (map e_id (events s))" "0 < limit" "0 < limit2"
  shows "(let page = EventsAfter projectID afterID limit s;
              cursor = (if page = [] then afterID else Event_ID (last page))
          in page @ EventsAfter projectID cursor limit2 s = EventsAfter projectID afterID (limit + limit2) s) \<and>
    (\<forall>e \<in> set (EventsAfter projectID afterID limit s).
       Event_ID e > afterID \<and> (Event_ProjectID e = projectID \<or> Event_ProjectID e = []) \<and>
       (Event_PlanID e = [] \<or> plan_in_project projectID s (Event_PlanID e)))"
proof
  let ?rows = "filter (eventProjectScope projectID s) (events s)"
  let ?f = "blank_foreign projectID s"
  have d: "distinct (map e_id ?rows)" by (rule distinct_map_filter_key [OF assms(1)])
  have page: "EventsAfter projectID a n s = map ?f (take (nat n) (rows_after e_id a ?rows))" if "0 < n" for a n
    using that by (simp add: EventsAfter_def scoped_after_rows)
  have "nat (limit + limit2) = nat limit + nat limit2" "0 < nat limit" using assms(2,3) by auto
  then show "let page = EventsAfter projectID afterID limit s;
              cursor = (if page = [] then afterID else Event_ID (last page))
          in page @ EventsAfter projectID cursor limit2 s = EventsAfter projectID afterID (limit + limit2) s"
    using pages_join [OF d _ refl, where n = "nat limit" and a = afterID and m = "nat limit2"] assms(2,3)
    by (cases "take (nat limit) (rows_after e_id afterID ?rows) = []") (auto simp: Let_def page last_map simp flip: map_append)
  show "\<forall>e \<in> set (EventsAfter projectID afterID limit s). Event_ID e > afterID \<and>
       (Event_ProjectID e = projectID \<or> Event_ProjectID e = []) \<and>
       (Event_PlanID e = [] \<or> plan_in_project projectID s (Event_PlanID e))"
  proof
    fix e assume "e \<in> set (EventsAfter projectID afterID limit s)"
    then obtain r where "r \<in> set (rows_after e_id afterID ?rows)" "e = ?f r"
      using assms(2) by (auto simp: page dest: in_set_takeD)
    then show "Event_ID e > afterID \<and> (Event_ProjectID e = projectID \<or> Event_ProjectID e = []) \<and>
       (Event_PlanID e = [] \<or> plan_in_project projectID s (Event_PlanID e))"
      by (auto simp: set_rows_after blank_foreign_def scanEvent_def eventProjectScope_def split: option.splits if_splits)
  qed
qed

definition demo_logged :: store where
  "demo_logged = snd (Emit \<lparr>em_ProjectID = ''j'', em_PlanID = [], em_TaskID = [], em_Kind = ''k'', em_Stream = [],
     em_Actor = [], em_PayloadJSON = []\<rparr> demo_running)"

theorem event_tail_complete_and_isolated_witness:
  "let page = EventsAfter ''j'' 0 1 demo_logged in
   length page = 1 \<and> page @ EventsAfter ''j'' (Event_ID (last page)) 5 demo_logged = EventsAfter ''j'' 0 6 demo_logged \<and>
   length (EventsAfter ''j'' 0 6 demo_logged) = 2"
proof -
  let ?page = "EventsAfter ''j'' 0 1 demo_logged"
  have d: "distinct (map e_id (events demo_logged))" "length ?page = 1" "length (EventsAfter ''j'' 0 6 demo_logged) = 2"
    by code_simp+
  then have "?page \<noteq> []" by auto
  moreover have "(1::int) + 5 = 6" by simp
  ultimately have "?page @ EventsAfter ''j'' (Event_ID (last ?page)) 5 demo_logged = EventsAfter ''j'' 0 6 demo_logged"
    using conjunct1 [OF event_tail_complete_and_isolated [OF d(1), of 1 5 "''j''" 0]]
    unfolding Let_def by (simp only: if_False zero_less_one zero_less_numeral simp_thms)
  then show ?thesis unfolding Let_def using d(2,3) by blast
qed

section \<open>The operator's message pages\<close>

lemma scope_after_rows:
  "scope_after q s = rows_after m_id (oq_AfterID q) (filter (message_in_scope q s) (messages s))"
  by (auto simp: scope_after_def rows_after_def conj_commute)

lemma message_in_scope_cursor [simp]: "message_in_scope (q\<lparr>oq_AfterID := a\<rparr>) s = message_in_scope q s"
  by (rule ext) (simp add: message_in_scope_def)

lemma validateScope_cursor [simp]:
  "validateOperatorMessageScope (q\<lparr>oq_AfterID := a\<rparr>) s = validateOperatorMessageScope q s"
  by (simp add: validateOperatorMessageScope_def)

text \<open>A query that passes the checks, as one page of its scope.\<close>

definition query_limit :: "OperatorMessageQuery \<Rightarrow> nat" where
  "query_limit q = (if oq_Limit q = 0 then 100 else nat (oq_Limit q))"

lemma ListOperatorMessages_cases:
  assumes "ListOperatorMessages q s = Inr page"
  shows "0 < query_limit q \<and> 0 \<le> oq_AfterID q \<and> oq_ProjectID q \<noteq> [] \<and> project_exists (oq_ProjectID q) s \<and>
    (\<exists>limit. validateOperatorMessageQuery q = Inr limit \<and> limit = int (query_limit q)) \<and>
    validateOperatorMessageScope q s = None \<and> validateOperatorMessageCursor q s = None \<and>
    op_Items page = map scanOperatorMessage (take (query_limit q) (scope_after q s)) \<and>
    op_HasMore page = (query_limit q < length (scope_after q s)) \<and>
    (op_HasMore page \<longrightarrow> op_NextAfterID page = m_id (last (take (query_limit q) (scope_after q s))))"
proof -
  obtain limit where v: "validateOperatorMessageQuery q = Inr limit"
    using assms by (auto simp: ListOperatorMessages_def split: sum.splits)
  then have lim: "limit = int (query_limit q)" "0 < query_limit q" "0 \<le> oq_AfterID q" "oq_ProjectID q \<noteq> []"
    by (auto simp: validateOperatorMessageQuery_def normalizeOperatorLimit_def query_limit_def split: if_splits)
  have ok: "project_exists (oq_ProjectID q) s" "validateOperatorMessageScope q s = None"
    "validateOperatorMessageCursor q s = None"
    using assms v by (auto simp: ListOperatorMessages_def split: if_splits option.splits)
  let ?n = "query_limit q" and ?xs = "scope_after q s"
  have n: "nat (limit + 1) = Suc ?n" "nat limit = ?n" using lim by auto
  have more: "int (length (map scanOperatorMessage (take (Suc ?n) ?xs))) > limit \<longleftrightarrow> ?n < length ?xs"
    using lim by (auto simp: min_def)
  have first: "take ?n (map scanOperatorMessage (take (Suc ?n) ?xs)) = map scanOperatorMessage (take ?n ?xs)"
    by (simp add: take_map min_def)
  have page: "page = (if ?n < length ?xs
      then \<lparr>op_Items = map scanOperatorMessage (take ?n ?xs), op_HasMore = True,
             op_NextAfterID = om_ID (last (map scanOperatorMessage (take ?n ?xs)))\<rparr>
      else \<lparr>op_Items = map scanOperatorMessage (take (Suc ?n) ?xs), op_HasMore = False, op_NextAfterID = 0\<rparr>)"
  proof -
    let ?items = "map scanOperatorMessage (take (nat (limit + 1)) ?xs)"
    have "Inr page = (if int (length ?items) > limit
        then Inr \<lparr>op_Items = take (nat limit) ?items, op_HasMore = True,
                  op_NextAfterID = om_ID (last (take (nat limit) ?items))\<rparr>
        else Inr \<lparr>op_Items = ?items, op_HasMore = False, op_NextAfterID = 0\<rparr> :: store_error + OperatorMessagePage)"
      using ok unfolding assms [symmetric] ListOperatorMessages_def v Let_def by simp
    then show ?thesis unfolding n more first by (simp split: if_splits)
  qed
  have "om_ID (last (map scanOperatorMessage (take ?n ?xs))) = m_id (last (take ?n ?xs))" if "?n < length ?xs"
    using that lim(2) by (subst last_map) (auto simp: scanOperatorMessage_def)
  then show ?thesis using page v lim ok by auto
qed

text \<open>The operator's message pages.  A page that is granted holds the first messages of the scope
  above the cursor, at most the limit, oldest id first; \<open>HasMore\<close> says exactly whether the scope goes
  on, and then the cursor it hands out is accepted and the next page continues without a gap or a
  repetition.\<close>

theorem message_pages_complete:
  assumes "distinct (map m_id (messages s))" "ListOperatorMessages q s = Inr page"
  shows "op_Items page = map scanOperatorMessage (take (query_limit q) (scope_after q s)) \<and>
    sorted_wrt (<) (map om_ID (op_Items page)) \<and>
    (op_HasMore page \<longleftrightarrow> query_limit q < length (scope_after q s)) \<and>
    (op_HasMore page \<longrightarrow>
      (\<exists>page2. ListOperatorMessages (q\<lparr>oq_AfterID := op_NextAfterID page\<rparr>) s = Inr page2 \<and>
         op_Items page2 = map scanOperatorMessage (take (query_limit q) (drop (query_limit q) (scope_after q s)))))"
proof -
  let ?rows = "filter (message_in_scope q s) (messages s)"
  let ?n = "query_limit q" and ?xs = "scope_after q s"
  note c = ListOperatorMessages_cases [OF assms(2)]
  have d: "distinct (map m_id ?rows)" by (rule distinct_map_filter_key [OF assms(1)])
  have sorted: "sorted_wrt (<) (map m_id ?xs)"
    unfolding scope_after_rows by (rule sorted_rows_after [OF d])
  have ids: "map om_ID (op_Items page) = take ?n (map m_id ?xs)"
    using c by (simp add: scanOperatorMessage_def o_def take_map)
  have "\<exists>page2. ListOperatorMessages (q\<lparr>oq_AfterID := op_NextAfterID page\<rparr>) s = Inr page2 \<and>
      op_Items page2 = map scanOperatorMessage (take ?n (drop ?n ?xs))" if more: "op_HasMore page"
  proof -
    let ?q = "q\<lparr>oq_AfterID := op_NextAfterID page\<rparr>"
    have n: "?n < length ?xs" "0 < ?n" "op_NextAfterID page = m_id (last (take ?n ?xs))" using c more by auto
    then have "take ?n ?xs \<noteq> []" by auto
    then have "last (take ?n ?xs) \<in> set ?xs" by (meson in_set_takeD last_in_set)
    then have last: "last (take ?n ?xs) \<in> set ?rows" "oq_AfterID q < m_id (last (take ?n ?xs))"
      by (auto simp: scope_after_rows set_rows_after)
    have after: "scope_after ?q s = drop ?n ?xs"
      using strictly_sorted_tail [OF sorted n(2)] n last(2)
        rows_after_later [of "oq_AfterID q" "m_id (last (take ?n ?xs))" m_id ?rows]
      by (simp add: scope_after_rows)
    have "validateOperatorMessageQuery ?q = Inr (int ?n)"
      using c n last(2) by (auto simp: validateOperatorMessageQuery_def)
    moreover have "validateOperatorMessageScope ?q s = None" using c by simp
    moreover have "validateOperatorMessageCursor ?q s = None"
      using last(1) n(3) by (auto simp: validateOperatorMessageCursor_def list_ex_iff)
    ultimately have "\<exists>page2. ListOperatorMessages ?q s = Inr page2"
      using c by (auto simp: ListOperatorMessages_def Let_def)
    then obtain page2 where p2: "ListOperatorMessages ?q s = Inr page2" by blast
    from ListOperatorMessages_cases [OF this] have "op_Items page2 = map scanOperatorMessage (take ?n (drop ?n ?xs))"
      by (simp add: after) (simp add: query_limit_def)
    then show ?thesis using p2 by blast
  qed
  moreover have "sorted_wrt (<) (map om_ID (op_Items page))" unfolding ids by (rule sorted_wrt_take [OF sorted])
  ultimately show ?thesis using c by blast
qed

definition demo_message :: "store \<Rightarrow> store" where
  "demo_message s = snd (AppendMessage \<lparr>ao_WorkerID = [], ao_PlanID = ''p'', ao_TaskID = ''a'', ao_Role = ''user'',
     ao_ContentJSON = ''{}''\<rparr> s)"

theorem message_pages_complete_witness:
  "let s = demo_message (demo_message demo_live);
       q = \<lparr>oq_ProjectID = ''j'', oq_PlanID = ''p'', oq_TaskID = [], oq_AfterID = 0, oq_Limit = 1\<rparr> in
   (\<exists>page page2. ListOperatorMessages q s = Inr page \<and> op_HasMore page \<and>
      ListOperatorMessages (q\<lparr>oq_AfterID := op_NextAfterID page\<rparr>) s = Inr page2 \<and> length (op_Items page2) = 1)"
proof -
  let ?s = "demo_message (demo_message demo_live)"
  let ?q = "\<lparr>oq_ProjectID = ''j'', oq_PlanID = ''p'', oq_TaskID = [], oq_AfterID = 0, oq_Limit = 1\<rparr>"
  have e: "distinct (map m_id (messages ?s))" "\<not> isl (ListOperatorMessages ?q ?s)" "length (scope_after ?q ?s) = 2"
    "query_limit ?q = 1"
    by code_simp+
  then obtain page where p: "ListOperatorMessages ?q ?s = Inr page" by (cases "ListOperatorMessages ?q ?s") auto
  note c = message_pages_complete [OF e(1) p]
  have more: "op_HasMore page" using c e(3,4) by simp
  then obtain page2 where p2: "ListOperatorMessages (?q\<lparr>oq_AfterID := op_NextAfterID page\<rparr>) ?s = Inr page2"
    "op_Items page2 = map scanOperatorMessage (take 1 (drop 1 (scope_after ?q ?s)))"
    using c e(4) by metis
  then have "length (op_Items page2) = 1" using e(3) by simp
  then show ?thesis unfolding Let_def using p more p2(1) by blast
qed

section \<open>Counts and sums\<close>

definition tasks_in :: "TaskStatus list \<Rightarrow> store \<Rightarrow> nat" where
  "tasks_in sts s = length (filter (\<lambda>t. t_status t \<in> set sts) (tasks s))"

lemma count_groups:
  "distinct sts \<Longrightarrow> fold count_group (map (\<lambda>st. (st, f st)) sts) c = c\<lparr>
     sc_Ready := (if TaskStatusReady \<in> set sts then f TaskStatusReady else sc_Ready c),
     sc_Running := (if TaskStatusRunning \<in> set sts then f TaskStatusRunning else sc_Running c),
     sc_Approval := (if TaskStatusReadyPendingApproval \<in> set sts then f TaskStatusReadyPendingApproval else sc_Approval c),
     sc_Blocked := sc_Blocked c + (if TaskStatusBlocked \<in> set sts then f TaskStatusBlocked else 0) +
       (if TaskStatusBlockedCapability \<in> set sts then f TaskStatusBlockedCapability else 0) +
       (if TaskStatusBlockedInput \<in> set sts then f TaskStatusBlockedInput else 0),
     sc_Failed := (if TaskStatusFailed \<in> set sts then f TaskStatusFailed else sc_Failed c)\<rparr>"
proof (induction sts arbitrary: c)
  case (Cons st sts)
  then show ?case by (cases st) (simp_all add: count_group_def)
qed simp

lemma filter_disj_length:
  "(\<And>x. \<not> (P x \<and> Q x)) \<Longrightarrow> length (filter (\<lambda>x. P x \<or> Q x) xs) = length (filter P xs) + length (filter Q xs)"
  by (induction xs) auto

text \<open>The status counts are the counts: each field is the number of tasks in the status it names, the
  blocked field adds up the three blocked statuses, and the plan field counts the active plans.\<close>

theorem status_counts_exact:
  "StatusCounts_of s =
    \<lparr>sc_ActivePlans = length (filter (\<lambda>p. p_status p = PlanStatusActive) (plans s)),
     sc_Ready = tasks_in [TaskStatusReady] s, sc_Running = tasks_in [TaskStatusRunning] s,
     sc_Approval = tasks_in [TaskStatusReadyPendingApproval] s,
     sc_Blocked = tasks_in [TaskStatusBlocked, TaskStatusBlockedCapability, TaskStatusBlockedInput] s,
     sc_Failed = tasks_in [TaskStatusFailed] s\<rparr>"
proof -
  let ?n = "\<lambda>st. length (filter (\<lambda>t. t_status t = st) (tasks s))"
  have absent: "(if st \<in> t_status ` set (tasks s) then ?n st else z) = ?n st" if "z = 0" for st z
    using that by (auto simp: filter_empty_conv)
  have blocked: "tasks_in [TaskStatusBlocked, TaskStatusBlockedCapability, TaskStatusBlockedInput] s =
      ?n TaskStatusBlocked + ?n TaskStatusBlockedCapability + ?n TaskStatusBlockedInput"
    by (simp add: tasks_in_def filter_disj_length)
  show ?thesis
    by (simp add: StatusCounts_of_def status_groups_def count_groups absent blocked) (simp add: tasks_in_def)
qed

lemma spend_lookup:
  "ProjectSpendByProvider p s x =
    (if x \<in> set (map sp_provider (filter (\<lambda>r. sp_project r = Some p) (spend s))) then Some (provider_total p x s) else None)"
  by (auto simp: ProjectSpendByProvider_def map_of_eq_None_iff image_iff intro!: map_of_is_SomeI)
    (auto simp: map_of_eq_None_iff distinct_map inj_on_def)

text \<open>Spend adds up.  An accepted spend record raises the total of its project and provider by its
  cost, starting from zero, and changes no other total of any project.\<close>

theorem spend_adds_up:
  assumes "RecordSpend opts s = (Inr (), s')"
  shows "ProjectSpendByProvider projectID s' =
    (if projectID = rs_ProjectID opts
     then (ProjectSpendByProvider projectID s)(rs_Provider opts \<mapsto>
            (case ProjectSpendByProvider projectID s (rs_Provider opts) of None \<Rightarrow> 0 | Some n \<Rightarrow> n) + rs_Cost opts)
     else ProjectSpendByProvider projectID s)"
proof -
  obtain r where s': "spend s' = spend s @ [r]" and r: "sp_project r = Some (rs_ProjectID opts)"
    "sp_provider r = rs_Provider opts" "sp_cost r = rs_Cost opts"
    using assms by (auto simp: RecordSpend_def split: if_splits)
  have total: "provider_total p x s' = provider_total p x s +
      (if p = rs_ProjectID opts \<and> x = rs_Provider opts then rs_Cost opts else 0)" for p x
    using r by (auto simp: provider_total_def s')
  have new: "provider_total p x s = 0" if "x \<notin> set (map sp_provider (filter (\<lambda>r. sp_project r = Some p) (spend s)))" for p x
  proof -
    have "filter (\<lambda>r. sp_project r = Some p \<and> sp_provider r = x) (spend s) = []"
      using that by (auto simp: filter_empty_conv)
    then show ?thesis by (simp add: provider_total_def)
  qed
  show ?thesis
    using r new by (intro ext) (auto simp: spend_lookup s' total)
qed

theorem spend_adds_up_witness:
  "let opts = \<lparr>rs_ProjectID = ''j'', rs_WorkerID = [], rs_Provider = ''x'', rs_Model = [], rs_InputTokens = 1,
      rs_OutputTokens = 2, rs_CachedTokens = 0, rs_Cost = 5\<rparr> in
   ProjectSpendByProvider ''j'' (snd (RecordSpend opts demo_live)) = [''x'' \<mapsto> 5]"
proof -
  let ?o = "\<lparr>rs_ProjectID = ''j'', rs_WorkerID = [], rs_Provider = ''x'', rs_Model = [], rs_InputTokens = 1,
      rs_OutputTokens = 2, rs_CachedTokens = 0, rs_Cost = 5\<rparr>"
  have e: "\<not> isl (fst (RecordSpend ?o demo_live))" "spend demo_live = []" by code_simp+
  then have "RecordSpend ?o demo_live = (Inr (), snd (RecordSpend ?o demo_live))"
    by (cases "RecordSpend ?o demo_live", cases "fst (RecordSpend ?o demo_live)") auto
  from spend_adds_up [OF this, of "''j''"] show ?thesis
    using e(2) by (simp add: ProjectSpendByProvider_def)
qed

end
