(* ===== verification/Store_Registry_Laws.thy ===== *)
theory Store_Registry_Laws
  imports Store_Demo
begin

text \<open>
  The promises about project identity and configuration: a fingerprint stays with the project that
  first had it, and applying a configuration change set gives exactly the changed map, atomically.
\<close>

section \<open>Fingerprints\<close>

definition owner_of :: "Fingerprint \<Rightarrow> store \<Rightarrow> ident option" where
  "owner_of fp s = map_option pi_project (select_row (is_identifier fp) (identifiers s))"

lemma resolve_owner:
  "ResolveProject fps s = (case List.find (\<lambda>fp. \<not> blank_fp fp \<and> owner_of fp s \<noteq> None) fps of
     None \<Rightarrow> ([], False) | Some fp \<Rightarrow> (the (owner_of fp s), True))"
  by (induction fps) (auto simp: owner_of_def split: option.splits)

lemma resolve_Cons:
  "ResolveProject (fp # fps) s = (if blank_fp fp then ResolveProject fps s
     else case owner_of fp s of Some p \<Rightarrow> (p, True) | None \<Rightarrow> ResolveProject fps s)"
  by (simp add: owner_of_def split: option.split)

lemma find_upd_where:
  "(\<And>r. P (f r) = P r) \<Longrightarrow> List.find P (upd_where Q f rows) =
     map_option (\<lambda>r. if Q r then f r else r) (List.find P rows)"
  by (induction rows) auto

lemma find_append: "List.find P (xs @ ys) = (case List.find P xs of None \<Rightarrow> List.find P ys | Some x \<Rightarrow> Some x)"
  by (induction xs) auto

text \<open>One upsert: a known fingerprint keeps its owner, a new one goes to the project.\<close>

lemma upsert_owner:
  assumes "upsert_identifier projectID n fp s = (Inr (), s')"
  shows "owner_of fp' s' = (if fp' = fp \<and> \<not> blank_fp fp \<and> owner_of fp s = None then Some projectID else owner_of fp' s)"
proof -
  consider "blank_fp fp" "s' = s"
    | "\<not> blank_fp fp" "list_ex (is_identifier fp) (identifiers s)"
      "identifiers s' = upd_where (\<lambda>r. is_identifier fp r \<and> pi_project r = projectID) (\<lambda>r. r\<lparr>pi_added := n\<rparr>) (identifiers s)"
    | "\<not> blank_fp fp" "\<not> list_ex (is_identifier fp) (identifiers s)"
      "identifiers s' = identifiers s @ [\<lparr>pi_project = projectID, pi_kind = fp_Kind fp, pi_value = fp_Value fp, pi_added = n\<rparr>]"
    using assms by (auto simp: upsert_identifier_def split: if_splits)
  then show ?thesis
  proof cases
    case 2
    have "owner_of fp s \<noteq> None" using 2(2) by (auto simp: owner_of_def find_None_iff_all list_ex_iff)
    moreover have "owner_of fp' s' = owner_of fp' s"
      unfolding owner_of_def 2(3) by (subst find_upd_where) (auto simp: option.map_comp o_def intro: option.map_cong)
    ultimately show ?thesis by simp
  next
    case 3
    have none: "owner_of fp s = None" using 3(2) by (auto simp: owner_of_def find_None_iff_all list_ex_iff)
    have "owner_of fp' s' = (case owner_of fp' s of None \<Rightarrow> if fp' = fp then Some projectID else None | Some p \<Rightarrow> Some p)"
      by (cases fp, cases fp') (auto simp: owner_of_def 3(3) find_append split: option.splits)
    then show ?thesis using none 3(1) by (auto split: option.splits)
  qed simp
qed

lemma insertIdentifiers_owner:
  assumes "insertIdentifiers projectID fps n s = (Inr (), s')"
  shows "owner_of fp s' = (if fp \<in> set fps \<and> \<not> blank_fp fp \<and> owner_of fp s = None then Some projectID else owner_of fp s)"
  using assms unfolding insertIdentifiers_def
proof (induction fps arbitrary: s)
  case Nil
  then show ?case by (simp add: op_return_def)
next
  case (Cons x fps)
  then obtain s1 where "upsert_identifier projectID n x s = (Inr (), s1)" "op_each (upsert_identifier projectID n) fps s1 = (Inr (), s')"
    by auto
  then show ?case using Cons.IH upsert_owner by auto
qed

text \<open>A fingerprint is never taken over.  After fingerprints have been added to a project, each of them
  that nobody had belongs to that project, and every other fingerprint, added again or not,
  belongs to the project it belonged to before.  Resolving a list of fingerprints answers with the
  owner of the first known one.\<close>

theorem fingerprints_stay_with_owner:
  assumes "AddProjectIdentifiers projectID fps s = (Inr (), s')"
  shows "owner_of fp s' =
      (if fp \<in> set fps \<and> \<not> blank_fp fp \<and> owner_of fp s = None then Some projectID else owner_of fp s) \<and>
    (\<not> blank_fp fp \<longrightarrow> ResolveProject [fp] s' = (case owner_of fp s' of None \<Rightarrow> ([], False) | Some p \<Rightarrow> (p, True))) \<and>
    (ResolveProject qs s = (p, True) \<longrightarrow> (\<forall>q \<in> set qs. owner_of q s \<noteq> None) \<longrightarrow> ResolveProject qs s' = (p, True))"
proof -
  have ins: "insertIdentifiers projectID fps (now_of s) s = (Inr (), s')"
    using assms by (auto simp: AddProjectIdentifiers_def op_fail_def split: if_splits elim: in_tx_cases)
  note own = insertIdentifiers_owner [OF ins]
  have "ResolveProject qs s' = (p, True)" if "ResolveProject qs s = (p, True)" "\<forall>q \<in> set qs. owner_of q s \<noteq> None"
  proof -
    have "owner_of q s' = owner_of q s" if "q \<in> set qs" for q
      using own [of q] \<open>\<forall>q \<in> set qs. owner_of q s \<noteq> None\<close> that by auto
    then have "ResolveProject qs s' = ResolveProject qs s"
      by (induction qs) (auto simp: resolve_Cons simp del: ResolveProject.simps(2) split: option.splits)
    then show ?thesis using that by simp
  qed
  then show ?thesis using own by (auto simp: resolve_owner split: option.splits)
qed

definition demo_fp :: "string \<Rightarrow> Fingerprint" where
  "demo_fp v = \<lparr>fp_Kind = ''git_remote'', fp_Value = v\<rparr>"

definition demo_owned :: store where
  "demo_owned = snd (CreateProject ''k'' [] [demo_fp ''u''] demo_project)"

theorem fingerprints_stay_with_owner_witness:
  "let s' = snd (AddProjectIdentifiers ''j'' [demo_fp ''u'', demo_fp ''v''] demo_owned) in
   owner_of (demo_fp ''u'') s' = Some ''k'' \<and> owner_of (demo_fp ''v'') s' = Some ''j''"
proof -
  let ?r = "AddProjectIdentifiers ''j'' [demo_fp ''u'', demo_fp ''v''] demo_owned"
  have e: "\<not> isl (fst ?r)" "owner_of (demo_fp ''u'') demo_owned = Some ''k''" "owner_of (demo_fp ''v'') demo_owned = None"
    "\<not> blank_fp (demo_fp ''v'')"
    by code_simp+
  then have "?r = (Inr (), snd ?r)" by (cases ?r, cases "fst ?r") auto
  from fingerprints_stay_with_owner [OF this, of "demo_fp ''u''"] fingerprints_stay_with_owner [OF this, of "demo_fp ''v''"] e
  show ?thesis unfolding Let_def by simp
qed

section \<open>Configuration\<close>

text \<open>The map read back, as the value of the last row of a key.\<close>

lemma config_lookup:
  "GetProjectConfig p s k = (case rev (filter (\<lambda>r. cf_project r = p \<and> cf_key r = k) (config s)) of
     [] \<Rightarrow> None | r # _ \<Rightarrow> Some (cf_value r))"
proof -
  have last_wins: "fold (\<lambda>r out. out(cf_key r \<mapsto> cf_value r)) rows m k =
    (case rev (filter (\<lambda>r. cf_key r = k) rows) of [] \<Rightarrow> m k | r # _ \<Rightarrow> Some (cf_value r))" for rows m
    by (induction rows arbitrary: m) (auto split: list.split)
  show ?thesis by (simp add: GetProjectConfig_def last_wins)
qed

lemma delete_config_lookup:
  "GetProjectConfig q (delete_config p k s) k' = (if q = p \<and> k' = k then None else GetProjectConfig q s k')"
proof (cases "q = p \<and> k' = k")
  case True
  then have "filter (\<lambda>r. cf_project r = q \<and> cf_key r = k') (config (delete_config p k s)) = []"
    by (auto simp: delete_config_def filter_empty_conv)
  then show ?thesis using True by (simp add: config_lookup)
next
  case False
  then have "filter (\<lambda>r. cf_project r = q \<and> cf_key r = k') (config (delete_config p k s)) =
      filter (\<lambda>r. cf_project r = q \<and> cf_key r = k') (config s)"
    by (auto simp: delete_config_def intro!: filter_cong)
  then show ?thesis using False by (auto simp: config_lookup)
qed

lemma upsert_config_lookup:
  assumes "upsert_config p kv s = (Inr (), s')"
  shows "GetProjectConfig q s' k' = (if q = p \<and> k' = fst kv then Some (snd kv) else GetProjectConfig q s k')"
proof -
  let ?P = "\<lambda>r. cf_project r = p \<and> cf_key r = fst kv"
  let ?Q = "\<lambda>r. cf_project r = q \<and> cf_key r = k'"
  let ?f = "\<lambda>r. r\<lparr>cf_value := snd kv, cf_updated := now_of s\<rparr>"
  consider "list_ex ?P (config s)" "config s' = upd_where ?P ?f (config s)"
    | "\<not> list_ex ?P (config s)"
      "config s' = config s @ [\<lparr>cf_project = p, cf_key = fst kv, cf_value = snd kv, cf_updated = now_of s\<rparr>]"
    using assms by (auto simp: upsert_config_def Let_def split: if_splits)
  then show ?thesis
  proof cases
    case 1
    have f: "filter ?Q (config s') = upd_where ?P ?f (filter ?Q (config s))"
      unfolding 1(2) by (rule filter_upd_where) simp
    show ?thesis
    proof (cases "q = p \<and> k' = fst kv")
      case True
      obtain r rs where rs: "rev (filter ?Q (config s)) = r # rs"
        using 1(1) True by (cases "rev (filter ?Q (config s))") (auto simp: list_ex_iff filter_empty_conv)
      have "r \<in> set (filter ?Q (config s))" using rs by (metis list.set_intros(1) set_rev)
      moreover have "rev (filter ?Q (config s')) = upd_where ?P ?f (r # rs)"
        unfolding f rs [symmetric] by (simp add: upd_where_def rev_map)
      ultimately show ?thesis using True by (simp add: config_lookup)
    next
      case False
      have "upd_where ?P ?f (filter ?Q (config s)) = filter ?Q (config s)"
        using False by (intro upd_where_id) auto
      then show ?thesis using f False by (auto simp: config_lookup)
    qed
  next
    case 2
    then show ?thesis by (auto simp: config_lookup)
  qed
qed

lemma fold_delete_lookup:
  "GetProjectConfig q (fold (delete_config p) ks s) k = (if q = p \<and> k \<in> set ks then None else GetProjectConfig q s k)"
  by (induction ks arbitrary: s) (auto simp: delete_config_lookup)

lemma op_each_upsert_lookup:
  assumes "op_each (upsert_config p) kvs s = (Inr (), s')" "distinct (map fst kvs)"
  shows "GetProjectConfig q s' k = (case map_of kvs k of
     Some v \<Rightarrow> if q = p then Some v else GetProjectConfig q s k | None \<Rightarrow> GetProjectConfig q s k)"
  using assms
proof (induction kvs arbitrary: s)
  case Nil
  then show ?case by (simp add: op_return_def)
next
  case (Cons kv kvs)
  then obtain s1 where 1: "upsert_config p kv s = (Inr (), s1)" "op_each (upsert_config p) kvs s1 = (Inr (), s')" by auto
  have "map_of kvs (fst kv) = None" using Cons.prems(2) by (auto simp: map_of_eq_None_iff)
  then show ?case
    using Cons.IH [OF 1(2)] Cons.prems(2) by (cases kv) (auto simp: upsert_config_lookup [OF 1(1)] split: option.splits)
qed

text \<open>Applying a change set.  When \<open>ApplyProjectConfig\<close> succeeds the configuration read back is the old
  one without the deleted keys, overridden by the upserts, and the configuration of every other
  project is what it was; when it fails nothing has changed.\<close>

theorem config_change_set_applied:
  assumes "distinct (map fst upserts)"
  shows "(\<forall>e s'. ApplyProjectConfig projectID upserts deleteKeys s = (Inl e, s') \<longrightarrow> s' = s) \<and>
    (\<forall>s'. ApplyProjectConfig projectID upserts deleteKeys s = (Inr (), s') \<longrightarrow>
       GetProjectConfig projectID s' = (GetProjectConfig projectID s |` (- set deleteKeys)) ++ map_of upserts \<and>
       (q \<noteq> projectID \<longrightarrow> GetProjectConfig q s' = GetProjectConfig q s))"
proof (intro conjI allI impI)
  fix e s' assume "ApplyProjectConfig projectID upserts deleteKeys s = (Inl e, s')"
  then show "s' = s" by (auto simp: ApplyProjectConfig_def op_fail_def split: if_splits dest: in_tx_Inl)
next
  fix s' assume run: "ApplyProjectConfig projectID upserts deleteKeys s = (Inr (), s')"
  have body: "op_each (upsert_config projectID) (sort_key fst upserts) (fold (delete_config projectID) (sort deleteKeys) s) = (Inr (), s')"
    using run by (auto simp: ApplyProjectConfig_def op_fail_def split: if_splits elim: in_tx_cases)
  have d: "distinct (map fst (sort_key fst upserts))" using assms by (simp add: distinct_map)
  have m: "map_of (sort_key fst upserts) = map_of upserts"
    by (rule map_of_eqI [OF _ ballI]) (use assms d in \<open>auto simp: map_of_eq_Some_iff\<close>)
  note look = op_each_upsert_lookup [OF body d, unfolded m]
  show "GetProjectConfig projectID s' = (GetProjectConfig projectID s |` (- set deleteKeys)) ++ map_of upserts"
    by (rule ext) (auto simp: look fold_delete_lookup map_add_def restrict_map_def split: option.split)
  show "GetProjectConfig q s' = GetProjectConfig q s" if "q \<noteq> projectID"
    using that by (intro ext) (auto simp: look fold_delete_lookup split: option.split)
qed

theorem config_change_set_applied_witness:
  "GetProjectConfig ''j'' (snd (ApplyProjectConfig ''j'' [(''a'', ''1''), (''b'', ''2'')] [''a'', ''c''] demo_project)) =
   [''a'' \<mapsto> ''1'', ''b'' \<mapsto> ''2'']"
proof -
  let ?r = "ApplyProjectConfig ''j'' [(''a'', ''1''), (''b'', ''2'')] [''a'', ''c''] demo_project"
  have e: "\<not> isl (fst ?r)" "config demo_project = []" by code_simp+
  then have "?r = (Inr (), snd ?r)" by (cases ?r, cases "fst ?r") auto
  moreover have "distinct (map fst [(''a'', ''1''), (''b'', ''2'')])" by simp
  ultimately have "GetProjectConfig ''j'' (snd ?r) =
      (GetProjectConfig ''j'' demo_project |` (- set [''a'', ''c''])) ++ map_of [(''a'', ''1''), (''b'', ''2'')]"
    using config_change_set_applied by blast
  moreover have "GetProjectConfig ''j'' demo_project = Map.empty" by (simp add: GetProjectConfig_def e(2))
  ultimately show ?thesis by (auto simp: map_add_def fun_eq_iff)
qed

end
