(* ===== verification/Go_Text.thy ===== *)
theory Go_Text
  imports Go_Library
begin

text \<open>
  More of Go's standard library, on byte strings: \<open>strconv.Itoa\<close>, \<open>strings.TrimSpace\<close> with the Unicode
  spaces, and \<open>json.Marshal\<close> for the structs the code encodes (its string escaping included).
\<close>

section \<open>strconv: Itoa\<close>

definition digit_char :: "nat \<Rightarrow> char" where
  "digit_char d = char_of (48 + d)"

fun itoa_nat :: "nat \<Rightarrow> string" where
  "itoa_nat n = (if n < 10 then [digit_char n] else itoa_nat (n div 10) @ [digit_char (n mod 10)])"

declare itoa_nat.simps [simp del]

definition Itoa :: "int \<Rightarrow> string" where
  "Itoa i = (if i < 0 then CHR ''-'' # itoa_nat (nat (- i)) else itoa_nat (nat i))"

definition digits_value :: "string \<Rightarrow> nat" where
  "digits_value ds = foldl (\<lambda>acc c. acc * 10 + (of_char c - 48)) 0 ds"

lemma of_digit_char [simp]: "d < 10 \<Longrightarrow> of_char (digit_char d) - (48 :: nat) = d"
  by (simp add: digit_char_def)

lemma itoa_nat_value: "digits_value (itoa_nat n) = n"
proof (induction n rule: itoa_nat.induct)
  case (1 n)
  then show ?case
    by (subst itoa_nat.simps) (auto simp: digits_value_def)
qed

lemma itoa_nat_ne [simp]: "itoa_nat n \<noteq> []"
  by (subst itoa_nat.simps) simp

lemma Itoa_ne [simp]: "Itoa i \<noteq> []"
  by (simp add: Itoa_def)

lemma digit_char_range: "d < 10 \<Longrightarrow> c = digit_char d \<Longrightarrow> 48 \<le> (of_char c :: nat) \<and> (of_char c :: nat) < 58"
  by (simp add: digit_char_def)

lemma itoa_nat_digits: "c \<in> set (itoa_nat n) \<Longrightarrow> 48 \<le> (of_char c :: nat) \<and> (of_char c :: nat) < 58"
proof (induction n rule: itoa_nat.induct)
  case (1 n)
  show ?case
  proof (cases "n < 10")
    case True
    then show ?thesis using 1(2) digit_char_range by (subst (asm) itoa_nat.simps) auto
  next
    case False
    then have "c \<in> set (itoa_nat (n div 10)) \<or> c = digit_char (n mod 10)"
      using 1(2) by (subst (asm) itoa_nat.simps) auto
    then show ?thesis using 1(1) [OF False] digit_char_range [of "n mod 10" c] by auto
  qed
qed

lemma itoa_nat_inj: "itoa_nat m = itoa_nat n \<Longrightarrow> m = n"
  by (metis itoa_nat_value)

lemma Itoa_nat_inj: "Itoa (int m) = Itoa (int n) \<longleftrightarrow> m = n"
  by (auto simp: Itoa_def dest: itoa_nat_inj)

lemma Itoa_no_dot: "CHR ''.'' \<notin> set (Itoa (int n))"
proof
  assume "CHR ''.'' \<in> set (Itoa (int n))"
  then have "CHR ''.'' \<in> set (itoa_nat n)" by (simp add: Itoa_def)
  from itoa_nat_digits [OF this] show False by simp
qed

section \<open>strings: TrimSpace\<close>

text \<open>The UTF-8 encodings of the runes \<open>unicode.IsSpace\<close> accepts.\<close>

definition bytes :: "nat list \<Rightarrow> string" where
  "bytes ns = map char_of ns"

definition space_runes :: "string list" where
  "space_runes = map bytes ([[0x09], [0x0A], [0x0B], [0x0C], [0x0D], [0x20], [0xC2, 0x85], [0xC2, 0xA0],
     [0xE1, 0x9A, 0x80], [0xE2, 0x80, 0xA8], [0xE2, 0x80, 0xA9], [0xE2, 0x80, 0xAF], [0xE2, 0x81, 0x9F],
     [0xE3, 0x80, 0x80]] @ map (\<lambda>i. [0xE2, 0x80, 0x80 + i]) [0..<11])"

definition strip_prefix :: "string \<Rightarrow> string \<Rightarrow> string option" where
  "strip_prefix p s = (if take (length p) s = p then Some (drop (length p) s) else None)"

fun first_some :: "('a \<Rightarrow> 'b option) \<Rightarrow> 'a list \<Rightarrow> 'b option" where
  "first_some f [] = None"
| "first_some f (x # xs) = (case f x of None \<Rightarrow> first_some f xs | Some y \<Rightarrow> Some y)"

text \<open>One leading space rune taken off.\<close>

definition skip_space :: "string list \<Rightarrow> string \<Rightarrow> string option" where
  "skip_space runes s = first_some (\<lambda>p. strip_prefix p s) runes"

lemma first_some_Some: "first_some f xs = Some y \<Longrightarrow> \<exists>x \<in> set xs. f x = Some y"
  by (induction xs) (auto split: option.splits)

lemma skip_space_shorter:
  "skip_space runes s = Some r \<Longrightarrow> [] \<notin> set runes \<Longrightarrow> length r < length s"
  unfolding skip_space_def
  by (drule first_some_Some) (auto simp: strip_prefix_def split: if_splits,
    metis diff_less length_0_conv length_greater_0_conv list.size(3) take_eq_Nil)

fun trim_left :: "nat \<Rightarrow> string list \<Rightarrow> string \<Rightarrow> string" where
  "trim_left 0 runes s = s"
| "trim_left (Suc n) runes s = (case skip_space runes s of None \<Rightarrow> s | Some r \<Rightarrow> trim_left n runes r)"

text \<open>The fuel is the length: every rune taken off is at least one byte.  The right end is trimmed on
  the reversed string.\<close>

definition TrimSpace :: "string \<Rightarrow> string" where
  "TrimSpace s =
    (let l = trim_left (length s) space_runes s in
     rev (trim_left (length l) (map rev space_runes) (rev l)))"

lemma trim_left_done:
  assumes "length s \<le> n" "[] \<notin> set runes"
  shows "skip_space runes (trim_left n runes s) = None"
  using assms
proof (induction n arbitrary: s)
  case 0
  then show ?case
    by (auto simp: skip_space_def strip_prefix_def dest!: first_some_Some intro: ccontr split: if_splits
        elim!: option.exhaust [where y = "first_some _ _"])
next
  case (Suc n)
  then show ?case using skip_space_shorter [of runes s] by (cases "skip_space runes s") auto
qed

lemma TrimSpace_id:
  "skip_space space_runes s = None \<Longrightarrow> skip_space (map rev space_runes) (rev s) = None \<Longrightarrow> TrimSpace s = s"
  by (cases "length s") (auto simp: TrimSpace_def Let_def)

text \<open>Text that starts and ends with a printable ASCII character is left alone.\<close>

definition printable :: "char \<Rightarrow> bool" where
  "printable c = (0x20 < (of_char c :: nat) \<and> (of_char c :: nat) < 0x80)"

lemma space_rune_bytes: "list_all (\<lambda>p. p \<noteq> [] \<and> \<not> printable (hd p) \<and> \<not> printable (last p)) space_runes"
  by code_simp

lemma skip_space_head:
  assumes "list_all (\<lambda>p. p \<noteq> [] \<and> \<not> printable (hd p)) runes" "s = [] \<or> printable (hd s)"
  shows "skip_space runes s = None"
  unfolding skip_space_def using assms
  by (induction runes) (cases s; auto simp: strip_prefix_def take_Cons' neq_Nil_conv split: if_splits)+

lemma TrimSpace_printable:
  assumes "s = [] \<or> printable (hd s) \<and> printable (last s)"
  shows "TrimSpace s = s"
proof (rule TrimSpace_id)
  show "skip_space space_runes s = None"
    using space_rune_bytes assms by (intro skip_space_head) (auto simp: list_all_iff)
  show "skip_space (map rev space_runes) (rev s) = None"
    using space_rune_bytes assms by (intro skip_space_head) (auto simp: list_all_iff hd_rev)
qed
section \<open>encoding/json: Marshal\<close>

text \<open>The values of a document: nil pointers and slices are encoded as \<open>null\<close>, structs as objects in field
  order.  \<open>JsonNumber\<close> keeps the literal of a number that is not an integer.\<close>

datatype json_value =
    JsonNull
  | JsonBool bool
  | JsonString string
  | JsonInt int
  | JsonNumber string
  | JsonArray "json_value list"
  | JsonObject "(string \<times> json_value) list"

text \<open>The first rune of a byte string, \<open>utf8.DecodeRune\<close>: its code point and size, or \<open>None\<close> for an invalid
  encoding.\<close>

definition cont :: "nat \<Rightarrow> bool" where
  "cont b \<longleftrightarrow> 0x80 \<le> b \<and> b < 0xC0"

fun decode_rune :: "nat list \<Rightarrow> (nat \<times> nat) option" where
  "decode_rune [] = None"
| "decode_rune (a # rest) =
    (if a < 0x80 then Some (a, 1)
     else if 0xC2 \<le> a \<and> a < 0xE0 then
       (case rest of b # _ \<Rightarrow> if cont b then Some ((a - 0xC0) * 64 + (b - 0x80), 2) else None | _ \<Rightarrow> None)
     else if 0xE0 \<le> a \<and> a < 0xF0 then
       (case rest of b # c # _ \<Rightarrow>
          if cont b \<and> cont c \<and> (a = 0xE0 \<longrightarrow> 0xA0 \<le> b) \<and> (a = 0xED \<longrightarrow> b < 0xA0)
          then Some ((a - 0xE0) * 4096 + (b - 0x80) * 64 + (c - 0x80), 3) else None | _ \<Rightarrow> None)
     else if 0xF0 \<le> a \<and> a < 0xF5 then
       (case rest of b # c # d # _ \<Rightarrow>
          if cont b \<and> cont c \<and> cont d \<and> (a = 0xF0 \<longrightarrow> 0x90 \<le> b) \<and> (a = 0xF4 \<longrightarrow> b < 0x90)
          then Some ((a - 0xF0) * 262144 + (b - 0x80) * 4096 + (c - 0x80) * 64 + (d - 0x80), 4) else None
        | _ \<Rightarrow> None)
     else None)"

definition hex_char :: "nat \<Rightarrow> char" where
  "hex_char d = (if d < 10 then char_of (48 + d) else char_of (87 + d))"

definition json_escape_byte :: "nat \<Rightarrow> string" where
  "json_escape_byte b =
    (if b = 0x22 \<or> b = 0x5C then bytes [0x5C, b]
     else if b = 0x08 then bytes [0x5C, 0x62] else if b = 0x0C then bytes [0x5C, 0x66]
     else if b = 0x0A then bytes [0x5C, 0x6E] else if b = 0x0D then bytes [0x5C, 0x72]
     else if b = 0x09 then bytes [0x5C, 0x74]
     else if b < 0x20 \<or> b = 0x3C \<or> b = 0x3E \<or> b = 0x26
     then bytes [0x5C, 0x75] @ ''00'' @ [hex_char (b div 16), hex_char (b mod 16)]
     else bytes [b])"

text \<open>Invalid bytes become \<open>\ufffd\<close>; U+2028 and U+2029 are escaped; other runes are copied.\<close>

function json_escape :: "nat list \<Rightarrow> string" where
  "json_escape [] = []"
| "json_escape (a # rest) =
    (case decode_rune (a # rest) of
       None \<Rightarrow> bytes [0x5C] @ ''ufffd'' @ json_escape rest
     | Some (r, n) \<Rightarrow>
         (if n \<le> 1 then json_escape_byte a
          else if r = 0x2028 \<or> r = 0x2029 then bytes [0x5C] @ ''u202'' @ [hex_char (r mod 16)]
          else bytes (take n (a # rest))) @ json_escape (drop (n - 1) rest))"
  by pat_completeness auto
termination
  by (relation "measure length") auto

definition json_string :: "string \<Rightarrow> string" where
  "json_string s = bytes [0x22] @ json_escape (map of_char s) @ bytes [0x22]"

fun json_encode :: "json_value \<Rightarrow> string" where
  "json_encode JsonNull = ''null''"
| "json_encode (JsonBool b) = (if b then ''true'' else ''false'')"
| "json_encode (JsonNumber l) = l"
| "json_encode (JsonString s) = json_string s"
| "json_encode (JsonInt i) = Itoa i"
| "json_encode (JsonArray vs) = ''['' @ join_with '','' (map json_encode vs) @ '']''"
| "json_encode (JsonObject kvs) =
    ''{'' @ join_with '','' (map (\<lambda>kv. json_string (fst kv) @ '':'' @ json_encode (snd kv)) kvs) @ ''}''"

definition json_slice :: "('a \<Rightarrow> json_value) \<Rightarrow> 'a list option \<Rightarrow> json_value" where
  "json_slice f xs = (case xs of None \<Rightarrow> JsonNull | Some l \<Rightarrow> JsonArray (map f l))"

text \<open>\<open>omitempty\<close> leaves out a field whose string is empty.\<close>

definition omit_empty :: "(string \<times> string) list \<Rightarrow> json_value" where
  "omit_empty fields = JsonObject (map (\<lambda>f. (fst f, JsonString (snd f))) (filter (\<lambda>f. snd f \<noteq> []) fields))"

end
