(* ===== verification/Plan_Model.thy ===== *)
theory Plan_Model
  imports Go_Text
begin

text \<open>
  The plan tree of \<open>internal/plan\<close> (\<open>types.go\<close>), its positional decomposition (\<open>decompose.go\<close>) and the
  title and slug of a plan document (\<open>meta.go\<close>).
\<close>

section \<open>Types\<close>

record TaskBinding =
  bind_Mode :: string
  bind_Alias :: string
  bind_Provider :: string
  bind_Model :: string
  bind_Effort :: string
  bind_Calibration :: string
  bind_Repetitions :: int
  bind_Fixture :: string

record TaskInput =
  ti_Path :: string
  ti_SHA256 :: string

record TaskOutput =
  to_Path :: string
  to_Mode :: string

text \<open>\<open>None\<close> is a nil pointer or slice.\<close>

record TaskMetadata =
  meta_ID :: string
  meta_After :: "string list option"
  meta_Team :: string
  meta_Binding :: TaskBinding
  meta_Requires :: "string list option"
  meta_Providers :: "string list option"
  meta_DifferentFrom :: "string list option"
  meta_Inputs :: "TaskInput list option"
  meta_Outputs :: "TaskOutput list option"

record Step =
  step_Text :: string
  step_Detail :: string
  step_RequiresApproval :: bool
  step_Metadata :: "TaskMetadata option"

datatype Group = Group (Heading: string) (Level: nat) (Parallel: bool) (Steps: "Step list") (SubGroups: "Group list")

record PlanDoc =
  Groups :: "Group list"

definition elems :: "'a list option \<Rightarrow> 'a list" where
  "elems xs = (case xs of None \<Rightarrow> [] | Some l \<Rightarrow> l)"

definition DependsOn :: "TaskMetadata option \<Rightarrow> string list option" where
  "DependsOn m = (case m of None \<Rightarrow> None | Some md \<Rightarrow> meta_After md)"

definition AllowedProviders :: "TaskMetadata option \<Rightarrow> string list" where
  "AllowedProviders m = (case m of None \<Rightarrow> [] | Some md \<Rightarrow> elems (meta_Providers md))"

definition PinnedProviderType :: "TaskMetadata option \<Rightarrow> string" where
  "PinnedProviderType m = (case m of None \<Rightarrow> [] | Some md \<Rightarrow> TrimSpace (bind_Provider (meta_Binding md)))"

definition IndependencePeers :: "TaskMetadata option \<Rightarrow> string list" where
  "IndependencePeers m = (case m of None \<Rightarrow> [] | Some md \<Rightarrow> elems (meta_DifferentFrom md))"

section \<open>Positions\<close>

record StepRef =
  GroupPath :: "int list"
  Index :: int

definition GroupID :: "StepRef \<Rightarrow> string" where
  "GroupID r = join_with ''.'' (map Itoa (GroupPath r))"

definition StepID :: "StepRef \<Rightarrow> string" where
  "StepID r = join_with ''.'' (map Itoa (GroupPath r) @ [Itoa (Index r)])"

text \<open>\<open>for j, s := range g.Steps { fn(StepRef{path, j}, s) }\<close>, as the list of the calls.\<close>

definition step_calls :: "int list \<Rightarrow> Step list \<Rightarrow> (StepRef \<times> Step) list" where
  "step_calls path steps = map (\<lambda>(j, s). (\<lparr>GroupPath = path, Index = int j\<rparr>, s)) (enumerate 0 steps)"

text \<open>The range over the groups counts from \<open>i\<close>.\<close>

fun walkGroups :: "nat \<Rightarrow> Group list \<Rightarrow> int list \<Rightarrow> (StepRef \<times> Step) list" where
  "walkGroups i [] path = []"
| "walkGroups i (Group h l par steps subs # gs) path =
    (if subs \<noteq> [] then walkGroups 0 subs (path @ [int i]) else step_calls (path @ [int i]) steps) @
    walkGroups (Suc i) gs path"

definition StepIDs :: "PlanDoc \<Rightarrow> string list" where
  "StepIDs p = map (\<lambda>c. StepID (fst c)) (walkGroups 0 (Groups p) [])"

section \<open>Decomposition\<close>

fun groupDone :: "Group \<Rightarrow> int list \<Rightarrow> (string \<Rightarrow> bool) \<Rightarrow> bool"
  and groupsDone :: "nat \<Rightarrow> Group list \<Rightarrow> int list \<Rightarrow> (string \<Rightarrow> bool) \<Rightarrow> bool" where
  "groupDone (Group h l par steps subs) path done =
    (if subs \<noteq> [] then groupsDone 0 subs path done
     else list_all (\<lambda>c. done (StepID (fst c))) (step_calls path steps))"
| "groupsDone i [] path done = True"
| "groupsDone i (g # gs) path done =
    (if \<not> groupDone g (path @ [int i]) done then False else groupsDone (Suc i) gs path done)"

text \<open>The loop of \<open>leafReady\<close> with its break.\<close>

fun ready_loop :: "bool \<Rightarrow> (string \<Rightarrow> bool) \<Rightarrow> (StepRef \<times> Step) list \<Rightarrow> (StepRef \<times> Step) list" where
  "ready_loop par done [] = []"
| "ready_loop par done (c # cs) =
    (if done (StepID (fst c)) then ready_loop par done cs
     else if \<not> par then [c] else c # ready_loop par done cs)"

definition leafReady :: "bool \<Rightarrow> Step list \<Rightarrow> int list \<Rightarrow> (string \<Rightarrow> bool) \<Rightarrow> ((StepRef \<times> Step) list \<times> bool) option" where
  "leafReady par steps path done =
    (let ready = ready_loop par done (step_calls path steps) in if ready = [] then None else Some (ready, par))"

fun decomposeGroups :: "nat \<Rightarrow> Group list \<Rightarrow> int list \<Rightarrow> (string \<Rightarrow> bool) \<Rightarrow> ((StepRef \<times> Step) list \<times> bool) option" where
  "decomposeGroups i [] path done = None"
| "decomposeGroups i (Group h l par steps subs # gs) path done =
    (if groupDone (Group h l par steps subs) (path @ [int i]) done then decomposeGroups (Suc i) gs path done
     else if subs \<noteq> [] then decomposeGroups 0 subs (path @ [int i]) done
     else leafReady par steps (path @ [int i]) done)"

definition Decompose :: "PlanDoc \<Rightarrow> (string \<Rightarrow> bool) \<Rightarrow> Step list \<times> bool" where
  "Decompose p done = (case decomposeGroups 0 (Groups p) [] done of
     None \<Rightarrow> ([], False) | Some (ready, par) \<Rightarrow> (map snd ready, par))"

definition DecomposeRefs :: "PlanDoc \<Rightarrow> (string \<Rightarrow> bool) \<Rightarrow> Step list \<times> StepRef list \<times> bool" where
  "DecomposeRefs p done = (case decomposeGroups 0 (Groups p) [] done of
     None \<Rightarrow> ([], [], False) | Some (ready, par) \<Rightarrow> (map snd ready, map fst ready, par))"

datatype plan_error = GroupIndexOutOfRange int nat | StepIndexOutOfRange int

text \<open>The descent of \<open>StepAt\<close>; \<open>g\<close> is the group reached so far, the zero group at the start.\<close>

fun descend :: "nat \<Rightarrow> Group list \<Rightarrow> Group \<Rightarrow> int list \<Rightarrow> plan_error + Group" where
  "descend depth groups g [] = Inr g"
| "descend depth groups g (idx # path) =
    (if idx < 0 \<or> idx \<ge> int (length groups) then Inl (GroupIndexOutOfRange idx depth)
     else let g' = groups ! nat idx in descend (Suc depth) (SubGroups g') g' path)"

definition StepAt :: "PlanDoc \<Rightarrow> StepRef \<Rightarrow> plan_error + (Step \<times> Group)" where
  "StepAt p ref = (case descend 0 (Groups p) (Group [] 0 False [] []) (GroupPath ref) of
     Inl e \<Rightarrow> Inl e
   | Inr g \<Rightarrow> if Index ref < 0 \<or> Index ref \<ge> int (length (Steps g)) then Inl (StepIndexOutOfRange (Index ref))
             else Inr (Steps g ! nat (Index ref), g))"

section \<open>Title and slug\<close>

definition re_space :: "char \<Rightarrow> bool" where
  "re_space c \<longleftrightarrow> c \<in> set [CHR 0x09, CHR 0x0A, CHR 0x0C, CHR 0x0D, CHR 0x20]"

text \<open>\<open>(?m)^#\s+(.+?)\s*$\<close> at one line start: after the hash and a run of spaces the lazy group ends where
  only spaces are left before a line end.  Where the run reaches the end of the text the group
  can only be blank, and \<open>TrimSpace\<close> of it is empty.\<close>

definition heading_at :: "string \<Rightarrow> string option" where
  "heading_at s = (case s of
     c # r \<Rightarrow>
       (if c = CHR ''#'' \<and> r \<noteq> [] \<and> re_space (hd r)
        then let body = dropWhile re_space r; line = takeWhile (\<lambda>c. c \<noteq> CHR 0x0A) body
             in Some (rev (dropWhile re_space (rev line)))
        else None)
   | [] \<Rightarrow> None)"

fun find_heading :: "bool \<Rightarrow> string \<Rightarrow> string option" where
  "find_heading at_start [] = None"
| "find_heading at_start (c # r) =
    (case if at_start then heading_at (c # r) else None of
       Some t \<Rightarrow> Some t
     | None \<Rightarrow> find_heading (c = CHR 0x0A) r)"

definition Title :: "string \<Rightarrow> string \<Rightarrow> string" where
  "Title markdown fallback =
    (case find_heading True markdown of
       None \<Rightarrow> fallback
     | Some m \<Rightarrow> let t = TrimSpace m in if t \<noteq> [] then t else fallback)"

text \<open>\<open>strings.ToLower\<close> followed by the test for \<open>a\<close>-\<open>z\<close> and \<open>0\<close>-\<open>9\<close>, on the bytes: an ASCII letter or digit is
  kept in lower case, U+0130 and U+212A are the only other runes that lower-case into the range, and
  every other byte belongs to a rune outside it.\<close>

fun slug_runes :: "nat list \<Rightarrow> char option list" where
  "slug_runes [] = []"
| "slug_runes (a # rest) =
    (if a = 0xC4 \<and> take 1 rest = [0xB0] then Some (CHR ''i'') # slug_runes (drop 1 rest)
     else if a = 0xE2 \<and> take 2 rest = [0x84, 0xAA] then Some (CHR ''k'') # slug_runes (drop 2 rest)
     else if 65 \<le> a \<and> a \<le> 90 then Some (char_of (a + 32)) # slug_runes rest
     else if (97 \<le> a \<and> a \<le> 122) \<or> (48 \<le> a \<and> a \<le> 57) then Some (char_of a) # slug_runes rest
     else None # slug_runes rest)"

fun slug_loop :: "bool \<Rightarrow> char option list \<Rightarrow> string" where
  "slug_loop prevHyphen [] = []"
| "slug_loop prevHyphen (Some c # rs) = c # slug_loop False rs"
| "slug_loop prevHyphen (None # rs) = (if prevHyphen then slug_loop True rs else CHR ''-'' # slug_loop True rs)"

definition trim_hyphens :: "string \<Rightarrow> string" where
  "trim_hyphens s = rev (dropWhile (\<lambda>c. c = CHR ''-'') (rev (dropWhile (\<lambda>c. c = CHR ''-'') s)))"

definition Slug :: "string \<Rightarrow> string" where
  "Slug title = (let slug = trim_hyphens (slug_loop False (slug_runes (map of_char title))) in
     if slug = [] then ''plan'' else slug)"

end
