(* ===== verification/Go_Json.thy ===== *)
theory Go_Json
  imports Go_Text
begin

text \<open>
  \<open>json.Unmarshal\<close>: the reader of JSON documents, with the decoding of string escapes, and the decoding
  of objects into structs by field name (exact first, then up to case).  Reading what \<open>Marshal\<close> wrote
  gives the value back.
\<close>

section \<open>Runes\<close>

definition encode_rune :: "nat \<Rightarrow> nat list" where
  "encode_rune r =
    (if r < 0x80 then [r]
     else if r < 0x800 then [0xC0 + r div 64, 0x80 + r mod 64]
     else if r < 0x10000 then [0xE0 + r div 4096, 0x80 + r div 64 mod 64, 0x80 + r mod 64]
     else [0xF0 + r div 262144, 0x80 + r div 4096 mod 64, 0x80 + r div 64 mod 64, 0x80 + r mod 64])"

text \<open>Text that is a sequence of whole runes.\<close>

function valid_utf8 :: "nat list \<Rightarrow> bool" where
  "valid_utf8 [] = True"
| "valid_utf8 (a # rest) = (case decode_rune (a # rest) of None \<Rightarrow> False | Some (r, n) \<Rightarrow> valid_utf8 (drop (n - 1) rest))"
  by pat_completeness auto
termination
  by (relation "measure length") auto

definition hex_value :: "nat \<Rightarrow> nat option" where
  "hex_value b = (if 48 \<le> b \<and> b \<le> 57 then Some (b - 48) else if 97 \<le> b \<and> b \<le> 102 then Some (b - 87)
     else if 65 \<le> b \<and> b \<le> 70 then Some (b - 55) else None)"

text \<open>\<open>getu4\<close> after the \<open>\u\<close>.\<close>

definition getu4 :: "nat list \<Rightarrow> (nat \<times> nat list) option" where
  "getu4 bs = (case bs of
     a # b # c # d # rest \<Rightarrow>
       (case (hex_value a, hex_value b, hex_value c, hex_value d) of
          (Some w, Some x, Some y, Some z) \<Rightarrow> Some (((w * 16 + x) * 16 + y) * 16 + z, rest)
        | _ \<Rightarrow> None)
   | _ \<Rightarrow> None)"

definition replacement :: "nat list" where
  "replacement = [0xEF, 0xBF, 0xBD]"

definition simple_escape :: "nat \<Rightarrow> nat option" where
  "simple_escape b =
    (if b = 0x22 \<or> b = 0x5C \<or> b = 0x2F \<or> b = 0x27 then Some b
     else if b = 0x62 then Some 0x08 else if b = 0x66 then Some 0x0C else if b = 0x6E then Some 0x0A
     else if b = 0x72 then Some 0x0D else if b = 0x74 then Some 0x09 else None)"

text \<open>A surrogate must be followed by the escape of its second half; a lone one is replaced.\<close>

definition surrogate_pair :: "nat \<Rightarrow> nat list \<Rightarrow> (nat \<times> nat list) option" where
  "surrogate_pair r rest = (case rest of
     b # u # rest' \<Rightarrow>
       if r < 0xDC00 \<and> b = 0x5C \<and> u = 0x75 then
         (case getu4 rest' of
            Some (r2, rest'') \<Rightarrow>
              if 0xDC00 \<le> r2 \<and> r2 < 0xE000 then Some ((r - 0xD800) * 1024 + (r2 - 0xDC00) + 0x10000, rest'') else None
          | None \<Rightarrow> None)
       else None
   | _ \<Rightarrow> None)"

lemma getu4_shorter: "getu4 bs = Some (r, rest) \<Longrightarrow> length rest < length bs"
  by (auto simp: getu4_def split: list.splits option.splits)

lemma surrogate_shorter: "surrogate_pair r bs = Some (r', rest) \<Longrightarrow> length rest < length bs"
  by (auto simp: surrogate_pair_def split: list.splits option.splits if_splits dest: getu4_shorter)

text \<open>\<open>unquote\<close> after the opening quote: the decoded bytes and what follows the closing quote.\<close>

function unquote :: "nat list \<Rightarrow> (nat list \<times> nat list) option" where
  "unquote [] = None"
| "unquote (a # rest) =
    (if a = 0x22 then Some ([], rest)
     else if a = 0x5C then
       (case rest of
          [] \<Rightarrow> None
        | e # rest' \<Rightarrow>
            (if e = 0x75 then
               (case getu4 rest' of
                  None \<Rightarrow> None
                | Some (r, rest'') \<Rightarrow>
                    (if 0xD800 \<le> r \<and> r < 0xE000 then
                       (case surrogate_pair r rest'' of
                          Some (r', rest3) \<Rightarrow> map_option (apfst ((@) (encode_rune r'))) (unquote rest3)
                        | None \<Rightarrow> map_option (apfst ((@) replacement)) (unquote rest''))
                     else map_option (apfst ((@) (encode_rune r))) (unquote rest'')))
             else (case simple_escape e of
                     None \<Rightarrow> None
                   | Some b \<Rightarrow> map_option (apfst ((#) b)) (unquote rest'))))
     else if a < 0x20 then None
     else (case decode_rune (a # rest) of
             None \<Rightarrow> map_option (apfst ((@) replacement)) (unquote rest)
           | Some (r, n) \<Rightarrow> map_option (apfst ((@) (take n (a # rest)))) (unquote (drop (n - 1) rest))))"
  by pat_completeness auto
termination
  by (relation "measure length") (auto dest!: getu4_shorter surrogate_shorter)

section \<open>Strings round-trip\<close>

abbreviation bytes_of :: "string \<Rightarrow> nat list" where
  "bytes_of \<equiv> map of_char"

lemma bytes_of_bytes: "\<forall>b \<in> set bs. b < 256 \<Longrightarrow> bytes_of (bytes bs) = bs"
  by (induction bs) (auto simp: bytes_def)

lemma byte_bound [simp]: "b \<in> set (bytes_of s) \<Longrightarrow> b < 256"
  by auto

lemma hex_of_digit [simp]: "d < 16 \<Longrightarrow> hex_value (of_char (hex_char d)) = Some d"
  by (auto simp: hex_value_def hex_char_def)

lemma of_hex_char: "d < 16 \<Longrightarrow> (of_char (hex_char d) :: nat) = (if d < 10 then 48 + d else 87 + d)"
  by (simp add: hex_char_def)

lemma decode_ascii: "a < 0x80 \<Longrightarrow> decode_rune (a # rest) = Some (a, 1)"
  by simp

text \<open>Reading one rune does not depend on what follows it.\<close>

lemma decode_rune_append: "decode_rune bs = Some (r, n) \<Longrightarrow> decode_rune (bs @ rest) = Some (r, n)"
  by (cases bs) (auto split: list.splits if_splits)

lemma decode_rune_size: "decode_rune bs = Some (r, n) \<Longrightarrow> 1 \<le> n \<and> n \<le> length bs"
  by (cases bs) (auto split: list.splits if_splits)

lemma decode_rune_ascii: "decode_rune (a # rest) = Some (r, n) \<Longrightarrow> n \<le> 1 \<Longrightarrow> a < 0x80 \<and> r = a \<and> n = 1"
  by (auto split: list.splits if_splits)

lemma decode_rune_wide: "decode_rune (a # rest) = Some (r, n) \<Longrightarrow> \<not> n \<le> 1 \<Longrightarrow> 0xC2 \<le> a"
  by (auto split: list.splits if_splits)

text \<open>The two line separators have one encoding each.\<close>

lemma decode_rune_separator:
  assumes "decode_rune (a # rest) = Some (r, n)" "r = 0x2028 \<or> r = 0x2029"
  shows "take n (a # rest) = encode_rune r \<and> n = 3"
proof -
  have "0xE0 \<le> a \<and> a < 0xF0 \<and> (\<exists>b c more. rest = b # c # more \<and> 0x80 \<le> b \<and> b < 0xC0 \<and> 0x80 \<le> c \<and> c < 0xC0 \<and>
      r = (a - 0xE0) * 4096 + (b - 0x80) * 64 + (c - 0x80) \<and> n = 3)"
    using assms by (auto simp: cont_def split: list.splits if_splits)
  then obtain b c more where *: "0xE0 \<le> a" "a < 0xF0" "rest = b # c # more" "0x80 \<le> b" "b < 0xC0" "0x80 \<le> c" "c < 0xC0"
    "r = (a - 0xE0) * 4096 + (b - 0x80) * 64 + (c - 0x80)" "n = 3" by blast
  obtain x y z where xyz: "a = 0xE0 + x" "b = 0x80 + y" "c = 0x80 + z" using *(1,4,6) by (metis le_iff_add)
  have r: "r = x * 4096 + y * 64 + z" "y < 64" "z < 64" using * by (simp_all add: xyz)
  have "\<not> x \<le> 1" using r assms(2) by auto
  moreover have "\<not> 3 \<le> x" using r assms(2) by auto
  ultimately have "x = 2" by simp
  moreover from this have "y = 0" using r assms(2) by auto
  ultimately have "x = 2 \<and> y = 0 \<and> z = r - 0x2000" using r by simp
  then have "a = 0xE2 \<and> b = 0x80 \<and> (r = 0x2028 \<longrightarrow> c = 0xA8) \<and> (r = 0x2029 \<longrightarrow> c = 0xA9)"
    by (simp add: xyz)
  then show ?thesis using *(3,9) assms(2) by (auto simp: encode_rune_def)
qed

lemma decode_rune_take: "decode_rune bs = Some (r, n) \<Longrightarrow> decode_rune (take n bs @ xs) = Some (r, n)"
  by (cases bs) (auto split: list.splits if_splits)

lemma getu4_byte: "a < 256 \<Longrightarrow>
  getu4 (48 # 48 # of_char (hex_char (a div 16)) # of_char (hex_char (a mod 16)) # xs) = Some (a, xs)"
  by (simp add: getu4_def hex_value_def [of 48])

lemma append_one: "(@) [a] = (#) a"
  by (rule ext) simp

lemma unquote_escape_byte:
  assumes "a < 0x80"
  shows "unquote (bytes_of (json_escape_byte a) @ xs) = map_option (apfst ((#) a)) (unquote xs)"
proof (cases "a < 0x20 \<and> a \<notin> {0x08, 0x0C, 0x0A, 0x0D, 0x09} \<or> a = 0x3C \<or> a = 0x3E \<or> a = 0x26")
  case True
  then have "bytes_of (json_escape_byte a) = 0x5C # 0x75 # 48 # 48 # of_char (hex_char (a div 16)) # of_char (hex_char (a mod 16)) # []"
    by (auto simp: json_escape_byte_def bytes_def)
  then show ?thesis using assms by (simp add: getu4_byte encode_rune_def append_one)
next
  case False
  then show ?thesis using assms
    by (auto simp: json_escape_byte_def bytes_def simple_escape_def append_one)
qed

lemma unquote_escape:
  "valid_utf8 bs \<Longrightarrow> \<forall>b \<in> set bs. b < 256 \<Longrightarrow> unquote (bytes_of (json_escape bs) @ 0x22 # xs) = Some (bs, xs)"
proof (induction bs rule: json_escape.induct)
  case (2 a rest)
  obtain r n where d: "decode_rune (a # rest) = Some (r, n)" using 2(3) by (auto split: option.splits)
  note size = decode_rune_size [OF d]
  have split: "take n (a # rest) @ drop (n - 1) rest = a # rest" using size by (cases n) auto
  have valid: "valid_utf8 (drop (n - 1) rest)" "\<forall>b \<in> set (drop (n - 1) rest). b < 256"
    using 2(3,4) d by (auto dest: in_set_dropD)
  note IH = 2(2) [OF d refl valid]
  consider (byte) "n \<le> 1" | (separator) "\<not> n \<le> 1" "r = 0x2028 \<or> r = 0x2029" | (copied) "\<not> n \<le> 1" "\<not> (r = 0x2028 \<or> r = 0x2029)"
    by blast
  then show ?case
  proof cases
    case byte
    then have "a < 0x80" "n = 1" using decode_rune_ascii [OF d] by auto
    then show ?thesis using d IH by (simp add: unquote_escape_byte del: unquote.simps decode_rune.simps)
  next
    case separator
    then have enc: "take n (a # rest) = encode_rune r" "n = 3" using decode_rune_separator [OF d] by auto
    have whole: "encode_rune r @ drop (n - 1) rest = a # rest" using split enc(1) by metis
    have "unquote (0x5C # 0x75 # 50 # 48 # 50 # of_char (hex_char (r mod 16)) # ys) = map_option (apfst ((@) (encode_rune r))) (unquote ys)" for ys
      using separator(2) by (auto simp: getu4_def hex_value_def hex_char_def)
    then show ?thesis
      using separator d IH whole enc(2) by (auto simp: bytes_def simp del: unquote.simps decode_rune.simps)
  next
    case copied
    let ?ys = "bytes_of (json_escape (drop (n - 1) rest)) @ 0x22 # xs"
    obtain m where m: "n = Suc m" using size by (cases n) auto
    have a: "0xC2 \<le> a" using decode_rune_wide [OF d copied(1)] .
    have "decode_rune (a # take m rest @ ?ys) = Some (r, n)" using decode_rune_take [OF d, of ?ys] by (simp add: m)
    moreover have "drop (n - 1) (take m rest @ ?ys) = ?ys" "take n (a # take m rest @ ?ys) = take n (a # rest)"
      using size by (simp_all add: m)
    ultimately have "unquote (a # take m rest @ ?ys) = map_option (apfst ((@) (take n (a # rest)))) (unquote ?ys)"
      using a by (simp del: decode_rune.simps)
    moreover have "bytes_of (bytes (take n (a # rest))) = a # take m rest"
      using 2(4) bytes_of_bytes [of "take n (a # rest)"] by (auto simp: m dest: in_set_takeD)
    ultimately show ?thesis using copied d IH split by (simp del: unquote.simps decode_rune.simps add: m)
  qed
qed simp

section \<open>Values\<close>

definition skip_ws :: "nat list \<Rightarrow> nat list" where
  "skip_ws bs = dropWhile (\<lambda>b. b \<in> {0x20, 0x09, 0x0A, 0x0D}) bs"

definition number_byte :: "nat \<Rightarrow> bool" where
  "number_byte b \<longleftrightarrow> (48 \<le> b \<and> b \<le> 57) \<or> b = 0x2B \<or> b = 0x2D \<or> b = 0x2E \<or> b = 0x45 \<or> b = 0x65"

definition digits_nat :: "nat list \<Rightarrow> nat" where
  "digits_nat bs = foldl (\<lambda>acc b. acc * 10 + (b - 48)) 0 bs"

text \<open>A literal of digits with an optional sign is an integer; any other number keeps its literal.\<close>

definition number_value :: "nat list \<Rightarrow> json_value" where
  "number_value lit =
    (let ds = (case lit of a # r \<Rightarrow> if a = 0x2D then r else lit | [] \<Rightarrow> lit) in
     if list_all (\<lambda>b. 48 \<le> b \<and> b \<le> 57) ds
     then JsonInt (if ds \<noteq> lit then - int (digits_nat ds) else int (digits_nat ds))
     else JsonNumber (bytes lit))"

definition keyword :: "string \<Rightarrow> nat list \<Rightarrow> nat list option" where
  "keyword w bs = (if take (length w) bs = bytes_of w then Some (drop (length w) bs) else None)"

text \<open>The recursive reader on bytes.  Fuel bounds the number of calls: each value and each element of a
  container takes at least one byte.\<close>

fun parse_value :: "nat \<Rightarrow> nat list \<Rightarrow> (json_value \<times> nat list) option"
  and parse_elements :: "nat \<Rightarrow> nat list \<Rightarrow> (json_value list \<times> nat list) option"
  and parse_members :: "nat \<Rightarrow> nat list \<Rightarrow> ((string \<times> json_value) list \<times> nat list) option" where
  "parse_value 0 bs = None"
| "parse_value (Suc n) bs =
    (case skip_ws bs of
       [] \<Rightarrow> None
     | a # r \<Rightarrow>
         if a = 0x22 then map_option (apfst (\<lambda>s. JsonString (bytes s))) (unquote r)
         else if a = 0x7B then
           (case skip_ws r of
              b # r' \<Rightarrow> if b = 0x7D then Some (JsonObject [], r') else map_option (apfst JsonObject) (parse_members n r)
            | [] \<Rightarrow> None)
         else if a = 0x5B then
           (case skip_ws r of
              b # r' \<Rightarrow> if b = 0x5D then Some (JsonArray [], r') else map_option (apfst JsonArray) (parse_elements n r)
            | [] \<Rightarrow> None)
         else if a = 0x6E then map_option (Pair JsonNull) (keyword ''null'' (a # r))
         else if a = 0x74 then map_option (Pair (JsonBool True)) (keyword ''true'' (a # r))
         else if a = 0x66 then map_option (Pair (JsonBool False)) (keyword ''false'' (a # r))
         else if number_byte a then Some (number_value (takeWhile number_byte (a # r)), dropWhile number_byte (a # r))
         else None)"
| "parse_elements 0 bs = None"
| "parse_elements (Suc n) bs =
    (case parse_value n bs of
       None \<Rightarrow> None
     | Some (v, r) \<Rightarrow>
         (case skip_ws r of
            b # r' \<Rightarrow> if b = 0x5D then Some ([v], r')
              else if b = 0x2C then map_option (apfst ((#) v)) (parse_elements n r') else None
          | [] \<Rightarrow> None))"
| "parse_members 0 bs = None"
| "parse_members (Suc n) bs =
    (case skip_ws bs of
       q # r \<Rightarrow>
         if q = 0x22 then
           (case unquote r of
              None \<Rightarrow> None
            | Some (k, r1) \<Rightarrow>
                (case skip_ws r1 of
                   c # r2 \<Rightarrow>
                     if c = 0x3A then
                       (case parse_value n r2 of
                          None \<Rightarrow> None
                        | Some (v, r3) \<Rightarrow>
                            (case skip_ws r3 of
                               b # r4 \<Rightarrow> if b = 0x7D then Some ([(bytes k, v)], r4)
                                 else if b = 0x2C then map_option (apfst ((#) (bytes k, v))) (parse_members n r4) else None
                             | [] \<Rightarrow> None))
                     else None
                 | [] \<Rightarrow> None))
         else None
     | [] \<Rightarrow> None)"

text \<open>\<open>json.Unmarshal\<close> into \<open>any\<close>: the whole text must be one value.  \<open>checkValid\<close> runs the scanner first.\<close>

definition parse_first :: "string \<Rightarrow> (json_value \<times> nat list) option" where
  "parse_first raw = parse_value (2 * length raw + 2) (bytes_of raw)"

definition json_parse :: "string \<Rightarrow> json_value option" where
  "json_parse raw = (if json_valid raw then map_option fst (parse_first raw) else None)"

section \<open>Decoding into structs\<close>

text \<open>A field is found by its exact name, else by its name up to case: ASCII letters, and the two runes
  whose folding orbit holds an ASCII letter.\<close>

fun fold_key :: "nat list \<Rightarrow> nat list" where
  "fold_key [] = []"
| "fold_key (a # rest) =
    (if a = 0xC5 \<and> take 1 rest = [0xBF] then 0x53 # fold_key (drop 1 rest)
     else if a = 0xE2 \<and> take 2 rest = [0x84, 0xAA] then 0x4B # fold_key (drop 2 rest)
     else if 97 \<le> a \<and> a \<le> 122 then (a - 32) # fold_key rest
     else a # fold_key rest)"

type_synonym 'r setter = "json_value \<Rightarrow> 'r \<Rightarrow> 'r option"

definition find_field :: "(string \<times> 'r setter) list \<Rightarrow> string \<Rightarrow> 'r setter option" where
  "find_field fields k = (case map_of fields k of
     Some f \<Rightarrow> Some f
   | None \<Rightarrow> map_of (map (\<lambda>(name, f). (fold_key (bytes_of name), f)) fields) (fold_key (bytes_of k)))"

text \<open>The members in document order; a later member of the same field overrides an earlier one.  A type
  mismatch, or with \<open>DisallowUnknownFields\<close> an unknown member, makes the result an error.\<close>

fun decode_fields :: "bool \<Rightarrow> (string \<times> 'r setter) list \<Rightarrow> (string \<times> json_value) list \<Rightarrow> 'r \<Rightarrow> 'r option" where
  "decode_fields strict fields [] r = Some r"
| "decode_fields strict fields ((k, v) # kvs) r =
    (case find_field fields k of
       None \<Rightarrow> if strict then None else decode_fields strict fields kvs r
     | Some f \<Rightarrow> (case f v r of None \<Rightarrow> None | Some r' \<Rightarrow> decode_fields strict fields kvs r'))"

definition decode_struct :: "bool \<Rightarrow> (string \<times> 'r setter) list \<Rightarrow> json_value \<Rightarrow> 'r \<Rightarrow> 'r option" where
  "decode_struct strict fields v r = (case v of
     JsonNull \<Rightarrow> Some r | JsonObject kvs \<Rightarrow> decode_fields strict fields kvs r | _ \<Rightarrow> None)"

definition string_field :: "(string \<Rightarrow> 'r \<Rightarrow> 'r) \<Rightarrow> 'r setter" where
  "string_field upd v r = (case v of JsonString t \<Rightarrow> Some (upd t r) | JsonNull \<Rightarrow> Some r | _ \<Rightarrow> None)"

definition int_field :: "(int \<Rightarrow> 'r \<Rightarrow> 'r) \<Rightarrow> 'r setter" where
  "int_field upd v r = (case v of
     JsonInt i \<Rightarrow> if - (2 ^ 63) \<le> i \<and> i < 2 ^ 63 then Some (upd i r) else None | JsonNull \<Rightarrow> Some r | _ \<Rightarrow> None)"

definition bool_field :: "(bool \<Rightarrow> 'r \<Rightarrow> 'r) \<Rightarrow> 'r setter" where
  "bool_field upd v r = (case v of JsonBool b \<Rightarrow> Some (upd b r) | JsonNull \<Rightarrow> Some r | _ \<Rightarrow> None)"

fun all_some :: "'a option list \<Rightarrow> 'a list option" where
  "all_some [] = Some []"
| "all_some (x # xs) = (case x of None \<Rightarrow> None | Some y \<Rightarrow> map_option ((#) y) (all_some xs))"

definition slice_field :: "(json_value \<Rightarrow> 'e option) \<Rightarrow> ('e list option \<Rightarrow> 'r \<Rightarrow> 'r) \<Rightarrow> 'r setter" where
  "slice_field elem upd v r = (case v of
     JsonNull \<Rightarrow> Some (upd None r) | JsonArray vs \<Rightarrow> map_option (\<lambda>xs. upd (Some xs) r) (all_some (map elem vs)) | _ \<Rightarrow> None)"

definition string_elem :: "json_value \<Rightarrow> string option" where
  "string_elem v = (case v of JsonString t \<Rightarrow> Some t | JsonNull \<Rightarrow> Some [] | _ \<Rightarrow> None)"

lemma all_some_map [simp]: "(\<And>x. x \<in> set xs \<Longrightarrow> f (g x) = Some x) \<Longrightarrow> all_some (map (f \<circ> g) xs) = Some xs"
  by (induction xs) auto

section \<open>Reading back what was written\<close>

definition text_ok :: "string \<Rightarrow> bool" where
  "text_ok t \<longleftrightarrow> valid_utf8 (bytes_of t)"

fun value_ok :: "json_value \<Rightarrow> bool" where
  "value_ok (JsonString t) = text_ok t"
| "value_ok (JsonNumber l) = False"
| "value_ok (JsonArray vs) = list_all value_ok vs"
| "value_ok (JsonObject kvs) = list_all (\<lambda>kv. text_ok (fst kv) \<and> value_ok (snd kv)) kvs"
| "value_ok v = True"

definition ends_number :: "nat list \<Rightarrow> bool" where
  "ends_number rest \<longleftrightarrow> (case rest of [] \<Rightarrow> True | b # _ \<Rightarrow> \<not> number_byte b)"

lemma bytes_bytes_of [simp]: "bytes (bytes_of t) = t"
  by (induction t) (auto simp: bytes_def)

lemma unquote_string: "text_ok t \<Longrightarrow> bytes_of (json_string t) = 0x22 # bytes_of (json_escape (bytes_of t)) @ [0x22] \<and>
    unquote (bytes_of (json_escape (bytes_of t)) @ 0x22 # xs) = Some (bytes_of t, xs)"
  using unquote_escape [of "bytes_of t" xs] by (simp add: json_string_def text_ok_def bytes_def del: json_escape.simps)

lemma itoa_nat_bytes: "b \<in> set (bytes_of (itoa_nat n)) \<Longrightarrow> 48 \<le> b \<and> b \<le> 57"
  using itoa_nat_digits by fastforce

lemma digits_nat_itoa: "digits_nat (bytes_of (itoa_nat n)) = n"
  using itoa_nat_value [of n] by (simp add: digits_nat_def digits_value_def foldl_map)

lemma number_value_Itoa: "number_value (bytes_of (Itoa i)) = JsonInt i"
proof (cases "i < 0")
  case True
  then have "bytes_of (Itoa i) = 0x2D # bytes_of (itoa_nat (nat (- i)))" by (simp add: Itoa_def)
  moreover have "list_all (\<lambda>b. 48 \<le> b \<and> b \<le> 57) (bytes_of (itoa_nat (nat (- i))))"
    unfolding list_all_iff using itoa_nat_bytes by blast
  ultimately show ?thesis using True digits_nat_itoa by (simp add: number_value_def Let_def)
next
  case False
  obtain b bs where bs: "bytes_of (Itoa i) = b # bs" by (cases "bytes_of (Itoa i)") (auto simp: Itoa_def False)
  have all: "list_all (\<lambda>b. 48 \<le> b \<and> b \<le> 57) (bytes_of (Itoa i))"
    unfolding list_all_iff using itoa_nat_bytes False by (auto simp: Itoa_def)
  then have "48 \<le> b" using bs by simp
  then have "b \<noteq> 0x2D" by simp
  moreover have "digits_nat (bytes_of (Itoa i)) = nat i" using False digits_nat_itoa by (simp add: Itoa_def)
  ultimately show ?thesis using False all unfolding number_value_def Let_def bs by simp
qed

lemma Itoa_number_bytes: "b \<in> set (bytes_of (Itoa i)) \<Longrightarrow> number_byte b"
proof -
  assume b: "b \<in> set (bytes_of (Itoa i))"
  then have "b = 0x2D \<or> (\<exists>n. b \<in> set (bytes_of (itoa_nat n)))" by (auto simp: Itoa_def split: if_splits)
  then show "number_byte b" using itoa_nat_bytes by (auto simp: number_byte_def)
qed

lemma span_number:
  assumes "\<forall>b \<in> set bs. number_byte b" "ends_number rest"
  shows "takeWhile number_byte (bs @ rest) = bs" "dropWhile number_byte (bs @ rest) = rest"
  using assms by (cases rest; auto simp: ends_number_def)+

lemma skip_ws_id: "a \<notin> {0x20, 0x09, 0x0A, 0x0D} \<Longrightarrow> skip_ws (a # r) = a # r"
  by (simp add: skip_ws_def)

lemma number_byte_class: "number_byte a \<Longrightarrow> a \<notin> {0x20, 0x09, 0x0A, 0x0D, 0x22, 0x7B, 0x5B, 0x6E, 0x74, 0x66}"
  by (auto simp: number_byte_def)

lemma json_encode_ne: "value_ok v \<Longrightarrow> 1 \<le> length (json_encode v)"
  by (cases v) (auto simp: json_string_def bytes_def Suc_le_eq)

text \<open>The first byte of a value is neither a space nor a closing bracket.\<close>

lemma json_encode_head: "value_ok v \<Longrightarrow> \<exists>a r. bytes_of (json_encode v) = a # r \<and> a \<notin> {0x20, 0x09, 0x0A, 0x0D, 0x5D, 0x7D}"
proof (cases v)
  case (JsonInt i)
  obtain b bs where bs: "bytes_of (Itoa i) = b # bs" by (cases "bytes_of (Itoa i)") auto
  then have "number_byte b" using Itoa_number_bytes [of b i] by simp
  then show ?thesis using bs JsonInt by (auto simp: number_byte_def)
qed (auto simp: json_string_def bytes_def)

lemma elements_round_trip:
  assumes "\<And>v n xs. v \<in> set vs \<Longrightarrow> 2 * length (json_encode v) < n \<Longrightarrow> ends_number xs \<Longrightarrow>
      parse_value n (bytes_of (json_encode v) @ xs) = Some (v, xs)"
    and "vs \<noteq> []" "list_all value_ok vs" "2 * length (join_with '','' (map json_encode vs)) + 1 < n"
  shows "parse_elements n (bytes_of (join_with '','' (map json_encode vs)) @ 0x5D # xs) = Some (vs, xs)"
  using assms
proof (induction vs arbitrary: n)
  case (Cons v vs)
  obtain m where n: "n = Suc m" using Cons.prems(4) by (cases n) auto
  show ?case
  proof (cases "vs = []")
    case True
    have "parse_value m (bytes_of (json_encode v) @ 0x5D # xs) = Some (v, 0x5D # xs)"
      using Cons.prems(4) True by (intro Cons.prems(1)) (simp_all add: n ends_number_def number_byte_def)
    then show ?thesis using True by (simp add: n skip_ws_def)
  next
    case False
    let ?more = "join_with '','' (map json_encode vs)"
    have enc: "join_with '','' (map json_encode (v # vs)) = json_encode v @ '','' @ ?more"
      using False by (simp add: join_with_Cons)
    have len: "2 * length (json_encode v) < m" "2 * length ?more + 1 < m"
      using Cons.prems(4) json_encode_ne [of v] Cons.prems(3) unfolding enc n by auto
    have 1: "parse_value m (bytes_of (json_encode v) @ 0x2C # bytes_of ?more @ 0x5D # xs) = Some (v, 0x2C # bytes_of ?more @ 0x5D # xs)"
      using len(1) by (intro Cons.prems(1)) (simp_all add: ends_number_def number_byte_def)
    have 2: "parse_elements m (bytes_of ?more @ 0x5D # xs) = Some (vs, xs)"
      using Cons.prems(1,3) False len(2) by (intro Cons.IH) auto
    show ?thesis unfolding enc n by (simp add: 1 2 skip_ws_def)
  qed
qed simp

lemma members_round_trip:
  assumes "\<And>kv n xs. kv \<in> set kvs \<Longrightarrow> 2 * length (json_encode (snd kv)) < n \<Longrightarrow> ends_number xs \<Longrightarrow>
      parse_value n (bytes_of (json_encode (snd kv)) @ xs) = Some (snd kv, xs)"
    and "kvs \<noteq> []" "list_all (\<lambda>kv. text_ok (fst kv) \<and> value_ok (snd kv)) kvs"
    and "2 * length (join_with '','' (map (\<lambda>kv. json_string (fst kv) @ '':'' @ json_encode (snd kv)) kvs)) + 1 < n"
  shows "parse_members n (bytes_of (join_with '','' (map (\<lambda>kv. json_string (fst kv) @ '':'' @ json_encode (snd kv)) kvs)) @ 0x7D # xs)
    = Some (kvs, xs)"
  using assms
proof (induction kvs arbitrary: n)
  case (Cons kv kvs)
  obtain m where n: "n = Suc m" using Cons.prems(4) by (cases n) auto
  obtain k v where kv: "kv = (k, v)" by (cases kv)
  let ?pair = "\<lambda>kv. json_string (fst kv) @ '':'' @ json_encode (snd kv)"
  have k: "bytes_of (json_string k) = 0x22 # bytes_of (json_escape (bytes_of k)) @ [0x22]"
    "unquote (bytes_of (json_escape (bytes_of k)) @ 0x22 # ys) = Some (bytes_of k, ys)" for ys
    using unquote_string [of k] Cons.prems(3) by (auto simp: kv simp del: json_escape.simps)
  show ?case
  proof (cases "kvs = []")
    case True
    have "parse_value m (bytes_of (json_encode v) @ 0x7D # xs) = Some (v, 0x7D # xs)"
      using Cons.prems(4) True Cons.prems(1) [of kv m "0x7D # xs"] by (simp add: kv n ends_number_def number_byte_def)
    then show ?thesis using True k by (simp add: kv n skip_ws_def del: unquote.simps json_escape.simps)
  next
    case False
    let ?more = "join_with '','' (map ?pair kvs)"
    have enc: "join_with '','' (map ?pair ((k, v) # kvs)) = json_string k @ '':'' @ json_encode v @ '','' @ ?more"
      using False by (simp add: join_with_Cons)
    have len: "2 * length (json_encode v) < m" "2 * length ?more + 1 < m"
      using Cons.prems(4) unfolding kv enc n by auto
    have 1: "parse_value m (bytes_of (json_encode v) @ 0x2C # bytes_of ?more @ 0x7D # xs) = Some (v, 0x2C # bytes_of ?more @ 0x7D # xs)"
      using len(1) Cons.prems(1) [of kv m] by (simp add: kv ends_number_def number_byte_def)
    have 2: "parse_members m (bytes_of ?more @ 0x7D # xs) = Some (kvs, xs)"
      using Cons.prems(1,3) False len(2) by (intro Cons.IH) auto
    show ?thesis unfolding kv enc n using k 1 2 by (simp add: skip_ws_def del: unquote.simps json_escape.simps)
  qed
qed simp

lemma container_head:
  assumes "bytes_of t = a # r" "a \<notin> {0x20, 0x09, 0x0A, 0x0D}"
  shows "skip_ws (bytes_of t @ ys) = bytes_of t @ ys"
  using assms by (simp add: skip_ws_def)

theorem value_round_trip:
  "value_ok v \<Longrightarrow> 2 * length (json_encode v) < n \<Longrightarrow> ends_number xs \<Longrightarrow>
   parse_value n (bytes_of (json_encode v) @ xs) = Some (v, xs)"
proof (induction v arbitrary: n xs rule: json_encode.induct)
  case 1
  then show ?case by (cases n) (simp_all add: skip_ws_def keyword_def)
next
  case (2 b)
  then show ?case by (cases n; cases b) (simp_all add: skip_ws_def keyword_def)
next
  case (4 t)
  obtain m where n: "n = Suc m" using 4(2) by (cases n) auto
  show ?case using 4 unquote_string [of t xs]
    by (simp add: n skip_ws_def del: unquote.simps json_escape.simps)
next
  case (5 i)
  obtain m where n: "n = Suc m" using 5(2) by (cases n) auto
  obtain b bs where bs: "bytes_of (Itoa i) = b # bs" by (cases "bytes_of (Itoa i)") auto
  then have "number_byte b" using Itoa_number_bytes [of b i] by simp
  note byte = number_byte_class [OF this] this
  have "takeWhile number_byte (bytes_of (Itoa i) @ xs) = bytes_of (Itoa i)" "dropWhile number_byte (bytes_of (Itoa i) @ xs) = xs"
    using span_number [of "bytes_of (Itoa i)" xs] Itoa_number_bytes 5(3) by blast+
  then show ?case using byte number_value_Itoa [of i] skip_ws_id [of b "bs @ xs"] by (simp add: n bs)
next
  case (6 vs)
  obtain m where n: "n = Suc m" using 6(3) by (cases n) auto
  show ?case
  proof (cases "vs = []")
    case True
    then show ?thesis by (simp add: n skip_ws_def)
  next
    case False
    let ?body = "join_with '','' (map json_encode vs)"
    have "parse_elements m (bytes_of ?body @ 0x5D # xs) = Some (vs, xs)"
      using 6 False by (intro elements_round_trip) (auto simp: n list_all_iff)
    moreover obtain a r where "bytes_of ?body @ 0x5D # xs = a # r" "a \<notin> {0x20, 0x09, 0x0A, 0x0D, 0x5D, 0x7D}"
      using json_encode_head [of "hd vs"] False 6(2) by (cases vs; cases "tl vs") (auto simp: join_with_Cons)
    ultimately show ?thesis by (simp add: n skip_ws_def)
  qed
next
  case (7 kvs)
  obtain m where n: "n = Suc m" using 7(3) by (cases n) auto
  show ?case
  proof (cases "kvs = []")
    case True
    then show ?thesis by (simp add: n skip_ws_def)
  next
    case False
    let ?body = "join_with '','' (map (\<lambda>kv. json_string (fst kv) @ '':'' @ json_encode (snd kv)) kvs)"
    have "parse_members m (bytes_of ?body @ 0x7D # xs) = Some (kvs, xs)"
      using 7 False by (intro members_round_trip) (auto simp: n list_all_iff)
    moreover obtain r where "bytes_of ?body @ 0x7D # xs = 0x22 # r"
      using False by (cases kvs; cases "tl kvs") (auto simp: join_with_Cons json_string_def bytes_def)
    ultimately show ?thesis by (simp add: n skip_ws_def)
  qed
qed simp

end
