(* ===== verification/Go_Json_Valid.thy ===== *)
theory Go_Json_Valid
  imports Go_Json
begin

text \<open>
  What \<open>json.Marshal\<close> writes is accepted by the scanner behind \<open>json.Valid\<close>, up to its nesting limit, and
  \<open>json.Unmarshal\<close> reads it back.
\<close>

lemma json_run_append: "json_run (xs @ ys) st = (case json_run xs st of None \<Rightarrow> None | Some st' \<Rightarrow> json_run ys st')"
  by (induction xs arbitrary: st) (auto split: option.split)

text \<open>A state in which the scanner has seen a complete value inside the nesting \<open>ps\<close>.\<close>

definition after_value :: "json_scan \<Rightarrow> json_nest list \<Rightarrow> bool" where
  "after_value st ps \<longleftrightarrow> (\<forall>c. c \<in> set '' ,]}'' \<longrightarrow> json_step c st = json_end_value c ps)"

lemma json_digit_iff: "json_digit c \<longleftrightarrow> 48 \<le> (of_char c :: nat) \<and> (of_char c :: nat) \<le> 57"
  by (simp add: json_digit_def less_eq_char_def)

section \<open>Strings\<close>

lemma char_of_special [simp]:
  "char_of (0x22 :: nat) = CHR 0x22" "char_of (0x5C :: nat) = CHR 0x5C" "char_of (0x75 :: nat) = CHR ''u''"
  "char_of (0x62 :: nat) = CHR ''b''" "char_of (0x66 :: nat) = CHR ''f''" "char_of (0x6E :: nat) = CHR ''n''"
  "char_of (0x72 :: nat) = CHR ''r''" "char_of (0x74 :: nat) = CHR ''t''"
  by code_simp+

lemma char_less_space: "c < CHR 0x20 \<longleftrightarrow> (of_char c :: nat) < 32"
  by (simp add: less_char_def)

lemma plain_char:
  "32 \<le> (b :: nat) \<Longrightarrow> b < 256 \<Longrightarrow> b \<noteq> 0x22 \<Longrightarrow> b \<noteq> 0x5C \<Longrightarrow> json_step (char_of b) (JInString, ps) = Some (JInString, ps)"
proof -
  assume b: "32 \<le> b" "b < 256" "b \<noteq> 0x22" "b \<noteq> 0x5C"
  have "char_of b \<noteq> CHR 0x22" "char_of b \<noteq> CHR 0x5C"
    using b by (auto dest!: arg_cong [where f = "of_char :: char \<Rightarrow> nat"])
  moreover have "\<not> char_of b < CHR 0x20" using b by (simp add: char_less_space)
  ultimately show ?thesis by simp
qed

lemma plain_chars:
  "\<forall>b \<in> set bs. 128 \<le> b \<and> b < 256 \<Longrightarrow> json_run (bytes bs) (JInString, ps) = Some (JInString, ps)"
  by (induction bs) (auto simp: bytes_def plain_char simp del: json_step.simps)

lemma hex_char_hex: "d < 16 \<Longrightarrow> json_hex (hex_char d)"
  by (auto simp: json_hex_def json_digit_def less_eq_char_def hex_char_def)

lemma scan_escape_byte: "a < 0x80 \<Longrightarrow> json_run (json_escape_byte a) (JInString, ps) = Some (JInString, ps)"
proof (cases "a < 0x20 \<and> a \<notin> {0x08, 0x0C, 0x0A, 0x0D, 0x09} \<or> a = 0x3C \<or> a = 0x3E \<or> a = 0x26")
  case True
  assume "a < 0x80"
  have "json_escape_byte a = CHR 0x5C # CHR ''u'' # CHR ''0'' # CHR ''0'' # hex_char (a div 16) # hex_char (a mod 16) # []"
    using True by (auto simp: json_escape_byte_def bytes_def)
  then show ?thesis using \<open>a < 0x80\<close> hex_char_hex [of "a div 16"] hex_char_hex [of "a mod 16"]
    by (simp add: less_char_def json_hex_def [of "CHR ''0''"] json_digit_def numeral_3_eq_3)
next
  case False
  assume "a < 0x80"
  show ?thesis
  proof (cases "32 \<le> a \<and> a \<noteq> 0x22 \<and> a \<noteq> 0x5C")
    case True
    then show ?thesis using False plain_char [of a ps] \<open>a < 0x80\<close>
      by (auto simp: json_escape_byte_def bytes_def simp del: json_step.simps)
  next
    case False
    then have "a \<in> {0x22, 0x5C, 0x08, 0x0C, 0x0A, 0x0D, 0x09}" using \<open>\<not> (a < 0x20 \<and> _ \<or> _)\<close> by auto
    then have "\<exists>e. json_escape_byte a = [CHR 0x5C, e] \<and> (e \<in> set ''bfnrt/'' \<or> e = CHR 0x5C \<or> e = CHR 0x22)"
      by (elim insertE emptyE) (simp_all add: json_escape_byte_def bytes_def)
    then obtain e where e: "json_escape_byte a = [CHR 0x5C, e]" "e \<in> set ''bfnrt/'' \<or> e = CHR 0x5C \<or> e = CHR 0x22" by blast
    have "json_step (CHR 0x5C) (JInString, ps) = Some (JInStringEsc, ps)" by simp
    moreover have "json_step e (JInStringEsc, ps) = Some (JInString, ps)" using e(2) by (simp only: json_step.simps if_True)
    ultimately show ?thesis unfolding e(1) by (simp del: json_step.simps)
  qed
qed

lemma decode_rune_high: "decode_rune (a # rest) = Some (r, n) \<Longrightarrow> \<not> n \<le> 1 \<Longrightarrow> b \<in> set (take n (a # rest)) \<Longrightarrow> 0x80 \<le> b"
  by (auto simp: cont_def split: list.splits if_splits)

lemma scan_escape: "\<forall>b \<in> set bs. b < 256 \<Longrightarrow> json_run (json_escape bs) (JInString, ps) = Some (JInString, ps)"
proof (induction bs rule: json_escape.induct)
  case (2 a rest)
  show ?case
  proof (cases "decode_rune (a # rest)")
    case None
    then have "json_run (json_escape rest) (JInString, ps) = Some (JInString, ps)" using 2(1,3) by simp
    then show ?thesis using None
      by (simp add: bytes_def json_run_append less_char_def json_hex_def json_digit_def less_eq_char_def numeral_3_eq_3 del: decode_rune.simps)
  next
    case (Some rn)
    obtain r n where d: "decode_rune (a # rest) = Some (r, n)" using Some by (cases rn) simp
    have "\<forall>b \<in> set (drop (n - 1) rest). b < 256" using 2(3) by (auto dest: in_set_dropD)
    note IH = 2(2) [OF d refl this]
    consider (byte) "n \<le> 1" | (separator) "\<not> n \<le> 1" "r = 0x2028 \<or> r = 0x2029" | (copied) "\<not> n \<le> 1" "\<not> (r = 0x2028 \<or> r = 0x2029)"
      by blast
    then show ?thesis
    proof cases
      case byte
      then show ?thesis using d decode_rune_ascii [OF d] IH by (simp add: json_run_append scan_escape_byte del: decode_rune.simps json_step.simps)
    next
      case separator
      have "json_hex (hex_char (r mod 16))" by (rule hex_char_hex) simp
      then show ?thesis using d separator IH
        by (simp add: bytes_def json_run_append less_char_def json_hex_def [of "CHR ''2''"] json_hex_def [of "CHR ''0''"] json_digit_def
            less_eq_char_def numeral_3_eq_3 del: decode_rune.simps)
    next
      case copied
      have "\<forall>b \<in> set (take n (a # rest)). 128 \<le> b \<and> b < 256"
        using decode_rune_high [OF d copied(1)] 2(3) in_set_takeD [of _ n "a # rest"] by metis
      from plain_chars [OF this, of ps] show ?thesis using d copied IH by (simp add: json_run_append del: decode_rune.simps json_step.simps)
    qed
  qed
qed simp

lemma scan_string: "json_run (json_string t) (JBeginValue, ps) = Some (JEndValue, ps)"
  "json_run (json_string t) (JBeginString, ps) = Some (JEndValue, ps)"
  "json_run (json_string t) (JBeginStringOrEmpty, ps) = Some (JEndValue, ps)"
  by (simp_all add: json_string_def bytes_def json_run_append scan_escape json_begin_value_def json_begin_string_def json_space_def)

section \<open>Numbers\<close>

lemma digit_run: "list_all json_digit ds \<Longrightarrow> json_run ds (J1, ps) = Some (J1, ps)"
  by (induction ds) auto

lemma itoa_nat_shape: "\<exists>d ds. itoa_nat n = d # ds \<and> list_all json_digit (d # ds) \<and> (d = CHR ''0'' \<longrightarrow> ds = [])"
proof (induction n rule: itoa_nat.induct)
  case (1 n)
  have dig: "json_digit (digit_char d)" if "d < 10" for d using that by (simp add: json_digit_iff digit_char_def)
  show ?case
  proof (cases "n < 10")
    case True
    then show ?thesis using dig by (subst itoa_nat.simps) simp
  next
    case False
    obtain d ds where d: "itoa_nat (n div 10) = d # ds" "list_all json_digit (d # ds)" "d = CHR ''0'' \<longrightarrow> ds = []"
      using 1 [OF False] by blast
    have "d \<noteq> CHR ''0''"
    proof
      assume "d = CHR ''0''"
      then have "digits_value (itoa_nat (n div 10)) = 0" using d by (simp add: digits_value_def)
      then show False using False by (simp add: itoa_nat_value)
    qed
    moreover have "itoa_nat n = d # ds @ [digit_char (n mod 10)]" using False d(1) by (subst itoa_nat.simps) simp
    ultimately show ?thesis using d dig [of "n mod 10"] by simp
  qed
qed

lemma after_digits: "after_value (J1, ps) ps" "after_value (J0, ps) ps"
  by (auto simp: after_value_def json_after_int_def json_digit_def less_eq_char_def)

lemma scan_digits:
  "\<exists>st. json_run (itoa_nat n) (JBeginValue, ps) = Some st \<and> after_value st ps"
  "\<exists>st. json_run (itoa_nat n) (JNeg, ps) = Some st \<and> after_value st ps"
proof -
  obtain d ds where d: "itoa_nat n = d # ds" "json_digit d" "list_all json_digit ds" "d = CHR ''0'' \<longrightarrow> ds = []"
    using itoa_nat_shape [of n] by auto
  have other: "d \<notin> set '' {[-tfn''" "d \<noteq> CHR 0x22" "\<not> json_space d"
    using d(2) by (auto simp: json_digit_iff json_space_def)
  then show "\<exists>st. json_run (itoa_nat n) (JBeginValue, ps) = Some st \<and> after_value st ps"
    "\<exists>st. json_run (itoa_nat n) (JNeg, ps) = Some st \<and> after_value st ps"
    using d digit_run [OF d(3)] after_digits by (auto simp: json_begin_value_def)
qed

lemma scan_int: "\<exists>st. json_run (Itoa i) (JBeginValue, ps) = Some st \<and> after_value st ps"
  using scan_digits [of _ ps] by (auto simp: Itoa_def json_begin_value_def json_space_def)

section \<open>Containers\<close>

fun nesting :: "json_value \<Rightarrow> nat" where
  "nesting (JsonArray vs) = Suc (foldr (\<lambda>v n. max (nesting v) n) vs 0)"
| "nesting (JsonObject kvs) = Suc (foldr (\<lambda>kv n. max (nesting (snd kv)) n) kvs 0)"
| "nesting v = 0"

lemma nesting_member: "x \<in> set xs \<Longrightarrow> f x \<le> foldr (\<lambda>x n. max (f x) n) xs (0 :: nat)"
  by (induction xs) auto

lemma after_end: "after_value (JEndValue, ps) ps"
  by (auto simp: after_value_def)

lemma after_top: "after_value (JEndTop, []) []"
  by (simp add: after_value_def json_end_value_def)

lemma after_pop: "json_pop (p # ps) = Some st \<Longrightarrow> after_value st ps"
  by (cases ps) (auto simp: json_pop_def after_end after_top)

lemma pop_total: "\<exists>st. json_pop (p # ps) = Some st"
  by (cases ps) (auto simp: json_pop_def)

definition scans :: "json_value \<Rightarrow> json_nest list \<Rightarrow> bool" where
  "scans v ps \<longleftrightarrow> (\<exists>st. json_run (json_encode v) (JBeginValue, ps) = Some st \<and> after_value st ps)"

lemma scan_elements:
  assumes "\<forall>v \<in> set vs. scans v (JArrayValue # ps)" "vs \<noteq> []"
  shows "\<exists>st. json_run (join_with '','' (map json_encode vs) @ '']'') (JBeginValue, JArrayValue # ps) = Some st \<and> after_value st ps"
  using assms
proof (induction vs)
  case (Cons v vs)
  obtain st where st: "json_run (json_encode v) (JBeginValue, JArrayValue # ps) = Some st" "after_value st (JArrayValue # ps)"
    using Cons.prems(1) by (auto simp: scans_def)
  obtain fin where fin: "json_pop (JArrayValue # ps) = Some fin" using pop_total by blast
  show ?case
  proof (cases "vs = []")
    case True
    have "json_step (CHR '']'') st = Some fin" using st(2) fin by (simp add: after_value_def json_end_value_def json_space_def)
    then show ?thesis using True st(1) after_pop [OF fin] by (simp add: json_run_append)
  next
    case False
    have "json_step (CHR '','') st = Some (JBeginValue, JArrayValue # ps)"
      using st(2) by (simp add: after_value_def json_end_value_def json_space_def)
    then show ?thesis using False Cons.IH Cons.prems(1) st(1) by (simp add: join_with_Cons json_run_append)
  qed
qed simp

lemma scan_key_colon: "json_step (CHR '':'') (JEndValue, JObjectKey # ps) = Some (JBeginValue, JObjectValue # ps)"
  by (simp add: json_end_value_def json_space_def)

lemma scan_members:
  assumes "\<forall>kv \<in> set kvs. scans (snd kv) (JObjectValue # ps)" "kvs \<noteq> []"
    and "start = JBeginString \<or> start = JBeginStringOrEmpty"
  shows "\<exists>st. json_run (join_with '','' (map (\<lambda>kv. json_string (fst kv) @ '':'' @ json_encode (snd kv)) kvs) @ ''}'') (start, JObjectKey # ps)
      = Some st \<and> after_value st ps"
  using assms
proof (induction kvs arbitrary: start)
  case (Cons kv kvs)
  let ?pair = "\<lambda>kv. json_string (fst kv) @ '':'' @ json_encode (snd kv)"
  obtain st where st: "json_run (json_encode (snd kv)) (JBeginValue, JObjectValue # ps) = Some st" "after_value st (JObjectValue # ps)"
    using Cons.prems(1) by (auto simp: scans_def)
  have "json_run (json_string (fst kv)) (start, JObjectKey # ps) = Some (JEndValue, JObjectKey # ps)"
    using Cons.prems(3) scan_string by auto
  then have pair: "json_run (?pair kv) (start, JObjectKey # ps) = Some st"
    using st(1) scan_key_colon [of ps] by (simp add: json_run_append)
  obtain fin where fin: "json_pop (JObjectValue # ps) = Some fin" using pop_total by blast
  show ?case
  proof (cases "kvs = []")
    case True
    have "json_step (CHR ''}'') st = Some fin" using st(2) fin by (simp add: after_value_def json_end_value_def json_space_def)
    moreover have "join_with '','' (map ?pair (kv # kvs)) @ ''}'' = ?pair kv @ ''}''" using True by simp
    ultimately show ?thesis
      unfolding json_run_append [of "?pair kv"] pair using after_pop [OF fin]
      by (simp only: json_run_append [of "?pair kv"] pair option.case json_run.simps) blast
  next
    case False
    have comma: "json_step (CHR '','') st = Some (JBeginString, JObjectKey # ps)"
      using st(2) by (simp add: after_value_def json_end_value_def json_space_def)
    have enc: "join_with '','' (map ?pair (kv # kvs)) @ ''}'' = ?pair kv @ CHR '','' # join_with '','' (map ?pair kvs) @ ''}''"
      using False by (simp add: join_with_Cons)
    show ?thesis
      unfolding enc json_run_append [of "?pair kv"] pair
      using comma Cons.IH [of JBeginString] False Cons.prems(1) by simp
  qed
qed simp

lemma scan_value: "value_ok v \<Longrightarrow> nesting v + length ps \<le> json_max_nesting \<Longrightarrow> scans v ps"
proof (induction v arbitrary: ps rule: json_encode.induct)
  case (4 t)
  then show ?case using scan_string(1) [of t ps] after_end by (auto simp: scans_def)
next
  case (5 i)
  then show ?case using scan_int by (simp add: scans_def)
next
  case (6 vs)
  have push: "json_step (CHR ''['') (JBeginValue, ps) = Some (JBeginValueOrEmpty, JArrayValue # ps)"
    using 6(3) by (simp add: json_begin_value_def json_push_def json_space_def)
  show ?case
  proof (cases "vs = []")
    case True
    obtain fin where fin: "json_pop (JArrayValue # ps) = Some fin" using pop_total by blast
    then show ?thesis using True push after_pop [OF fin] by (simp add: scans_def json_end_value_def json_space_def)
  next
    case False
    have "\<forall>v \<in> set vs. scans v (JArrayValue # ps)"
      using 6 nesting_member [of _ vs nesting] by (fastforce simp: list_all_iff)
    from scan_elements [OF this False] obtain st where
      st: "json_run (join_with '','' (map json_encode vs) @ '']'') (JBeginValue, JArrayValue # ps) = Some st" "after_value st ps" by blast
    obtain c r where cr: "join_with '','' (map json_encode vs) @ '']'' = c # r" "\<not> json_space c" "c \<noteq> CHR '']''"
    proof -
      obtain a r where a: "bytes_of (json_encode (hd vs)) = a # r" "a \<notin> {0x20, 0x09, 0x0A, 0x0D, 0x5D, 0x7D}"
        using json_encode_head [of "hd vs"] False 6(2) by (cases vs) auto
      then obtain c r' where c: "json_encode (hd vs) = c # r'" "of_char c = a" by (cases "json_encode (hd vs)") auto
      then have "\<not> json_space c" "c \<noteq> CHR '']''" using a(2) by (auto simp: json_space_def)
      then show thesis using that c(1) False by (cases vs; cases "tl vs") (auto simp: join_with_Cons)
    qed
    have "json_run (c # r) (JBeginValueOrEmpty, JArrayValue # ps) = json_run (c # r) (JBeginValue, JArrayValue # ps)"
      using cr(2,3) by simp
    then show ?thesis using st push unfolding scans_def json_encode.simps cr(1) by (simp add: cr(1) del: json_step.simps)
  qed
next
  case (7 kvs)
  have push: "json_step (CHR ''{'') (JBeginValue, ps) = Some (JBeginStringOrEmpty, JObjectKey # ps)"
    using 7(3) by (simp add: json_begin_value_def json_push_def json_space_def)
  show ?case
  proof (cases "kvs = []")
    case True
    obtain fin where fin: "json_pop (JObjectValue # ps) = Some fin" using pop_total by blast
    then show ?thesis using True push after_pop [OF fin] by (simp add: scans_def json_end_value_def json_space_def)
  next
    case False
    have "\<forall>kv \<in> set kvs. scans (snd kv) (JObjectValue # ps)"
      using 7 nesting_member [of _ kvs "\<lambda>kv. nesting (snd kv)"] by (fastforce simp: list_all_iff)
    from scan_members [OF this False, of JBeginStringOrEmpty] show ?thesis
      using push by (simp add: scans_def del: json_step.simps)
  qed
next
  case 1
  have "json_run ''null'' (JBeginValue, ps) = Some (JEndValue, ps)" by (simp add: json_begin_value_def json_space_def)
  then show ?case using after_end by (auto simp: scans_def simp del: json_run.simps)
next
  case (2 b)
  have "json_run ''true'' (JBeginValue, ps) = Some (JEndValue, ps)" "json_run ''false'' (JBeginValue, ps) = Some (JEndValue, ps)"
    by (simp_all add: json_begin_value_def json_space_def)
  then show ?case using after_end by (cases b) (auto simp: scans_def simp del: json_run.simps)
qed simp

lemma scanned_valid:
  assumes "scans v []"
  shows "json_valid (json_encode v)"
proof -
  obtain st where st: "json_run (json_encode v) (JBeginValue, []) = Some st" "after_value st []" using assms by (auto simp: scans_def)
  have "json_step (CHR '' '') st = json_end_value (CHR '' '') []" using st(2) by (simp add: after_value_def)
  also have "\<dots> = Some (JEndTop, [])" by (simp add: json_end_value_def json_space_def)
  finally show ?thesis using st(1) by (simp add: json_valid_def json_eof_def del: json_step.simps json_encode.simps)
qed

theorem encode_valid: "value_ok v \<Longrightarrow> nesting v \<le> json_max_nesting \<Longrightarrow> json_valid (json_encode v)"
  using scan_value [of v "[]"] scanned_valid by simp

theorem parse_encode: "value_ok v \<Longrightarrow> nesting v \<le> json_max_nesting \<Longrightarrow> json_parse (json_encode v) = Some v"
  using encode_valid value_round_trip [of v "2 * length (json_encode v) + 2" "[]"]
  by (simp add: json_parse_def parse_first_def ends_number_def)

end
