(* ===== verification/Plan_Metadata.thy ===== *)
theory Plan_Metadata
  imports Plan_Model Go_Json_Valid
begin

text \<open>
  The \<open>ralph-task\<close> metadata block of a step (\<open>internal/plan/metadata.go\<close>): its strict decoding, and the
  form in which it is stored.
\<close>

section \<open>The struct and its JSON form\<close>

definition zero_binding :: TaskBinding where
  "zero_binding = \<lparr>bind_Mode = [], bind_Alias = [], bind_Provider = [], bind_Model = [], bind_Effort = [],
     bind_Calibration = [], bind_Repetitions = 0, bind_Fixture = []\<rparr>"

definition binding_fields :: "(string \<times> TaskBinding setter) list" where
  "binding_fields =
    [(''mode'', string_field (\<lambda>t b. b\<lparr>bind_Mode := t\<rparr>)), (''alias'', string_field (\<lambda>t b. b\<lparr>bind_Alias := t\<rparr>)),
     (''provider'', string_field (\<lambda>t b. b\<lparr>bind_Provider := t\<rparr>)), (''model'', string_field (\<lambda>t b. b\<lparr>bind_Model := t\<rparr>)),
     (''effort'', string_field (\<lambda>t b. b\<lparr>bind_Effort := t\<rparr>)),
     (''calibration'', string_field (\<lambda>t b. b\<lparr>bind_Calibration := t\<rparr>)),
     (''repetitions'', int_field (\<lambda>i b. b\<lparr>bind_Repetitions := i\<rparr>)), (''fixture'', string_field (\<lambda>t b. b\<lparr>bind_Fixture := t\<rparr>))]"

definition binding_json :: "TaskBinding \<Rightarrow> json_value" where
  "binding_json b = JsonObject
     [(''mode'', JsonString (bind_Mode b)), (''alias'', JsonString (bind_Alias b)),
      (''provider'', JsonString (bind_Provider b)), (''model'', JsonString (bind_Model b)),
      (''effort'', JsonString (bind_Effort b)), (''calibration'', JsonString (bind_Calibration b)),
      (''repetitions'', JsonInt (bind_Repetitions b)), (''fixture'', JsonString (bind_Fixture b))]"

definition input_json :: "TaskInput \<Rightarrow> json_value" where
  "input_json i = JsonObject [(''path'', JsonString (ti_Path i)), (''sha256'', JsonString (ti_SHA256 i))]"

definition input_elem :: "bool \<Rightarrow> json_value \<Rightarrow> TaskInput option" where
  "input_elem strict v = decode_struct strict
     [(''path'', string_field (\<lambda>t i. i\<lparr>ti_Path := t\<rparr>)), (''sha256'', string_field (\<lambda>t i. i\<lparr>ti_SHA256 := t\<rparr>))]
     v \<lparr>ti_Path = [], ti_SHA256 = []\<rparr>"

definition output_json :: "TaskOutput \<Rightarrow> json_value" where
  "output_json o' = JsonObject [(''path'', JsonString (to_Path o')), (''mode'', JsonString (to_Mode o'))]"

definition output_elem :: "bool \<Rightarrow> json_value \<Rightarrow> TaskOutput option" where
  "output_elem strict v = decode_struct strict
     [(''path'', string_field (\<lambda>t o'. o'\<lparr>to_Path := t\<rparr>)), (''mode'', string_field (\<lambda>t o'. o'\<lparr>to_Mode := t\<rparr>))]
     v \<lparr>to_Path = [], to_Mode = []\<rparr>"

definition zero_metadata :: TaskMetadata where
  "zero_metadata = \<lparr>meta_ID = [], meta_After = None, meta_Team = [], meta_Binding = zero_binding, meta_Requires = None,
     meta_Providers = None, meta_DifferentFrom = None, meta_Inputs = None, meta_Outputs = None\<rparr>"

definition metadata_fields :: "bool \<Rightarrow> (string \<times> TaskMetadata setter) list" where
  "metadata_fields strict =
    [(''id'', string_field (\<lambda>t m. m\<lparr>meta_ID := t\<rparr>)),
     (''after'', slice_field string_elem (\<lambda>l m. m\<lparr>meta_After := l\<rparr>)),
     (''team'', string_field (\<lambda>t m. m\<lparr>meta_Team := t\<rparr>)),
     (''binding'', \<lambda>v m. map_option (\<lambda>b. m\<lparr>meta_Binding := b\<rparr>) (decode_struct strict binding_fields v (meta_Binding m))),
     (''requires'', slice_field string_elem (\<lambda>l m. m\<lparr>meta_Requires := l\<rparr>)),
     (''providers'', slice_field string_elem (\<lambda>l m. m\<lparr>meta_Providers := l\<rparr>)),
     (''differentFrom'', slice_field string_elem (\<lambda>l m. m\<lparr>meta_DifferentFrom := l\<rparr>)),
     (''inputs'', slice_field (input_elem strict) (\<lambda>l m. m\<lparr>meta_Inputs := l\<rparr>)),
     (''outputs'', slice_field (output_elem strict) (\<lambda>l m. m\<lparr>meta_Outputs := l\<rparr>))]"

definition metadata_value :: "TaskMetadata \<Rightarrow> json_value" where
  "metadata_value m = JsonObject
     [(''id'', JsonString (meta_ID m)), (''after'', json_slice JsonString (meta_After m)),
      (''team'', JsonString (meta_Team m)), (''binding'', binding_json (meta_Binding m)),
      (''requires'', json_slice JsonString (meta_Requires m)),
      (''providers'', json_slice JsonString (meta_Providers m)),
      (''differentFrom'', json_slice JsonString (meta_DifferentFrom m)),
      (''inputs'', json_slice input_json (meta_Inputs m)), (''outputs'', json_slice output_json (meta_Outputs m))]"

definition decode_metadata :: "bool \<Rightarrow> json_value \<Rightarrow> TaskMetadata option" where
  "decode_metadata strict v = decode_struct strict (metadata_fields strict) v zero_metadata"

section \<open>Refusals\<close>

datatype metadata_error =
    TooManyBlocks nat
  | MetadataSyntax
  | RepeatedKey string
  | UndecodableMetadata
  | TrailingValue
  | NullField string
  | MissingID
  | PaddedID string string

text \<open>\<open>checkJSONValue\<close> on a value, in document order: the first key that an object repeats, the objects it
  holds included.\<close>

fun repeated_key :: "json_value \<Rightarrow> string option"
  and repeated_in :: "json_value list \<Rightarrow> string option"
  and repeated_member :: "string list \<Rightarrow> (string \<times> json_value) list \<Rightarrow> string option" where
  "repeated_key (JsonObject kvs) = repeated_member [] kvs"
| "repeated_key (JsonArray vs) = repeated_in vs"
| "repeated_key v = None"
| "repeated_in [] = None"
| "repeated_in (v # vs) = (case repeated_key v of Some k \<Rightarrow> Some k | None \<Rightarrow> repeated_in vs)"
| "repeated_member seen [] = None"
| "repeated_member seen ((k, v) # kvs) =
    (if k \<in> set seen then Some k
     else case repeated_key v of Some d \<Rightarrow> Some d | None \<Rightarrow> repeated_member (k # seen) kvs)"

text \<open>\<open>rejectNullMetadataFields\<close> reads the object as a map, where the last member of a key counts; which of
  several null fields is named depends on the map order, the first in document order is named here.\<close>

definition last_member :: "(string \<times> json_value) list \<Rightarrow> string \<Rightarrow> json_value option" where
  "last_member kvs k = map_of (rev kvs) k"

definition null_in :: "(string \<times> json_value) list \<Rightarrow> string option" where
  "null_in kvs = map_option fst (List.find (\<lambda>kv. last_member kvs (fst kv) = Some JsonNull) kvs)"

definition rejectNullMetadataFields :: "json_value \<Rightarrow> metadata_error option" where
  "rejectNullMetadataFields v = (case v of
     JsonObject kvs \<Rightarrow>
       (case null_in kvs of
          Some f \<Rightarrow> Some (NullField f)
        | None \<Rightarrow>
            (case last_member kvs ''binding'' of
               Some (JsonObject bs) \<Rightarrow> map_option NullField (null_in bs)
             | Some _ \<Rightarrow> Some UndecodableMetadata
             | None \<Rightarrow> None))
   | JsonNull \<Rightarrow> None
   | _ \<Rightarrow> Some UndecodableMetadata)"

definition padded :: "string \<Rightarrow> string list \<Rightarrow> metadata_error option" where
  "padded field vs = map_option (PaddedID field) (List.find (\<lambda>v. v \<noteq> TrimSpace v) vs)"

definition rejectPaddedTaskIDs :: "TaskMetadata \<Rightarrow> metadata_error option" where
  "rejectPaddedTaskIDs m = first_some id
     [padded ''id'' [meta_ID m], padded ''differentFrom'' (elems (meta_DifferentFrom m)), padded ''after'' (elems (meta_After m))]"

text \<open>The content of one block.  The readers stop at the end of the first value; what follows must be
  white space.\<close>

definition decode_block :: "string \<Rightarrow> metadata_error + TaskMetadata" where
  "decode_block raw = (case parse_first raw of
     None \<Rightarrow> Inl MetadataSyntax
   | Some (v, rest) \<Rightarrow>
       (case repeated_key v of
          Some k \<Rightarrow> Inl (RepeatedKey k)
        | None \<Rightarrow>
            (case decode_metadata True v of
               None \<Rightarrow> Inl UndecodableMetadata
             | Some m \<Rightarrow>
                 if skip_ws rest \<noteq> [] then Inl TrailingValue
                 else if \<not> json_valid raw then Inl MetadataSyntax
                 else (case rejectNullMetadataFields v of
                    Some e \<Rightarrow> Inl e
                  | None \<Rightarrow>
                      if meta_ID m = [] then Inl MissingID
                      else (case rejectPaddedTaskIDs m of Some e \<Rightarrow> Inl e | None \<Rightarrow> Inr m)))))"

text \<open>The contents of the blocks of one list item; none is the common case.\<close>

definition parseTaskMetadataBlock :: "string list \<Rightarrow> metadata_error + TaskMetadata option" where
  "parseTaskMetadataBlock blocks = (case blocks of
     [] \<Rightarrow> Inr None
   | [raw] \<Rightarrow> (case decode_block raw of Inl e \<Rightarrow> Inl e | Inr m \<Rightarrow> Inr (Some m))
   | _ \<Rightarrow> Inl (TooManyBlocks (length blocks)))"

end
