(* ===== verification/Store_Partitions.thy ===== *)
theory Store_Partitions
  imports Store_Metadata Plan_Metadata
begin

text \<open>
  \<open>internal/store/ready_partition.go\<close>: the tasks that may be dispatched now, split by leaf group and
  declared binding.  The file reads the stored metadata text with its own struct, which has the
  fields and tags of \<open>TaskBinding\<close>; the model uses that record for both.
\<close>

type_synonym declaredBinding = TaskBinding

text \<open>The pointer field \<open>Binding\<close>: null resets it, an object fills the struct it points to or a new one.\<close>

definition binding_pointer :: "declaredBinding option setter" where
  "binding_pointer v r = (case v of
     JsonNull \<Rightarrow> Some None
   | _ \<Rightarrow> map_option Some (decode_struct False binding_fields v (case r of None \<Rightarrow> zero_binding | Some b \<Rightarrow> b)))"

definition declared_binding_of :: "string \<Rightarrow> declaredBinding option" where
  "declared_binding_of metadataJSON =
    (if metadataJSON = [] then None
     else case json_parse metadataJSON of
       None \<Rightarrow> None
     | Some v \<Rightarrow> (case decode_struct False [(''binding'', binding_pointer)] v None of
         None \<Rightarrow> None | Some None \<Rightarrow> None
       | Some (Some b) \<Rightarrow> if b = zero_binding then None else Some b))"

definition declaredBindingKey :: "string \<Rightarrow> string" where
  "declaredBindingKey metadataJSON = (case declared_binding_of metadataJSON of
     None \<Rightarrow> [] | Some b \<Rightarrow> json_encode (binding_json b))"

section \<open>Partitions\<close>

record ReadyPartition =
  rp_GroupPath :: string
  rp_BindingKey :: string
  rp_Tasks :: "Task list"

text \<open>What \<open>readyPartitionOrdinal\<close> hashes; the digest itself is a parameter.\<close>

definition ordinal_text :: "ReadyPartition \<Rightarrow> string" where
  "ordinal_text p = Itoa (int (length (rp_GroupPath p))) @ '':'' @ rp_GroupPath p @
     Itoa (int (length (rp_BindingKey p))) @ '':'' @ rp_BindingKey p"

definition readyPartitionOrdinal :: "(string \<Rightarrow> string) \<Rightarrow> ReadyPartition \<Rightarrow> string" where
  "readyPartitionOrdinal digest p = take 16 (digest (ordinal_text p))"

definition surfaced :: "TaskStatus \<Rightarrow> bool" where
  "surfaced st \<longleftrightarrow> st = TaskStatusPending \<or> st = TaskStatusReady \<or> st = TaskStatusBlockedCapability \<or> st = TaskStatusBlockedInput"

text \<open>The left join: \<open>(plan_id, task_id)\<close> is the primary key of \<open>task_metadata\<close>.\<close>

definition metadata_of :: "store \<Rightarrow> task_row \<Rightarrow> metadata_row option" where
  "metadata_of s t = select_row (is_metadata (t_plan t) (t_id t)) (metadata s)"

definition group_of :: "store \<Rightarrow> task_row \<Rightarrow> string" where
  "group_of s t = (case metadata_of s t of None \<Rightarrow> [] | Some m \<Rightarrow> md_group_path m)"

definition metadata_text :: "store \<Rightarrow> task_row \<Rightarrow> string" where
  "metadata_text s t = (case metadata_of s t of None \<Rightarrow> [] | Some m \<Rightarrow> md_json m)"

definition surfaced_rows :: "ident \<Rightarrow> store \<Rightarrow> task_row list" where
  "surfaced_rows planID s = order_by (\<lambda>t. (group_of s t, claim_key t))
     (filter (\<lambda>t. t_plan t = planID \<and> surfaced (t_status t) \<and> deps_satisfied s t) (tasks s))"

text \<open>One row of the result set.  \<open>partitionIndex\<close> maps the joined key to the position in \<open>parts\<close>.\<close>

type_synonym partitioning = "(string \<rightharpoonup> nat) \<times> ReadyPartition list"

definition add_ready :: "string \<times> string \<times> Task \<Rightarrow> partitioning \<Rightarrow> partitioning" where
  "add_ready row st =
    (let (groupPath, binding, t) = row; (partitionIndex, parts) = st;
         key = groupPath @ [CHR 0x00] @ binding in
     case partitionIndex key of
       None \<Rightarrow> (partitionIndex(key \<mapsto> length parts),
                parts @ [\<lparr>rp_GroupPath = groupPath, rp_BindingKey = binding, rp_Tasks = [t]\<rparr>])
     | Some idx \<Rightarrow> (partitionIndex, parts[idx := (parts ! idx)\<lparr>rp_Tasks := rp_Tasks (parts ! idx) @ [t]\<rparr>]))"

definition ReadyPartitions :: "ident \<Rightarrow> store \<Rightarrow> ReadyPartition list" where
  "ReadyPartitions planID s =
    snd (fold add_ready (map (\<lambda>t. (group_of s t, declaredBindingKey (metadata_text s t), scanTask t)) (surfaced_rows planID s))
      (Map.empty, []))"

end
