(* ===== verification/Plan_Metadata_Laws.thy ===== *)
theory Plan_Metadata_Laws
  imports Plan_Metadata
begin

text \<open>
  Metadata that the parser accepts survives being stored: every text it holds is valid UTF-8, so the
  JSON document that import writes decodes to the same struct.
\<close>

section \<open>Decoded text is valid\<close>

lemma encode_rune_small [simp]: "b \<in> set (encode_rune r) \<Longrightarrow> r < 0x110000 \<Longrightarrow> b < 256"
  by (auto simp: encode_rune_def split: if_splits)

lemma base64:
  "r = r div 64 * 64 + r mod 64" "r div 64 = r div 4096 * 64 + r div 64 mod 64"
  "r div 4096 = r div 262144 * 64 + r div 4096 mod 64" "r mod 64 < 64" "r div 64 mod 64 < 64" "r div 4096 mod 64 < 64" for r :: nat
  using div_mult_mod_eq [of "r div 64" 64] div_mult_mod_eq [of "r div 4096" 64] by (simp_all add: div_mult2_eq [symmetric])

lemma decode_encode_rune:
  assumes "r < 0x110000" "\<not> (0xD800 \<le> r \<and> r < 0xE000)"
  shows "decode_rune (encode_rune r @ xs) = Some (r, length (encode_rune r))"
proof -
  consider (one) "r < 0x80" | (two) "0x80 \<le> r" "r < 0x800" | (three) "0x800 \<le> r" "r < 0x10000" | (four) "0x10000 \<le> r" by linarith
  then show ?thesis
  proof cases
    case one
    then show ?thesis by (simp add: encode_rune_def)
  next
    case two
    have "2 \<le> r div 64" "r div 64 < 32" using two by simp_all
    then show ?thesis using two by (simp add: encode_rune_def cont_def)
  next
    case three
    define w x y where "w = r div 4096" and "x = r div 64 mod 64" and "y = r mod 64"
    have r: "r = w * 4096 + x * 64 + y" "x < 64" "y < 64"
      using base64 [of r] by (simp_all only: w_def x_def y_def)
    have "w < 16" using r three by linarith
    moreover have "w = 0 \<longrightarrow> 32 \<le> x" using r three by linarith
    moreover have "w = 13 \<longrightarrow> x < 32" using r assms(2) by linarith
    moreover have "encode_rune r = [0xE0 + w, 0x80 + x, 0x80 + y]" using three by (simp add: encode_rune_def w_def x_def y_def)
    ultimately show ?thesis using r by (simp add: cont_def)
  next
    case four
    define v w x y where "v = r div 262144" and "w = r div 4096 mod 64" and "x = r div 64 mod 64" and "y = r mod 64"
    have r: "r = v * 262144 + w * 4096 + x * 64 + y" "w < 64" "x < 64" "y < 64"
      using base64 [of r] by (simp_all only: v_def w_def x_def y_def)
    have "v < 5" using r assms(1) by linarith
    moreover have "v = 0 \<longrightarrow> 16 \<le> w" using r four by linarith
    moreover have "v = 4 \<longrightarrow> w < 16" using r assms(1) by linarith
    moreover have "encode_rune r = [0xF0 + v, 0x80 + w, 0x80 + x, 0x80 + y]"
      using four by (simp add: encode_rune_def v_def w_def x_def y_def)
    ultimately show ?thesis using r by (simp add: cont_def)
  qed
qed

lemma encode_rune_ne: "encode_rune r \<noteq> []"
  by (simp add: encode_rune_def)

lemma valid_utf8_rune:
  assumes "decode_rune (bs @ xs) = Some (r, length bs)" "bs \<noteq> []"
  shows "valid_utf8 (bs @ xs) = valid_utf8 xs"
  using assms by (cases bs) auto

lemma valid_encode [simp]:
  "r < 0x110000 \<Longrightarrow> \<not> (0xD800 \<le> r \<and> r < 0xE000) \<Longrightarrow> valid_utf8 (encode_rune r @ xs) = valid_utf8 xs"
  using valid_utf8_rune [OF decode_encode_rune encode_rune_ne] by simp

lemma valid_replacement [simp]: "valid_utf8 (replacement @ xs) = valid_utf8 xs"
  by (simp add: replacement_def cont_def)

lemma hex_value_bound: "hex_value b = Some x \<Longrightarrow> x < 16"
  by (auto simp: hex_value_def split: if_splits)

lemma getu4_bound: "getu4 bs = Some (r, rest) \<Longrightarrow> r < 0x10000"
  by (auto simp: getu4_def split: list.splits option.splits dest!: hex_value_bound)

lemma surrogate_bound:
  "surrogate_pair r bs = Some (r', rest) \<Longrightarrow> 0xD800 \<le> r \<Longrightarrow> 0x10000 \<le> r' \<and> r' < 0x110000"
  by (auto simp: surrogate_pair_def split: list.splits option.splits if_splits)

lemma getu4_subset: "getu4 bs = Some (r, rest) \<Longrightarrow> set rest \<subseteq> set bs"
  by (auto simp: getu4_def split: list.splits option.splits)

lemma surrogate_subset: "surrogate_pair r bs = Some (r', rest) \<Longrightarrow> set rest \<subseteq> set bs"
  by (auto simp: surrogate_pair_def split: list.splits option.splits if_splits dest!: getu4_subset)

lemma simple_escape_small: "simple_escape e = Some b \<Longrightarrow> b < 0x80"
  by (auto simp: simple_escape_def split: if_splits)

definition small :: "nat list \<Rightarrow> bool" where
  "small bs \<longleftrightarrow> (\<forall>b \<in> set bs. b < 256)"

lemma small_append [simp]: "small (xs @ ys) \<longleftrightarrow> small xs \<and> small ys"
  by (auto simp: small_def)

lemma small_replacement [simp]: "small replacement"
  by (simp add: small_def replacement_def)

lemma unquote_valid:
  "unquote bs = Some (out, rest) \<Longrightarrow> small bs \<Longrightarrow> valid_utf8 out \<and> small out \<and> small rest"
proof (induction bs arbitrary: out rest rule: unquote.induct)
  case (2 a bs)
  show ?case
  proof (cases "a = 0x22")
    case True
    then show ?thesis using 2(7,8) by (auto simp: small_def)
  next
    case a: False
    show ?thesis
    proof (cases "a = 0x5C")
      case esc: True
      show ?thesis
      proof (cases bs)
        case Nil
        then show ?thesis using 2(7) esc by simp
      next
        case (Cons e bs')
        show ?thesis
        proof (cases "e = 0x75")
          case u: True
          obtain r bs2 where g: "getu4 bs' = Some (r, bs2)" using 2(7) esc Cons u a by (auto split: option.splits)
          have sm: "small bs2" using getu4_subset [OF g] 2(8) Cons by (auto simp: small_def)
          show ?thesis
          proof (cases "0xD800 \<le> r \<and> r < 0xE000")
            case sur: True
            show ?thesis
            proof (cases "surrogate_pair r bs2")
              case None
              then obtain o' where "unquote bs2 = Some (o', rest)" "out = replacement @ o'"
                using 2(7) esc Cons u a g sur by auto
              then show ?thesis using 2(1) [OF a esc Cons u g refl sur None _ sm] by (simp del: valid_utf8.simps)
            next
              case (Some p)
              obtain r' bs3 where p: "surrogate_pair r bs2 = Some (r', bs3)" using Some by (cases p) simp
              then obtain o' where "unquote bs3 = Some (o', rest)" "out = encode_rune r' @ o'"
                using 2(7) esc Cons u a g sur by auto
              moreover have "small bs3" using surrogate_subset [OF p] sm by (auto simp: small_def)
              ultimately show ?thesis using 2(2) [OF a esc Cons u g refl sur p refl] surrogate_bound [OF p] sur
                by (auto simp: small_def)
            qed
          next
            case False
            then obtain o' where "unquote bs2 = Some (o', rest)" "out = encode_rune r @ o'"
              using 2(7) esc Cons u a g by auto
            moreover from this(1) have "valid_utf8 o' \<and> small o' \<and> small rest" using 2(3) [OF a esc Cons u g refl False _ sm] by blast
            moreover have "r < 0x110000" using getu4_bound [OF g] by simp
            ultimately show ?thesis using False valid_encode [of r o'] encode_rune_small [of _ r] unfolding small_def by auto
          qed
        next
          case u: False
          then obtain b where b: "simple_escape e = Some b" using 2(7) esc Cons a by (auto split: option.splits)
          then obtain o' where "unquote bs' = Some (o', rest)" "out = b # o'" using 2(7) esc Cons u a by auto
          moreover have "small bs'" using 2(8) Cons by (simp add: small_def)
          ultimately show ?thesis using 2(4) [OF a esc Cons u b] simple_escape_small [OF b] by (auto simp: small_def)
        qed
      qed
    next
      case esc: False
      have ge: "\<not> a < 0x20" using 2(7) a esc by (auto split: if_splits)
      have sm: "small bs" using 2(8) by (simp add: small_def)
      show ?thesis
      proof (cases "decode_rune (a # bs)")
        case None
        then obtain o' where "unquote bs = Some (o', rest)" "out = replacement @ o'"
          using 2(7) esc a ge by (auto simp del: decode_rune.simps)
        then show ?thesis using 2(5) [OF a esc ge None _ sm] by (simp del: valid_utf8.simps)
      next
        case (Some rn)
        obtain r n where d: "decode_rune (a # bs) = Some (r, n)" using Some by (cases rn) simp
        then obtain o' where o': "unquote (drop (n - 1) bs) = Some (o', rest)" "out = take n (a # bs) @ o'"
          using 2(7) esc a ge by (auto simp del: decode_rune.simps)
        have "small (drop (n - 1) bs)" using sm by (auto simp: small_def dest: in_set_dropD)
        then have IH: "valid_utf8 o' \<and> small o' \<and> small rest" using 2(6) [OF a esc ge d refl o'(1)] by blast
        have "length (take n (a # bs)) = n" using decode_rune_size [OF d] by simp
        then have "valid_utf8 (take n (a # bs) @ o') = valid_utf8 o'"
          using valid_utf8_rune [of "take n (a # bs)" o' r] decode_rune_take [OF d, of o'] decode_rune_size [OF d] by (cases n) auto
        moreover have "small (take n (a # bs))" using 2(8) in_set_takeD [of _ n "a # bs"] unfolding small_def by blast
        ultimately show ?thesis using IH o'(2) by (auto simp: small_def)
      qed
    qed
  qed
qed simp

section \<open>Parsed values\<close>

lemma text_ok_bytes: "valid_utf8 bs \<Longrightarrow> small bs \<Longrightarrow> text_ok (bytes bs)"
  by (simp add: text_ok_def small_def bytes_of_bytes)

fun strings_ok :: "json_value \<Rightarrow> bool" where
  "strings_ok (JsonString t) = text_ok t"
| "strings_ok (JsonArray vs) = list_all strings_ok vs"
| "strings_ok (JsonObject kvs) = list_all (\<lambda>kv. text_ok (fst kv) \<and> strings_ok (snd kv)) kvs"
| "strings_ok v = True"

lemma small_skip_ws: "small bs \<Longrightarrow> skip_ws bs = a # r \<Longrightarrow> small r \<and> small (a # r)"
  unfolding skip_ws_def small_def by (metis list.set_intros(2) set_dropWhileD)

lemma small_keyword: "keyword w bs = Some r \<Longrightarrow> small bs \<Longrightarrow> small r"
  by (auto simp: keyword_def small_def split: if_splits dest: in_set_dropD)

lemma number_value_ok [simp]: "strings_ok (number_value lit)"
  by (simp add: number_value_def Let_def)

lemma small_Cons [simp]: "small (a # r) \<longleftrightarrow> a < 256 \<and> small r"
  by (simp add: small_def)

lemma parse_ok:
  "parse_value n bs = Some (v, rest) \<Longrightarrow> small bs \<Longrightarrow> strings_ok v \<and> small rest"
  "parse_elements n bs = Some (vs, rest) \<Longrightarrow> small bs \<Longrightarrow> list_all strings_ok vs \<and> small rest"
  "parse_members n bs = Some (kvs, rest) \<Longrightarrow> small bs \<Longrightarrow> list_all (\<lambda>kv. text_ok (fst kv) \<and> strings_ok (snd kv)) kvs \<and> small rest"
proof (induction n bs and n bs and n bs arbitrary: v rest and vs rest and kvs rest
    rule: parse_value_parse_elements_parse_members.induct)
  case (2 n bs)
  obtain a r where ar: "skip_ws bs = a # r" using 2(3) by (cases "skip_ws bs") auto
  have sm: "small r" "small (a # r)" using small_skip_ws [OF 2(4) ar] by auto
  consider (str) s where "a = 0x22" "unquote r = Some (s, rest)" "v = JsonString (bytes s)"
    | (obj0) "a = 0x7B" "skip_ws r = 0x7D # rest" "v = JsonObject []"
    | (obj) b r' kvs where "a = 0x7B" "skip_ws r = b # r'" "b \<noteq> 0x7D" "parse_members n r = Some (kvs, rest)" "v = JsonObject kvs"
    | (arr0) "a = 0x5B" "skip_ws r = 0x5D # rest" "v = JsonArray []"
    | (arr) b r' vs where "a = 0x5B" "skip_ws r = b # r'" "b \<noteq> 0x5D" "parse_elements n r = Some (vs, rest)" "v = JsonArray vs"
    | (kw) w where "keyword w (a # r) = Some rest" "v = JsonNull \<or> v = JsonBool True \<or> v = JsonBool False"
    | (num) "v = number_value (takeWhile number_byte (a # r))" "rest = dropWhile number_byte (a # r)"
    using 2(3) ar by (auto split: if_splits list.splits)
  then show ?case
  proof cases
    case str
    then show ?thesis using unquote_valid sm text_ok_bytes by auto
  next
    case obj0
    then show ?thesis using small_skip_ws [OF sm(1)] by auto
  next
    case obj
    then show ?thesis using 2(1) [of a r b r'] ar sm by auto
  next
    case arr0
    then show ?thesis using small_skip_ws [OF sm(1)] by auto
  next
    case arr
    then show ?thesis using 2(2) [of a r b r'] ar sm by auto
  next
    case kw
    then show ?thesis using small_keyword sm(2) by auto
  next
    case num
    then show ?thesis using sm(2) unfolding small_def by (auto dest: set_dropWhileD)
  qed
next
  case (4 n bs)
  obtain v r where v: "parse_value n bs = Some (v, r)" using 4(3) by (auto split: option.splits)
  have ok: "strings_ok v" "small r" using 4(1) [OF v 4(4)] by auto
  obtain b r' where br: "skip_ws r = b # r'" using 4(3) v by (cases "skip_ws r") auto
  have sm: "small r'" using small_skip_ws [OF ok(2) br] by auto
  show ?case
  proof (cases "b = 0x5D")
    case True
    then show ?thesis using 4(3) v br ok sm by auto
  next
    case False
    then have "b = 0x2C" using 4(3) v br by (auto split: if_splits)
    then show ?thesis using 4(2) [OF v refl br False] 4(3) v br ok sm by auto
  qed
next
  case (6 n bs)
  obtain r where r: "skip_ws bs = 0x22 # r" using 6(3) by (auto split: list.splits if_splits)
  have sm: "small r" using small_skip_ws [OF 6(4) r] by auto
  obtain k r1 where k: "unquote r = Some (k, r1)" using 6(3) r by (auto split: option.splits)
  have k_ok: "text_ok (bytes k)" "small r1" using unquote_valid [OF k sm] text_ok_bytes by auto
  obtain r2 where r2: "skip_ws r1 = 0x3A # r2" using 6(3) r k by (auto split: list.splits if_splits)
  have sm2: "small r2" using small_skip_ws [OF k_ok(2) r2] by auto
  obtain v r3 where v: "parse_value n r2 = Some (v, r3)" using 6(3) r k r2 by (auto split: option.splits)
  have ok: "strings_ok v" "small r3" using 6(1) [OF r refl k refl r2 refl v sm2] by auto
  obtain b r4 where br: "skip_ws r3 = b # r4" using 6(3) r k r2 v by (cases "skip_ws r3") auto
  have sm4: "small r4" using small_skip_ws [OF ok(2) br] by auto
  show ?case
  proof (cases "b = 0x7D")
    case True
    then show ?thesis using 6(3) r k r2 v br ok k_ok sm4 by auto
  next
    case False
    then have "b = 0x2C" using 6(3) r k r2 v br by (auto split: if_splits)
    then show ?thesis using 6(2) [OF r refl k refl r2 refl v refl br False] 6(3) r k r2 v br ok k_ok sm4 by auto
  qed
qed auto

section \<open>Decoded structs\<close>

lemma find_field_in: "find_field fs k = Some f \<Longrightarrow> \<exists>name. (name, f) \<in> set fs"
  by (auto simp: find_field_def split: option.splits dest!: map_of_SomeD)

lemma decode_fields_inv:
  assumes "\<And>name f v r r'. (name, f) \<in> set fs \<Longrightarrow> strings_ok v \<Longrightarrow> P r \<Longrightarrow> f v r = Some r' \<Longrightarrow> P r'"
    and "decode_fields strict fs kvs r = Some r'" "list_all (\<lambda>kv. strings_ok (snd kv)) kvs" "P r"
  shows "P r'"
  using assms
proof (induction strict fs kvs r rule: decode_fields.induct)
  case (2 strict fs k v kvs r)
  have v: "strings_ok v" "list_all (\<lambda>kv. strings_ok (snd kv)) kvs" using 2(5) by simp_all
  show ?case
  proof (cases "find_field fs k")
    case None
    then have "\<not> strict" "decode_fields strict fs kvs r = Some r'" using 2(4) by (auto split: if_splits)
    then show ?thesis using 2(1) [OF None _ _ _ v(2) 2(6)] 2(3) by blast
  next
    case (Some f)
    obtain name where "(name, f) \<in> set fs" using find_field_in [OF Some] by blast
    obtain r1 where r1: "f v r = Some r1" "decode_fields strict fs kvs r1 = Some r'" using 2(4) Some by (auto split: option.splits)
    have "P r1" by (rule 2(3) [OF \<open>(name, f) \<in> set fs\<close> v(1) 2(6) r1(1)])
    then show ?thesis using 2(2) [OF Some r1(1) _ r1(2) v(2)] 2(3) by blast
  qed
qed simp

lemma decode_struct_inv:
  assumes "decode_struct strict fs v r = Some r'" "strings_ok v" "P r"
    and "\<And>name f v r r'. (name, f) \<in> set fs \<Longrightarrow> strings_ok v \<Longrightarrow> P r \<Longrightarrow> f v r = Some r' \<Longrightarrow> P r'"
  shows "P r'"
proof (cases v)
  case (JsonObject kvs)
  then have kvs: "list_all (\<lambda>kv. strings_ok (snd kv)) kvs" using assms(2) by (auto simp: list_all_iff)
  have "decode_fields strict fs kvs r = Some r'" using assms(1) JsonObject by (simp add: decode_struct_def)
  from decode_fields_inv [where P = P, OF _ this kvs assms(3)] show ?thesis using assms(4) by metis
qed (use assms(1,3) in \<open>auto simp: decode_struct_def\<close>)

lemma text_ok_Nil [simp]: "text_ok []"
  by (simp add: text_ok_def)

lemma all_some_members: "all_some xs = Some ys \<Longrightarrow> y \<in> set ys \<Longrightarrow> Some y \<in> set xs"
  by (induction xs arbitrary: ys) (auto split: option.splits)

definition binding_ok :: "TaskBinding \<Rightarrow> bool" where
  "binding_ok b \<longleftrightarrow> text_ok (bind_Mode b) \<and> text_ok (bind_Alias b) \<and> text_ok (bind_Provider b) \<and> text_ok (bind_Model b) \<and>
     text_ok (bind_Effort b) \<and> text_ok (bind_Calibration b) \<and> text_ok (bind_Fixture b) \<and>
     - (2 ^ 63) \<le> bind_Repetitions b \<and> bind_Repetitions b < 2 ^ 63"

definition metadata_ok :: "TaskMetadata \<Rightarrow> bool" where
  "metadata_ok m \<longleftrightarrow> text_ok (meta_ID m) \<and> text_ok (meta_Team m) \<and> binding_ok (meta_Binding m) \<and>
     list_all text_ok (elems (meta_After m)) \<and> list_all text_ok (elems (meta_Requires m)) \<and>
     list_all text_ok (elems (meta_Providers m)) \<and> list_all text_ok (elems (meta_DifferentFrom m)) \<and>
     list_all (\<lambda>i. text_ok (ti_Path i) \<and> text_ok (ti_SHA256 i)) (elems (meta_Inputs m)) \<and>
     list_all (\<lambda>o'. text_ok (to_Path o') \<and> text_ok (to_Mode o')) (elems (meta_Outputs m))"

lemma string_field_ok:
  "string_field upd v r = Some r' \<Longrightarrow> strings_ok v \<Longrightarrow> r' = r \<or> (\<exists>t. text_ok t \<and> r' = upd t r)"
  by (auto simp: string_field_def split: json_value.splits)

lemma slice_field_ok:
  assumes "slice_field elem upd v r = Some r'" "strings_ok v" "\<And>v x. strings_ok v \<Longrightarrow> elem v = Some x \<Longrightarrow> Q x"
  shows "\<exists>l. list_all Q (elems l) \<and> r' = upd l r"
proof (cases v)
  case (JsonArray vs)
  then obtain xs where xs: "all_some (map elem vs) = Some xs" "r' = upd (Some xs) r" using assms(1) by (auto simp: slice_field_def)
  have "Q x" if "x \<in> set xs" for x
    using all_some_members [OF xs(1) that] assms(2,3) JsonArray by (auto simp: list_all_iff)
  then have "list_all Q (elems (Some xs))" by (simp add: list_all_iff elems_def)
  then show ?thesis using xs(2) by blast
next
  case JsonNull
  then show ?thesis using assms(1) by (intro exI [of _ None]) (auto simp: slice_field_def elems_def)
qed (use assms(1) in \<open>auto simp: slice_field_def\<close>)

lemma string_elem_ok: "string_elem v = Some t \<Longrightarrow> strings_ok v \<Longrightarrow> text_ok t"
  by (auto simp: string_elem_def split: json_value.splits)

lemma input_elem_ok: "input_elem strict v = Some i \<Longrightarrow> strings_ok v \<Longrightarrow> text_ok (ti_Path i) \<and> text_ok (ti_SHA256 i)"
  unfolding input_elem_def
  by (erule decode_struct_inv) (auto dest!: string_field_ok)

lemma output_elem_ok: "output_elem strict v = Some x \<Longrightarrow> strings_ok v \<Longrightarrow> text_ok (to_Path x) \<and> text_ok (to_Mode x)"
  unfolding output_elem_def
  by (erule decode_struct_inv) (auto dest!: string_field_ok)

lemma binding_field_ok:
  assumes "(name, f) \<in> set binding_fields" "strings_ok v" "binding_ok b" "f v b = Some b'"
  shows "binding_ok b'"
proof -
  consider (str) upd where "f = string_field upd" "\<And>t. text_ok t \<Longrightarrow> binding_ok (upd t b)"
    | (int) "f = int_field (\<lambda>i b. b\<lparr>bind_Repetitions := i\<rparr>)"
    using assms(1,3) unfolding binding_fields_def by (auto simp: binding_ok_def)
  then show ?thesis
  proof cases
    case str
    then show ?thesis using string_field_ok [of upd v b b'] assms by auto
  next
    case int
    then show ?thesis using assms(3,4) by (auto simp: int_field_def binding_ok_def split: json_value.splits if_splits)
  qed
qed

lemma binding_decoded:
  assumes "decode_struct strict binding_fields v b = Some b'" "strings_ok v" "binding_ok b"
  shows "binding_ok b'"
  by (rule decode_struct_inv [where P = binding_ok, OF assms(1-3) binding_field_ok])

lemma zero_ok: "metadata_ok zero_metadata"
  by (simp add: metadata_ok_def zero_metadata_def binding_ok_def zero_binding_def elems_def)

lemma metadata_field_ok:
  assumes "(name, f) \<in> set (metadata_fields strict)" "strings_ok v" "metadata_ok m" "f v m = Some m'"
  shows "metadata_ok m'"
proof -
  consider (str) upd where "f = string_field upd" "\<And>t. text_ok t \<Longrightarrow> metadata_ok (upd t m)"
    | (slice) upd where "f = slice_field string_elem upd" "\<And>l. list_all text_ok (elems l) \<Longrightarrow> metadata_ok (upd l m)"
    | (inputs) "f = slice_field (input_elem strict) (\<lambda>l m. m\<lparr>meta_Inputs := l\<rparr>)"
    | (outputs) "f = slice_field (output_elem strict) (\<lambda>l m. m\<lparr>meta_Outputs := l\<rparr>)"
    | (binding) "f = (\<lambda>v m. map_option (\<lambda>b. m\<lparr>meta_Binding := b\<rparr>) (decode_struct strict binding_fields v (meta_Binding m)))"
    using assms(1,3) unfolding metadata_fields_def by (auto simp: metadata_ok_def)
  then show ?thesis
  proof cases
    case str
    then show ?thesis using string_field_ok [of upd v m m'] assms by auto
  next
    case slice
    then show ?thesis using slice_field_ok [of string_elem upd v m m' text_ok] string_elem_ok assms by auto
  next
    case inputs
    then show ?thesis using slice_field_ok [OF assms(4) [unfolded inputs] assms(2), of "\<lambda>i. text_ok (ti_Path i) \<and> text_ok (ti_SHA256 i)"]
        input_elem_ok assms(3) by (auto simp: metadata_ok_def)
  next
    case outputs
    then show ?thesis using slice_field_ok [OF assms(4) [unfolded outputs] assms(2), of "\<lambda>x. text_ok (to_Path x) \<and> text_ok (to_Mode x)"]
        output_elem_ok assms(3) by (auto simp: metadata_ok_def)
  next
    case binding
    then show ?thesis using assms(2-4) binding_decoded by (auto simp: metadata_ok_def)
  qed
qed

lemma decoded_ok: "decode_metadata strict v = Some m \<Longrightarrow> strings_ok v \<Longrightarrow> metadata_ok m"
  unfolding decode_metadata_def using decode_struct_inv [of strict "metadata_fields strict" v zero_metadata m metadata_ok]
    zero_ok metadata_field_ok by blast

section \<open>Storing and reading back\<close>

lemma decode_slice [simp]:
  "(\<And>x. elem (g x) = Some x) \<Longrightarrow> slice_field elem upd (json_slice g l) r = Some (upd l r)"
  by (cases l) (auto simp: slice_field_def json_slice_def simp flip: o_def)

lemma string_elem_JsonString [simp]: "string_elem (JsonString t) = Some t"
  by (simp add: string_elem_def)

lemma input_elem_json [simp]: "input_elem strict (input_json i) = Some i"
  by (simp add: input_elem_def input_json_def decode_struct_def find_field_def string_field_def)

lemma output_elem_json [simp]: "output_elem strict (output_json x) = Some x"
  by (simp add: output_elem_def output_json_def decode_struct_def find_field_def string_field_def)

lemma decode_struct_object [simp]: "decode_struct strict fs (JsonObject kvs) r = decode_fields strict fs kvs r"
  by (simp add: decode_struct_def)

lemma decode_binding_json: "binding_ok b \<Longrightarrow> decode_struct strict binding_fields (binding_json b) b0 = Some b"
  by (simp add: binding_json_def decode_struct_def find_field_def binding_fields_def string_field_def int_field_def binding_ok_def)

lemma decode_metadata_value:
  assumes "metadata_ok m"
  shows "decode_metadata strict (metadata_value m) = Some m"
proof -
  have b: "decode_struct strict binding_fields (binding_json (meta_Binding m)) b0 = Some (meta_Binding m)" for b0
    using assms by (intro decode_binding_json) (simp add: metadata_ok_def)
  show ?thesis
    by (simp add: decode_metadata_def metadata_value_def metadata_fields_def find_field_def string_field_def b zero_metadata_def)
qed

lemma json_slice_ok:
  "list_all Q (elems l) \<Longrightarrow> (\<And>x. Q x \<Longrightarrow> value_ok (g x)) \<Longrightarrow> value_ok (json_slice g l)"
  by (cases l) (auto simp: json_slice_def elems_def list_all_iff)

lemma field_names_ok [simp]:
  "text_ok ''id''" "text_ok ''after''" "text_ok ''team''" "text_ok ''binding''" "text_ok ''requires''" "text_ok ''providers''"
  "text_ok ''differentFrom''" "text_ok ''inputs''" "text_ok ''outputs''" "text_ok ''mode''" "text_ok ''alias''" "text_ok ''provider''"
  "text_ok ''model''" "text_ok ''effort''" "text_ok ''calibration''" "text_ok ''repetitions''" "text_ok ''fixture''" "text_ok ''path''"
  "text_ok ''sha256''"
  by code_simp+

lemma metadata_value_ok: "metadata_ok m \<Longrightarrow> value_ok (metadata_value m)"
  by (auto simp: metadata_ok_def metadata_value_def binding_json_def binding_ok_def input_json_def output_json_def intro!: json_slice_ok)

lemma nesting_slice: "(\<And>x. nesting (g x) \<le> k) \<Longrightarrow> nesting (json_slice g l) \<le> Suc k"
proof (cases l)
  case (Some xs)
  assume g: "\<And>x. nesting (g x) \<le> k"
  have "foldr (\<lambda>v n. max (nesting v) n) (map g xs) 0 \<le> k" using g by (induction xs) auto
  then show ?thesis using Some by (simp add: json_slice_def)
qed (simp add: json_slice_def)

lemma metadata_nesting: "nesting (metadata_value m) \<le> json_max_nesting"
proof -
  have "nesting (json_slice JsonString l) \<le> 1" for l using nesting_slice [of JsonString 0 l] by simp
  moreover have "nesting (json_slice input_json l) \<le> 2" for l using nesting_slice [of input_json 1 l] by (simp add: input_json_def numeral_2_eq_2)
  moreover have "nesting (json_slice output_json l) \<le> 2" for l using nesting_slice [of output_json 1 l] by (simp add: output_json_def numeral_2_eq_2)
  ultimately have "nesting (metadata_value m) \<le> 3"
    unfolding metadata_value_def binding_json_def by (simp add: le_max_iff_disj) (metis le_SucI numeral_2_eq_2 One_nat_def)
  then show ?thesis by (simp add: json_max_nesting_def)
qed

lemma decode_block_Inr:
  assumes "decode_block raw = Inr m"
  shows "metadata_ok m" "meta_ID m \<noteq> []" "rejectPaddedTaskIDs m = None"
proof -
  obtain v rest where v: "parse_first raw = Some (v, rest)" "decode_metadata True v = Some m"
    and refused: "meta_ID m \<noteq> []" "rejectPaddedTaskIDs m = None"
    using assms by (auto simp: decode_block_def split: option.splits if_splits)
  have "small (bytes_of raw)" by (simp add: small_def)
  then have "strings_ok v" using parse_ok(1) v(1) unfolding parse_first_def by blast
  then show "metadata_ok m" "meta_ID m \<noteq> []" "rejectPaddedTaskIDs m = None" using decoded_ok [OF v(2)] refused by auto
qed

text \<open>\<^bold>\<open>C36.\<close> Metadata survives being stored.  Whatever the block of a step holds, if the parser accepts it then
  the task has an id, no id in it carries surrounding space, and the JSON text that import writes
  to the metadata column is a valid document that decodes, strictly or not, to the same
  metadata: an omitted \<open>after\<close> stays omitted and an empty one stays empty.\<close>

theorem metadata_survives_storage:
  "case parseTaskMetadataBlock blocks of
     Inl e \<Rightarrow> blocks \<noteq> []
   | Inr None \<Rightarrow> blocks = []
   | Inr (Some m) \<Rightarrow> meta_ID m \<noteq> [] \<and>
       list_all (\<lambda>i. TrimSpace i = i) (meta_ID m # elems (meta_DifferentFrom m) @ elems (meta_After m)) \<and>
       (case json_parse (json_encode (metadata_value m)) of None \<Rightarrow> False | Some v \<Rightarrow> decode_metadata strict v = Some m)"
proof -
  have "meta_ID m \<noteq> [] \<and> list_all (\<lambda>i. TrimSpace i = i) (meta_ID m # elems (meta_DifferentFrom m) @ elems (meta_After m)) \<and>
      (case json_parse (json_encode (metadata_value m)) of None \<Rightarrow> False | Some v \<Rightarrow> decode_metadata strict v = Some m)"
    if "decode_block raw = Inr m" for raw m
  proof -
    note ok = decode_block_Inr [OF that]
    have "json_parse (json_encode (metadata_value m)) = Some (metadata_value m)"
      by (rule parse_encode [OF metadata_value_ok [OF ok(1)] metadata_nesting])
    moreover have "list_all (\<lambda>i. TrimSpace i = i) (meta_ID m # elems (meta_DifferentFrom m) @ elems (meta_After m))"
      using ok(3) by (auto simp: rejectPaddedTaskIDs_def padded_def list_all_iff find_None_iff split: option.splits if_splits)
    ultimately show ?thesis using decode_metadata_value [OF ok(1)] ok(2) by simp
  qed
  then show ?thesis
    by (auto simp: parseTaskMetadataBlock_def split: list.splits sum.splits option.splits)
qed

definition shadowed_block :: json_value where
  "shadowed_block = JsonObject [(''id'', JsonString ''x''), (''after'', JsonArray [JsonString ''prepare'']), (''After'', JsonArray [])]"

text \<open>The duplicate check can be evaded by letter case.  The decoder matches field names up to case but the
  duplicate check compares keys exactly, so a block whose \<open>after\<close> names a step and which repeats the
  key as \<open>After\<close> with an empty list is accepted and decodes to an explicit root: the edge is
  gone.\<close>

theorem duplicate_check_misses_case:
  "case decode_block (json_encode shadowed_block) of Inl e \<Rightarrow> False | Inr m \<Rightarrow> meta_ID m = ''x'' \<and> meta_After m = Some []"
proof -
  have ok: "value_ok shadowed_block" by (simp add: shadowed_block_def text_ok_def cont_def)
  have "parse_first (json_encode shadowed_block) = Some (shadowed_block, [])"
    using value_round_trip [OF ok, of "2 * length (json_encode shadowed_block) + 2" "[]"] by (simp add: parse_first_def ends_number_def)
  moreover have "json_valid (json_encode shadowed_block)"
    by (rule encode_valid [OF ok]) (simp add: shadowed_block_def json_max_nesting_def)
  moreover have "repeated_key shadowed_block = None" by (simp add: shadowed_block_def)
  moreover have "rejectNullMetadataFields shadowed_block = None"
    by (simp add: shadowed_block_def rejectNullMetadataFields_def null_in_def last_member_def)
  moreover have "decode_metadata True shadowed_block = Some (zero_metadata\<lparr>meta_ID := ''x'', meta_After := Some []\<rparr>)"
    by (simp add: shadowed_block_def decode_metadata_def metadata_fields_def find_field_def string_field_def slice_field_def string_elem_def)
  moreover have "rejectPaddedTaskIDs (zero_metadata\<lparr>meta_ID := ''x'', meta_After := Some []\<rparr>) = None"
    by (simp add: rejectPaddedTaskIDs_def padded_def zero_metadata_def elems_def) code_simp
  ultimately show ?thesis by (simp add: decode_block_def skip_ws_def)
qed

end
