(* ===== verification/Store_Partition_Laws.thy ===== *)
theory Store_Partition_Laws
  imports Store_Partitions Plan_Metadata_Laws
begin

text \<open>
  The partitions of the ready tasks are exactly the classes of the pair of leaf group and declared
  binding.  Two facts carry this: the key text never holds the separator byte, and it determines the
  binding it was encoded from.
\<close>

section \<open>Keys\<close>

lemma no_nul_bytes: "list_all (\<lambda>b. 0 < b \<and> b < 256) bs \<Longrightarrow> CHR 0x00 \<notin> set (bytes bs)"
proof
  assume b: "list_all (\<lambda>b. 0 < b \<and> b < 256) bs" "CHR 0x00 \<in> set (bytes bs)"
  then obtain x where "x \<in> set bs" "CHR 0x00 = char_of x" by (auto simp: bytes_def)
  then have "x mod 256 = 0" by (auto dest!: arg_cong [where f = "of_char :: char \<Rightarrow> nat"])
  then show False using b(1) \<open>x \<in> set bs\<close> by (auto simp: list_all_iff)
qed

lemma no_nul_hex: "d < 16 \<Longrightarrow> CHR 0x00 \<noteq> hex_char d"
  using no_nul_bytes [of "[48 + d]"] no_nul_bytes [of "[87 + d]"] by (auto simp: hex_char_def bytes_def)

lemma no_nul_escape_byte: "b < 256 \<Longrightarrow> CHR 0x00 \<notin> set (json_escape_byte b)"
  using no_nul_hex [of "b div 16"] no_nul_hex [of "b mod 16"] no_nul_bytes [of "[b]"]
  by (auto simp: json_escape_byte_def bytes_def)

lemma no_nul_escape: "\<forall>b \<in> set bs. b < 256 \<Longrightarrow> CHR 0x00 \<notin> set (json_escape bs)"
proof (induction bs rule: json_escape.induct)
  case (2 a rest)
  show ?case
  proof (cases "decode_rune (a # rest)")
    case None
    then show ?thesis using 2 by (simp add: bytes_def del: decode_rune.simps)
  next
    case (Some rn)
    obtain r n where d: "decode_rune (a # rest) = Some (r, n)" using Some by (cases rn) simp
    have IH: "CHR 0x00 \<notin> set (json_escape (drop (n - 1) rest))"
      using "2.IH"(2) [OF d refl] 2(3) by (auto dest: in_set_dropD)
    have "list_all (\<lambda>b. 0 < b \<and> b < 256) (take n (a # rest))" if "\<not> n \<le> 1"
      using decode_rune_high [OF d that] 2(3) in_set_takeD [of _ n "a # rest"] by (fastforce simp: list_all_iff)
    then show ?thesis using d IH no_nul_escape_byte [of a] no_nul_hex [of "r mod 16"] no_nul_bytes [of "take n (a # rest)"] 2(3)
      by (auto simp: bytes_def [of "[_]"] simp del: decode_rune.simps)
  qed
qed simp

lemma no_nul_string: "CHR 0x00 \<notin> set (json_string t)"
  using no_nul_escape [of "bytes_of t"] by (auto simp: json_string_def bytes_def)

lemma no_nul_Itoa: "CHR 0x00 \<notin> set (Itoa i)"
  using itoa_nat_digits [of "CHR 0x00" "nat i"] itoa_nat_digits [of "CHR 0x00" "nat (- i)"] by (auto simp: Itoa_def less_eq_char_def)

lemma no_nul_binding: "CHR 0x00 \<notin> set (json_encode (binding_json b))"
  by (simp add: binding_json_def no_nul_string no_nul_Itoa bytes_def)

lemma binding_key_inj:
  assumes "binding_ok b" "binding_ok b'" "json_encode (binding_json b) = json_encode (binding_json b')"
  shows "b = b'"
proof -
  have parse: "json_parse (json_encode (binding_json b)) = Some (binding_json b)" if "binding_ok b" for b
  proof (rule parse_encode)
    show "value_ok (binding_json b)" using that by (simp add: binding_json_def binding_ok_def)
    have "nesting (binding_json b) \<le> 2" by (simp add: binding_json_def)
    then show "nesting (binding_json b) \<le> json_max_nesting" by (simp add: json_max_nesting_def)
  qed
  have "Some (binding_json b) = Some (binding_json b')"
    using parse [OF assms(1)] parse [OF assms(2)] unfolding assms(3) by (simp only:)
  then have "binding_json b = binding_json b'" by (rule option.inject [THEN iffD1])
  then have "Some b = Some b'"
    using decode_binding_json [OF assms(1), of False zero_binding] decode_binding_json [OF assms(2), of False zero_binding] by (simp only:)
  then show ?thesis by simp
qed

text \<open>Every declared binding is well-formed text, whatever the stored document is.\<close>

definition pointer_ok :: "declaredBinding option \<Rightarrow> bool" where
  "pointer_ok r = (case r of None \<Rightarrow> True | Some b \<Rightarrow> binding_ok b)"

lemma zero_binding_ok: "binding_ok zero_binding"
  by (simp add: binding_ok_def zero_binding_def)

lemma pointer_decoded: "binding_pointer v r = Some r' \<Longrightarrow> strings_ok v \<Longrightarrow> pointer_ok r \<Longrightarrow> pointer_ok r'"
  using binding_decoded [of False v zero_binding] binding_decoded [of False v] zero_binding_ok
  by (cases v; cases r) (auto simp: binding_pointer_def pointer_ok_def)

lemma declared_ok:
  assumes "declared_binding_of j = Some b"
  shows "binding_ok b"
proof -
  obtain v where v: "json_parse j = Some v" "decode_struct False [(''binding'', binding_pointer)] v None = Some (Some b)"
    using assms by (auto simp: declared_binding_of_def split: option.splits if_splits)
  have "small (bytes_of j)" by (simp add: small_def)
  moreover obtain rest where "parse_first j = Some (v, rest)" using v(1) by (auto simp: json_parse_def split: if_splits)
  ultimately have "strings_ok v" using parse_ok(1) unfolding parse_first_def by blast
  have "pointer_ok (Some b)"
    by (rule decode_struct_inv [where P = pointer_ok, OF v(2) \<open>strings_ok v\<close>]) (auto simp: pointer_ok_def [of None] dest: pointer_decoded)
  then show ?thesis by (simp add: pointer_ok_def)
qed

text \<open>The key tells declared bindings apart, and tells them from their absence.\<close>

lemma declared_key_eq:
  "declaredBindingKey j = declaredBindingKey j' \<longleftrightarrow> declared_binding_of j = declared_binding_of j'"
proof
  assume eq: "declaredBindingKey j = declaredBindingKey j'"
  have ne: "json_encode (binding_json b) \<noteq> []" for b by (simp add: binding_json_def)
  show "declared_binding_of j = declared_binding_of j'"
    using eq ne ne [symmetric] binding_key_inj declared_ok [of j] declared_ok [of j']
    by (auto simp: declaredBindingKey_def split: option.splits)
qed (simp add: declaredBindingKey_def)

lemma no_nul_key: "CHR 0x00 \<notin> set (declaredBindingKey j)"
  by (simp add: declaredBindingKey_def no_nul_binding split: option.split)

lemma joined_key_inj:
  assumes "c \<notin> set b" "c \<notin> set b'" "g @ c # b = g' @ c # b'"
  shows "g = g' \<and> b = b'"
  using assms(3)
proof (induction g arbitrary: g')
  case Nil
  then show ?case using assms by (cases g') auto
next
  case (Cons x g)
  then show ?case using assms by (cases g') auto
qed

section \<open>The partitions\<close>

text \<open>The loop keeps: the keys of the parts are different, the index is their position, and the tasks of a
  part are those read so far under its key.\<close>

definition part_key :: "ReadyPartition \<Rightarrow> string \<times> string" where
  "part_key p = (rp_GroupPath p, rp_BindingKey p)"

definition row_key :: "string \<times> string \<times> Task \<Rightarrow> string \<times> string" where
  "row_key row = (fst row, fst (snd row))"

definition joined :: "string \<times> string \<Rightarrow> string" where
  "joined k = fst k @ [CHR 0x00] @ snd k"

definition partitioned :: "(string \<times> string \<times> Task) list \<Rightarrow> partitioning \<Rightarrow> bool" where
  "partitioned seen st = (case st of (index, parts) \<Rightarrow>
     map part_key parts = rev (remdups (rev (map row_key seen))) \<and>
     (\<forall>i < length parts. index (joined (part_key (parts ! i))) = Some i) \<and>
     (\<forall>k i. index (joined k) = Some i \<longrightarrow> CHR 0x00 \<notin> set (snd k) \<longrightarrow> i < length parts \<and> part_key (parts ! i) = k) \<and>
     (\<forall>p \<in> set parts. CHR 0x00 \<notin> set (snd (part_key p)) \<and> rp_Tasks p = map (snd \<circ> snd) (filter (\<lambda>row. row_key row = part_key p) seen)))"

lemma joined_inj: "CHR 0x00 \<notin> set (snd k) \<Longrightarrow> CHR 0x00 \<notin> set (snd k') \<Longrightarrow> joined k = joined k' \<longleftrightarrow> k = k'"
  using joined_key_inj [of "CHR 0x00" "snd k" "snd k'" "fst k" "fst k'"] by (auto simp: joined_def prod_eq_iff)

lemma add_ready_cases:
  "add_ready row (index, parts) = (case index (joined (row_key row)) of
     None \<Rightarrow> (index(joined (row_key row) \<mapsto> length parts),
        parts @ [\<lparr>rp_GroupPath = fst row, rp_BindingKey = fst (snd row), rp_Tasks = [snd (snd row)]\<rparr>])
   | Some idx \<Rightarrow> (index, parts[idx := (parts ! idx)\<lparr>rp_Tasks := rp_Tasks (parts ! idx) @ [snd (snd row)]\<rparr>]))"
  by (cases row) (simp add: add_ready_def joined_def row_key_def Let_def split: option.split)

lemma add_ready_partitioned:
  assumes "partitioned seen st" "CHR 0x00 \<notin> set (fst (snd row))"
  shows "partitioned (seen @ [row]) (add_ready row st)"
proof -
  obtain index parts where st: "st = (index, parts)" by (cases st)
  let ?k = "row_key row"
  have k: "CHR 0x00 \<notin> set (snd ?k)" using assms(2) by (simp add: row_key_def)
  from assms(1) st have keys: "map part_key parts = rev (remdups (rev (map row_key seen)))"
    and pos: "\<And>i. i < length parts \<Longrightarrow> index (joined (part_key (parts ! i))) = Some i"
    and inv: "\<And>k i. index (joined k) = Some i \<Longrightarrow> CHR 0x00 \<notin> set (snd k) \<Longrightarrow> i < length parts \<and> part_key (parts ! i) = k"
    and rows: "\<And>p. p \<in> set parts \<Longrightarrow> CHR 0x00 \<notin> set (snd (part_key p)) \<and> rp_Tasks p = map (snd \<circ> snd) (filter (\<lambda>row. row_key row = part_key p) seen)"
    by (auto simp: partitioned_def)
  have known: "set (map part_key parts) = row_key ` set seen" unfolding keys by simp
  show ?thesis
  proof (cases "index (joined ?k)")
    case None
    let ?p = "\<lparr>rp_GroupPath = fst row, rp_BindingKey = fst (snd row), rp_Tasks = [snd (snd row)]\<rparr>"
    have pk: "part_key ?p = ?k" by (simp add: part_key_def row_key_def)
    have new: "?k \<notin> set (map part_key parts)" using None pos by (auto simp: in_set_conv_nth)
    then have fresh: "?k \<notin> row_key ` set seen" unfolding known .
    have "index (joined k) = Some i \<Longrightarrow> CHR 0x00 \<notin> set (snd k) \<Longrightarrow> k \<noteq> ?k" for k i using None by auto
    moreover have "joined (part_key (parts ! i)) \<noteq> joined ?k" if "i < length parts" for i using pos [OF that] None by auto
    moreover have "filter (\<lambda>row'. row_key row' = ?k) seen = []" unfolding filter_empty_conv using fresh by (metis imageI)
    moreover have "\<forall>p \<in> set parts. part_key p \<noteq> ?k" using new by (metis image_eqI set_map)
    ultimately show ?thesis
      unfolding st add_ready_cases None partitioned_def
      using keys fresh pos inv rows k pk joined_inj [OF _ k]
      by (auto simp: nth_append less_Suc_eq split: if_splits)
  next
    case (Some idx)
    have idx: "idx < length parts" "part_key (parts ! idx) = ?k" using inv [OF Some k] by auto
    let ?p = "(parts ! idx)\<lparr>rp_Tasks := rp_Tasks (parts ! idx) @ [snd (snd row)]\<rparr>"
    have pk: "part_key ?p = ?k" using idx(2) by (simp add: part_key_def)
    have old: "?k \<in> row_key ` set seen" unfolding known [symmetric] using idx by (metis image_eqI set_map nth_mem)
    have same: "map part_key (parts[idx := ?p]) = map part_key parts"
      using idx pk by (simp add: map_update list_update_same_conv)
    have "distinct (map part_key parts)" unfolding keys by simp
    then have "map part_key parts ! i \<noteq> map part_key parts ! idx" if "i < length parts" "i \<noteq> idx" for i
      using that idx(1) by (simp only: nth_eq_iff_index_eq length_map not_False_eq_True)
    then have apart: "part_key (parts ! i) \<noteq> ?k" if "i < length parts" "i \<noteq> idx" for i
      using that idx by (metis nth_map)
    have other: "p = ?p \<or> p \<in> set parts \<and> part_key p \<noteq> ?k" if "p \<in> set (parts[idx := ?p])" for p
    proof -
      from that have "\<exists>i < length parts. parts[idx := ?p] ! i = p" unfolding in_set_conv_nth length_list_update .
      then obtain i where i: "i < length parts" "p = parts[idx := ?p] ! i" by auto
      show ?thesis
      proof (cases "i = idx")
        case True
        then have "p = ?p" using i(2) nth_list_update_eq [OF idx(1), of ?p] by (simp only:)
        then show ?thesis by (rule disjI1)
      next
        case False
        then have "p = parts ! i" using i(2) by (simp only: nth_list_update_neq)
        then show ?thesis using apart [OF i(1) False] nth_mem [OF i(1)] by (simp only: simp_thms)
      qed
    qed
    have nth: "part_key (parts[idx := ?p] ! i) = part_key (parts ! i)" if "i < length parts" for i
      using same that by (metis length_list_update nth_map)
    show ?thesis
      unfolding st add_ready_cases Some partitioned_def option.case prod.case
    proof (intro conjI allI impI ballI)
      show "map part_key (parts[idx := ?p]) = rev (remdups (rev (map row_key (seen @ [row]))))"
        unfolding same keys using old by simp
    next
      fix p assume "p \<in> set (parts[idx := ?p])"
      from other [OF this] show "CHR 0x00 \<notin> set (snd (part_key p))"
        "rp_Tasks p = map (snd \<circ> snd) (filter (\<lambda>row. row_key row = part_key p) (seen @ [row]))"
        using rows [of p] rows [of "parts ! idx"] idx pk k by auto
    qed (use pos inv nth in auto)
  qed
qed

lemma fold_partitioned:
  "\<forall>row \<in> set rows. CHR 0x00 \<notin> set (fst (snd row)) \<Longrightarrow> partitioned seen st \<Longrightarrow> partitioned (seen @ rows) (fold add_ready rows st)"
proof (induction rows arbitrary: seen st)
  case (Cons row rows)
  then have "partitioned (seen @ [row]) (add_ready row st)" by (intro add_ready_partitioned) auto
  from Cons.IH [OF _ this] Cons.prems(1) show ?case by simp
qed simp

text \<open>The class of a task: its leaf group and what its metadata declares about the binding.\<close>

definition dispatch_class :: "store \<Rightarrow> task_row \<Rightarrow> string \<times> declaredBinding option" where
  "dispatch_class s t = (group_of s t, declared_binding_of (metadata_text s t))"

definition class_key :: "string \<times> declaredBinding option \<Rightarrow> string \<times> string" where
  "class_key c = (fst c, case snd c of None \<Rightarrow> [] | Some b \<Rightarrow> json_encode (binding_json b))"

lemma class_key_eq: "class_key (dispatch_class s t) = class_key (dispatch_class s t') \<longleftrightarrow> dispatch_class s t = dispatch_class s t'"
  using declared_key_eq [of "metadata_text s t" "metadata_text s t'"]
  by (auto simp: class_key_def dispatch_class_def declaredBindingKey_def)

lemma remdups_map_inj: "inj_on f (set xs) \<Longrightarrow> remdups (map f xs) = map f (remdups xs)"
  by (induction xs) (auto simp: inj_on_def)

definition first_seen :: "'a list \<Rightarrow> 'a list" where
  "first_seen xs = rev (remdups (rev xs))"

lemma map_eq_all2: "map f xs = map g ys \<Longrightarrow> list_all2 (\<lambda>x y. f x = g y) xs ys"
  by (induction xs arbitrary: ys) auto

lemma first_seen_map: "inj_on f (set xs) \<Longrightarrow> first_seen (map f xs) = map f (first_seen xs)"
  by (simp add: first_seen_def rev_map remdups_map_inj)

text \<open>\<^bold>\<open>C26.\<close> A wave is split exactly by leaf group and declared binding.  The partitions are, in the order in which
  their first task appears, the classes of the tasks that are ready or in one of the two
  self-clearing blocked states; each holds the tasks of its class in author order.  So no task is
  lost, none appears twice, and two tasks share a partition exactly if they are in one leaf group and
  declare the same binding, whatever bytes the two contain.\<close>

theorem ready_partitions_exact:
  "ReadyPartitions planID s =
    map (\<lambda>c. \<lparr>rp_GroupPath = fst (class_key c), rp_BindingKey = snd (class_key c),
        rp_Tasks = map scanTask (filter (\<lambda>t. dispatch_class s t = c) (surfaced_rows planID s))\<rparr>)
      (first_seen (map (dispatch_class s) (surfaced_rows planID s)))"
proof -
  let ?rows = "surfaced_rows planID s" and ?row = "\<lambda>t. (group_of s t, declaredBindingKey (metadata_text s t), scanTask t)"
  let ?parts = "ReadyPartitions planID s"
  have key: "row_key (?row t) = class_key (dispatch_class s t)" for t
    by (simp add: row_key_def class_key_def dispatch_class_def declaredBindingKey_def)
  have start: "partitioned [] (Map.empty, [])" by (simp add: partitioned_def)
  have nul: "\<forall>row \<in> set (map ?row ?rows). CHR 0x00 \<notin> set (fst (snd row))" by (simp add: no_nul_key)
  obtain index where run: "fold add_ready (map ?row ?rows) (Map.empty, []) = (index, ?parts)"
    by (cases "fold add_ready (map ?row ?rows) (Map.empty, [])") (simp add: ReadyPartitions_def)
  have inv: "partitioned (map ?row ?rows) (index, ?parts)"
    using fold_partitioned [OF nul start] unfolding run append_Nil .
  have "map part_key ?parts = first_seen (map row_key (map ?row ?rows))"
    using inv unfolding partitioned_def prod.case first_seen_def by (elim conjE)
  then have keys: "map part_key ?parts = first_seen (map (\<lambda>t. class_key (dispatch_class s t)) ?rows)"
    unfolding map_map o_def key .
  have tasks: "rp_Tasks p = map (snd \<circ> snd) (filter (\<lambda>row. row_key row = part_key p) (map ?row ?rows))" if "p \<in> set ?parts" for p
    using inv that unfolding partitioned_def prod.case by (elim conjE) blast
  have inj: "inj_on class_key (dispatch_class s ` set ?rows)" using class_key_eq by (auto simp: inj_on_def)
  have "map part_key ?parts = map class_key (first_seen (map (dispatch_class s) ?rows))"
    using keys first_seen_map [of class_key "map (dispatch_class s) ?rows"] inj by (simp add: o_def)
  then have "list_all2 (\<lambda>p c. part_key p = class_key c) ?parts (first_seen (map (dispatch_class s) ?rows))"
    by (rule map_eq_all2)
  moreover have "p = \<lparr>rp_GroupPath = fst (class_key c), rp_BindingKey = snd (class_key c),
        rp_Tasks = map scanTask (filter (\<lambda>t. dispatch_class s t = c) ?rows)\<rparr>"
    if p: "p \<in> set ?parts" and c: "c \<in> set (first_seen (map (dispatch_class s) ?rows))" and k: "part_key p = class_key c" for p c
  proof -
    obtain t' where t': "c = dispatch_class s t'" using c by (auto simp: first_seen_def)
    have "rp_Tasks p = map scanTask (filter (\<lambda>t. dispatch_class s t = c) ?rows)"
      using tasks [OF p] by (simp add: filter_map o_def key k t' class_key_eq)
    then show ?thesis using k by (simp add: part_key_def prod_eq_iff)
  qed
  ultimately show ?thesis by (simp add: list_all2_conv_all_nth list_eq_iff_nth_eq)
qed

end
