(* ===== verification/Plan_Validate.thy ===== *)
theory Plan_Validate
  imports Plan_Model
begin

text \<open>
  The independence constraints of a plan (\<open>internal/plan/validate.go\<close>): every \<open>differentFrom\<close> entry must
  name another task of the plan, and the entries must not form a cycle.  The cycle check is a
  depth-first search with three colours; it is modelled with the nesting depth of the recursion as
  fuel, and shown never to run out.
\<close>

section \<open>The walk over the steps\<close>

text \<open>\<open>walkPlanSteps\<close> as the list of its calls; it visits the steps and the subgroups of every group.\<close>

fun walkPlanSteps :: "nat \<Rightarrow> Group list \<Rightarrow> int list \<Rightarrow> (string \<times> Step) list" where
  "walkPlanSteps i [] path = []"
| "walkPlanSteps i (Group h l par steps subs # gs) path =
    map (\<lambda>c. (case step_Metadata (snd c) of
        Some m \<Rightarrow> if meta_ID m \<noteq> [] then meta_ID m else StepID (fst c)
      | None \<Rightarrow> StepID (fst c), snd c)) (step_calls (path @ [int i]) steps) @
    walkPlanSteps 0 subs (path @ [int i]) @ walkPlanSteps (Suc i) gs path"

fun countPlanSteps :: "Group list \<Rightarrow> nat" where
  "countPlanSteps [] = 0"
| "countPlanSteps (Group h l par steps subs # gs) = length steps + countPlanSteps subs + countPlanSteps gs"

section \<open>References\<close>

datatype plan_finding =
    EmptyPeer string
  | SelfPeer string
  | UnknownPeer string string
  | PeerCycle "string list"
  | NoStepsInGroup string
  | ParagraphBeforeList string
  | MixedLists string
  | EmptyMarkdown
  | PlanHasNoSteps

text \<open>One entry of a \<open>differentFrom\<close> list: the finding it gives rise to, if any.\<close>

definition peer_finding :: "string list \<Rightarrow> string \<Rightarrow> string \<Rightarrow> plan_finding option" where
  "peer_finding known i raw =
    (let peer = TrimSpace raw in
     if peer = [] then Some (EmptyPeer i)
     else if peer = i then Some (SelfPeer i)
     else if peer \<notin> set known then Some (UnknownPeer i peer)
     else None)"

definition reference_findings :: "(string \<times> Step) list \<Rightarrow> plan_finding list" where
  "reference_findings calls =
    concat (map (\<lambda>(i, step). List.map_filter (peer_finding (map fst calls) i) (IndependencePeers (step_Metadata step))) calls)"

section \<open>The cycle check\<close>

datatype colour = Unvisited | OnStack | Done

record dfs =
  state :: "string \<Rightarrow> colour"
  cycle :: "string list"

text \<open>\<open>peers[id]\<close> after the walk has appended to it.\<close>

definition peers_of :: "(string \<times> Step) list \<Rightarrow> string \<Rightarrow> string list" where
  "peers_of calls i = concat (map (\<lambda>(j, step). if j = i
     then filter (\<lambda>peer. peer \<noteq> [] \<and> peer \<noteq> i) (map TrimSpace (IndependencePeers (step_Metadata step))) else []) calls)"

fun visit_node :: "nat \<Rightarrow> (string \<Rightarrow> string list) \<Rightarrow> string \<Rightarrow> dfs \<Rightarrow> (bool \<times> dfs) option"
  and visit_peers :: "nat \<Rightarrow> (string \<Rightarrow> string list) \<Rightarrow> string list \<Rightarrow> dfs \<Rightarrow> (bool \<times> dfs) option" where
  "visit_node 0 peers i d = None"
| "visit_node (Suc n) peers i d =
    (case visit_peers n peers (peers i) (d\<lparr>state := (state d)(i := OnStack), cycle := cycle d @ [i]\<rparr>) of
       None \<Rightarrow> None
     | Some (True, d') \<Rightarrow> Some (True, d')
     | Some (False, d') \<Rightarrow> Some (False, d'\<lparr>cycle := butlast (cycle d'), state := (state d')(i := Done)\<rparr>))"
| "visit_peers n peers [] d = Some (False, d)"
| "visit_peers n peers (p # ps) d =
    (case state d p of
       OnStack \<Rightarrow> Some (True, d\<lparr>cycle := cycle d @ [p]\<rparr>)
     | Unvisited \<Rightarrow>
         (case visit_node n peers p d of
            None \<Rightarrow> None
          | Some (True, d') \<Rightarrow> Some (True, d')
          | Some (False, d') \<Rightarrow> visit_peers n peers ps d')
     | Done \<Rightarrow> visit_peers n peers ps d)"

text \<open>The outer loop, up to its break: \<open>Some None\<close> where no cycle is found.\<close>

fun find_cycle :: "nat \<Rightarrow> (string \<Rightarrow> string list) \<Rightarrow> string list \<Rightarrow> dfs \<Rightarrow> string list option option" where
  "find_cycle n peers [] d = Some None"
| "find_cycle n peers (i # order) d =
    (if state d i \<noteq> Unvisited then find_cycle n peers order d
     else case visit_node n peers i (d\<lparr>cycle := []\<rparr>) of
       None \<Rightarrow> None
     | Some (True, d') \<Rightarrow> Some (Some (cycle d'))
     | Some (False, d') \<Rightarrow> find_cycle n peers order d')"

text \<open>Every id that can be visited is a step of the plan or a peer of one.\<close>

definition visit_universe :: "(string \<times> Step) list \<Rightarrow> string list" where
  "visit_universe calls = map fst calls @ concat (map (\<lambda>c. peers_of calls (fst c)) calls)"

definition validateDifferentFromAcyclic :: "(string \<times> Step) list \<Rightarrow> plan_finding list option" where
  "validateDifferentFromAcyclic calls =
    map_option (\<lambda>r. case r of None \<Rightarrow> [] | Some c \<Rightarrow> [PeerCycle c])
      (find_cycle (Suc (length (visit_universe calls))) (peers_of calls) (map fst calls)
        \<lparr>state = (\<lambda>_. Unvisited), cycle = []\<rparr>)"

definition validateDifferentFrom :: "PlanDoc \<Rightarrow> plan_finding list option" where
  "validateDifferentFrom p =
    (let calls = walkPlanSteps 0 (Groups p) [] in
     map_option (\<lambda>cyc. reference_findings calls @ cyc) (validateDifferentFromAcyclic calls))"

section \<open>The search never runs out of fuel\<close>

definition unvisited_of :: "string list \<Rightarrow> dfs \<Rightarrow> string set" where
  "unvisited_of us d = {x \<in> set us. state d x = Unvisited}"

lemma finite_unvisited [simp]: "finite (unvisited_of us d)"
  by (simp add: unvisited_of_def)

lemma visit_shrinks:
  "visit_node n peers i d = Some (b, d') \<Longrightarrow> unvisited_of us d' \<subseteq> unvisited_of us d"
  "visit_peers n peers ps d = Some (b, d') \<Longrightarrow> unvisited_of us d' \<subseteq> unvisited_of us d"
proof (induction n peers i d and n peers ps d arbitrary: b d' and b d' rule: visit_node_visit_peers.induct)
  case (2 n peers i d)
  then show ?case by (fastforce simp: unvisited_of_def split: option.splits prod.splits bool.splits if_splits)
next
  case (4 n peers p ps d)
  show ?case
  proof (cases "state d p")
    case Unvisited
    then obtain c d1 where 1: "visit_node n peers p d = Some (c, d1)"
      using 4(4) by (auto split: option.splits)
    have le: "unvisited_of us d1 \<subseteq> unvisited_of us d" by (rule 4(1) [OF Unvisited 1])
    show ?thesis
    proof (cases c)
      case True
      then show ?thesis using 4(4) 1 Unvisited le by simp
    next
      case False
      then have c: "c = False" by simp
      then have "visit_peers n peers ps d1 = Some (b, d')" using 4(4) 1 Unvisited by simp
      from 4(2) [OF Unvisited 1 refl c this] show ?thesis using le by blast
    qed
  next
    case Done
    then show ?thesis using 4 by simp
  qed (use 4 in \<open>auto simp: unvisited_of_def\<close>)
qed auto

lemma visit_total:
  "state d i = Unvisited \<Longrightarrow> i \<in> set us \<Longrightarrow> \<forall>a \<in> set us. set (peers a) \<subseteq> set us \<Longrightarrow> card (unvisited_of us d) \<le> n \<Longrightarrow>
    visit_node n peers i d \<noteq> None"
  "set ps \<subseteq> set us \<Longrightarrow> \<forall>a \<in> set us. set (peers a) \<subseteq> set us \<Longrightarrow> card (unvisited_of us d) \<le> n \<Longrightarrow>
    visit_peers n peers ps d \<noteq> None"
proof (induction n peers i d and n peers ps d rule: visit_node_visit_peers.induct)
  case (1 peers i d)
  then have "i \<in> unvisited_of us d" by (simp add: unvisited_of_def)
  then show ?case using 1(4) by (metis card_0_eq empty_iff finite_unvisited le_zero_eq)
next
  case (2 n peers i d)
  let ?d = "d\<lparr>state := (state d)(i := OnStack), cycle := cycle d @ [i]\<rparr>"
  have "i \<in> unvisited_of us d" using 2(2,3) by (simp add: unvisited_of_def)
  moreover have "unvisited_of us ?d = unvisited_of us d - {i}" by (auto simp: unvisited_of_def)
  ultimately have "card (unvisited_of us ?d) \<le> n" using 2(5) by (simp add: card_Diff_singleton)
  then have "visit_peers n peers (peers i) ?d \<noteq> None" using 2(1,3,4) by blast
  then show ?case by (auto split: bool.splits)
next
  case (4 n peers p ps d)
  show ?case
  proof (cases "state d p")
    case Unvisited
    have "visit_node n peers p d \<noteq> None" using 4(1) [OF Unvisited Unvisited] 4(4-6) by auto
    then obtain c d1 where 1: "visit_node n peers p d = Some (c, d1)" by auto
    show ?thesis
    proof (cases c)
      case False
      then have c: "c = False" by simp
      have "card (unvisited_of us d1) \<le> n"
        using card_mono [OF finite_unvisited visit_shrinks(1) [OF 1, of us]] 4(6) by simp
      then have "visit_peers n peers ps d1 \<noteq> None" using 4(2) [OF Unvisited 1 refl c] 4(4,5) by simp
      then show ?thesis using 1 Unvisited c by simp
    qed (use 1 Unvisited in simp)
  next
    case Done
    then show ?thesis using 4 by simp
  qed simp
qed simp

lemma find_cycle_total:
  "set order \<subseteq> set us \<Longrightarrow> \<forall>a \<in> set us. set (peers a) \<subseteq> set us \<Longrightarrow> card (unvisited_of us d) \<le> n \<Longrightarrow>
   find_cycle n peers order d \<noteq> None"
proof (induction n peers order d rule: find_cycle.induct)
  case (2 n peers i order d)
  show ?case
  proof (cases "state d i = Unvisited")
    case False
    then show ?thesis using 2 by simp
  next
    case True
    have same: "unvisited_of us (d\<lparr>cycle := []\<rparr>) = unvisited_of us d" by (simp add: unvisited_of_def)
    have "visit_node n peers i (d\<lparr>cycle := []\<rparr>) \<noteq> None" using 2(3-5) True same by (intro visit_total(1)) auto
    then obtain c d1 where 1: "visit_node n peers i (d\<lparr>cycle := []\<rparr>) = Some (c, d1)" by auto
    have "card (unvisited_of us d1) \<le> n"
      using card_mono [OF finite_unvisited visit_shrinks(1) [OF 1, of us]] 2(5) same by simp
    then show ?thesis using 2 True 1 by (cases c) auto
  qed
qed simp

lemma peers_of_outside: "i \<notin> set (map fst calls) \<Longrightarrow> peers_of calls i = []"
  by (induction calls) (auto simp: peers_of_def)

lemma universe_closed: "\<forall>a \<in> set (visit_universe calls). set (peers_of calls a) \<subseteq> set (visit_universe calls)"
proof
  fix a assume "a \<in> set (visit_universe calls)"
  show "set (peers_of calls a) \<subseteq> set (visit_universe calls)"
  proof (cases "a \<in> set (map fst calls)")
    case True
    then show ?thesis by (auto simp: visit_universe_def)
  next
    case False
    then show ?thesis by (simp add: peers_of_outside)
  qed
qed

lemma check_total: "\<exists>findings. validateDifferentFrom p = Some findings"
proof -
  let ?calls = "walkPlanSteps 0 (Groups p) []"
  let ?us = "visit_universe ?calls"
  have "card (unvisited_of ?us \<lparr>state = (\<lambda>_. Unvisited), cycle = []\<rparr>) \<le> card (set ?us)"
    by (rule card_mono) (auto simp: unvisited_of_def)
  then have "card (unvisited_of ?us \<lparr>state = (\<lambda>_. Unvisited), cycle = []\<rparr>) \<le> Suc (length ?us)"
    using card_length [of ?us] by simp
  then have "find_cycle (Suc (length ?us)) (peers_of ?calls) (map fst ?calls) \<lparr>state = (\<lambda>_. Unvisited), cycle = []\<rparr> \<noteq> None"
    using universe_closed by (intro find_cycle_total [of _ ?us]) (auto simp: visit_universe_def)
  then show ?thesis by (auto simp: validateDifferentFrom_def validateDifferentFromAcyclic_def Let_def)
qed


section \<open>What the search decides\<close>

abbreviation linked :: "(string \<Rightarrow> string list) \<Rightarrow> string list \<Rightarrow> bool" where
  "linked peers \<equiv> successively (\<lambda>a b. b \<in> set (peers a))"

definition graph_of :: "(string \<Rightarrow> string list) \<Rightarrow> (string \<times> string) set" where
  "graph_of peers = {(a, b). b \<in> set (peers a)}"

text \<open>A walk along the constraints that ends where it has been before.\<close>

definition closing_walk :: "(string \<Rightarrow> string list) \<Rightarrow> string list \<Rightarrow> bool" where
  "closing_walk peers c \<longleftrightarrow> linked peers c \<and> c \<noteq> [] \<and> last c \<in> set (butlast c)"

definition dfs_ok :: "(string \<Rightarrow> string list) \<Rightarrow> dfs \<Rightarrow> bool" where
  "dfs_ok peers d \<longleftrightarrow> distinct (cycle d) \<and> linked peers (cycle d) \<and> (\<forall>x. state d x = OnStack \<longleftrightarrow> x \<in> set (cycle d)) \<and>
     (\<forall>a. state d a = Done \<longrightarrow> (\<forall>b \<in> set (peers a). state d b = Done) \<and> (a, a) \<notin> (graph_of peers)\<^sup>+)"

definition done_kept :: "dfs \<Rightarrow> dfs \<Rightarrow> bool" where
  "done_kept d d' \<longleftrightarrow> (\<forall>x. state d x = Done \<longrightarrow> state d' x = Done)"

lemma done_closed:
  assumes "dfs_ok peers d" "state d a = Done" "(a, b) \<in> (graph_of peers)\<^sup>*"
  shows "state d b = Done"
  using assms(3,2) by (induction rule: rtrancl_induct) (use assms(1) in \<open>auto simp: dfs_ok_def graph_of_def\<close>)

lemma finish_node:
  assumes ok: "dfs_ok peers d1" and cyc: "cycle d1 = cs @ [i]" and fin: "\<forall>b \<in> set (peers i). state d1 b = Done"
  shows "dfs_ok peers (d1\<lparr>cycle := cs, state := (state d1)(i := Done)\<rparr>)"
proof -
  have i: "state d1 i = OnStack" "i \<notin> set cs" "distinct cs" using ok cyc by (auto simp: dfs_ok_def)
  have "(i, i) \<notin> (graph_of peers)\<^sup>+"
  proof
    assume "(i, i) \<in> (graph_of peers)\<^sup>+"
    then obtain b where b: "(i, b) \<in> graph_of peers" "(b, i) \<in> (graph_of peers)\<^sup>*" by (meson tranclD)
    then have "state d1 i = Done" using done_closed [OF ok _ b(2)] fin by (simp add: graph_of_def)
    then show False using i by simp
  qed
  then show ?thesis using ok cyc i fin by (auto simp: dfs_ok_def successively_append_iff)
qed

definition entered :: "(string \<Rightarrow> string list) \<Rightarrow> string \<Rightarrow> dfs \<Rightarrow> bool" where
  "entered peers i d \<longleftrightarrow> cycle d = [] \<or> i \<in> set (peers (last (cycle d)))"

lemma enter_ok:
  assumes "dfs_ok peers d" "state d i = Unvisited" "entered peers i d"
  shows "dfs_ok peers (d\<lparr>state := (state d)(i := OnStack), cycle := cycle d @ [i]\<rparr>)"
proof -
  have "i \<notin> set (cycle d)" using assms(1,2) unfolding dfs_ok_def by (metis colour.distinct(1))
  moreover have "i \<notin> set (peers a)" if "state d a = Done" for a
    using assms(1,2) that unfolding dfs_ok_def by (metis colour.distinct(3))
  ultimately show ?thesis using assms by (auto simp: dfs_ok_def entered_def successively_append_iff)
qed

lemma visit_correct:
  "visit_node n peers i d = Some (b, d') \<Longrightarrow> dfs_ok peers d \<Longrightarrow> state d i = Unvisited \<Longrightarrow> entered peers i d \<Longrightarrow>
    (if b then closing_walk peers (cycle d')
     else dfs_ok peers d' \<and> cycle d' = cycle d \<and> state d' i = Done \<and> done_kept d d')"
  "visit_peers n peers ps d = Some (b, d') \<Longrightarrow> dfs_ok peers d \<Longrightarrow> cycle d \<noteq> [] \<Longrightarrow> set ps \<subseteq> set (peers (last (cycle d))) \<Longrightarrow>
    (if b then closing_walk peers (cycle d')
     else dfs_ok peers d' \<and> cycle d' = cycle d \<and> (\<forall>p \<in> set ps. state d' p = Done) \<and> done_kept d d')"
proof (induction n peers i d and n peers ps d arbitrary: b d' and b d' rule: visit_node_visit_peers.induct)
  case (2 n peers i d)
  let ?d = "d\<lparr>state := (state d)(i := OnStack), cycle := cycle d @ [i]\<rparr>"
  obtain c d1 where 1: "visit_peers n peers (peers i) ?d = Some (c, d1)" using 2(2) by (auto split: option.splits)
  have ok: "dfs_ok peers ?d" by (rule enter_ok [OF 2(3-5)])
  note IH = 2(1) [OF 1 ok, simplified]
  show ?case
  proof (cases c)
    case True
    then show ?thesis using IH 1 2(2) by auto
  next
    case False
    then have d1: "dfs_ok peers d1" "cycle d1 = cycle d @ [i]" "\<forall>p \<in> set (peers i). state d1 p = Done" "done_kept ?d d1"
      using IH by auto
    have "b = False" "d' = d1\<lparr>cycle := cycle d, state := (state d1)(i := Done)\<rparr>" using 2(2) 1 False d1(2) by auto
    moreover have "done_kept d d1" using d1(4) 2(4) by (auto simp: done_kept_def split: if_splits)
    ultimately show ?thesis using finish_node [OF d1(1-3)] by (auto simp: done_kept_def)
  qed
next
  case (4 n peers p ps d)
  show ?case
  proof (cases "state d p")
    case OnStack
    have "b = True" "d' = d\<lparr>cycle := cycle d @ [p]\<rparr>" using 4(4) OnStack by auto
    moreover have "p \<in> set (cycle d)" using 4(5) OnStack by (simp add: dfs_ok_def)
    ultimately show ?thesis using 4(5-7) by (auto simp: closing_walk_def successively_append_iff dfs_ok_def)
  next
    case Done
    then have "visit_peers n peers ps d = Some (b, d')" using 4(4) by simp
    from 4(3) [OF Done this 4(5,6)] show ?thesis using 4(7) Done by (auto simp: done_kept_def)
  next
    case Unvisited
    obtain c d1 where 1: "visit_node n peers p d = Some (c, d1)" using 4(4) Unvisited by (auto split: option.splits)
    have "entered peers p d" using 4(7) by (simp add: entered_def)
    note IH = 4(1) [OF Unvisited 1 4(5) Unvisited this]
    show ?thesis
    proof (cases c)
      case True
      then show ?thesis using IH 1 4(4) Unvisited by auto
    next
      case False
      then have c: "c = False" by simp
      have d1: "dfs_ok peers d1" "cycle d1 = cycle d" "state d1 p = Done" "done_kept d d1" using IH c by auto
      have "visit_peers n peers ps d1 = Some (b, d')" using 4(4) 1 Unvisited c by simp
      from 4(2) [OF Unvisited 1 refl c this d1(1)] show ?thesis
        using 4(6,7) d1 by (auto simp: done_kept_def)
    qed
  qed
qed (auto simp: done_kept_def)

lemma find_cycle_correct:
  assumes "find_cycle n peers order d = Some r" "dfs_ok peers d" "cycle d = []"
  shows "case r of Some c \<Rightarrow> closing_walk peers c
    | None \<Rightarrow> \<exists>d'. dfs_ok peers d' \<and> done_kept d d' \<and> (\<forall>i \<in> set order. state d' i = Done)"
  using assms
proof (induction n peers order d rule: find_cycle.induct)
  case (1 n peers d)
  then show ?case by (auto simp: done_kept_def)
next
  case (2 n peers i order d)
  have d: "d\<lparr>cycle := []\<rparr> = d" using 2(5) by simp
  show ?case
  proof (cases "state d i = Unvisited")
    case False
    then have "state d i = Done" using 2(4,5) by (cases "state d i") (auto simp: dfs_ok_def)
    then show ?thesis using 2(1) [OF False] 2(3-5) False by (fastforce simp: done_kept_def split: option.splits)
  next
    case True
    obtain c d1 where 1: "visit_node n peers i d = Some (c, d1)" using 2(3) True d by (auto split: option.splits)
    have "entered peers i d" using 2(5) by (simp add: entered_def)
    note v = visit_correct(1) [OF 1 2(4) True this]
    show ?thesis
    proof (cases c)
      case True
      then show ?thesis using v 1 2(3) d \<open>state d i = Unvisited\<close> by auto
    next
      case False
      then have c: "c = False" by simp
      have d1: "dfs_ok peers d1" "cycle d1 = []" "state d1 i = Done" "done_kept d d1" using v c 2(5) by auto
      have again: "visit_node n peers i (d\<lparr>cycle := []\<rparr>) = Some (False, d1)" "\<not> state d i \<noteq> Unvisited" using 1 True c d by simp_all
      have "find_cycle n peers order d1 = Some r" using 2(3) 1 True c d by simp
      from 2(2) [OF again(2,1) refl refl this d1(1,2)] show ?thesis
        using d1(3,4) by (fastforce simp: done_kept_def split: option.splits)
    qed
  qed
qed

lemma closing_walk_cycle:
  assumes "closing_walk peers c"
  shows "(last c, last c) \<in> (graph_of peers)\<^sup>+"
proof -
  have c: "c = butlast c @ [last c]" using assms by (simp add: closing_walk_def)
  obtain pre mid where m: "butlast c = pre @ last c # mid" using assms by (auto simp: closing_walk_def in_set_conv_decomp)
  have "linked peers (pre @ last c # mid @ [last c])" using assms c m unfolding closing_walk_def by (metis append.assoc append_Cons)
  then have "linked peers (last c # mid @ [last c])" by (auto simp: successively_append_iff)
  moreover have "linked peers (x # ys @ [z]) \<Longrightarrow> (x, z) \<in> (graph_of peers)\<^sup>+" for x ys z
    by (induction ys arbitrary: x) (auto simp: graph_of_def intro: trancl_into_trancl2)
  ultimately show ?thesis by blast
qed

text \<open>The constraints a plan states, as a relation on ids.\<close>

definition differs_from :: "(string \<times> Step) list \<Rightarrow> (string \<times> string) set" where
  "differs_from calls = {(i, peer). peer \<noteq> [] \<and> peer \<noteq> i \<and>
     (\<exists>step m. (i, step) \<in> set calls \<and> step_Metadata step = Some m \<and> peer \<in> TrimSpace ` set (elems (meta_DifferentFrom m)))}"

lemma graph_of_peers: "graph_of (peers_of calls) = differs_from calls"
proof -
  have "peer \<in> set (peers_of calls i) \<longleftrightarrow> (i, peer) \<in> differs_from calls" for i peer
  proof -
    have stated: "peer \<in> TrimSpace ` set (IndependencePeers md) \<longleftrightarrow> (\<exists>m. md = Some m \<and> peer \<in> TrimSpace ` set (elems (meta_DifferentFrom m)))" for md
      by (cases md) (auto simp: IndependencePeers_def)
    have "peer \<in> set (peers_of calls i) \<longleftrightarrow> peer \<noteq> [] \<and> peer \<noteq> i \<and>
        (\<exists>step. (i, step) \<in> set calls \<and> peer \<in> TrimSpace ` set (IndependencePeers (step_Metadata step)))"
      unfolding peers_of_def by (fastforce split: if_splits)
    also have "\<dots> \<longleftrightarrow> (i, peer) \<in> differs_from calls"
      unfolding differs_from_def stated by auto
    finally show ?thesis .
  qed
  then show ?thesis by (auto simp: graph_of_def)
qed

lemma acyclic_check:
  assumes "validateDifferentFromAcyclic calls = Some fs"
  shows "(fs = [] \<and> acyclic (differs_from calls)) \<or>
    (\<exists>c. fs = [PeerCycle c] \<and> successively (\<lambda>a b. (a, b) \<in> differs_from calls) c \<and> c \<noteq> [] \<and> last c \<in> set (butlast c) \<and> \<not> acyclic (differs_from calls))"
proof -
  let ?d = "\<lparr>state = (\<lambda>_. Unvisited), cycle = []\<rparr>"
  obtain r where r: "find_cycle (Suc (length (visit_universe calls))) (peers_of calls) (map fst calls) ?d = Some r"
    "fs = (case r of None \<Rightarrow> [] | Some c \<Rightarrow> [PeerCycle c])"
    using assms by (auto simp: validateDifferentFromAcyclic_def)
  have ok: "dfs_ok (peers_of calls) ?d" by (simp add: dfs_ok_def)
  note res = find_cycle_correct [OF r(1) ok, simplified]
  have link: "linked (peers_of calls) = successively (\<lambda>a b. (a, b) \<in> differs_from calls)"
    unfolding graph_of_peers [symmetric] by (simp add: graph_of_def)
  show ?thesis
  proof (cases r)
    case (Some c)
    then have walk: "closing_walk (peers_of calls) c" using res by simp
    then have "(last c, last c) \<in> (differs_from calls)\<^sup>+" using closing_walk_cycle graph_of_peers by metis
    then have "\<not> acyclic (differs_from calls)" by (auto simp: acyclic_def)
    then show ?thesis using r(2) Some walk unfolding closing_walk_def link by simp
  next
    case None
    then obtain d' where d': "dfs_ok (peers_of calls) d'" "\<forall>i \<in> set (map fst calls). state d' i = Done" using res by auto
    have "(x, x) \<notin> (differs_from calls)\<^sup>+" for x
    proof
      assume x: "(x, x) \<in> (differs_from calls)\<^sup>+"
      then obtain y where "(x, y) \<in> differs_from calls" by (meson tranclD)
      then have "x \<in> set (map fst calls)" by (force simp: differs_from_def)
      then show False using d' x unfolding graph_of_peers [symmetric] by (auto simp: dfs_ok_def)
    qed
    then show ?thesis using r(2) None by (simp add: acyclic_def)
  qed
qed

text \<open>\<^bold>\<open>C37.\<close> The independence check is exact.  \<open>validateDifferentFrom\<close> has nothing to report exactly when every
  entry of every \<open>differentFrom\<close> list names, up to surrounding space, another step of the plan and the
  constraints form no cycle; a cycle it reports is a walk along constraints that ends where it has
  been before.\<close>

theorem independence_check_exact:
  "let calls = walkPlanSteps 0 (Groups p) [] in
   (validateDifferentFrom p = Some [] \<longleftrightarrow>
      list_all (\<lambda>(i, step). list_all (\<lambda>raw. TrimSpace raw \<noteq> i \<and> TrimSpace raw \<noteq> [] \<and> TrimSpace raw \<in> set (map fst calls))
        (case step_Metadata step of None \<Rightarrow> [] | Some m \<Rightarrow> elems (meta_DifferentFrom m))) calls \<and>
      acyclic (differs_from calls)) \<and>
   (case validateDifferentFrom p of None \<Rightarrow> False
    | Some findings \<Rightarrow> list_all (\<lambda>f. case f of
          PeerCycle c \<Rightarrow> successively (\<lambda>a b. (a, b) \<in> differs_from calls) c \<and> c \<noteq> [] \<and> last c \<in> set (butlast c)
        | _ \<Rightarrow> True) findings)"
proof -
  let ?calls = "walkPlanSteps 0 (Groups p) []"
  obtain findings where all: "validateDifferentFrom p = Some findings" using check_total by blast
  then obtain cyc where cyc: "validateDifferentFromAcyclic ?calls = Some cyc" "findings = reference_findings ?calls @ cyc"
    by (auto simp: validateDifferentFrom_def Let_def)
  have none: "List.map_filter f xs = [] \<longleftrightarrow> list_all (\<lambda>x. f x = None) xs" for f :: "string \<Rightarrow> plan_finding option" and xs
    by (induction xs) (auto simp: List.map_filter_def)
  have peer_none: "peer_finding known i raw = None \<longleftrightarrow> TrimSpace raw \<noteq> i \<and> TrimSpace raw \<noteq> [] \<and> TrimSpace raw \<in> set known" for known i raw
    by (auto simp: peer_finding_def Let_def)
  have refs: "reference_findings ?calls = [] \<longleftrightarrow>
      list_all (\<lambda>(i, step). list_all (\<lambda>raw. TrimSpace raw \<noteq> i \<and> TrimSpace raw \<noteq> [] \<and> TrimSpace raw \<in> set (map fst ?calls))
        (case step_Metadata step of None \<Rightarrow> [] | Some m \<Rightarrow> elems (meta_DifferentFrom m))) ?calls"
    by (simp add: reference_findings_def none peer_none IndependencePeers_def list_all_iff case_prod_unfold)
  have "f \<noteq> PeerCycle c" if "f \<in> set (reference_findings ?calls)" for f c
    using that by (auto simp: reference_findings_def List.map_filter_def peer_finding_def Let_def split: if_splits)
  then have walks: "list_all (\<lambda>f. case f of
      PeerCycle c \<Rightarrow> successively (\<lambda>a b. (a, b) \<in> differs_from ?calls) c \<and> c \<noteq> [] \<and> last c \<in> set (butlast c) | _ \<Rightarrow> True) findings"
    using acyclic_check [OF cyc(1)] cyc(2) by (auto simp: list_all_iff split: plan_finding.split)
  show ?thesis
    using acyclic_check [OF cyc(1)] cyc(2) refs walks unfolding Let_def all by auto
qed

end
