(* ===== verification/Plan_Parse.thy ===== *)
theory Plan_Parse
  imports Plan_Metadata Plan_Validate
begin

text \<open>
  The plan grammar on the Markdown syntax tree (\<open>internal/plan/parse.go\<close> and the rest of
  \<open>validate.go\<close>).  The tree itself comes from the goldmark package: \<open>node\<close> has what the code reads off
  goldmark's nodes, and the function from source text to the children of the document node is the
  parameter \<open>markdown\<close>.  Inline nodes never matter to the code and are left out.
\<close>

section \<open>The tree\<close>

text \<open>A heading carries its level, the text of its lines and the source offset of its first line; a list
  whether it is ordered, and its items; a paragraph or text block the text of each line; a fenced
  block its language and lines.\<close>

datatype node =
    HeadingNode nat string int
  | ListNode bool "node list"
  | ItemNode "node list"
  | ParagraphNode "string list"
  | TextBlockNode "string list"
  | FencedNode string "string list"
  | OtherNode "node list"

type_synonym markdown = "string \<Rightarrow> node list"

definition is_heading :: "node \<Rightarrow> bool" where
  "is_heading n = (case n of HeadingNode _ _ _ \<Rightarrow> True | _ \<Rightarrow> False)"

definition normalizeSource :: "string \<Rightarrow> string" where
  "normalizeSource md = (if md = [] \<or> last md \<noteq> CHR 0x0A then md @ [CHR 0x0A] else md)"

text \<open>\<open>Lines().Value\<close> is the concatenation of the segments.\<close>

fun linesOf :: "node \<Rightarrow> string list option" where
  "linesOf (ParagraphNode ls) = Some ls"
| "linesOf (TextBlockNode ls) = Some ls"
| "linesOf n = None"

fun children :: "node \<Rightarrow> node list" where
  "children (ListNode _ ns) = ns"
| "children (ItemNode ns) = ns"
| "children (OtherNode ns) = ns"
| "children n = []"

definition listItemText :: "node \<Rightarrow> string" where
  "listItemText item = join_with '' '' (filter (\<lambda>t. t \<noteq> [])
     (concat (map (\<lambda>n. case linesOf n of None \<Rightarrow> [] | Some ls \<Rightarrow> map TrimSpace ls) (children item))))"

definition taskMetadataLanguage :: string where
  "taskMetadataLanguage = ''ralph-task''"

text \<open>\<open>ast.Walk\<close> is a preorder traversal.\<close>

fun metadata_blocks :: "node \<Rightarrow> string list" where
  "metadata_blocks (FencedNode lang ls) = (if lang = taskMetadataLanguage then [concat ls] else [])"
| "metadata_blocks (ListNode _ ns) = concat (map metadata_blocks ns)"
| "metadata_blocks (ItemNode ns) = concat (map metadata_blocks ns)"
| "metadata_blocks (OtherNode ns) = concat (map metadata_blocks ns)"
| "metadata_blocks n = []"

section \<open>Steps\<close>

definition approvalMarker :: string where
  "approvalMarker = ''[approval]''"

definition lower :: "char \<Rightarrow> char" where
  "lower c = (if CHR ''A'' \<le> c \<and> c \<le> CHR ''Z'' then char_of (of_char c + 32 :: nat) else c)"

text \<open>\<open>strings.EqualFold\<close> against the ASCII marker, whose letters have no other folding partner: none of
  them is \<open>k\<close> or \<open>s\<close>.\<close>

definition parseStepMarkers :: "string \<Rightarrow> string \<times> bool" where
  "parseStepMarkers txt =
    (let trimmed = TrimSpace txt; n = length trimmed - length approvalMarker in
     if length trimmed \<ge> length approvalMarker \<and> map lower (drop n trimmed) = approvalMarker
     then (TrimSpace (take n trimmed), True) else (trimmed, False))"

datatype parse_error = StepMetadata string metadata_error

fun parse_items :: "node list \<Rightarrow> parse_error + Step list" where
  "parse_items [] = Inr []"
| "parse_items (item # items) =
    (let (txt, requiresApproval) = parseStepMarkers (listItemText item) in
     case parseTaskMetadataBlock (metadata_blocks item) of
       Inl e \<Rightarrow> Inl (StepMetadata txt e)
     | Inr m \<Rightarrow> (case parse_items items of Inl e \<Rightarrow> Inl e
         | Inr steps \<Rightarrow> Inr (\<lparr>step_Text = txt, step_Detail = [], step_RequiresApproval = requiresApproval, step_Metadata = m\<rparr> # steps)))"

text \<open>The loop over the section; \<open>sawList\<close> and \<open>parallel\<close> are \<open>flag\<close>: the first list decides.\<close>

fun leaf_loop :: "node list \<Rightarrow> bool option \<Rightarrow> Step list \<Rightarrow> string list \<Rightarrow> parse_error + (Step list \<times> bool option \<times> string list)" where
  "leaf_loop [] flag steps details = Inr (steps, flag, details)"
| "leaf_loop (n # ns) flag steps details = (case n of
     ListNode ordered items \<Rightarrow>
       (case parse_items items of
          Inl e \<Rightarrow> Inl e
        | Inr new_steps \<Rightarrow> leaf_loop ns (if flag = None then Some (\<not> ordered) else flag) (steps @ new_steps) details)
   | ParagraphNode ls \<Rightarrow>
       leaf_loop ns flag steps (if TrimSpace (concat ls) \<noteq> [] then details @ [TrimSpace (concat ls)] else details)
   | _ \<Rightarrow> leaf_loop ns flag steps details)"

definition parseLeafSection :: "node list \<Rightarrow> parse_error + (Step list \<times> bool)" where
  "parseLeafSection ns = (case leaf_loop ns None [] [] of
     Inl e \<Rightarrow> Inl e
   | Inr (steps, flag, details) \<Rightarrow>
       Inr (if details \<noteq> [] then map (\<lambda>s. s\<lparr>step_Detail := join_with [CHR 0x0A, CHR 0x0A] details\<rparr>) steps else steps, flag = Some True))"

section \<open>Groups\<close>

definition ends_section :: "nat \<Rightarrow> node \<Rightarrow> bool" where
  "ends_section level n = (case n of HeadingNode l _ _ \<Rightarrow> l \<le> level | _ \<Rightarrow> False)"

text \<open>Siblings after a heading: \<open>findSectionEnd\<close> is what is left from the next heading of the same level or
  above, \<open>section\<close> what lies before it.\<close>

definition findSectionEnd :: "nat \<Rightarrow> node list \<Rightarrow> node list" where
  "findSectionEnd level ns = dropWhile (\<lambda>n. \<not> ends_section level n) ns"

definition section_body :: "nat \<Rightarrow> node list \<Rightarrow> node list" where
  "section_body level ns = takeWhile (\<lambda>n. \<not> ends_section level n) ns"

definition hasSubheading :: "node list \<Rightarrow> bool" where
  "hasSubheading body = list_ex is_heading body"

lemma length_sectionEnd: "length (findSectionEnd level ns) \<le> length ns"
  by (simp add: findSectionEnd_def length_dropWhile_le)

text \<open>\<open>parseSiblingHeadings\<close> with \<open>buildGroup\<close>; a child scan runs on the sibling chain and stops at the first
  heading that is not below its parent.\<close>

function parseSiblingHeadings :: "node list \<Rightarrow> nat \<Rightarrow> parse_error + Group list" where
  "parseSiblingHeadings [] parentLevel = Inr []"
| "parseSiblingHeadings (n # ns) parentLevel = (case n of
     HeadingNode level heading off \<Rightarrow>
       if level \<le> parentLevel then Inr []
       else
         (case (if hasSubheading (section_body level ns)
                then (case parseSiblingHeadings ns level of
                        Inl e \<Rightarrow> Inl e | Inr subs \<Rightarrow> Inr (Group (TrimSpace heading) level False [] subs))
                else (case parseLeafSection (section_body level ns) of
                        Inl e \<Rightarrow> Inl e | Inr (steps, par) \<Rightarrow> Inr (Group (TrimSpace heading) level par steps []))) of
            Inl e \<Rightarrow> Inl e
          | Inr g \<Rightarrow> (case parseSiblingHeadings (findSectionEnd level ns) parentLevel of
              Inl e \<Rightarrow> Inl e | Inr gs \<Rightarrow> Inr (g # gs)))
   | _ \<Rightarrow> parseSiblingHeadings ns parentLevel)"
  by pat_completeness auto
termination
  by (relation "measure (\<lambda>(ns, _). length ns)") (auto simp: le_imp_less_Suc length_sectionEnd)

definition Parse :: "markdown \<Rightarrow> string \<Rightarrow> parse_error + PlanDoc" where
  "Parse markdown md = (case parseSiblingHeadings (markdown (normalizeSource md)) 0 of
     Inl e \<Rightarrow> Inl e | Inr gs \<Rightarrow> Inr \<lparr>Groups = gs\<rparr>)"

section \<open>Findings\<close>

text \<open>The line of a finding: one more than the line feeds before the offset, 0 where there is no offset.\<close>

definition lineOf :: "int \<Rightarrow> string \<Rightarrow> nat" where
  "lineOf off source = (if off < 0 then 0 else Suc (length (filter (\<lambda>c. c = CHR 0x0A) (take (nat off) source))))"

definition lists_of :: "node list \<Rightarrow> bool list" where
  "lists_of ns = List.map_filter (\<lambda>n. case n of ListNode ordered _ \<Rightarrow> Some ordered | _ \<Rightarrow> None) ns"

fun leading_paragraph :: "node list \<Rightarrow> bool" where
  "leading_paragraph [] = False"
| "leading_paragraph (n # ns) = (case n of
     ListNode _ _ \<Rightarrow> False
   | ParagraphNode ls \<Rightarrow> concat ls \<noteq> [] \<or> leading_paragraph ns
   | _ \<Rightarrow> leading_paragraph ns)"

definition validateLeafSection :: "string \<Rightarrow> nat \<Rightarrow> node list \<Rightarrow> (nat \<times> plan_finding) list" where
  "validateLeafSection htext line ns =
    (let lists = lists_of ns in
     if lists = [] then [(line, NoStepsInGroup htext)]
     else (if leading_paragraph ns then [(line, ParagraphBeforeList htext)] else []) @
       (if length lists > 1 \<and> True \<in> set lists \<and> False \<in> set lists then [(line, MixedLists htext)] else []))"

function validateSiblingHeadings :: "string \<Rightarrow> node list \<Rightarrow> nat \<Rightarrow> (nat \<times> plan_finding) list" where
  "validateSiblingHeadings source [] parentLevel = []"
| "validateSiblingHeadings source (n # ns) parentLevel = (case n of
     HeadingNode level heading off \<Rightarrow>
       if level \<le> parentLevel then []
       else (if hasSubheading (section_body level ns) then validateSiblingHeadings source ns level
             else validateLeafSection (TrimSpace heading) (lineOf off source) (section_body level ns)) @
         validateSiblingHeadings source (findSectionEnd level ns) parentLevel
   | _ \<Rightarrow> validateSiblingHeadings source ns parentLevel)"
  by pat_completeness auto
termination
  by (relation "measure (\<lambda>(_, ns, _). length ns)") (auto simp: le_imp_less_Suc length_sectionEnd)

definition Validate :: "markdown \<Rightarrow> string \<Rightarrow> (nat \<times> plan_finding) list" where
  "Validate markdown md =
    (let source = normalizeSource md in validateSiblingHeadings source (markdown source) 0)"

datatype import_refusal = Findings "(nat \<times> plan_finding) list" | Unparsable parse_error

text \<open>\<open>None\<close> is acceptance.  Findings about the whole document have line 0.\<close>

definition ValidateForImport :: "markdown \<Rightarrow> string \<Rightarrow> import_refusal option" where
  "ValidateForImport markdown md =
    (if TrimSpace md = [] then Some (Findings [(0, EmptyMarkdown)])
     else if Validate markdown md \<noteq> [] then Some (Findings (Validate markdown md))
     else case Parse markdown md of
       Inl e \<Rightarrow> Some (Unparsable e)
     | Inr p \<Rightarrow>
         if countPlanSteps (Groups p) = 0 then Some (Findings [(0, PlanHasNoSteps)])
         else (case validateDifferentFrom p of
           None \<Rightarrow> None
         | Some fs \<Rightarrow> if fs \<noteq> [] then Some (Findings (map (Pair 0) fs)) else None))"

end
