(* ===== verification/Plan_Parse_Laws.thy ===== *)
theory Plan_Parse_Laws
  imports Plan_Parse Plan_Metadata_Laws
begin

text \<open>
  What the parser makes of a document, and what the absence of findings adds.  The leaf sections of
  a tree are collected by the same walk that \<open>Parse\<close> and \<open>Validate\<close> make; both are then statements
  about one section at a time.
\<close>

section \<open>The leaf sections\<close>

text \<open>Heading, offset and body of every heading without subheadings, in document order.\<close>

function leaf_sections :: "node list \<Rightarrow> nat \<Rightarrow> (string \<times> int \<times> node list) list" where
  "leaf_sections [] parentLevel = []"
| "leaf_sections (n # ns) parentLevel = (case n of
     HeadingNode level heading off \<Rightarrow>
       if level \<le> parentLevel then []
       else (if hasSubheading (section_body level ns) then leaf_sections ns level
             else [(TrimSpace heading, off, section_body level ns)]) @ leaf_sections (findSectionEnd level ns) parentLevel
   | _ \<Rightarrow> leaf_sections ns parentLevel)"
  by pat_completeness auto
termination
  by (relation "measure (\<lambda>(ns, _). length ns)") (auto simp: le_imp_less_Suc length_sectionEnd)

fun leaf_groups :: "Group list \<Rightarrow> Group list" where
  "leaf_groups [] = []"
| "leaf_groups (Group h l par steps subs # gs) =
    (if subs = [] then [Group h l par steps subs] else leaf_groups subs) @ leaf_groups gs"

definition section_items :: "node list \<Rightarrow> node list" where
  "section_items ns = concat (map (\<lambda>n. case n of ListNode _ items \<Rightarrow> items | _ \<Rightarrow> []) ns)"

lemma validate_sections:
  "validateSiblingHeadings source ns parentLevel =
    concat (map (\<lambda>(h, off, body). validateLeafSection h (lineOf off source) body) (leaf_sections ns parentLevel))"
  by (induction source ns parentLevel rule: validateSiblingHeadings.induct) (auto split: node.split)

section \<open>Steps of a section\<close>

definition item_text :: "node \<Rightarrow> string" where
  "item_text item = fst (parseStepMarkers (listItemText item))"

text \<open>What the decoder guarantees of the metadata of a step.\<close>

definition step_ok :: "Step \<Rightarrow> bool" where
  "step_ok s = (case step_Metadata s of None \<Rightarrow> True
     | Some m \<Rightarrow> metadata_ok m \<and> meta_ID m \<noteq> [] \<and> rejectPaddedTaskIDs m = None)"

lemma parsed_step_ok:
  assumes "parseTaskMetadataBlock blocks = Inr m"
  shows "step_ok \<lparr>step_Text = t, step_Detail = d, step_RequiresApproval = a, step_Metadata = m\<rparr>"
proof (cases m)
  case (Some m')
  then obtain raw where "decode_block raw = Inr m'"
    using assms by (auto simp: parseTaskMetadataBlock_def split: list.splits sum.splits)
  then show ?thesis using Some decode_block_Inr [of raw m'] by (simp add: step_ok_def)
qed (simp add: step_ok_def)

abbreviation fresh_step :: "Step \<Rightarrow> bool" where
  "fresh_step s \<equiv> step_ok s \<and> step_Detail s = []"

lemma parse_items_steps:
  assumes "parse_items items = Inr steps"
  shows "map step_Text steps = map item_text items" "list_all fresh_step steps"
  using assms
proof (induction items arbitrary: steps)
  case (Cons item items)
  {
    case 1
    then show ?case using Cons.IH(1) by (auto simp: item_text_def split: prod.splits sum.splits)
  next
    case 2
    then obtain t a m steps' where "parseTaskMetadataBlock (metadata_blocks item) = Inr m" "parse_items items = Inr steps'"
      "steps = \<lparr>step_Text = t, step_Detail = [], step_RequiresApproval = a, step_Metadata = m\<rparr> # steps'"
      by (auto split: prod.splits sum.splits)
    then show ?case using Cons.IH(2) [of steps'] parsed_step_ok by simp
  }
qed auto

lemma section_items_Cons:
  "section_items (n # ns) = (case n of ListNode _ items \<Rightarrow> items | _ \<Rightarrow> []) @ section_items ns"
  by (simp add: section_items_def)

lemma lists_of_Nil [simp]: "lists_of [] = []"
  by (simp add: lists_of_def List.map_filter_def)

lemma lists_of_Cons: "lists_of (n # ns) = (case n of ListNode l _ \<Rightarrow> [l] | _ \<Rightarrow> []) @ lists_of ns"
  by (simp add: lists_of_def List.map_filter_def split: node.split)

text \<open>One node of a leaf section.\<close>

lemma leaf_loop_Cons:
  assumes "leaf_loop (n # ns) flag steps details = Inr r"
  obtains (list) l items new where "n = ListNode l items" "parse_items items = Inr new"
      "leaf_loop ns (if flag = None then Some (\<not> l) else flag) (steps @ new) details = Inr r"
    | (other) details' where "\<And>l items. n \<noteq> ListNode l items" "leaf_loop ns flag steps details' = Inr r"
  using assms by (cases n) (auto split: sum.splits if_splits)

lemma leaf_loop_Inr:
  assumes "leaf_loop ns flag steps details = Inr (steps', flag', details')"
  shows "map step_Text steps' = map step_Text steps @ map item_text (section_items ns)"
    and "list_all fresh_step steps \<Longrightarrow> list_all fresh_step steps'"
    and "flag' = (case flag of Some f \<Rightarrow> Some f | None \<Rightarrow> (case lists_of ns of [] \<Rightarrow> None | l # _ \<Rightarrow> Some (\<not> l)))"
proof -
  have "map step_Text steps' = map step_Text steps @ map item_text (section_items ns) \<and>
      (list_all fresh_step steps \<longrightarrow> list_all fresh_step steps') \<and>
      flag' = (case flag of Some f \<Rightarrow> Some f | None \<Rightarrow> (case lists_of ns of [] \<Rightarrow> None | l # _ \<Rightarrow> Some (\<not> l)))"
    using assms
  proof (induction ns arbitrary: flag steps details)
    case Nil
    then show ?case by (auto simp: section_items_def lists_of_def List.map_filter_def split: option.split)
  next
    case (Cons n ns)
    from Cons.prems show ?case
    proof (cases rule: leaf_loop_Cons)
      case (list l items new)
      from Cons.IH [OF list(3)] parse_items_steps [OF list(2)] show ?thesis
        by (cases flag) (simp_all add: section_items_Cons lists_of_Cons list(1))
    next
      case (other details')
      have "section_items (n # ns) = section_items ns" "lists_of (n # ns) = lists_of ns"
        using other(1) by (simp_all add: section_items_Cons lists_of_Cons split: node.split)
      then show ?thesis using Cons.IH [OF other(2)] by metis
    qed
  qed
  then show "map step_Text steps' = map step_Text steps @ map item_text (section_items ns)"
    and "list_all fresh_step steps \<Longrightarrow> list_all fresh_step steps'"
    and "flag' = (case flag of Some f \<Rightarrow> Some f | None \<Rightarrow> (case lists_of ns of [] \<Rightarrow> None | l # _ \<Rightarrow> Some (\<not> l)))"
    by blast+
qed

lemma parseLeafSection_Inr:
  assumes "parseLeafSection ns = Inr (steps, par)"
  shows "map step_Text steps = map item_text (section_items ns)" "list_all step_ok steps"
    and "par = (case lists_of ns of [] \<Rightarrow> False | l # _ \<Rightarrow> \<not> l)"
    and "\<exists>detail. list_all (\<lambda>s. step_Detail s = detail) steps"
proof -
  obtain steps' flag details where loop: "leaf_loop ns None [] [] = Inr (steps', flag, details)"
    and steps: "steps = (if details \<noteq> [] then map (\<lambda>s. s\<lparr>step_Detail := join_with [CHR 0x0A, CHR 0x0A] details\<rparr>) steps' else steps')"
    and par: "par = (flag = Some True)"
    using assms by (auto simp: parseLeafSection_def split: sum.splits)
  note facts = leaf_loop_Inr [OF loop]
  have fresh: "list_all fresh_step steps'" using facts(2) by simp
  show "map step_Text steps = map item_text (section_items ns)" using facts(1) by (simp add: steps o_def)
  show "list_all step_ok steps" using fresh by (auto simp: steps list_all_iff step_ok_def)
  show "par = (case lists_of ns of [] \<Rightarrow> False | l # _ \<Rightarrow> \<not> l)" using facts(3) by (simp add: par split: list.split)
  show "\<exists>detail. list_all (\<lambda>s. step_Detail s = detail) steps"
    using fresh by (cases "details = []") (auto simp: steps list_all_iff)
qed

section \<open>Groups of a document\<close>

text \<open>A heading is below its parent; it has subheadings or steps, not both; the steps of a leaf share the
  paragraphs of their section and their metadata is what the decoder accepts.\<close>

fun wf_groups :: "nat \<Rightarrow> Group list \<Rightarrow> bool" where
  "wf_groups parentLevel [] = True"
| "wf_groups parentLevel (Group h l par steps subs # gs) =
    (parentLevel < l \<and> (subs = [] \<or> steps = [] \<and> \<not> par) \<and> list_all step_ok steps \<and>
     list_all (\<lambda>s. step_Detail s = step_Detail (hd steps)) steps \<and> wf_groups l subs \<and> wf_groups parentLevel gs)"

text \<open>One heading of the scan.\<close>

lemma parseSiblingHeadings_Cons:
  assumes "parseSiblingHeadings (n # ns) pl = Inr gs"
  obtains (skip) "\<And>l h off. n \<noteq> HeadingNode l h off" "parseSiblingHeadings ns pl = Inr gs"
    | (closed) l h off where "n = HeadingNode l h off" "l \<le> pl" "gs = []"
    | (branch) l h off subs rest where "n = HeadingNode l h off" "pl < l" "hasSubheading (section_body l ns)"
        "parseSiblingHeadings ns l = Inr subs" "parseSiblingHeadings (findSectionEnd l ns) pl = Inr rest"
        "gs = Group (TrimSpace h) l False [] subs # rest"
    | (leaf) l h off steps par rest where "n = HeadingNode l h off" "pl < l" "\<not> hasSubheading (section_body l ns)"
        "parseLeafSection (section_body l ns) = Inr (steps, par)" "parseSiblingHeadings (findSectionEnd l ns) pl = Inr rest"
        "gs = Group (TrimSpace h) l par steps [] # rest"
  using assms by (cases n) (auto split: sum.splits if_splits prod.splits)

lemma parsed_groups_wf: "parseSiblingHeadings ns pl = Inr gs \<Longrightarrow> wf_groups pl gs"
proof (induction ns pl arbitrary: gs rule: parseSiblingHeadings.induct)
  case (2 n ns pl)
  from "2.prems" show ?case
  proof (cases rule: parseSiblingHeadings_Cons)
    case skip
    then show ?thesis using 2 by (cases n) auto
  next
    case (branch l h off subs rest)
    then show ?thesis using "2.IH"(1) [of l h off] "2.IH"(2) [of l h off] by simp
  next
    case (leaf l h off steps par rest)
    obtain detail where "list_all (\<lambda>s. step_Detail s = detail) steps" using parseLeafSection_Inr(4) [OF leaf(4)] by blast
    then have "list_all (\<lambda>s. step_Detail s = step_Detail (hd steps)) steps" by (cases steps) auto
    then show ?thesis using "2.IH"(2) [of l h off] leaf parseLeafSection_Inr(2) [OF leaf(4)] by simp
  qed simp
qed simp

text \<open>\<^bold>\<open>C39.\<close> What the parser returns is a plan.  Every heading of the result lies strictly below its parent, has
  either subheadings or steps, only a heading with steps is parallel, the steps of one heading carry
  the same detail, and the metadata of every step has an id and no padded id.\<close>

theorem parsed_plan_well_formed:
  "case Parse markdown md of Inl e \<Rightarrow> True | Inr p \<Rightarrow> wf_groups 0 (Groups p)"
  by (auto simp: Parse_def intro: parsed_groups_wf split: sum.split)

lemma branch_not_empty:
  "parseSiblingHeadings ns pl = Inr gs \<Longrightarrow> list_ex is_heading (section_body pl ns) \<Longrightarrow> gs \<noteq> []"
proof (induction ns arbitrary: gs)
  case (Cons n ns)
  from Cons.prems(1) show ?case
  proof (cases rule: parseSiblingHeadings_Cons)
    case skip
    then have "\<not> is_heading n" "\<not> ends_section pl n" by (auto simp: is_heading_def ends_section_def split: node.splits)
    then show ?thesis using Cons skip(2) by (simp add: section_body_def)
  next
    case (closed l h off)
    then show ?thesis using Cons.prems(2) by (simp add: section_body_def ends_section_def)
  qed simp_all
qed (simp add: section_body_def)

text \<open>The leaves of the parsed document are its leaf sections, one by one and in order.\<close>

definition leaf_of_section :: "string \<times> int \<times> node list \<Rightarrow> Group \<Rightarrow> bool" where
  "leaf_of_section s g = (case s of (heading, off, body) \<Rightarrow>
     Heading g = heading \<and> parseLeafSection body = Inr (Steps g, Parallel g))"

lemma leaves_of_sections:
  "parseSiblingHeadings ns pl = Inr gs \<Longrightarrow> list_all2 leaf_of_section (leaf_sections ns pl) (leaf_groups gs)"
proof (induction ns pl arbitrary: gs rule: parseSiblingHeadings.induct)
  case (2 n ns pl)
  from "2.prems" show ?case
  proof (cases rule: parseSiblingHeadings_Cons)
    case skip
    then show ?thesis using 2 by (cases n) auto
  next
    case (branch l h off subs rest)
    have "list_ex is_heading (section_body l ns)" using branch(3) by (simp add: hasSubheading_def)
    then have "subs \<noteq> []" by (rule branch_not_empty [OF branch(4)])
    moreover have "list_all2 leaf_of_section (leaf_sections ns l) (leaf_groups subs)"
      using "2.IH"(1) [of l h off] branch by simp
    moreover have "list_all2 leaf_of_section (leaf_sections (findSectionEnd l ns) pl) (leaf_groups rest)"
      using "2.IH"(2) [of l h off] branch by simp
    ultimately show ?thesis using branch by (simp add: list_all2_appendI)
  next
    case (leaf l h off steps par rest)
    then show ?thesis using "2.IH"(2) [of l h off] by (simp add: leaf_of_section_def)
  qed simp
qed simp

lemma no_findings_lists:
  assumes "validateLeafSection h line body = []"
  shows "lists_of body \<noteq> []" "set (lists_of body) \<noteq> {True, False}"
proof -
  show ne: "lists_of body \<noteq> []" using assms by (auto simp: validateLeafSection_def Let_def)
  have "\<not> (True \<in> set (lists_of body) \<and> False \<in> set (lists_of body))"
  proof
    assume both: "True \<in> set (lists_of body) \<and> False \<in> set (lists_of body)"
    then have "length (lists_of body) > 1" by (cases "lists_of body" rule: remdups_adj.cases) auto
    then show False using assms ne both by (simp add: validateLeafSection_def Let_def split: if_splits)
  qed
  then show "set (lists_of body) \<noteq> {True, False}" by auto
qed

text \<open>\<^bold>\<open>C40.\<close> A document without findings has one reading.  If \<open>Validate\<close> reports nothing and \<open>Parse\<close> succeeds,
  then the leaf headings of the plan are, in order, the headings without subheadings of the
  document; each of their sections has a list; its steps are the items of all its lists, in order;
  and it is parallel exactly if all its lists are unordered, sequential exactly if all are
  ordered.\<close>

theorem validated_plan_unambiguous:
  assumes "Validate markdown md = []" "Parse markdown md = Inr p"
  shows "list_all2 (\<lambda>(heading, off, body) g.
      Heading g = heading \<and> lists_of body \<noteq> [] \<and>
      map step_Text (Steps g) = map item_text (section_items body) \<and>
      (Parallel g \<longleftrightarrow> True \<notin> set (lists_of body)) \<and> (\<not> Parallel g \<longleftrightarrow> False \<notin> set (lists_of body)))
    (leaf_sections (markdown (normalizeSource md)) 0) (leaf_groups (Groups p))"
proof -
  let ?ns = "markdown (normalizeSource md)"
  have "parseSiblingHeadings ?ns 0 = Inr (Groups p)"
    using assms(2) by (auto simp: Parse_def split: sum.splits)
  note leaves = leaves_of_sections [OF this]
  have quiet: "validateLeafSection h (lineOf off (normalizeSource md)) body = []" if "(h, off, body) \<in> set (leaf_sections ?ns 0)" for h off body
    using assms(1) that unfolding Validate_def Let_def validate_sections by fastforce
  have "Heading g = h \<and> lists_of body \<noteq> [] \<and> map step_Text (Steps g) = map item_text (section_items body) \<and>
      (Parallel g \<longleftrightarrow> True \<notin> set (lists_of body)) \<and> (\<not> Parallel g \<longleftrightarrow> False \<notin> set (lists_of body))"
    if "(h, off, body) \<in> set (leaf_sections ?ns 0)" "leaf_of_section (h, off, body) g" for h off body g
  proof -
    note q = no_findings_lists [OF quiet [OF that(1)]]
    have leaf: "Heading g = h" "parseLeafSection body = Inr (Steps g, Parallel g)" using that(2) by (simp_all add: leaf_of_section_def)
    obtain l ls where ls: "lists_of body = l # ls" using q(1) by (cases "lists_of body") auto
    have "Parallel g = (\<not> l)" using parseLeafSection_Inr(3) [OF leaf(2)] ls by simp
    moreover have "set (lists_of body) = {l}" using q(2) ls by (cases l) auto
    ultimately show ?thesis using leaf(1) parseLeafSection_Inr(1) [OF leaf(2)] q(1) by auto
  qed
  then show ?thesis by (intro list.rel_mono_strong [OF leaves]) auto
qed

text \<open>A document of one title and two sections; the second mixes a paragraph into its section.\<close>

definition sample_tree :: "node list" where
  "sample_tree = [HeadingNode 1 ''A'' 2, ParagraphNode [''p''],
     HeadingNode 2 ''B'' 9, ListNode True [ItemNode [TextBlockNode [''a'']], ItemNode [TextBlockNode [''b'']]],
     HeadingNode 2 ''C'' 25, ListNode False [ItemNode [TextBlockNode [''c'']]], ParagraphNode [''q'']]"

lemma sample_parse:
  "Parse (\<lambda>_. sample_tree) ''x'' = Inr \<lparr>Groups = [Group ''A'' 1 False []
     [Group ''B'' 2 False [\<lparr>step_Text = ''a'', step_Detail = [], step_RequiresApproval = False, step_Metadata = None\<rparr>,
        \<lparr>step_Text = ''b'', step_Detail = [], step_RequiresApproval = False, step_Metadata = None\<rparr>] [],
      Group ''C'' 2 True [\<lparr>step_Text = ''c'', step_Detail = ''q'', step_RequiresApproval = False, step_Metadata = None\<rparr>] []]]\<rparr>"
  by (simp add: sample_tree_def Parse_def section_body_def ends_section_def hasSubheading_def is_heading_def findSectionEnd_def
      parseLeafSection_def listItemText_def parseStepMarkers_def approvalMarker_def TrimSpace_printable printable_def
      parseTaskMetadataBlock_def)

theorem validated_plan_unambiguous_witness:
  "map item_text (section_items [ListNode True [ItemNode [TextBlockNode [''a'']], ItemNode [TextBlockNode [''b'']]]]) = [''a'', ''b'']"
proof -
  have "Validate (\<lambda>_. sample_tree) ''x'' = []"
    by (simp add: sample_tree_def Validate_def section_body_def ends_section_def hasSubheading_def is_heading_def findSectionEnd_def
        validateLeafSection_def lists_of_Cons Let_def)
  from validated_plan_unambiguous [OF this sample_parse] show ?thesis
    by (simp add: sample_tree_def section_body_def ends_section_def hasSubheading_def is_heading_def findSectionEnd_def
        lists_of_Cons section_items_Cons)
qed

end
