(* ===== verification/Orch_Graph.thy ===== *)
theory Orch_Graph
  imports Plan_Metadata Store_Plans
begin

text \<open>
  Plan import of \<open>internal/orch\<close>: \<open>plan_import.go\<close>, the id rule and the graph materialization of
  \<open>dispatch_graph.go\<close>, and the derivation of acceptance criteria from \<open>verify.go\<close>.  A parsed plan is
  turned into task specifications whose dependency edges come from the authored \<open>after\<close> lists or, where
  none is stated, from document order.
\<close>

section \<open>Acceptance criteria in the prose\<close>

record Acceptance =
  acc_Command :: string
  acc_FileExists :: string
  acc_Dir :: string

text \<open>The first match of a backtick, the marker, and a nonempty text up to the next backtick.  The
  spaces that \<open>\s*\<close> takes are trimmed from the group in any case.\<close>

definition marker_at :: "string \<Rightarrow> string \<Rightarrow> string option" where
  "marker_at marker s = (case strip_prefix (CHR ''`'' # marker) s of
     None \<Rightarrow> None
   | Some r \<Rightarrow> let body = takeWhile (\<lambda>c. c \<noteq> CHR ''`'') r in
       if body \<noteq> [] \<and> length body < length r then Some body else None)"

fun find_marker :: "string \<Rightarrow> string \<Rightarrow> string option" where
  "find_marker marker [] = None"
| "find_marker marker (c # r) = (case marker_at marker (c # r) of
     Some t \<Rightarrow> Some t | None \<Rightarrow> find_marker marker r)"

definition defaultAcceptanceJSON :: "Step \<Rightarrow> string" where
  "defaultAcceptanceJSON step =
    (let haystack = (if step_Detail step \<noteq> [] then step_Text step @ [CHR 0x0A] @ step_Detail step else step_Text step);
         command = (case find_marker ''accept:'' haystack of None \<Rightarrow> [] | Some m \<Rightarrow> TrimSpace m);
         file = (case find_marker ''accept-file:'' haystack of None \<Rightarrow> [] | Some m \<Rightarrow> TrimSpace m)
     in if command = [] \<and> file = [] then []
        else json_encode (omit_empty [(''command'', command), (''file_exists'', file), (''dir'', [])]))"

section \<open>The walk\<close>

definition stepTaskID :: "StepRef \<Rightarrow> Step \<Rightarrow> string" where
  "stepTaskID ref step = (case step_Metadata step of
     Some m \<Rightarrow> if meta_ID m \<noteq> [] then meta_ID m else StepID ref
   | None \<Rightarrow> StepID ref)"

fun walk :: "nat \<Rightarrow> Group list \<Rightarrow> int list \<Rightarrow> (StepRef \<times> Step \<times> string) list" where
  "walk i [] path = []"
| "walk i (Group h l par steps subs # gs) path =
    (if subs \<noteq> [] then walk 0 subs (path @ [int i])
     else let groupPath = GroupID \<lparr>GroupPath = path @ [int i], Index = 0\<rparr> in
       map (\<lambda>c. (fst c, snd c, groupPath)) (step_calls (path @ [int i]) steps)) @
    walk (Suc i) gs path"

definition indexPlanSteps :: "PlanDoc \<Rightarrow> (string \<rightharpoonup> StepRef \<times> Step)" where
  "indexPlanSteps p = fold (\<lambda>(ref, step, _) index. index(stepTaskID ref step \<mapsto> (ref, step))) (walk 0 (Groups p) []) Map.empty"

section \<open>Document order as edges\<close>

text \<open>The closure \<open>visit\<close> of \<open>documentOrderEdges\<close>: it threads \<open>edges\<close>, \<open>prevTerminals\<close> and \<open>idx\<close>.\<close>

type_synonym edge_state = "string list list \<times> string list \<times> nat"

fun leaf_edges :: "string list \<Rightarrow> bool \<Rightarrow> nat \<Rightarrow> string list \<Rightarrow> nat \<Rightarrow> string list list \<Rightarrow> nat \<Rightarrow> string list list \<times> nat" where
  "leaf_edges ids par start prevTerminals 0 edges idx = (edges, idx)"
| "leaf_edges ids par start prevTerminals (Suc n) edges idx =
    leaf_edges ids par start prevTerminals n
      (edges[idx := (if par \<or> idx = start then prevTerminals else [ids ! (idx - 1)])]) (Suc idx)"

definition visit_leaf :: "string list \<Rightarrow> bool \<Rightarrow> nat \<Rightarrow> edge_state \<Rightarrow> edge_state" where
  "visit_leaf ids par n st = (case st of (edges, prevTerminals, start) \<Rightarrow>
     if n = 0 then st
     else case leaf_edges ids par start prevTerminals n edges start of (edges', idx) \<Rightarrow>
       (edges', if par then take (idx - start) (drop start ids) else [ids ! (idx - 1)], idx))"

fun visit_groups :: "string list \<Rightarrow> Group list \<Rightarrow> edge_state \<Rightarrow> edge_state" where
  "visit_groups ids [] st = st"
| "visit_groups ids (Group h l par steps subs # gs) st =
    visit_groups ids gs (if subs \<noteq> [] then visit_groups ids subs st else visit_leaf ids par (length steps) st)"

definition documentOrderEdges :: "PlanDoc \<Rightarrow> string list \<Rightarrow> string list list" where
  "documentOrderEdges p ids = fst (visit_groups ids (Groups p) (replicate (length ids) [], [], 0))"

section \<open>Task specifications\<close>

datatype import_error =
    NoSteps
  | DuplicateTaskID string
  | UnknownAfter string string
  | ImportOptsRequired
  | PlanRejected
  | ImportStoreError store_error

text \<open>The first repeated id of the walk.\<close>

fun first_duplicate :: "string list \<Rightarrow> string list \<Rightarrow> string option" where
  "first_duplicate seen [] = None"
| "first_duplicate seen (x # xs) = (if x \<in> set seen then Some x else first_duplicate (x # seen) xs)"

definition declaredReservations :: "Step \<Rightarrow> TaskInputSpec list \<times> TaskOutputSpec list" where
  "declaredReservations step = (case step_Metadata step of
     None \<Rightarrow> ([], [])
   | Some m \<Rightarrow> (map (\<lambda>i. \<lparr>in_Path = ti_Path i, in_SHA256 = ti_SHA256 i\<rparr>) (elems (meta_Inputs m)),
               map (\<lambda>o'. \<lparr>out_Path = to_Path o', out_Mode = to_Mode o'\<rparr>) (elems (meta_Outputs m))))"

text \<open>One node of the loop: its id, its document-order edges, its step and group.\<close>

definition node_spec :: "string list \<Rightarrow> string \<Rightarrow> string list \<Rightarrow> Step \<Rightarrow> string \<Rightarrow> import_error + GraphTaskSpec" where
  "node_spec ids i docOrder step groupPath =
    (let explicit = DependsOn (step_Metadata step);
         unknown = (case explicit of None \<Rightarrow> None | Some ds \<Rightarrow> List.find (\<lambda>d. d \<notin> set ids) ds)
     in case unknown of
       Some d \<Rightarrow> Inl (UnknownAfter i d)
     | None \<Rightarrow> Inr \<lparr>gt_Task = \<lparr>ct_PlanID = [], ct_ID = i, ct_Description = step_Text step, ct_ParallelGroup = None,
                      ct_SequenceOrdinal = None, ct_AcceptanceJSON = defaultAcceptanceJSON step, ct_ParentTaskID = [],
                      ct_RequiresApproval = step_RequiresApproval step\<rparr>,
                    gt_DependsOn = (case explicit of None \<Rightarrow> docOrder | Some ds \<Rightarrow> ds),
                    gt_GroupPath = groupPath,
                    gt_TeamPath = (case step_Metadata step of None \<Rightarrow> [] | Some m \<Rightarrow> meta_Team m),
                    gt_MetadataJSON = (case step_Metadata step of None \<Rightarrow> ''{}'' | Some m \<Rightarrow> json_encode (metadata_value m)),
                    gt_Inputs = fst (declaredReservations step), gt_Outputs = snd (declaredReservations step)\<rparr>)"

fun node_specs :: "string list \<Rightarrow> (string \<times> string list \<times> Step \<times> string) list \<Rightarrow> import_error + GraphTaskSpec list" where
  "node_specs ids [] = Inr []"
| "node_specs ids ((i, docOrder, step, groupPath) # rest) = (case node_spec ids i docOrder step groupPath of
     Inl e \<Rightarrow> Inl e
   | Inr spec \<Rightarrow> (case node_specs ids rest of Inl e \<Rightarrow> Inl e | Inr specs \<Rightarrow> Inr (spec # specs)))"

definition task_ids :: "PlanDoc \<Rightarrow> string list" where
  "task_ids p = map (\<lambda>(ref, step, _). stepTaskID ref step) (walk 0 (Groups p) [])"

definition graphSpecs :: "PlanDoc \<Rightarrow> import_error + GraphTaskSpec list" where
  "graphSpecs p =
    (let nodes = walk 0 (Groups p) []; ids = task_ids p in
     if nodes = [] then Inl NoSteps
     else case first_duplicate [] ids of
       Some d \<Rightarrow> Inl (DuplicateTaskID d)
     | None \<Rightarrow> node_specs ids (zip ids (zip (documentOrderEdges p ids) (map snd nodes))))"

section \<open>Import\<close>

record ImportPlanOpts =
  ip_ProjectID :: ident
  ip_Slug :: string
  ip_Title :: string
  ip_Markdown :: string

text \<open>The validator and the parser of \<open>internal/plan\<close> rest on the goldmark package: \<open>parse\<close> is
  \<open>ValidateForImport\<close> followed by \<open>Parse\<close>, \<open>None\<close> where either refuses.\<close>

definition ImportPlan :: "(string \<Rightarrow> PlanDoc option) \<Rightarrow> ident \<Rightarrow> ImportPlanOpts \<Rightarrow> store \<Rightarrow> (import_error + ident) \<times> store" where
  "ImportPlan parse uuid opts s =
    (if ip_ProjectID opts = [] \<or> ip_Slug opts = [] \<or> ip_Title opts = [] then (Inl ImportOptsRequired, s)
     else case parse (ip_Markdown opts) of
       None \<Rightarrow> (Inl PlanRejected, s)
     | Some parsed \<Rightarrow>
         (case graphSpecs parsed of
           Inl e \<Rightarrow> (Inl e, s)
         | Inr specs \<Rightarrow>
             (case CreatePlanGraph uuid \<lparr>cg_Plan = \<lparr>cp_ProjectID = ip_ProjectID opts, cp_Slug = ip_Slug opts,
                      cp_Title = ip_Title opts, cp_SourceMarkdown = ip_Markdown opts, cp_TagsJSON = []\<rparr>,
                    cg_Tasks = specs, cg_Activate = True\<rparr> s of
               (Inl e, s') \<Rightarrow> (Inl (ImportStoreError e), s')
             | (Inr planID, s') \<Rightarrow> (Inr planID, s'))))"

text \<open>\<open>ensurePlanGraph\<close> materializes the graph only for a plan without any task.\<close>

definition ensurePlanGraph :: "ident \<Rightarrow> PlanDoc \<Rightarrow> store \<Rightarrow> (import_error + unit) \<times> store" where
  "ensurePlanGraph planID p s =
    (if ListTasks planID [] s \<noteq> [] then (Inr (), s)
     else case graphSpecs p of
       Inl e \<Rightarrow> (Inl e, s)
     | Inr specs \<Rightarrow> (case MaterializePlanGraph planID specs s of
         (Inl e, s') \<Rightarrow> (Inl (ImportStoreError e), s') | (Inr u, s') \<Rightarrow> (Inr (), s')))"

end
