(* ===== verification/Plan_Laws.thy ===== *)
theory Plan_Laws
  imports Orch_Graph
begin

text \<open>
  The promises of plan import.  Positions are unique keys; the edges written at import release
  exactly the steps that the positional decomposition releases, at every stage of the plan; and
  a graph specification never names a task outside its plan.  The bridge is the list of leaf
  groups in document order: \<open>walk\<close>, \<open>decomposeGroups\<close> and \<open>visit_groups\<close> are each shown to be a
  function of it.
\<close>

section \<open>Leaves\<close>

fun leaves :: "nat \<Rightarrow> Group list \<Rightarrow> int list \<Rightarrow> (int list \<times> bool \<times> Step list) list" where
  "leaves i [] path = []"
| "leaves i (Group h l par steps subs # gs) path =
    (if subs \<noteq> [] then leaves 0 subs (path @ [int i]) else [(path @ [int i], par, steps)]) @ leaves (Suc i) gs path"

definition leaf_calls :: "int list \<times> bool \<times> Step list \<Rightarrow> (StepRef \<times> Step) list" where
  "leaf_calls l = (case l of (path, par, steps) \<Rightarrow> step_calls path steps)"

lemma walkGroups_leaves: "walkGroups i gs path = concat (map leaf_calls (leaves i gs path))"
  by (induction i gs path rule: walkGroups.induct) (auto simp: leaf_calls_def)

lemma walk_walkGroups: "map (\<lambda>c. (fst c, fst (snd c))) (walk i gs path) = walkGroups i gs path"
  by (induction i gs path rule: walk.induct) (auto simp: Let_def o_def)

lemma length_step_calls [simp]: "length (step_calls path steps) = length steps"
  by (simp add: step_calls_def)

section \<open>Positions are unique\<close>

lemma join_inj:
  assumes "join_with [sep] ws = join_with [sep] vs" "ws \<noteq> []" "vs \<noteq> []"
    "\<forall>w \<in> set ws. sep \<notin> set w" "\<forall>v \<in> set vs. sep \<notin> set v"
  shows "ws = vs"
  using split_join [OF assms(2,4)] split_join [OF assms(3,5)] assms(1) by metis

definition nat_ref :: "StepRef \<Rightarrow> bool" where
  "nat_ref r \<longleftrightarrow> (\<forall>i \<in> set (GroupPath r). 0 \<le> i) \<and> 0 \<le> Index r"

lemma Itoa_nonneg_inj: "0 \<le> i \<Longrightarrow> 0 \<le> j \<Longrightarrow> Itoa i = Itoa j \<Longrightarrow> i = j"
  using Itoa_nat_inj [of "nat i" "nat j"] by simp

lemma map_Itoa_inj: "\<forall>i \<in> set xs. 0 \<le> i \<Longrightarrow> \<forall>j \<in> set ys. 0 \<le> j \<Longrightarrow> map Itoa xs = map Itoa ys \<Longrightarrow> xs = ys"
proof (induction xs arbitrary: ys)
  case (Cons x xs)
  from Cons.prems(3) obtain y ys' where ys: "ys = y # ys'" and eq: "Itoa x = Itoa y" "map Itoa xs = map Itoa ys'"
    by (cases ys) auto
  have "xs = ys'" using Cons.IH [OF _ _ eq(2)] Cons.prems(1,2) by (simp add: ys)
  moreover have "x = y" using Itoa_nonneg_inj [OF _ _ eq(1)] Cons.prems(1,2) by (simp add: ys)
  ultimately show ?case by (simp add: ys)
qed simp

lemma Itoa_no_dot': "0 \<le> i \<Longrightarrow> CHR ''.'' \<notin> set (Itoa i)"
  using Itoa_no_dot [of "nat i"] by simp

text \<open>\<open>StepRef.ID\<close> is injective on the positions of a tree.\<close>

lemma StepID_inj:
  assumes "nat_ref r" "nat_ref q" "StepID r = StepID q"
  shows "r = q"
proof -
  let ?f = "\<lambda>r. map Itoa (GroupPath r) @ [Itoa (Index r)]"
  have "?f r = ?f q"
    by (rule join_inj [of "CHR ''.''"]) (use assms in \<open>auto simp: StepID_def nat_ref_def Itoa_no_dot'\<close>)
  then have "GroupPath r = GroupPath q" "Index r = Index q"
    using assms(1,2) by (auto simp: nat_ref_def dest: map_Itoa_inj Itoa_nonneg_inj)
  then show ?thesis by (cases r, cases q) simp
qed

lemma leaves_path:
  "(q, par, steps) \<in> set (leaves i gs path) \<Longrightarrow> \<exists>k \<ge> i. \<exists>more. q = path @ int k # more \<and> (\<forall>x \<in> set more. 0 \<le> x)"
proof (induction i gs path arbitrary: q par steps rule: leaves.induct)
  case (2 i h l par' steps' subs gs path)
  have "(q, par, steps) \<in> set (leaves 0 subs (path @ [int i])) \<and> subs \<noteq> [] \<or> q = path @ [int i] \<or>
      (q, par, steps) \<in> set (leaves (Suc i) gs path)"
    using 2(3) by (auto split: if_splits)
  then show ?case
  proof (elim disjE conjE)
    assume "(q, par, steps) \<in> set (leaves 0 subs (path @ [int i]))" "subs \<noteq> []"
    from 2(1) [OF this(2,1)] show ?thesis by (intro exI [of _ i]) auto
  next
    assume "(q, par, steps) \<in> set (leaves (Suc i) gs path)"
    from 2(2) [OF this] show ?thesis using Suc_leD by blast
  qed auto
qed simp

lemma distinct_leaf_paths: "distinct (map fst (leaves i gs path))"
proof (induction i gs path rule: leaves.induct)
  case (2 i h l par steps subs gs path)
  let ?here = "if subs \<noteq> [] then leaves 0 subs (path @ [int i]) else [(path @ [int i], par, steps)]"
  have "q \<notin> fst ` set (leaves (Suc i) gs path)" if "q \<in> fst ` set ?here" for q
  proof
    assume "q \<in> fst ` set (leaves (Suc i) gs path)"
    then obtain k more where "k \<ge> Suc i" "q = path @ int k # more"
      using leaves_path by force
    moreover obtain more' where "q = path @ int i # more'"
    proof (cases "subs = []")
      case True
      then show thesis using that \<open>q \<in> fst ` set ?here\<close> by auto
    next
      case False
      then obtain par' steps' where "(q, par', steps') \<in> set (leaves 0 subs (path @ [int i]))"
        using \<open>q \<in> fst ` set ?here\<close> by auto
      from leaves_path [OF this] show thesis using that by auto
    qed
    ultimately show False by simp
  qed
  moreover have "distinct (map fst ?here)" using 2(1) by auto
  ultimately show ?case using 2(2) unfolding leaves.simps map_append distinct_append set_map by blast
qed simp

lemma step_calls_refs: "map fst (step_calls path steps) = map (\<lambda>j. \<lparr>GroupPath = path, Index = int j\<rparr>) [0..<length steps]"
proof -
  show ?thesis by (intro nth_equalityI) (auto simp: step_calls_def nth_enumerate_eq)
qed

lemma distinct_concat_refs:
  "distinct (map fst ls) \<Longrightarrow> distinct (map fst (concat (map leaf_calls ls)))"
proof (induction ls)
  case (Cons l ls)
  obtain path par steps where l: "l = (path, par, steps)" by (cases l)
  have "distinct (map fst (leaf_calls l))"
    by (auto simp: l leaf_calls_def step_calls_refs distinct_map inj_on_def)
  moreover have "r \<notin> fst ` set (concat (map leaf_calls ls))" if r: "r \<in> fst ` set (leaf_calls l)" for r
  proof
    have path: "GroupPath q = fst l'" if "q \<in> fst ` set (leaf_calls l')" for q l'
    proof -
      obtain p b st where l': "l' = (p, b, st)" by (cases l')
      have "q \<in> set (map fst (step_calls p st))" using that by (simp add: l' leaf_calls_def)
      then show ?thesis unfolding step_calls_refs by (auto simp: l')
    qed
    assume "r \<in> fst ` set (concat (map leaf_calls ls))"
    then obtain l' where "l' \<in> set ls" "r \<in> fst ` set (leaf_calls l')" by auto
    then have "fst l \<in> fst ` set ls" using path [OF r] path [of r l'] by (metis imageI)
    then show False using Cons.prems by simp
  qed
  ultimately show ?case
    using Cons unfolding list.map concat.simps map_append distinct_append set_map by (auto simp del: set_concat)
qed simp

lemma walk_nat_refs: "r \<in> fst ` set (walkGroups 0 gs []) \<Longrightarrow> nat_ref r"
proof -
  assume "r \<in> fst ` set (walkGroups 0 gs [])"
  then obtain path par steps where l: "(path, par, steps) \<in> set (leaves 0 gs [])" "r \<in> set (map fst (step_calls path steps))"
    by (force simp: walkGroups_leaves leaf_calls_def)
  then show ?thesis
    unfolding step_calls_refs using leaves_path [OF l(1)] by (auto simp: nat_ref_def)
qed

lemma distinct_StepIDs: "distinct (StepIDs p)"
proof -
  let ?refs = "map fst (walkGroups 0 (Groups p) [])"
  have "distinct ?refs" unfolding walkGroups_leaves by (rule distinct_concat_refs [OF distinct_leaf_paths])
  moreover have "inj_on StepID (set ?refs)"
    by (rule inj_onI, rule StepID_inj) (simp_all add: walk_nat_refs)
  ultimately have "distinct (map StepID ?refs)" unfolding distinct_map [of StepID] by blast
  moreover have "StepIDs p = map StepID ?refs" by (simp add: StepIDs_def)
  ultimately show ?thesis by (simp only:)
qed

lemma nth_pre: "gs = pre @ g # gs' \<Longrightarrow> gs ! length pre = g"
  by simp

lemma descend_leaf:
  assumes "(q, par, steps) \<in> set (leaves i gs' path)" "gs = pre @ gs'" "length pre = i"
  shows "\<exists>more g. q = path @ more \<and> descend d gs g0 more = Inr g \<and> Steps g = steps"
  using assms
proof (induction i gs' path arbitrary: pre gs d g0 rule: leaves.induct)
  case (2 i h l par' steps' subs gs' path)
  let ?g = "Group h l par' steps' subs"
  have at: "gs ! i = ?g" "i < length gs" using 2(4,5) by auto
  have "(q, par, steps) \<in> set (leaves 0 subs (path @ [int i])) \<and> subs \<noteq> [] \<or>
      (q = path @ [int i] \<and> steps = steps') \<or> (q, par, steps) \<in> set (leaves (Suc i) gs' path)"
    using 2(3) by (auto split: if_splits)
  then show ?case
  proof (elim disjE conjE)
    assume "(q, par, steps) \<in> set (leaves 0 subs (path @ [int i]))" "subs \<noteq> []"
    from 2(1) [OF this(2,1), of subs "[]" "Suc d" ?g] obtain more g
      where "q = (path @ [int i]) @ more" "descend (Suc d) subs ?g more = Inr g" "Steps g = steps" by auto
    then show ?thesis using at by (intro exI [of _ "int i # more"] exI [of _ g]) (simp add: Let_def)
  next
    assume "q = path @ [int i]" "steps = steps'"
    then show ?thesis using at by (intro exI [of _ "[int i]"] exI [of _ ?g]) (simp add: Let_def)
  next
    assume "(q, par, steps) \<in> set (leaves (Suc i) gs' path)"
    from 2(2) [OF this, of gs "pre @ [?g]" d g0] show ?thesis using 2(4,5) by simp
  qed
qed simp

text \<open>Positions are keys.  The ids of the steps of a plan, in document order, are pairwise different
  whatever the tree, and \<open>StepAt\<close> resolves the position of every step of the walk back to that
  step.\<close>

theorem positions_are_keys:
  "distinct (StepIDs p) \<and>
   list_all (\<lambda>c. case StepAt p (fst c) of Inr sg \<Rightarrow> fst sg = snd c | Inl e \<Rightarrow> False) (walkGroups 0 (Groups p) [])"
proof
  show "distinct (StepIDs p)" by (rule distinct_StepIDs)
  have "case StepAt p (fst c) of Inr sg \<Rightarrow> fst sg = snd c | Inl e \<Rightarrow> False" if c: "c \<in> set (walkGroups 0 (Groups p) [])" for c
  proof -
    obtain q par steps where l: "(q, par, steps) \<in> set (leaves 0 (Groups p) [])" "c \<in> set (step_calls q steps)"
      using c by (auto simp: walkGroups_leaves leaf_calls_def)
    from descend_leaf [OF l(1), of "Groups p" "[]" 0 "Group [] 0 False [] []"] obtain g
      where g: "descend 0 (Groups p) (Group [] 0 False [] []) q = Inr g" "Steps g = steps" by auto
    obtain j where "j < length steps" "c = (\<lparr>GroupPath = q, Index = int j\<rparr>, steps ! j)"
      using l(2) by (auto simp: step_calls_def in_set_enumerate_eq)
    then show ?thesis using g by (simp add: StepAt_def)
  qed
  then show "list_all (\<lambda>c. case StepAt p (fst c) of Inr sg \<Rightarrow> fst sg = snd c | Inl e \<Rightarrow> False) (walkGroups 0 (Groups p) [])"
    by (simp add: list_all_iff)
qed

section \<open>Decomposition by leaves\<close>

definition leaf_done :: "(string \<Rightarrow> bool) \<Rightarrow> int list \<times> bool \<times> Step list \<Rightarrow> bool" where
  "leaf_done done l = list_all (\<lambda>c. done (StepID (fst c))) (leaf_calls l)"

lemma groupsDone_leaves:
  "groupDone g path D = list_all (leaf_done D)
     (case g of Group h l par steps subs \<Rightarrow> if subs \<noteq> [] then leaves 0 subs path else [(path, par, steps)])"
  "groupsDone i gs path D = list_all (leaf_done D) (leaves i gs path)"
proof (induction g path D and i gs path D rule: groupDone_groupsDone.induct)
  case (1 h l par steps subs path D)
  then show ?case by (simp add: leaf_done_def leaf_calls_def)
next
  case (3 i g gs path D)
  then show ?case by (cases g) simp
qed simp

lemma find_append_None: "list_all P xs \<Longrightarrow> List.find (\<lambda>x. \<not> P x) (xs @ ys) = List.find (\<lambda>x. \<not> P x) ys"
  by (induction xs) auto

lemma find_append_Some: "\<not> list_all P xs \<Longrightarrow> List.find (\<lambda>x. \<not> P x) (xs @ ys) = List.find (\<lambda>x. \<not> P x) xs"
  by (induction xs) auto

lemma decomposeGroups_leaves:
  "decomposeGroups i gs path D = (case List.find (\<lambda>l. \<not> leaf_done D l) (leaves i gs path) of
     None \<Rightarrow> None | Some (q, par, steps) \<Rightarrow> leafReady par steps q D)"
proof (induction i gs path D rule: decomposeGroups.induct)
  case (2 i h l par steps subs gs path D)
  let ?g = "Group h l par steps subs"
  let ?here = "if subs \<noteq> [] then leaves 0 subs (path @ [int i]) else [(path @ [int i], par, steps)]"
  have gd: "groupDone ?g (path @ [int i]) D = list_all (leaf_done D) ?here"
    by (simp add: groupsDone_leaves)
  show ?case
  proof (cases "list_all (leaf_done D) ?here")
    case True
    then show ?thesis using 2(1) gd by (simp add: find_append_None)
  next
    case False
    then have "List.find (\<lambda>l. \<not> leaf_done D l) (leaves i (?g # gs) path) = List.find (\<lambda>l. \<not> leaf_done D l) ?here"
      by (simp add: find_append_Some)
    then show ?thesis using 2(2) gd False by (auto split: if_splits)
  qed
qed simp

section \<open>Edges by segments\<close>

text \<open>A segment is the flag and the ids of one leaf group.\<close>

type_synonym segment = "bool \<times> string list"

fun seg_edges :: "string list \<Rightarrow> segment list \<Rightarrow> string list list" where
  "seg_edges prev [] = []"
| "seg_edges prev ((par, xs) # segs) =
    (if xs = [] then seg_edges prev segs
     else (if par then map (\<lambda>_. prev) xs else prev # map (\<lambda>x. [x]) (butlast xs)) @
       seg_edges (if par then xs else [last xs]) segs)"

lemma leaf_edges_result:
  assumes "idx + n \<le> length edges"
  shows "leaf_edges ids par start prev n edges idx =
    (take idx edges @ map (\<lambda>k. if par \<or> k = start then prev else [ids ! (k - 1)]) [idx..<idx + n] @ drop (idx + n) edges, idx + n)"
  using assms
proof (induction n arbitrary: edges idx)
  case (Suc n)
  let ?e = "if par \<or> idx = start then prev else [ids ! (idx - 1)]"
  have u: "take (Suc idx) (edges[idx := ?e]) = take idx edges @ [?e]"
    using Suc.prems by (simp add: take_Suc_conv_app_nth)
  have d: "drop (Suc idx + n) (edges[idx := ?e]) = drop (idx + Suc n) edges" by simp
  have r: "[idx..<idx + Suc n] = idx # [Suc idx..<Suc idx + n]" by (simp add: upt_conv_Cons)
  show ?case
    using Suc.IH [of "Suc idx" "edges[idx := ?e]"] Suc.prems unfolding leaf_edges.simps u d r by simp
qed simp

lemma seq_edges_nth:
  assumes "xs \<noteq> []"
  shows "map (\<lambda>k. if k = length pre then prev else [(pre @ xs @ post) ! (k - 1)]) [length pre..<length pre + length xs] =
     prev # map (\<lambda>x. [x]) (butlast xs)"
  using assms
  by (intro nth_equalityI) (auto simp: nth_append nth_Cons' nth_butlast)

lemma par_edges: "map (\<lambda>k. prev) [a..<a + length xs] = map (\<lambda>_. prev) xs"
  by (intro nth_equalityI) auto

lemma fold_visit_leaf:
  assumes "ids = pre @ concat (map snd segs)" "length edges = length ids"
  shows "fst (fold (\<lambda>s. visit_leaf ids (fst s) (length (snd s))) segs (edges, prev, length pre)) =
    take (length pre) edges @ seg_edges prev segs"
  using assms
proof (induction segs arbitrary: pre edges prev)
  case (Cons s segs)
  obtain par xs where s: "s = (par, xs)" by (cases s)
  show ?case
  proof (cases "xs = []")
    case True
    then show ?thesis using Cons by (simp add: s visit_leaf_def)
  next
    case False
    let ?post = "concat (map snd segs)"
    let ?n = "length pre + length xs"
    let ?here = "if par then map (\<lambda>_. prev) xs else prev # map (\<lambda>x. [x]) (butlast xs)"
    have ids: "ids = pre @ xs @ ?post" "ids = (pre @ xs) @ ?post" using Cons.prems(1) by (simp_all add: s)
    let ?edges = "take (length pre) edges @ ?here @ drop ?n edges"
    have le: "leaf_edges ids par (length pre) prev (length xs) edges (length pre) = (?edges, ?n)"
      using leaf_edges_result [of "length pre" "length xs" edges ids par "length pre" prev] Cons.prems(2) False
        seq_edges_nth [OF False, of pre prev ?post, folded ids(1)] par_edges [of prev "length pre" xs]
        ids(1) by (cases par) simp_all
    have "ids ! (length pre + (length xs - 1)) = xs ! (length xs - 1)" using False by (simp add: ids(1) nth_append)
    then have last: "ids ! (?n - 1) = last xs" using False by (simp add: last_conv_nth Suc_le_eq)
    have one: "visit_leaf ids par (length xs) (edges, prev, length pre) =
        (?edges, if par then xs else [last xs], length (pre @ xs))"
      using False le last by (simp add: visit_leaf_def ids(1))
    have len: "length ?edges = length ids" using Cons.prems(2) False by (auto simp: ids(1))
    have "take (length (pre @ xs)) ?edges = take (length pre) edges @ ?here"
      using Cons.prems(2) False by (auto simp: ids(1))
    then show ?thesis
      using Cons.IH [OF ids(2) len] one False by (simp add: s)
  qed
qed simp

lemma visit_groups_leaves:
  "visit_groups ids gs st = fold (\<lambda>l. visit_leaf ids (fst (snd l)) (length (snd (snd l)))) (leaves i gs path) st"
proof (induction ids gs st arbitrary: i path rule: visit_groups.induct)
  case (2 ids h l par steps subs gs st)
  then show ?case by (cases "subs = []") auto
qed simp

text \<open>The leaf groups with the ids that \<open>f\<close> gives their steps.\<close>

definition segments_by :: "(StepRef \<times> Step \<Rightarrow> string) \<Rightarrow> PlanDoc \<Rightarrow> segment list" where
  "segments_by f p = map (\<lambda>l. (fst (snd l), map f (leaf_calls l))) (leaves 0 (Groups p) [])"

abbreviation segments :: "PlanDoc \<Rightarrow> segment list" where
  "segments \<equiv> segments_by (\<lambda>c. StepID (fst c))"

lemma segments_by_ids: "concat (map snd (segments_by f p)) = map f (walkGroups 0 (Groups p) [])"
  by (simp add: segments_by_def walkGroups_leaves map_concat o_def)

lemma documentOrder_by: "documentOrderEdges p (map f (walkGroups 0 (Groups p) [])) = seg_edges [] (segments_by f p)"
proof -
  let ?ids = "map f (walkGroups 0 (Groups p) [])"
  have "visit_groups ?ids (Groups p) st = fold (\<lambda>s. visit_leaf ?ids (fst s) (length (snd s))) (segments_by f p) st" for st
    unfolding visit_groups_leaves [of ?ids "Groups p" st 0 "[]"] segments_by_def fold_map
    by (rule fold_cong) (auto simp: leaf_calls_def)
  then show ?thesis
    using fold_visit_leaf [of ?ids "[]" "segments_by f p" "replicate (length ?ids) []" "[]"]
    by (simp add: documentOrderEdges_def segments_by_ids)
qed

lemma segments_ids: "concat (map snd (segments p)) = StepIDs p"
  by (simp add: segments_by_ids StepIDs_def)

lemma documentOrder_segments: "documentOrderEdges p (StepIDs p) = seg_edges [] (segments p)"
  using documentOrder_by [of p "\<lambda>c. StepID (fst c)"] by (simp add: StepIDs_def)

text \<open>Edges of document order lead back to earlier steps.\<close>

lemma length_seg_edges: "length (seg_edges prev segs) = length (concat (map snd segs))"
  by (induction prev segs rule: seg_edges.induct) auto

lemma seg_edges_back:
  "k < length (concat (map snd segs)) \<Longrightarrow> distinct prev \<Longrightarrow> distinct (concat (map snd segs)) \<Longrightarrow>
   distinct (seg_edges prev segs ! k) \<and> set (seg_edges prev segs ! k) \<subseteq> set prev \<union> set (take k (concat (map snd segs)))"
proof (induction prev segs arbitrary: k rule: seg_edges.induct)
  case (2 prev par xs segs)
  show ?case
  proof (cases "xs = []")
    case True
    then show ?thesis using 2 by simp
  next
    case False
    let ?here = "if par then map (\<lambda>_. prev) xs else prev # map (\<lambda>x. [x]) (butlast xs)"
    let ?next = "if par then xs else [last xs]"
    have len: "length ?here = length xs" using False by simp
    show ?thesis
    proof (cases "k < length xs")
      case True
      then have "seg_edges prev ((par, xs) # segs) ! k = ?here ! k" using False len by (simp add: nth_append)
      moreover have "?here ! k = (if par \<or> k = 0 then prev else [xs ! (k - 1)])"
        using True by (auto simp: nth_Cons' nth_butlast)
      moreover have "xs ! (k - 1) \<in> set (take k xs)" if "k \<noteq> 0"
        using True that by (auto simp: in_set_conv_nth intro!: exI [of _ "k - 1"])
      ultimately show ?thesis using True 2(4) by auto
    next
      case beyond: False
      then have nth: "seg_edges prev ((par, xs) # segs) ! k = seg_edges ?next segs ! (k - length xs)"
        using False len by (simp add: nth_append)
      have "distinct ?next" "set ?next \<subseteq> set xs" "distinct (concat (map snd segs))"
        using 2(5) False by auto
      moreover have "k - length xs < length (concat (map snd segs))" using beyond 2(3) by simp
      ultimately show ?thesis
        using 2(2) [OF False, of "k - length xs"] beyond unfolding nth by (fastforce simp: not_less)
    qed
  qed
qed simp

section \<open>Both notions of readiness\<close>

definition ready_by_edges :: "(string \<Rightarrow> bool) \<Rightarrow> (string \<times> string list) list \<Rightarrow> string list" where
  "ready_by_edges D nodes = map fst (filter (\<lambda>n. \<not> D (fst n) \<and> list_all D (snd n)) nodes)"

text \<open>A set of finished steps that the edges allow: a finished step has finished predecessors.\<close>

definition closed_done :: "(string \<Rightarrow> bool) \<Rightarrow> (string \<times> string list) list \<Rightarrow> bool" where
  "closed_done D nodes \<longleftrightarrow> list_all (\<lambda>n. D (fst n) \<longrightarrow> list_all D (snd n)) nodes"

lemma ready_append [simp]: "ready_by_edges D (xs @ ys) = ready_by_edges D xs @ ready_by_edges D ys"
  by (simp add: ready_by_edges_def)

lemma closed_append [simp]: "closed_done D (xs @ ys) \<longleftrightarrow> closed_done D xs \<and> closed_done D ys"
  by (simp add: closed_done_def)

definition par_nodes :: "string list \<Rightarrow> string list \<Rightarrow> (string \<times> string list) list" where
  "par_nodes prev xs = map (\<lambda>x. (x, prev)) xs"

fun seq_nodes :: "string list \<Rightarrow> string list \<Rightarrow> (string \<times> string list) list" where
  "seq_nodes prev [] = []"
| "seq_nodes prev (x # xs) = (x, prev) # seq_nodes [x] xs"

fun seg_nodes :: "string list \<Rightarrow> segment list \<Rightarrow> (string \<times> string list) list" where
  "seg_nodes prev [] = []"
| "seg_nodes prev ((par, xs) # segs) =
    (if xs = [] then seg_nodes prev segs
     else (if par then par_nodes prev xs else seq_nodes prev xs) @ seg_nodes (if par then xs else [last xs]) segs)"

lemma zip_seq: "xs \<noteq> [] \<Longrightarrow> zip xs (prev # map (\<lambda>x. [x]) (butlast xs)) = seq_nodes prev xs"
proof (induction xs arbitrary: prev)
  case (Cons x xs)
  then show ?case by (cases xs) simp_all
qed simp

lemma zip_par: "zip xs (map (\<lambda>_. prev) xs) = par_nodes prev xs"
  by (induction xs) (auto simp: par_nodes_def)

lemma zip_segs: "zip (concat (map snd segs)) (seg_edges prev segs) = seg_nodes prev segs"
proof (induction prev segs rule: seg_edges.induct)
  case (2 prev par xs segs)
  have seq: "zip (xs @ ys) ((prev # map (\<lambda>x. [x]) (butlast xs)) @ zs) = seq_nodes prev xs @ zip ys zs" if "xs \<noteq> []" for ys zs
    using that by (subst zip_append) (auto simp: zip_seq)
  show ?case
    using 2 seq by (cases par) (auto simp: zip_append zip_par)
qed simp

text \<open>Behind an unfinished predecessor nothing is finished and nothing is ready.\<close>

lemma seq_blocked:
  "closed_done D (seq_nodes prev xs) \<Longrightarrow> \<not> list_all D prev \<Longrightarrow> ready_by_edges D (seq_nodes prev xs) = [] \<and> list_all (\<lambda>x. \<not> D x) xs"
proof (induction xs arbitrary: prev)
  case (Cons x xs)
  then have "\<not> D x" by (simp add: closed_done_def)
  then show ?case using Cons.IH [of "[x]"] Cons.prems by (simp add: closed_done_def ready_by_edges_def)
qed (simp add: ready_by_edges_def)

lemma par_blocked:
  "closed_done D (par_nodes prev xs) \<Longrightarrow> \<not> list_all D prev \<Longrightarrow> ready_by_edges D (par_nodes prev xs) = [] \<and> list_all (\<lambda>x. \<not> D x) xs"
  by (induction xs) (auto simp: closed_done_def par_nodes_def ready_by_edges_def)

lemma segs_blocked:
  "closed_done D (seg_nodes prev segs) \<Longrightarrow> \<not> list_all D prev \<Longrightarrow> ready_by_edges D (seg_nodes prev segs) = []"
proof (induction prev segs rule: seg_nodes.induct)
  case (1 prev)
  then show ?case by (simp add: ready_by_edges_def)
next
  case (2 prev par xs segs)
  show ?case
  proof (cases "xs = []")
    case True
    then show ?thesis using 2 by simp
  next
    case False
    let ?here = "if par then par_nodes prev xs else seq_nodes prev xs"
    have c: "closed_done D ?here" "closed_done D (seg_nodes (if par then xs else [last xs]) segs)"
      using 2(3) False by auto
    have "ready_by_edges D ?here = []" and none: "list_all (\<lambda>x. \<not> D x) xs"
      using c(1) 2(4) seq_blocked par_blocked by (auto split: if_splits)
    moreover have "\<not> list_all D (if par then xs else [last xs])"
      using none False by (auto simp: list_all_iff) (metis list.set_sel(1))
    ultimately show ?thesis using 2(2) [OF False c(2)] c False by auto
  qed
qed

lemma par_ready: "list_all D prev \<Longrightarrow> ready_by_edges D (par_nodes prev xs) = filter (\<lambda>x. \<not> D x) xs"
  by (induction xs) (auto simp: ready_by_edges_def par_nodes_def)

lemma seq_ready:
  "closed_done D (seq_nodes prev xs) \<Longrightarrow> list_all D prev \<Longrightarrow>
   ready_by_edges D (seq_nodes prev xs) = take 1 (filter (\<lambda>x. \<not> D x) xs) \<and> (xs \<noteq> [] \<longrightarrow> D (last xs) \<longrightarrow> list_all D xs)"
proof (induction xs arbitrary: prev)
  case (Cons x xs)
  show ?case
  proof (cases "D x")
    case True
    then show ?thesis using Cons.IH [of "[x]"] Cons.prems by (cases xs) (auto simp: closed_done_def ready_by_edges_def)
  next
    case False
    have "closed_done D (seq_nodes [x] xs)" using Cons.prems by (simp add: closed_done_def)
    from seq_blocked [OF this] False have "ready_by_edges D (seq_nodes [x] xs) = []" "list_all (\<lambda>x. \<not> D x) xs" by auto
    then show ?thesis using False Cons.prems(2)
      by (cases xs) (auto simp: ready_by_edges_def list_all_iff dest: last_in_set)
  qed
qed (simp add: ready_by_edges_def)

definition seg_ready :: "(string \<Rightarrow> bool) \<Rightarrow> segment list \<Rightarrow> string list" where
  "seg_ready D segs = (case List.find (\<lambda>s. \<not> list_all D (snd s)) segs of
     None \<Rightarrow> [] | Some (par, xs) \<Rightarrow> if par then filter (\<lambda>x. \<not> D x) xs else take 1 (filter (\<lambda>x. \<not> D x) xs))"

lemma segs_ready:
  "closed_done D (seg_nodes prev segs) \<Longrightarrow> list_all D prev \<Longrightarrow> ready_by_edges D (seg_nodes prev segs) = seg_ready D segs"
proof (induction prev segs rule: seg_nodes.induct)
  case (1 prev)
  then show ?case by (simp add: ready_by_edges_def seg_ready_def)
next
  case (2 prev par xs segs)
  show ?case
  proof (cases "xs = []")
    case True
    then show ?thesis using 2 by (simp add: seg_ready_def)
  next
    case False
    let ?here = "if par then par_nodes prev xs else seq_nodes prev xs"
    let ?next = "if par then xs else [last xs]"
    have c: "closed_done D ?here" "closed_done D (seg_nodes ?next segs)" using 2(3) False by auto
    have here: "ready_by_edges D ?here = (if par then filter (\<lambda>x. \<not> D x) xs else take 1 (filter (\<lambda>x. \<not> D x) xs))"
      using c(1) 2(4) par_ready seq_ready by auto
    have next_done: "list_all D ?next \<longleftrightarrow> list_all D xs"
    proof (cases par)
      case False
      then show ?thesis using c(1) 2(4) seq_ready [of D prev xs] \<open>xs \<noteq> []\<close> by (auto simp: list_all_iff)
    qed simp
    show ?thesis
    proof (cases "list_all D xs")
      case True
      then have "filter (\<lambda>x. \<not> D x) xs = []" by (auto simp: list_all_iff filter_empty_conv)
      then show ?thesis using True here next_done 2(2) [OF False c(2)] False by (auto simp: seg_ready_def)
    next
      case undone: False
      then have "ready_by_edges D (seg_nodes ?next segs) = []" using segs_blocked [OF c(2)] next_done by simp
      then show ?thesis using undone here False by (simp add: seg_ready_def)
    qed
  qed
qed

lemma ready_loop_ids:
  "map (\<lambda>c. StepID (fst c)) (ready_loop par D cs) =
    (let xs = filter (\<lambda>x. \<not> D x) (map (\<lambda>c. StepID (fst c)) cs) in if par then xs else take 1 xs)"
  by (induction par D cs rule: ready_loop.induct) (auto simp: Let_def)

lemma find_map: "List.find P (map f xs) = map_option f (List.find (P \<circ> f) xs)"
  by (induction xs) auto

lemma decompose_segments: "map StepID (fst (snd (DecomposeRefs p D))) = seg_ready D (segments p)"
proof -
  let ?seg = "\<lambda>l. (fst (snd l), map (\<lambda>c. StepID (fst c)) (leaf_calls l))"
  have undone: "(\<lambda>s. \<not> list_all D (snd s)) \<circ> ?seg = (\<lambda>l. \<not> leaf_done D l)"
    by (rule ext) (simp add: leaf_done_def list_all_iff)
  have find: "List.find (\<lambda>s. \<not> list_all D (snd s)) (segments p) =
      map_option ?seg (List.find (\<lambda>l. \<not> leaf_done D l) (leaves 0 (Groups p) []))"
    unfolding segments_by_def find_map undone ..
  show ?thesis
  proof (cases "List.find (\<lambda>l. \<not> leaf_done D l) (leaves 0 (Groups p) [])")
    case None
    then show ?thesis by (simp add: DecomposeRefs_def decomposeGroups_leaves seg_ready_def find)
  next
    case (Some l)
    obtain q par steps where l: "l = (q, par, steps)" by (cases l)
    have "\<not> leaf_done D l" using find_SomeD [OF Some] by simp
    then have "filter (\<lambda>x. \<not> D x) (map (\<lambda>c. StepID (fst c)) (step_calls q steps)) \<noteq> []"
      by (auto simp: l leaf_done_def leaf_calls_def list_all_iff filter_empty_conv)
    then have "ready_loop par D (step_calls q steps) \<noteq> []"
      using ready_loop_ids [of par D "step_calls q steps"] by (auto simp: Let_def split: if_splits)
    then show ?thesis
      using Some ready_loop_ids [of par D "step_calls q steps"]
      by (simp add: DecomposeRefs_def decomposeGroups_leaves seg_ready_def find l leafReady_def leaf_calls_def Let_def o_def)
  qed
qed

lemma seg_ready_empty: "seg_ready D segs = [] \<longleftrightarrow> list_all (\<lambda>s. list_all D (snd s)) segs"
  by (induction segs) (auto simp: seg_ready_def filter_empty_conv list_all_iff split: option.split if_splits)

lemma seg_ready_unfinished: "list_all (\<lambda>x. \<not> D x) (seg_ready D segs)"
  by (auto simp: seg_ready_def list_all_iff split: option.split dest: in_set_takeD)

lemma decompose_edges:
  assumes "closed_done D (zip (StepIDs p) (documentOrderEdges p (StepIDs p)))"
  shows "map StepID (fst (snd (DecomposeRefs p D))) = ready_by_edges D (zip (StepIDs p) (documentOrderEdges p (StepIDs p)))"
proof -
  have nodes: "zip (StepIDs p) (documentOrderEdges p (StepIDs p)) = seg_nodes [] (segments p)"
    using zip_segs [of "segments p" "[]"] by (simp add: documentOrder_segments segments_ids)
  show ?thesis
    using segs_ready [of D "[]" "segments p"] assms unfolding nodes decompose_segments by simp
qed

text \<open>\<^bold>\<open>C22.\<close> The imported graph releases what the plan document releases.  Take any plan and any set of finished
  steps in which the predecessors of a finished step are finished.  The steps that are unfinished
  and whose document-order edges all lead to finished steps are, in order, exactly the steps that
  \<open>DecomposeRefs\<close> computes from positions.\<close>

theorem graph_reproduces_decompose:
  assumes "closed_done D (zip (StepIDs p) (documentOrderEdges p (StepIDs p)))"
  shows "map StepID (fst (snd (DecomposeRefs p D))) =
    ready_by_edges D (zip (StepIDs p) (documentOrderEdges p (StepIDs p)))"
  by (rule decompose_edges [OF assms])

text \<open>A plan of a parallel group and a section of two sequential groups, and its first three steps done.\<close>

definition demo_step :: "string \<Rightarrow> Step" where
  "demo_step txt = \<lparr>step_Text = txt, step_Detail = [], step_RequiresApproval = False, step_Metadata = None\<rparr>"

definition demo_doc :: PlanDoc where
  "demo_doc = \<lparr>Groups = [Group ''A'' 2 True [demo_step ''a'', demo_step ''b''] [],
     Group ''B'' 2 False [] [Group ''C'' 3 False [demo_step ''c'', demo_step ''d''] [], Group ''D'' 3 False [demo_step ''e''] []]]\<rparr>"

theorem graph_reproduces_decompose_witness:
  "let D = (\<lambda>x. x \<in> set [''0.0'', ''0.1'', ''1.0.0'']); nodes = zip (StepIDs demo_doc) (documentOrderEdges demo_doc (StepIDs demo_doc))
   in map StepID (fst (snd (DecomposeRefs demo_doc D))) = ready_by_edges D nodes \<and> ready_by_edges D nodes = [''1.0.1'']"
proof -
  let ?D = "\<lambda>x. x \<in> set [''0.0'', ''0.1'', ''1.0.0'']"
  let ?nodes = "zip (StepIDs demo_doc) (documentOrderEdges demo_doc (StepIDs demo_doc))"
  have "closed_done ?D ?nodes" "ready_by_edges ?D ?nodes = [''1.0.1'']" by code_simp+
  then show ?thesis using graph_reproduces_decompose [of ?D demo_doc] unfolding Let_def by metis
qed

text \<open>The decomposition is never stuck: it has nothing to dispatch exactly when every step of the plan is
  finished, and it never returns a finished step.\<close>

theorem decompose_never_stuck:
  "(fst (snd (DecomposeRefs p D)) = [] \<longleftrightarrow> list_all D (StepIDs p)) \<and>
   list_all (\<lambda>r. \<not> D (StepID r)) (fst (snd (DecomposeRefs p D)))"
proof -
  let ?refs = "fst (snd (DecomposeRefs p D))"
  have "?refs = [] \<longleftrightarrow> seg_ready D (segments p) = []"
    unfolding decompose_segments [symmetric] by simp
  also have "\<dots> \<longleftrightarrow> list_all D (StepIDs p)"
    unfolding seg_ready_empty segments_ids [symmetric] by (auto simp: list_all_iff)
  finally have empty: "?refs = [] \<longleftrightarrow> list_all D (StepIDs p)" .
  have "list_all (\<lambda>x. \<not> D x) (map StepID ?refs)"
    unfolding decompose_segments by (rule seg_ready_unfinished)
  then have "list_all (\<lambda>r. \<not> D (StepID r)) ?refs" by (simp add: list_all_iff)
  then show ?thesis using empty by blast
qed

end
