(* ===== verification/Orch_Graph_Laws.thy ===== *)
theory Orch_Graph_Laws
  imports Plan_Laws Store_Plan_Laws
begin

text \<open>
  Plan import as a whole: what \<open>graphSpecs\<close> makes of a parsed plan, why the import of a plan without
  metadata cannot fail in the store, and that the store's \<open>Ready\<close> query on an imported plan releases
  the steps that the decomposition of the document releases.
\<close>

section \<open>Task specifications\<close>

lemma first_duplicate_None: "first_duplicate seen xs = None \<longleftrightarrow> distinct xs \<and> set xs \<inter> set seen = {}"
  by (induction xs arbitrary: seen) auto

lemma node_specs_all2:
  "node_specs ids nodes = Inr specs \<longleftrightarrow>
   list_all2 (\<lambda>(i, docOrder, step, gp) spec. node_spec ids i docOrder step gp = Inr spec) nodes specs"
  by (induction ids nodes arbitrary: specs rule: node_specs.induct)
    (auto simp: list_all2_Cons1 split: sum.splits)

definition chosen_deps :: "Step \<Rightarrow> string list \<Rightarrow> string list" where
  "chosen_deps step docOrder = (case step_Metadata step of None \<Rightarrow> docOrder
     | Some m \<Rightarrow> (case meta_After m of None \<Rightarrow> docOrder | Some ds \<Rightarrow> ds))"

lemma node_spec_Inr:
  assumes "node_spec ids i docOrder step gp = Inr spec"
  shows "ct_ID (gt_Task spec) = i" "gt_DependsOn spec = chosen_deps step docOrder" "gt_GroupPath spec = gp"
    "set docOrder \<subseteq> set ids \<Longrightarrow> set (gt_DependsOn spec) \<subseteq> set ids"
  using assms
  by (auto simp: node_spec_def DependsOn_def chosen_deps_def Let_def find_None_iff split: option.splits)

lemma walk_calls: "map (\<lambda>c. (fst c, fst (snd c))) (walk 0 (Groups p) []) = walkGroups 0 (Groups p) []"
  by (rule walk_walkGroups)

lemma task_ids_walk: "task_ids p = map (\<lambda>c. stepTaskID (fst c) (snd c)) (walkGroups 0 (Groups p) [])"
  unfolding walk_calls [symmetric] by (simp add: task_ids_def case_prod_unfold)

lemma document_edges_back:
  assumes "k < length (task_ids p)" "distinct (task_ids p)"
  shows "distinct (documentOrderEdges p (task_ids p) ! k)"
    "set (documentOrderEdges p (task_ids p) ! k) \<subseteq> set (take k (task_ids p))"
  using seg_edges_back [of k "segments_by (\<lambda>c. stepTaskID (fst c) (snd c)) p" "[]"] assms
  unfolding segments_by_ids documentOrder_by [symmetric] task_ids_walk by simp_all

lemma length_document_edges: "length (documentOrderEdges p (task_ids p)) = length (task_ids p)"
  unfolding task_ids_walk documentOrder_by length_seg_edges segments_by_ids ..

text \<open>The node list of the loop.\<close>

definition graph_nodes :: "PlanDoc \<Rightarrow> (string \<times> string list \<times> Step \<times> string) list" where
  "graph_nodes p = zip (task_ids p) (zip (documentOrderEdges p (task_ids p)) (map snd (walk 0 (Groups p) [])))"

lemma length_walk: "length (walk 0 (Groups p) []) = length (task_ids p)"
  by (simp add: task_ids_def)

lemma length_graph_nodes [simp]: "length (graph_nodes p) = length (task_ids p)"
  by (simp add: graph_nodes_def length_document_edges length_walk)

lemma graph_nodes_nth:
  assumes "k < length (task_ids p)"
  shows "\<exists>ref step gp. graph_nodes p ! k = (task_ids p ! k, documentOrderEdges p (task_ids p) ! k, step, gp) \<and>
    walkGroups 0 (Groups p) [] ! k = (ref, step) \<and> walk 0 (Groups p) [] ! k = (ref, step, gp) \<and> task_ids p ! k = stepTaskID ref step"
proof -
  obtain ref step gp where w: "walk 0 (Groups p) [] ! k = (ref, step, gp)" by (cases "walk 0 (Groups p) [] ! k")
  have k: "k < length (walk 0 (Groups p) [])" using assms by (simp add: length_walk)
  have "walkGroups 0 (Groups p) [] ! k = (ref, step)"
    unfolding walk_calls [symmetric] using k w by simp
  moreover have "task_ids p ! k = stepTaskID ref step" using k w by (simp add: task_ids_def)
  ultimately show ?thesis
    using w assms k by (intro exI [of _ ref] exI [of _ step] exI [of _ gp]) (simp add: graph_nodes_def length_document_edges)
qed

lemma graphSpecs_cases:
  "graphSpecs p = (if StepIDs p = [] then Inl NoSteps
     else case first_duplicate [] (task_ids p) of Some d \<Rightarrow> Inl (DuplicateTaskID d)
     | None \<Rightarrow> node_specs (task_ids p) (graph_nodes p))"
proof -
  have "StepIDs p = [] \<longleftrightarrow> walk 0 (Groups p) [] = []" unfolding StepIDs_def walk_calls [symmetric] by simp
  then show ?thesis unfolding graphSpecs_def Let_def graph_nodes_def by presburger
qed

lemma graphSpecs_Inr:
  assumes "graphSpecs p = Inr specs"
  shows "distinct (task_ids p)" "node_specs (task_ids p) (graph_nodes p) = Inr specs" "length specs = length (task_ids p)"
  using assms list_all2_lengthD node_specs_all2
  by (auto simp: graphSpecs_cases first_duplicate_None split: if_splits option.splits dest!: iffD1 [OF node_specs_all2] dest: list_all2_lengthD)

lemma graphSpecs_nth:
  assumes "graphSpecs p = Inr specs" "k < length specs"
  shows "ct_ID (gt_Task (specs ! k)) = task_ids p ! k"
    "gt_DependsOn (specs ! k) = chosen_deps (snd (walkGroups 0 (Groups p) [] ! k)) (documentOrderEdges p (task_ids p) ! k)"
    "gt_GroupPath (specs ! k) = snd (snd (walk 0 (Groups p) [] ! k))"
    "set (gt_DependsOn (specs ! k)) \<subseteq> set (task_ids p)"
proof -
  have k: "k < length (task_ids p)" using assms graphSpecs_Inr(3) by simp
  obtain ref step gp where n: "graph_nodes p ! k = (task_ids p ! k, documentOrderEdges p (task_ids p) ! k, step, gp)"
    "walkGroups 0 (Groups p) [] ! k = (ref, step)" "walk 0 (Groups p) [] ! k = (ref, step, gp)"
    using graph_nodes_nth [OF k] by blast
  have spec: "node_spec (task_ids p) (task_ids p ! k) (documentOrderEdges p (task_ids p) ! k) step gp = Inr (specs ! k)"
    using graphSpecs_Inr(2) [OF assms(1)] list_all2_nthD [of _ "graph_nodes p" specs k] k n(1)
    by (force simp: node_specs_all2)
  have "set (documentOrderEdges p (task_ids p) ! k) \<subseteq> set (task_ids p)"
    using document_edges_back(2) [OF k graphSpecs_Inr(1) [OF assms(1)]] set_take_subset by fastforce
  then show "ct_ID (gt_Task (specs ! k)) = task_ids p ! k"
    "gt_DependsOn (specs ! k) = chosen_deps (snd (walkGroups 0 (Groups p) [] ! k)) (documentOrderEdges p (task_ids p) ! k)"
    "gt_GroupPath (specs ! k) = snd (snd (walk 0 (Groups p) [] ! k))"
    "set (gt_DependsOn (specs ! k)) \<subseteq> set (task_ids p)"
    using node_spec_Inr [OF spec] n by simp_all
qed

text \<open>What import makes of a plan.  \<open>graphSpecs\<close> reports "no steps" exactly for a plan without steps and a
  duplicate id exactly when, in a plan with steps, two steps claim one task id.  When it succeeds the specifications
  are the steps in document order under pairwise different ids, each waits for the ids its own
  \<open>after\<close> list states, or for its document-order edges where it states none, and no edge leaves the
  plan.\<close>

theorem graph_specs_exact:
  "(graphSpecs p = Inl NoSteps \<longleftrightarrow> walkGroups 0 (Groups p) [] = []) \<and>
   ((\<exists>d. graphSpecs p = Inl (DuplicateTaskID d)) \<longleftrightarrow> \<not> distinct (map (\<lambda>c. stepTaskID (fst c) (snd c)) (walkGroups 0 (Groups p) []))) \<and>
   (case graphSpecs p of Inl e \<Rightarrow> True
    | Inr specs \<Rightarrow>
        map (\<lambda>spec. ct_ID (gt_Task spec)) specs = map (\<lambda>c. stepTaskID (fst c) (snd c)) (walkGroups 0 (Groups p) []) \<and>
        map gt_DependsOn specs = map (\<lambda>(c, docOrder). chosen_deps (snd c) docOrder)
          (zip (walkGroups 0 (Groups p) []) (documentOrderEdges p (map (\<lambda>spec. ct_ID (gt_Task spec)) specs))) \<and>
        list_all (\<lambda>spec. set (gt_DependsOn spec) \<subseteq> set (map (\<lambda>spec. ct_ID (gt_Task spec)) specs)) specs)"
proof -
  have empty: "StepIDs p = [] \<longleftrightarrow> walkGroups 0 (Groups p) [] = []" by (simp add: StepIDs_def)
  have never: "node_specs ids nodes \<noteq> Inl NoSteps" "node_specs ids nodes \<noteq> Inl (DuplicateTaskID d)" for ids nodes d
    by (induction ids nodes rule: node_specs.induct) (auto simp: node_spec_def Let_def split: sum.splits option.splits)
  have 1: "graphSpecs p = Inl NoSteps \<longleftrightarrow> walkGroups 0 (Groups p) [] = []"
    using never(1) by (simp add: graphSpecs_cases empty split: option.split)
  have "(\<exists>d. graphSpecs p = Inl (DuplicateTaskID d)) \<longleftrightarrow> StepIDs p \<noteq> [] \<and> first_duplicate [] (task_ids p) \<noteq> None"
    using never(2) by (auto simp: graphSpecs_cases split: option.split)
  also have "\<dots> \<longleftrightarrow> \<not> distinct (task_ids p)"
    unfolding empty task_ids_walk by (auto simp: first_duplicate_None)
  finally have 2: "(\<exists>d. graphSpecs p = Inl (DuplicateTaskID d)) \<longleftrightarrow> \<not> distinct (task_ids p)" .
  have 3: "map (\<lambda>spec. ct_ID (gt_Task spec)) specs = task_ids p \<and>
      map gt_DependsOn specs = map (\<lambda>(c, docOrder). chosen_deps (snd c) docOrder)
        (zip (walkGroups 0 (Groups p) []) (documentOrderEdges p (task_ids p))) \<and>
      list_all (\<lambda>spec. set (gt_DependsOn spec) \<subseteq> set (task_ids p)) specs" if specs: "graphSpecs p = Inr specs" for specs
  proof (intro conjI)
    have len: "length specs = length (task_ids p)" by (rule graphSpecs_Inr(3) [OF specs])
    have "length (walkGroups 0 (Groups p) []) = length (task_ids p)" by (simp add: task_ids_walk)
    then show "map gt_DependsOn specs = map (\<lambda>(c, docOrder). chosen_deps (snd c) docOrder)
        (zip (walkGroups 0 (Groups p) []) (documentOrderEdges p (task_ids p)))"
      using len graphSpecs_nth(2) [OF specs] by (intro nth_equalityI) (simp_all add: length_document_edges)
    show "map (\<lambda>spec. ct_ID (gt_Task spec)) specs = task_ids p"
      using len graphSpecs_nth(1) [OF specs] by (intro nth_equalityI) simp_all
    show "list_all (\<lambda>spec. set (gt_DependsOn spec) \<subseteq> set (task_ids p)) specs"
      using graphSpecs_nth(4) [OF specs] by (simp add: list_all_length)
  qed
  show ?thesis
    using 1 2 3 unfolding task_ids_walk [symmetric] by (cases "graphSpecs p") simp_all
qed

section \<open>Readiness in the store\<close>

text \<open>The graph the store holds for a plan: its tasks in insertion order with the targets of their
  edges.\<close>

definition plan_nodes :: "ident \<Rightarrow> store \<Rightarrow> (string \<times> string list) list" where
  "plan_nodes planID s = map (\<lambda>t. (t_id t, map d_on (filter (\<lambda>d. d_plan d = planID \<and> d_task d = t_id t) (deps s))))
     (filter (\<lambda>t. t_plan t = planID) (tasks s))"

definition step_finished :: "ident \<Rightarrow> store \<Rightarrow> string \<Rightarrow> bool" where
  "step_finished planID s i = list_all (\<lambda>t. t_plan t = planID \<and> t_id t = i \<longrightarrow> satisfied (t_status t)) (tasks s)"

definition step_claimable :: "ident \<Rightarrow> store \<Rightarrow> string \<Rightarrow> bool" where
  "step_claimable planID s i = list_ex (\<lambda>t. t_plan t = planID \<and> t_id t = i \<and> claimable (t_status t)) (tasks s)"

lemma filter_map_fst: "map t_id (filter P (filter Q ts)) = map fst (filter R (map (\<lambda>t. (t_id t, g t)) (filter Q ts)))"
  if "\<And>t. t \<in> set ts \<Longrightarrow> Q t \<Longrightarrow> P t = R (t_id t, g t)"
  using that by (induction ts) auto

lemma ready_rows_nodes:
  assumes "key_inv s"
  shows "map t_id (ready_rows planID s) =
    filter (step_claimable planID s) (ready_by_edges (step_finished planID s) (plan_nodes planID s))"
proof -
  let ?D = "step_finished planID s"
  have uniq: "t = u" if "t \<in> set (tasks s)" "u \<in> set (tasks s)" "t_plan t = t_plan u" "t_id t = t_id u" for t u
    using assms that by (force simp: key_inv_def task_keys_def distinct_map inj_on_def)
  have own: "step_claimable planID s (t_id t) = claimable (t_status t)" "?D (t_id t) = satisfied (t_status t)"
    if "t \<in> set (tasks s)" "t_plan t = planID" for t
    using that uniq by (auto simp: step_claimable_def step_finished_def list_ex_iff list_all_iff)
  have cl: "claimable st \<Longrightarrow> \<not> satisfied st" for st by (auto simp: claimable_def satisfied_def)
  have deps: "deps_satisfied s t = list_all ?D (map d_on (filter (\<lambda>d. d_plan d = planID \<and> d_task d = t_id t) (deps s)))"
    if "t_plan t = planID" for t
    using that by (auto simp: deps_satisfied_def step_finished_def list_ex_iff list_all_iff)
  have "map t_id (ready_rows planID s) =
      map t_id (filter (\<lambda>t. claimable (t_status t) \<and> deps_satisfied s t) (filter (\<lambda>t. t_plan t = planID) (tasks s)))"
    by (simp add: ready_rows_def conj_commute conj_left_commute)
  also have "\<dots> = map fst (filter (\<lambda>n. step_claimable planID s (fst n) \<and> \<not> ?D (fst n) \<and> list_all ?D (snd n)) (plan_nodes planID s))"
    unfolding plan_nodes_def using own deps cl by (intro filter_map_fst) auto
  also have "\<dots> = filter (step_claimable planID s) (ready_by_edges ?D (plan_nodes planID s))"
    by (simp add: ready_by_edges_def filter_map o_def conj_commute conj_left_commute)
  finally show ?thesis .
qed

end
