(* ===== verification/Orch_Import_Laws.thy ===== *)
theory Orch_Import_Laws
  imports Orch_Graph_Laws
begin

text \<open>
  The import of a plan whose steps carry no metadata cannot fail in the store, and what it leaves
  there is the graph of the document: the first tasks \<open>Ready\<close> returns are the steps the document
  releases first.
\<close>

section \<open>Loops that succeed\<close>

lemma op_each_append: "op_each f (xs @ ys) s = op_bind (op_each f xs) (\<lambda>_. op_each f ys) s"
  by (induction xs arbitrary: s) (auto simp: op_bind_def op_return_def split: prod.split sum.split)

lemma op_each_nested:
  "op_each (\<lambda>x. op_each (g (key x)) (h x)) xs s = op_each (\<lambda>(a, b). g a b) (concat (map (\<lambda>x. map (Pair (key x)) (h x)) xs)) s"
proof (induction xs arbitrary: s)
  case (Cons x xs)
  have "op_each (\<lambda>(a, b). g a b) (map (Pair k) ys) s = op_each (g k) ys s" for k ys s
    by (induction ys arbitrary: s) (auto simp: op_bind_def op_return_def split: prod.split sum.split)
  then show ?case by (simp add: op_each_append op_bind_def Cons split: prod.split sum.split)
qed simp

text \<open>A specification the store cannot refuse on its own account.\<close>

definition plain_spec :: "GraphTaskSpec \<Rightarrow> bool" where
  "plain_spec spec \<longleftrightarrow> ct_ID (gt_Task spec) \<noteq> [] \<and> ct_Description (gt_Task spec) \<noteq> [] \<and>
     ct_ParentTaskID (gt_Task spec) = [] \<and> gt_GroupPath spec \<noteq> [] \<and> gt_Inputs spec = [] \<and> gt_Outputs spec = []"

definition has_metadata :: "ident \<Rightarrow> ident \<Rightarrow> store \<Rightarrow> bool" where
  "has_metadata planID i s \<longleftrightarrow> (\<exists>m \<in> set (metadata s). md_plan m = planID \<and> md_task m = i)"

lemma write_node_succeeds:
  assumes "plain_spec spec" "planID \<noteq> []" "plan_exists planID s"
    and "\<not> task_exists planID (ct_ID (gt_Task spec)) s" "\<not> has_metadata planID (ct_ID (gt_Task spec)) s"
  shows "\<exists>s'. write_node planID spec s = (Inr (), s') \<and> plans s' = plans s \<and> deps s' = deps s \<and>
    (\<forall>i. task_exists planID i s' \<longleftrightarrow> task_exists planID i s \<or> i = ct_ID (gt_Task spec)) \<and>
    (\<forall>i. has_metadata planID i s' \<longleftrightarrow> has_metadata planID i s \<or> i = ct_ID (gt_Task spec))"
proof -
  let ?i = "ct_ID (gt_Task spec)"
  let ?opts = "(gt_Task spec)\<lparr>ct_PlanID := planID\<rparr>"
  let ?s1 = "s\<lparr>tasks := tasks s @ [new_task_row ?opts s]\<rparr>"
  have 1: "createTaskOn ?opts s = (Inr (), ?s1)"
    using assms by (simp add: createTaskOn_def plain_spec_def)
  have "\<not> list_ex (is_metadata planID ?i) (metadata ?s1)" "task_exists planID ?i ?s1"
    using assms(5) by (auto simp: has_metadata_def list_ex_iff task_exists_def)
  then obtain row where 2: "node_metadata planID spec ?s1 = (Inr (), ?s1\<lparr>metadata := metadata ?s1 @ [row]\<rparr>)"
    and row: "md_plan row = planID" "md_task row = ?i"
    using assms(1) unfolding node_metadata_def putTaskMetadataOn_def plain_spec_def by auto
  have "write_node planID spec s = (Inr (), ?s1\<lparr>metadata := metadata ?s1 @ [row]\<rparr>)"
    using assms(1) by (simp add: write_node_def op_bind_def 1 2 plain_spec_def op_return_def)
  then show ?thesis
    using row by (intro exI [of _ "?s1\<lparr>metadata := metadata ?s1 @ [row]\<rparr>"])
      (auto simp: task_exists_def has_metadata_def list_ex_iff)
qed

lemma nodes_written:
  assumes "list_all plain_spec specs" "planID \<noteq> []" "plan_exists planID s"
    and "distinct (map (\<lambda>x. ct_ID (gt_Task x)) specs)"
    and "\<forall>x \<in> set specs. \<not> task_exists planID (ct_ID (gt_Task x)) s \<and> \<not> has_metadata planID (ct_ID (gt_Task x)) s"
  shows "\<exists>s'. op_each (write_node planID) specs s = (Inr (), s') \<and> plans s' = plans s \<and> deps s' = deps s \<and>
    (\<forall>x \<in> set specs. task_exists planID (ct_ID (gt_Task x)) s')"
proof -
  have "\<exists>s'. op_each (write_node planID) specs s = (Inr (), s') \<and> plans s' = plans s \<and> deps s' = deps s \<and>
    (\<forall>i. task_exists planID i s' \<longleftrightarrow> task_exists planID i s \<or> i \<in> (\<lambda>x. ct_ID (gt_Task x)) ` set specs)"
    using assms
  proof (induction specs arbitrary: s)
    case Nil
    then show ?case by (simp add: op_return_def)
  next
    case (Cons x xs)
    have "\<exists>s'. write_node planID x s = (Inr (), s') \<and> plans s' = plans s \<and> deps s' = deps s \<and>
      (\<forall>i. task_exists planID i s' \<longleftrightarrow> task_exists planID i s \<or> i = ct_ID (gt_Task x)) \<and>
      (\<forall>i. has_metadata planID i s' \<longleftrightarrow> has_metadata planID i s \<or> i = ct_ID (gt_Task x))"
      by (rule write_node_succeeds) (use Cons.prems in auto)
    then obtain s1 where s1: "write_node planID x s = (Inr (), s1)" "plans s1 = plans s" "deps s1 = deps s"
      "\<And>i. task_exists planID i s1 \<longleftrightarrow> task_exists planID i s \<or> i = ct_ID (gt_Task x)"
      "\<And>i. has_metadata planID i s1 \<longleftrightarrow> has_metadata planID i s \<or> i = ct_ID (gt_Task x)" by blast
    have "\<exists>s'. op_each (write_node planID) xs s1 = (Inr (), s') \<and> plans s' = plans s1 \<and> deps s' = deps s1 \<and>
      (\<forall>i. task_exists planID i s' \<longleftrightarrow> task_exists planID i s1 \<or> i \<in> (\<lambda>x. ct_ID (gt_Task x)) ` set xs)"
      by (rule Cons.IH) (use Cons.prems s1 in \<open>auto simp: plan_exists_def image_iff\<close>)
    then show ?case using s1 by (auto simp: op_bind_def)
  qed
  then show ?thesis by auto
qed

lemma rtrancl_rank: "(a, b) \<in> E\<^sup>* \<Longrightarrow> \<forall>(x, y) \<in> E. (rank y :: nat) < rank x \<Longrightarrow> rank b \<le> rank a"
  by (induction rule: rtrancl_induct) fastforce+

lemma edges_written:
  assumes "distinct es" "\<forall>(a, b) \<in> set es \<union> edges (deps s) planID. (rank b :: nat) < rank a"
    and "set es \<inter> edges (deps s) planID = {}" "\<forall>(a, b) \<in> set es. task_exists planID a s \<and> task_exists planID b s"
  shows "\<exists>s'. op_each (\<lambda>(a, b). addDepOn planID a b) es s = (Inr (), s') \<and> plans s' = plans s"
  using assms
proof (induction es arbitrary: s)
  case Nil
  then show ?case by (simp add: op_return_def)
next
  case (Cons e es)
  obtain a b where e: "e = (a, b)" by (cases e)
  let ?s1 = "s\<lparr>deps := deps s @ [\<lparr>d_plan = planID, d_task = a, d_on = b\<rparr>]\<rparr>"
  have lt: "rank b < rank a" using Cons.prems(2) by (auto simp: e)
  have "(b, a) \<notin> (edges (deps s) planID)\<^sup>*"
    using rtrancl_rank [of b a "edges (deps s) planID" rank] Cons.prems(2) lt by force
  moreover have "(a, b) \<notin> edges (deps s) planID" using Cons.prems(3) by (auto simp: e)
  ultimately have "addDepOn planID a b s = (Inr (), ?s1)"
    using lt Cons.prems(4) by (auto simp: addDepOn_def wouldCreateCycle_reach e edges_def list_ex_iff)
  moreover have "\<exists>s'. op_each (\<lambda>(a, b). addDepOn planID a b) es ?s1 = (Inr (), s') \<and> plans s' = plans ?s1"
    by (rule Cons.IH) (use Cons.prems in \<open>auto simp: e edges_snoc task_exists_def simp del: edges_append\<close>)
  ultimately show ?case by (auto simp: e op_bind_def)
qed

section \<open>Importing a plan without metadata\<close>

definition unannotated :: "PlanDoc \<Rightarrow> bool" where
  "unannotated p \<longleftrightarrow> list_all (\<lambda>c. step_Metadata (snd c) = None \<and> step_Text (snd c) \<noteq> []) (walkGroups 0 (Groups p) [])"

lemma unannotated_ids: "unannotated p \<Longrightarrow> task_ids p = StepIDs p"
  by (auto simp: unannotated_def task_ids_walk StepIDs_def stepTaskID_def list_all_iff)

lemma StepID_ne [simp]: "StepID r \<noteq> []"
  using join_nonempty [of "map Itoa (GroupPath r) @ [Itoa (Index r)]" "''.''"] by (auto simp: StepID_def)

lemma GroupID_ne [simp]: "GroupPath r \<noteq> [] \<Longrightarrow> GroupID r \<noteq> []"
  using join_nonempty [of "map Itoa (GroupPath r)" "''.''"] by (auto simp: GroupID_def)

lemma walk_group_ne: "(ref, step, gp) \<in> set (walk i gs path) \<Longrightarrow> gp \<noteq> []"
proof (induction i gs path rule: walk.induct)
  case (2 i h l par steps subs gs path)
  then show ?case by (auto simp: Let_def eq_commute [of "[]" "GroupID _"] split: if_splits)
qed simp

text \<open>The specification of a step without metadata.\<close>

lemma node_spec_None:
  assumes "step_Metadata step = None"
  shows "\<exists>spec. node_spec ids i docOrder step gp = Inr spec \<and> ct_ID (gt_Task spec) = i \<and> gt_DependsOn spec = docOrder \<and>
    ct_RequiresApproval (gt_Task spec) = step_RequiresApproval step \<and>
    (i \<noteq> [] \<longrightarrow> step_Text step \<noteq> [] \<longrightarrow> gp \<noteq> [] \<longrightarrow> plain_spec spec)"
  using assms by (simp add: node_spec_def DependsOn_def declaredReservations_def plain_spec_def)

lemma node_specs_None:
  assumes "list_all (\<lambda>(i, docOrder, step, gp). step_Metadata step = None \<and> i \<noteq> [] \<and> step_Text step \<noteq> [] \<and> gp \<noteq> []) nodes"
  shows "\<exists>specs. node_specs ids nodes = Inr specs \<and> list_all plain_spec specs \<and>
    map (\<lambda>x. ct_ID (gt_Task x)) specs = map fst nodes \<and> map gt_DependsOn specs = map (\<lambda>n. fst (snd n)) nodes \<and>
    map (\<lambda>x. ct_RequiresApproval (gt_Task x)) specs = map (\<lambda>n. step_RequiresApproval (fst (snd (snd n)))) nodes"
  using assms
proof (induction nodes)
  case (Cons n nodes)
  obtain i docOrder step gp where n: "n = (i, docOrder, step, gp)" by (cases n) auto
  show ?case
    using Cons.IH Cons.prems node_spec_None [of step ids i docOrder gp] by (auto simp: n)
qed simp

lemma graphSpecs_unannotated:
  assumes "unannotated p" "walkGroups 0 (Groups p) [] \<noteq> []"
  obtains specs where "graphSpecs p = Inr specs" "list_all plain_spec specs"
    "map (\<lambda>x. ct_ID (gt_Task x)) specs = StepIDs p" "map gt_DependsOn specs = documentOrderEdges p (StepIDs p)"
    "map (\<lambda>x. ct_RequiresApproval (gt_Task x)) specs = map (\<lambda>c. step_RequiresApproval (snd c)) (walkGroups 0 (Groups p) [])"
proof -
  have ids: "task_ids p = StepIDs p" by (rule unannotated_ids [OF assms(1)])
  have len: "length (documentOrderEdges p (StepIDs p)) = length (StepIDs p)" "length (walk 0 (Groups p) []) = length (StepIDs p)"
    using length_document_edges [of p] length_walk [of p] ids by simp_all
  have "list_all (\<lambda>(i, docOrder, step, gp). step_Metadata step = None \<and> i \<noteq> [] \<and> step_Text step \<noteq> [] \<and> gp \<noteq> []) (graph_nodes p)"
  proof (unfold list_all_length, intro allI impI)
    fix k assume "k < length (graph_nodes p)"
    then have k: "k < length (task_ids p)" by simp
    obtain ref step gp where n: "graph_nodes p ! k = (task_ids p ! k, documentOrderEdges p (task_ids p) ! k, step, gp)"
      "walkGroups 0 (Groups p) [] ! k = (ref, step)" "walk 0 (Groups p) [] ! k = (ref, step, gp)"
      using graph_nodes_nth [OF k] by blast
    have "(ref, step, gp) \<in> set (walk 0 (Groups p) [])" using n(3) k length_walk [of p] by (metis nth_mem)
    then have "gp \<noteq> []" by (rule walk_group_ne)
    moreover have "(ref, step) \<in> set (walkGroups 0 (Groups p) [])" using n(2) k nth_mem [of k "walkGroups 0 (Groups p) []"] by (simp add: task_ids_walk)
    then have "step_Metadata step = None" "step_Text step \<noteq> []" using assms(1) by (auto simp: unannotated_def list_all_iff)
    moreover have "task_ids p ! k \<noteq> []" using k unfolding ids by (simp add: StepIDs_def)
    ultimately show "case graph_nodes p ! k of (i, docOrder, step, gp) \<Rightarrow> step_Metadata step = None \<and> i \<noteq> [] \<and> step_Text step \<noteq> [] \<and> gp \<noteq> []"
      by (simp add: n)
  qed
  from node_specs_None [OF this, of "task_ids p"] obtain specs where specs: "node_specs (task_ids p) (graph_nodes p) = Inr specs"
    "list_all plain_spec specs" "map (\<lambda>x. ct_ID (gt_Task x)) specs = map fst (graph_nodes p)"
    "map gt_DependsOn specs = map (\<lambda>n. fst (snd n)) (graph_nodes p)"
    "map (\<lambda>x. ct_RequiresApproval (gt_Task x)) specs = map (\<lambda>n. step_RequiresApproval (fst (snd (snd n)))) (graph_nodes p)"
    by blast
  have "map fst (graph_nodes p) = StepIDs p" "map (\<lambda>n. fst (snd n)) (graph_nodes p) = documentOrderEdges p (StepIDs p)"
    using len by (auto simp: graph_nodes_def ids intro!: nth_equalityI)
  moreover have "map (\<lambda>n. step_RequiresApproval (fst (snd (snd n)))) (graph_nodes p) =
      map (\<lambda>c. step_RequiresApproval (snd c)) (walkGroups 0 (Groups p) [])"
    unfolding walk_calls [symmetric] using len by (auto simp: graph_nodes_def ids intro!: nth_equalityI)
  moreover have "first_duplicate [] (task_ids p) = None" "StepIDs p \<noteq> []"
    using distinct_StepIDs [of p] assms(2) by (simp_all add: first_duplicate_None ids) (simp add: StepIDs_def)
  then have "graphSpecs p = Inr specs" using specs(1) by (simp add: graphSpecs_cases)
  ultimately show thesis using that specs by simp
qed

text \<open>The edge list the second loop of \<open>writeGraphTasksOn\<close> goes through.\<close>

definition spec_edges :: "GraphTaskSpec list \<Rightarrow> (string \<times> string) list" where
  "spec_edges specs = concat (map (\<lambda>x. map (Pair (ct_ID (gt_Task x))) (gt_DependsOn x)) specs)"

lemma write_edges_flat: "op_each (write_edges planID) specs s = op_each (\<lambda>(a, b). addDepOn planID a b) (spec_edges specs) s"
proof -
  have "write_edges planID = (\<lambda>x. op_each (addDepOn planID (ct_ID (gt_Task x))) (gt_DependsOn x))"
    by (rule ext) (simp add: write_edges_def)
  then show ?thesis
    by (simp only: op_each_nested [where g = "addDepOn planID" and key = "\<lambda>x. ct_ID (gt_Task x)"] spec_edges_def)
qed

lemma distinct_spec_edges:
  "distinct (map (\<lambda>x. ct_ID (gt_Task x)) specs) \<Longrightarrow> list_all (\<lambda>x. distinct (gt_DependsOn x)) specs \<Longrightarrow> distinct (spec_edges specs)"
  by (induction specs) (auto simp: spec_edges_def distinct_map inj_on_def)

definition position :: "string list \<Rightarrow> string \<Rightarrow> nat" where
  "position ids i = length (takeWhile (\<lambda>x. x \<noteq> i) ids)"

lemma position_nth: "distinct ids \<Longrightarrow> k < length ids \<Longrightarrow> position ids (ids ! k) = k"
  unfolding position_def by (subst takeWhile_eq_take_P_nth [of k]) (auto simp: nth_eq_iff_index_eq)

lemma position_take: "distinct ids \<Longrightarrow> k < length ids \<Longrightarrow> b \<in> set (take k ids) \<Longrightarrow> position ids b < k"
  by (auto simp: in_set_conv_nth position_nth)

lemma writeGraph_succeeds:
  assumes specs: "list_all plain_spec specs" "map (\<lambda>x. ct_ID (gt_Task x)) specs = ids" "distinct ids"
    and earlier: "\<And>k. k < length ids \<Longrightarrow> distinct (gt_DependsOn (specs ! k)) \<and> set (gt_DependsOn (specs ! k)) \<subseteq> set (take k ids)"
    and s: "planID \<noteq> []" "plan_exists planID s" "\<forall>i. \<not> task_exists planID i s \<and> \<not> has_metadata planID i s" "edges (deps s) planID = {}"
  shows "\<exists>s'. writeGraphTasksOn planID specs s = (Inr (), s') \<and> plans s' = plans s"
proof -
  have len: "length specs = length ids" using specs(2) by auto
  have dis: "distinct (map (\<lambda>x. ct_ID (gt_Task x)) specs)" using specs(2,3) by simp
  obtain s1 where s1: "op_each (write_node planID) specs s = (Inr (), s1)" "plans s1 = plans s" "deps s1 = deps s"
    "\<forall>x \<in> set specs. task_exists planID (ct_ID (gt_Task x)) s1"
    using nodes_written [OF specs(1) s(1,2) dis] s(3) by blast
  have exists: "task_exists planID i s1" if "i \<in> set ids" for i
    using that s1(4) unfolding specs(2) [symmetric] by auto
  have edge: "b \<in> set ids \<and> a \<in> set ids \<and> position ids b < position ids a" if "(a, b) \<in> set (spec_edges specs)" for a b
  proof -
    obtain x where "x \<in> set specs" "a = ct_ID (gt_Task x)" "b \<in> set (gt_DependsOn x)"
      using \<open>(a, b) \<in> set (spec_edges specs)\<close> by (auto simp: spec_edges_def)
    then obtain k where k: "k < length ids" "a = ids ! k" "b \<in> set (gt_DependsOn (specs ! k))"
      using len specs(2) by (metis in_set_conv_nth nth_map)
    then have "b \<in> set (take k ids)" using earlier [of k] by auto
    then show ?thesis using k position_take [OF specs(3) k(1)] position_nth [OF specs(3) k(1)] by (auto dest: in_set_takeD)
  qed
  have "list_all (\<lambda>x. distinct (gt_DependsOn x)) specs" using earlier len by (simp add: list_all_length)
  then have "distinct (spec_edges specs)" by (rule distinct_spec_edges [OF dis])
  then have "\<exists>s'. op_each (\<lambda>(a, b). addDepOn planID a b) (spec_edges specs) s1 = (Inr (), s') \<and> plans s' = plans s1"
    using edge exists s(4) s1(3) by (intro edges_written [where rank = "position ids"]) auto
  then obtain s2 where s2: "op_each (write_edges planID) specs s1 = (Inr (), s2)" "plans s2 = plans s1"
    unfolding write_edges_flat by blast
  show ?thesis using s1 s2 by (simp add: writeGraphTasksOn_def op_bind_def)
qed

text \<open>A generated id that no row of the database mentions.\<close>

definition unused_id :: "ident \<Rightarrow> store \<Rightarrow> bool" where
  "unused_id uuid s \<longleftrightarrow> uuid \<noteq> [] \<and> \<not> plan_exists uuid s \<and>
     list_all (\<lambda>t. t_plan t \<noteq> uuid) (tasks s) \<and> list_all (\<lambda>d. d_plan d \<noteq> uuid) (deps s) \<and>
     list_all (\<lambda>m. md_plan m \<noteq> uuid) (metadata s)"

lemma CreatePlanGraph_succeeds:
  assumes "list_all plain_spec specs" "map (\<lambda>x. ct_ID (gt_Task x)) specs = ids" "distinct ids"
    and "\<And>k. k < length ids \<Longrightarrow> distinct (gt_DependsOn (specs ! k)) \<and> set (gt_DependsOn (specs ! k)) \<subseteq> set (take k ids)"
    and "unused_id uuid s" "project_exists (cp_ProjectID opts) s" "cp_ProjectID opts \<noteq> []" "cp_Slug opts \<noteq> []" "cp_Title opts \<noteq> []"
    and "\<not> list_ex (\<lambda>p. p_project p = cp_ProjectID opts \<and> p_slug p = cp_Slug opts) (plans s)"
  shows "fst (CreatePlanGraph uuid \<lparr>cg_Plan = opts, cg_Tasks = specs, cg_Activate = act\<rparr> s) = Inr uuid"
proof -
  obtain row where row: "createPlanOn uuid opts s = (Inr uuid, s\<lparr>plans := plans s @ [row]\<rparr>)" "p_id row = uuid"
    using assms(5-10) by (simp add: createPlanOn_def unused_id_def)
  let ?s1 = "s\<lparr>plans := plans s @ [row]\<rparr>"
  have "\<exists>s'. writeGraphTasksOn uuid specs ?s1 = (Inr (), s') \<and> plans s' = plans ?s1"
    by (rule writeGraph_succeeds [OF assms(1-4)])
      (use assms(5) row(2) in \<open>auto simp: unused_id_def plan_exists_def task_exists_def has_metadata_def edges_def list_all_iff list_ex_iff\<close>)
  then obtain s2 where s2: "writeGraphTasksOn uuid specs ?s1 = (Inr (), s2)" "plans s2 = plans s @ [row]" by auto
  have "rows_affected (\<lambda>p. p_id p = uuid) (plans s2) \<noteq> 0" using row(2) s2(2) by simp
  then show ?thesis
    using row(1) s2(1) by (auto simp: CreatePlanGraph_def in_tx_def op_bind_def op_return_def setPlanStatusOn_def)
qed

lemma deps_of_spec:
  "distinct (map (\<lambda>x. ct_ID (gt_Task x)) specs) \<Longrightarrow> x \<in> set specs \<Longrightarrow>
   filter (\<lambda>d. d_plan d = planID \<and> d_task d = ct_ID (gt_Task x)) (concat (map (spec_deps planID) specs)) = spec_deps planID x"
proof (induction specs)
  case (Cons y specs)
  have none: "filter (\<lambda>d. d_plan d = planID \<and> d_task d = i) (spec_deps planID y) = (if ct_ID (gt_Task y) = i then spec_deps planID y else [])" for i y
    by (auto simp: spec_deps_def filter_map o_def)
  have rest: "filter (\<lambda>d. d_plan d = planID \<and> d_task d = i) (concat (map (spec_deps planID) specs)) = []"
    if "i \<notin> (\<lambda>x. ct_ID (gt_Task x)) ` set specs" for i
    using that by (auto simp: filter_empty_conv spec_deps_def)
  show ?case
  proof (cases "x = y")
    case True
    then show ?thesis using Cons.prems rest [of "ct_ID (gt_Task y)"] none by simp
  next
    case False
    then have "x \<in> set specs" "ct_ID (gt_Task y) \<noteq> ct_ID (gt_Task x)" using Cons.prems by auto
    then show ?thesis using Cons none by simp
  qed
qed simp

lemma spec_task_simps [simp]:
  "t_id (spec_task planID now spec) = ct_ID (gt_Task spec)" "t_plan (spec_task planID now spec) = planID"
  "t_status (spec_task planID now spec) =
    (if ct_RequiresApproval (gt_Task spec) then TaskStatusReadyPendingApproval else TaskStatusPending)"
  by (simp_all add: spec_task_def) (simp add: new_task_row_def)

lemma zip_of_maps: "zip (map f xs) (map g xs) = map (\<lambda>x. (f x, g x)) xs"
  by (induction xs) auto

lemma created_nodes:
  assumes "CreatePlanGraph uuid opts s = (Inr x, s')" "unused_id uuid s" "distinct (map (\<lambda>x. ct_ID (gt_Task x)) (cg_Tasks opts))"
  shows "plan_nodes uuid s' = zip (map (\<lambda>x. ct_ID (gt_Task x)) (cg_Tasks opts)) (map gt_DependsOn (cg_Tasks opts))"
    "filter (\<lambda>t. t_plan t = uuid) (tasks s') = map (spec_task uuid (clock s)) (cg_Tasks opts)"
proof -
  have old: "filter (\<lambda>t. t_plan t = uuid) (tasks s) = []" "\<And>i. filter (\<lambda>d. d_plan d = uuid \<and> d_task d = i) (deps s) = []"
    using assms(2) by (auto simp: unused_id_def list_all_iff filter_empty_conv)
  have new: "tasks s' = tasks s @ map (spec_task uuid (clock s)) (cg_Tasks opts)"
    "deps s' = deps s @ concat (map (spec_deps uuid) (cg_Tasks opts))"
    using CreatePlanGraph_rows [OF assms(1)] by simp_all
  show ts: "filter (\<lambda>t. t_plan t = uuid) (tasks s') = map (spec_task uuid (clock s)) (cg_Tasks opts)"
    using old(1) by (simp add: new filter_map o_def)
  have "map d_on (filter (\<lambda>d. d_plan d = uuid \<and> d_task d = ct_ID (gt_Task x)) (deps s')) = gt_DependsOn x"
    if "x \<in> set (cg_Tasks opts)" for x
    using deps_of_spec [OF assms(3) that, of uuid] old(2) by (simp add: new) (simp add: spec_deps_def o_def)
  then show "plan_nodes uuid s' = zip (map (\<lambda>x. ct_ID (gt_Task x)) (cg_Tasks opts)) (map gt_DependsOn (cg_Tasks opts))"
    unfolding plan_nodes_def ts zip_of_maps by simp
qed

lemma ImportPlan_creates:
  assumes "unannotated p" "walkGroups 0 (Groups p) [] \<noteq> []" "parse (ip_Markdown opts) = Some p"
    "ip_ProjectID opts \<noteq> []" "ip_Slug opts \<noteq> []" "ip_Title opts \<noteq> []"
    "unused_id uuid s" "project_exists (ip_ProjectID opts) s"
    "\<not> list_ex (\<lambda>q. p_project q = ip_ProjectID opts \<and> p_slug q = ip_Slug opts) (plans s)"
  obtains specs s' co where "graphSpecs p = Inr specs" "CreatePlanGraph uuid co s = (Inr uuid, s')" "cg_Tasks co = specs"
    "ImportPlan parse uuid opts s = (Inr uuid, s')" "map (\<lambda>x. ct_ID (gt_Task x)) specs = StepIDs p"
    "map gt_DependsOn specs = documentOrderEdges p (StepIDs p)"
    "map (\<lambda>x. ct_RequiresApproval (gt_Task x)) specs = map (\<lambda>c. step_RequiresApproval (snd c)) (walkGroups 0 (Groups p) [])"
proof -
  obtain specs where specs: "graphSpecs p = Inr specs" "list_all plain_spec specs"
    "map (\<lambda>x. ct_ID (gt_Task x)) specs = StepIDs p" "map gt_DependsOn specs = documentOrderEdges p (StepIDs p)"
    "map (\<lambda>x. ct_RequiresApproval (gt_Task x)) specs = map (\<lambda>c. step_RequiresApproval (snd c)) (walkGroups 0 (Groups p) [])"
    using graphSpecs_unannotated [OF assms(1,2)] by blast
  let ?plan = "\<lparr>cp_ProjectID = ip_ProjectID opts, cp_Slug = ip_Slug opts, cp_Title = ip_Title opts,
    cp_SourceMarkdown = ip_Markdown opts, cp_TagsJSON = []\<rparr>"
  let ?co = "\<lparr>cg_Plan = ?plan, cg_Tasks = specs, cg_Activate = True\<rparr>"
  have ids: "task_ids p = StepIDs p" by (rule unannotated_ids [OF assms(1)])
  have len: "length specs = length (StepIDs p)" using specs(3) by (metis length_map)
  have earlier: "distinct (gt_DependsOn (specs ! k)) \<and> set (gt_DependsOn (specs ! k)) \<subseteq> set (take k (StepIDs p))"
    if k: "k < length (StepIDs p)" for k
  proof -
    have "gt_DependsOn (specs ! k) = documentOrderEdges p (StepIDs p) ! k"
      using specs(4) k len by (metis nth_map)
    then show ?thesis using document_edges_back [of k p] k distinct_StepIDs [of p] by (simp add: ids)
  qed
  have "fst (CreatePlanGraph uuid ?co s) = Inr uuid"
    by (rule CreatePlanGraph_succeeds [OF specs(2,3) distinct_StepIDs earlier assms(7)]) (use assms in simp_all)
  then obtain s' where cr: "CreatePlanGraph uuid ?co s = (Inr uuid, s')" by (metis prod.collapse)
  then have "ImportPlan parse uuid opts s = (Inr uuid, s')"
    using assms(3-6) specs(1) by (simp add: ImportPlan_def)
  then show thesis using that [OF specs(1) cr] specs by simp
qed

text \<open>A plan without metadata always imports.  If the parser accepts the document, it has at least one step
  and every step has a text, and the project exists, the slug is free in it and the generated id is
  unused, then \<open>ImportPlan\<close> succeeds and the store holds, under the new id, the steps of the plan with
  exactly the edges of document order: no duplicate, no cycle and no constraint stands in the
  way.\<close>

theorem plain_plan_imports:
  assumes "unannotated p" "walkGroups 0 (Groups p) [] \<noteq> []" "parse (ip_Markdown opts) = Some p"
    "ip_ProjectID opts \<noteq> []" "ip_Slug opts \<noteq> []" "ip_Title opts \<noteq> []"
    "unused_id uuid s" "project_exists (ip_ProjectID opts) s"
    "\<not> list_ex (\<lambda>q. p_project q = ip_ProjectID opts \<and> p_slug q = ip_Slug opts) (plans s)"
  shows "fst (ImportPlan parse uuid opts s) = Inr uuid \<and>
    plan_nodes uuid (snd (ImportPlan parse uuid opts s)) = zip (StepIDs p) (documentOrderEdges p (StepIDs p))"
proof (rule ImportPlan_creates [where parse = parse and opts = opts and p = p and s = s and uuid = uuid, OF assms])
  fix specs s' co
  assume *: "CreatePlanGraph uuid co s = (Inr uuid, s')" "cg_Tasks co = specs" "ImportPlan parse uuid opts s = (Inr uuid, s')"
    "map (\<lambda>x. ct_ID (gt_Task x)) specs = StepIDs p" "map gt_DependsOn specs = documentOrderEdges p (StepIDs p)"
  have "plan_nodes uuid s' = zip (StepIDs p) (documentOrderEdges p (StepIDs p))"
    using created_nodes(1) [OF *(1) assms(7)] distinct_StepIDs [of p] by (simp add: *(2,4,5))
  then show ?thesis using *(3) by simp
qed

text \<open>The demonstration plan, imported into the demonstration project.\<close>

definition demo_import :: ImportPlanOpts where
  "demo_import = \<lparr>ip_ProjectID = ''j'', ip_Slug = ''s'', ip_Title = ''t'', ip_Markdown = ''# t''\<rparr>"

definition demo_imported :: store where
  "demo_imported = snd (ImportPlan (\<lambda>_. Some demo_doc) ''p'' demo_import demo_project)"

lemma demo_import_facts:
  "unannotated demo_doc" "walkGroups 0 (Groups demo_doc) [] \<noteq> []" "(\<lambda>_. Some demo_doc) (ip_Markdown demo_import) = Some demo_doc"
  "ip_ProjectID demo_import \<noteq> []" "ip_Slug demo_import \<noteq> []" "ip_Title demo_import \<noteq> []"
  "unused_id ''p'' demo_project" "project_exists (ip_ProjectID demo_import) demo_project"
  "\<not> list_ex (\<lambda>q. p_project q = ip_ProjectID demo_import \<and> p_slug q = ip_Slug demo_import) (plans demo_project)"
  by code_simp+

theorem plain_plan_imports_witness:
  "fst (ImportPlan (\<lambda>_. Some demo_doc) ''p'' demo_import demo_project) = Inr ''p'' \<and>
   plan_nodes ''p'' demo_imported = [(''0.0'', []), (''0.1'', []), (''1.0.0'', [''0.0'', ''0.1'']), (''1.0.1'', [''1.0.0'']),
     (''1.1.0'', [''1.0.1''])]"
proof -
  have "zip (StepIDs demo_doc) (documentOrderEdges demo_doc (StepIDs demo_doc)) =
    [(''0.0'', []), (''0.1'', []), (''1.0.0'', [''0.0'', ''0.1'']), (''1.0.1'', [''1.0.0'']), (''1.1.0'', [''1.0.1''])]"
    by code_simp
  then show ?thesis
    using plain_plan_imports [where parse = "\<lambda>_. Some demo_doc" and uuid = "''p''", OF demo_import_facts] by (simp only: demo_imported_def)
qed

section \<open>The first wave\<close>

lemma ready_loop_subset: "c \<in> set (ready_loop par D cs) \<Longrightarrow> c \<in> set cs"
  by (induction par D cs rule: ready_loop.induct) (auto split: if_splits)

lemma decompose_calls:
  obtains ready par where "DecomposeRefs p D = (map snd ready, map fst ready, par)" "set ready \<subseteq> set (walkGroups 0 (Groups p) [])"
proof (cases "List.find (\<lambda>l. \<not> leaf_done D l) (leaves 0 (Groups p) [])")
  case None
  then have "DecomposeRefs p D = (map snd [], map fst [], False)" by (simp add: DecomposeRefs_def decomposeGroups_leaves)
  then show thesis by (rule that) simp
next
  case (Some l)
  obtain q par steps where l: "l = (q, par, steps)" by (cases l)
  then have "(q, par, steps) \<in> set (leaves 0 (Groups p) [])" using Some by (auto dest: find_SomeD)
  then have "set (step_calls q steps) \<subseteq> set (walkGroups 0 (Groups p) [])"
    by (force simp: walkGroups_leaves leaf_calls_def)
  then have "set (ready_loop par D (step_calls q steps)) \<subseteq> set (walkGroups 0 (Groups p) [])"
    using ready_loop_subset by blast
  moreover have "\<exists>flag. DecomposeRefs p D = (map snd (ready_loop par D (step_calls q steps)), map fst (ready_loop par D (step_calls q steps)), flag)"
    using Some l by (auto simp: DecomposeRefs_def decomposeGroups_leaves leafReady_def Let_def)
  ultimately show thesis using that by blast
qed

text \<open>An imported plan starts where its document starts.  Right after the import of a plan without
  metadata into a reachable store, the tasks \<open>Ready\<close> returns are, each once, the steps of the first
  wave of the decomposition that need no approval.\<close>

theorem imported_plan_starts_like_document:
  assumes "store_reachable s" "unannotated p" "walkGroups 0 (Groups p) [] \<noteq> []" "parse (ip_Markdown opts) = Some p"
    "ip_ProjectID opts \<noteq> []" "ip_Slug opts \<noteq> []" "ip_Title opts \<noteq> []"
    "unused_id uuid s" "project_exists (ip_ProjectID opts) s"
    "\<not> list_ex (\<lambda>q. p_project q = ip_ProjectID opts \<and> p_slug q = ip_Slug opts) (plans s)"
    "DecomposeRefs p (\<lambda>_. False) = (steps, refs, par)"
  shows "mset (map Task_ID (Ready uuid (snd (ImportPlan parse uuid opts s)))) =
    mset (map (\<lambda>c. StepID (snd c)) (filter (\<lambda>c. \<not> step_RequiresApproval (fst c)) (zip steps refs)))"
proof (rule ImportPlan_creates [where parse = parse and opts = opts and p = p and s = s and uuid = uuid, OF assms(2-10)])
  fix specs s' co
  assume *: "CreatePlanGraph uuid co s = (Inr uuid, s')" "cg_Tasks co = specs" "ImportPlan parse uuid opts s = (Inr uuid, s')"
    "map (\<lambda>x. ct_ID (gt_Task x)) specs = StepIDs p" "map gt_DependsOn specs = documentOrderEdges p (StepIDs p)"
    "map (\<lambda>x. ct_RequiresApproval (gt_Task x)) specs = map (\<lambda>c. step_RequiresApproval (snd c)) (walkGroups 0 (Groups p) [])"
  let ?nodes = "zip (StepIDs p) (documentOrderEdges p (StepIDs p))"
  have dis: "distinct (map (\<lambda>x. ct_ID (gt_Task x)) (cg_Tasks co))" using *(2,4) distinct_StepIDs [of p] by simp
  have nodes: "plan_nodes uuid s' = ?nodes"
    using created_nodes(1) [OF *(1) assms(8) dis] by (simp add: *(2,4,5))
  have "key_inv s'"
    using CreatePlanGraph_inv [OF reachable_inv [OF assms(1)], of uuid co] *(1) by (simp add: store_inv_def)
  note rows = ready_rows_nodes [OF this, of uuid, unfolded nodes]
  have mine: "(t \<in> set (tasks s') \<and> t_plan t = uuid) \<longleftrightarrow> (\<exists>x \<in> set specs. t = spec_task uuid (clock s) x)" for t
    using arg_cong [OF created_nodes(2) [OF *(1) assms(8) dis], of set] by (auto simp: *(2))
  have unfinished: "\<not> step_finished uuid s' i" if "i \<in> set (StepIDs p)" for i
  proof -
    obtain x where "x \<in> set specs" "i = ct_ID (gt_Task x)" using \<open>i \<in> set (StepIDs p)\<close> arg_cong [OF *(4), of set] by (auto simp: image_iff)
    then have "spec_task uuid (clock s) x \<in> set (tasks s')" "i = t_id (spec_task uuid (clock s) x)"
      using mine [of "spec_task uuid (clock s) x"] by auto
    moreover have "\<not> satisfied (t_status (spec_task uuid (clock s) x))" by (simp add: satisfied_def)
    ultimately show ?thesis unfolding step_finished_def list_all_iff using spec_task_simps(2) by blast
  qed
  have deps: "set ds \<subseteq> set (StepIDs p)" if "(i, ds) \<in> set ?nodes" for i ds
  proof -
    have ids: "task_ids p = StepIDs p" by (rule unannotated_ids [OF assms(2)])
    obtain k where "k < length (StepIDs p)" "ds = documentOrderEdges p (StepIDs p) ! k" using \<open>(i, ds) \<in> set ?nodes\<close> by (auto simp: in_set_zip)
    then show ?thesis using document_edges_back(2) [of k p] distinct_StepIDs [of p] by (auto simp: ids dest!: in_set_takeD)
  qed
  have "ready_by_edges (step_finished uuid s') ?nodes = ready_by_edges (\<lambda>_. False) ?nodes"
    unfolding ready_by_edges_def
  proof (intro arg_cong [where f = "map fst"] filter_cong refl)
    fix n assume n: "n \<in> set ?nodes"
    obtain i ds where nn: "n = (i, ds)" by (cases n)
    have "\<not> step_finished uuid s' i" using n nn unfinished by (auto dest: set_zip_leftD)
    moreover have "list_all (step_finished uuid s') ds \<longleftrightarrow> list_all (\<lambda>_. False) ds"
      using deps [of i ds] n nn unfinished by (cases ds) auto
    ultimately show "(\<not> step_finished uuid s' (fst n) \<and> list_all (step_finished uuid s') (snd n)) =
        (\<not> False \<and> list_all (\<lambda>_. False) (snd n))" by (simp add: nn)
  qed
  also have "\<dots> = map StepID refs"
    using decompose_edges [of "\<lambda>_. False" p] assms(11) by (simp add: closed_done_def list_all_iff)
  finally have wave: "ready_by_edges (step_finished uuid s') ?nodes = map StepID refs" .
  obtain ready where ready: "steps = map snd ready" "refs = map fst ready" "set ready \<subseteq> set (walkGroups 0 (Groups p) [])"
    using decompose_calls [of p "\<lambda>_. False"] assms(11) by (metis Pair_inject)
  have claim: "step_claimable uuid s' (StepID (fst c)) \<longleftrightarrow> \<not> step_RequiresApproval (snd c)" if "c \<in> set (walkGroups 0 (Groups p) [])" for c
  proof -
    obtain k where k: "k < length (walkGroups 0 (Groups p) [])" "c = walkGroups 0 (Groups p) [] ! k" using \<open>c \<in> set (walkGroups 0 (Groups p) [])\<close> by (metis in_set_conv_nth)
    have len: "length specs = length (walkGroups 0 (Groups p) [])" using *(6) by (metis length_map)
    have "ct_ID (gt_Task (specs ! k)) = StepID (fst c)"
      using *(4) k len by (metis (no_types, lifting) StepIDs_def nth_map)
    moreover have "ct_RequiresApproval (gt_Task (specs ! k)) = step_RequiresApproval (snd c)" using *(6) k len by (metis nth_map)
    moreover have "specs ! k \<in> set specs" using k len by simp
    moreover have "x = specs ! k" if "x \<in> set specs" "ct_ID (gt_Task x) = ct_ID (gt_Task (specs ! k))" for x
      using dis that calculation(3) unfolding *(2) by (auto simp: distinct_map dest: inj_onD)
    ultimately show ?thesis
      using mine unfolding step_claimable_def list_ex_iff claimable_def by (metis spec_task_simps TaskStatus.distinct(3,11,21))
  qed
  have "map t_id (ready_rows uuid s') = map (\<lambda>c. StepID (fst c)) (filter (\<lambda>c. step_claimable uuid s' (StepID (fst c))) ready)"
    unfolding rows wave ready(2) by (simp add: filter_map o_def)
  also have "\<dots> = map (\<lambda>c. StepID (fst c)) (filter (\<lambda>c. \<not> step_RequiresApproval (snd c)) ready)"
    using claim ready(3) by (intro arg_cong [where f = "map _"] filter_cong) auto
  also have "\<dots> = map (\<lambda>c. StepID (snd c)) (filter (\<lambda>c. \<not> step_RequiresApproval (fst c)) (zip steps refs))"
    unfolding ready(1,2) zip_map_map zip_same_conv_map by (simp add: filter_map o_def)
  finally have order: "map t_id (ready_rows uuid s') =
    map (\<lambda>c. StepID (snd c)) (filter (\<lambda>c. \<not> step_RequiresApproval (fst c)) (zip steps refs))" .
  have "mset (map Task_ID (Ready uuid s')) = mset (map t_id (ready_rows uuid s'))"
    by (simp add: Ready_def scanTasks_def scanTask_def o_def)
  then show ?thesis using *(3) by (simp only: order snd_conv)
qed

theorem imported_plan_starts_like_document_witness:
  "mset (map Task_ID (Ready ''p'' demo_imported)) = {#''0.0'', ''0.1''#}"
proof -
  have "DecomposeRefs demo_doc (\<lambda>_. False) = ([demo_step ''a'', demo_step ''b''],
    [\<lparr>GroupPath = [0], Index = 0\<rparr>, \<lparr>GroupPath = [0], Index = 1\<rparr>], True)" by code_simp
  from imported_plan_starts_like_document [where parse = "\<lambda>_. Some demo_doc" and uuid = "''p''", OF demo_reachable(1) demo_import_facts this]
  have "mset (map Task_ID (Ready ''p'' demo_imported)) = mset (map (\<lambda>c. StepID (snd c)) (filter (\<lambda>c. \<not> step_RequiresApproval (fst c))
      (zip [demo_step ''a'', demo_step ''b''] [\<lparr>GroupPath = [0], Index = 0\<rparr>, \<lparr>GroupPath = [0], Index = 1\<rparr>])))"
    by (simp only: demo_imported_def)
  also have "map (\<lambda>c. StepID (snd c)) (filter (\<lambda>c. \<not> step_RequiresApproval (fst c))
      (zip [demo_step ''a'', demo_step ''b''] [\<lparr>GroupPath = [0], Index = 0\<rparr>, \<lparr>GroupPath = [0], Index = 1\<rparr>])) = [''0.0'', ''0.1'']"
    by code_simp
  finally show ?thesis by simp
qed

text \<open>The same plan after a worker has finished the parallel group.\<close>

lemma ImportPlan_reachable:
  assumes "store_reachable s"
  shows "store_reachable (snd (ImportPlan parse uuid opts s))"
proof -
  have "snd (ImportPlan parse uuid opts s) = s \<or> (\<exists>co. snd (ImportPlan parse uuid opts s) = snd (CreatePlanGraph uuid co s))"
    unfolding ImportPlan_def by (auto split: option.split sum.split prod.split) (metis snd_conv)+
  then show ?thesis using step [OF assms create_plan_graph] assms by auto
qed

definition demo_phase :: store where
  "demo_phase = snd (MarkDone ''p'' ''0.1'' ''s'' [] (snd (ClaimTask ''p'' ''0.1'' ''s'' ''w''
     (snd (MarkDone ''p'' ''0.0'' ''s'' [] (snd (ClaimTask ''p'' ''0.0'' ''s'' ''w''
       (snd (CreateWorker ''w'' \<lparr>wo_SessionID = ''s'', wo_Provider = ''x'', wo_Model = [],
          wo_NativeFanout = False, wo_SubprocessPID = 7, wo_SubprocessStartTime = ''0''\<rparr>
        (snd (CreateSession ''s'' \<lparr>so_ID = [], so_Role = ''r'', so_PID = 0, so_PIDStartTime = [], so_Host = []\<rparr>
          demo_imported)))))))))))"

lemma demo_phase_reachable: "store_reachable demo_phase"
  unfolding demo_phase_def demo_imported_def
  by (rule step [OF step [OF step [OF step [OF step [OF step [OF ImportPlan_reachable [OF demo_reachable(1)]
    create_session] create_worker] claim_task] mark_done] claim_task] mark_done])

section \<open>Every later stage\<close>

text \<open>\<^bold>\<open>C23.\<close> The store releases what the document releases.  Take a reachable store that holds a plan with the
  document-order edges of a parsed plan, and in which the predecessors of a finished task are
  finished.  The tasks that \<open>Ready\<close> returns are, each once, the steps that \<open>DecomposeRefs\<close> computes from
  the positions for the finished steps, without those that are running, gated or blocked.\<close>

theorem ready_refines_decompose:
  assumes "store_reachable s"
    and "plan_nodes planID s = zip (StepIDs p) (documentOrderEdges p (StepIDs p))"
    and "closed_done (step_finished planID s) (plan_nodes planID s)"
  shows "mset (map Task_ID (Ready planID s)) =
    mset (filter (step_claimable planID s) (map StepID (fst (snd (DecomposeRefs p (step_finished planID s))))))"
proof -
  have "key_inv s" using reachable_inv [OF assms(1)] by (simp add: store_inv_def)
  note rows = ready_rows_nodes [OF this, of planID]
  have "mset (map Task_ID (Ready planID s)) = mset (map t_id (ready_rows planID s))"
    by (simp add: Ready_def scanTasks_def scanTask_def o_def)
  then show ?thesis
    unfolding rows assms(2) using decompose_edges [of "step_finished planID s" p] assms(2,3) by simp
qed

theorem ready_refines_decompose_witness:
  "let D = step_finished ''p'' demo_phase in
   mset (map Task_ID (Ready ''p'' demo_phase)) =
     mset (filter (step_claimable ''p'' demo_phase) (map StepID (fst (snd (DecomposeRefs demo_doc D))))) \<and>
   map StepID (fst (snd (DecomposeRefs demo_doc D))) = [''1.0.0'']"
proof -
  let ?D = "step_finished ''p'' demo_phase"
  have "plan_nodes ''p'' demo_phase = zip (StepIDs demo_doc) (documentOrderEdges demo_doc (StepIDs demo_doc))" by code_simp
  moreover have "closed_done ?D (plan_nodes ''p'' demo_phase)" by code_simp
  moreover have "map StepID (fst (snd (DecomposeRefs demo_doc ?D))) = [''1.0.0'']" by code_simp
  ultimately show ?thesis
    using ready_refines_decompose [OF demo_phase_reachable, of "''p''" demo_doc] unfolding Let_def by blast
qed

end
