(* ===== verification/Go_Path.thy ===== *)
theory Go_Path
  imports Go_Library
begin

text \<open>
  More of \<open>path/filepath\<close> on a Unix system: \<open>Join\<close>, \<open>Dir\<close>, \<open>Base\<close>, \<open>IsAbs\<close>, with the algebra of
  absolute paths as lists of elements.
\<close>

definition filepath_Join :: "string list \<Rightarrow> string" where
  "filepath_Join elem = (case dropWhile (\<lambda>e. e = []) elem of [] \<Rightarrow> [] | es \<Rightarrow> filepath_Clean (join_with ''/'' es))"

definition filepath_Dir :: "string \<Rightarrow> string" where
  "filepath_Dir p = filepath_Clean (rev (dropWhile (\<lambda>c. c \<noteq> CHR ''/'') (rev p)))"

definition filepath_Base :: "string \<Rightarrow> string" where
  "filepath_Base p =
    (if p = [] then ''.''
     else let b = rev (takeWhile (\<lambda>c. c \<noteq> CHR ''/'') (dropWhile (\<lambda>c. c = CHR ''/'') (rev p)))
          in if b = [] then ''/'' else b)"

definition filepath_IsAbs :: "string \<Rightarrow> bool" where
  "filepath_IsAbs p = rooted_path p"

section \<open>Absolute paths as element lists\<close>

definition abs_path :: "string list \<Rightarrow> string" where
  "abs_path ws = CHR ''/'' # join_with ''/'' ws"

definition names_ok :: "string list \<Rightarrow> bool" where
  "names_ok ws \<longleftrightarrow> list_all ordinary ws"

lemma names_ok_simps [simp]:
  "names_ok []" "names_ok (w # ws) \<longleftrightarrow> ordinary w \<and> names_ok ws" "names_ok (ws @ vs) \<longleftrightarrow> names_ok ws \<and> names_ok vs"
  by (simp_all add: names_ok_def)

lemma names_ok_take [simp]: "names_ok ws \<Longrightarrow> names_ok (take n ws)"
  by (auto simp: names_ok_def list_all_iff dest: in_set_takeD)

lemma ordinary_slash: "ordinary w \<Longrightarrow> CHR ''/'' \<notin> set w"
  by (simp add: ordinary_def)

lemma ordinary_ne: "ordinary w \<Longrightarrow> w \<noteq> []"
  by (simp add: ordinary_def)

lemma split_abs: "names_ok ws \<Longrightarrow> ws \<noteq> [] \<Longrightarrow> split_on (CHR ''/'') (join_with ''/'' ws) = ws"
  using split_join [of ws "CHR ''/''"] by (auto simp: names_ok_def list_all_iff ordinary_slash)

lemma join_names_ne: "names_ok ws \<Longrightarrow> join_with ''/'' ws = [] \<longleftrightarrow> ws = []"
  using join_nonempty [of ws "''/''"] by (cases ws) (auto simp: names_ok_def list_all_iff ordinary_def)

lemma abs_path_inj: "names_ok ws \<Longrightarrow> names_ok vs \<Longrightarrow> abs_path ws = abs_path vs \<longleftrightarrow> ws = vs"
proof
  assume ok: "names_ok ws" "names_ok vs" and "abs_path ws = abs_path vs"
  then have eq: "join_with ''/'' ws = join_with ''/'' vs" by (simp add: abs_path_def)
  show "ws = vs"
  proof (cases "ws = []")
    case True
    then have "join_with ''/'' vs = []" using eq by (metis join_with.simps(1))
    then show ?thesis using True join_names_ne [OF ok(2)] by metis
  next
    case False
    then have "vs \<noteq> []" using eq join_names_ne [OF ok(1)] join_with.simps(1) by metis
    then show ?thesis using split_abs [OF ok(1) False] split_abs [OF ok(2)] eq by metis
  qed
qed simp

lemma split_slash: "split_on (CHR ''/'') (CHR ''/'' # p) = [] # split_on (CHR ''/'') p"
  by simp

lemma Clean_abs: "names_ok ws \<Longrightarrow> filepath_Clean (abs_path ws) = abs_path ws"
proof -
  assume ok: "names_ok ws"
  have "clean_elems True [] (split_on (CHR ''/'') (abs_path ws)) = ws"
  proof (cases "ws = []")
    case False
    have "clean_elems True [] ws = ws" using clean_elems_ordinary [of ws True "[]"] ok by (simp add: names_ok_def list_all_iff)
    then show ?thesis using split_abs [OF ok False] by (simp add: abs_path_def)
  qed (simp add: abs_path_def)
  then show ?thesis by (simp add: filepath_Clean_def rooted_path_def abs_path_def)
qed

lemma join_snoc: "ws \<noteq> [] \<Longrightarrow> join_with sep (ws @ [w]) = join_with sep ws @ sep @ w"
proof (induction ws)
  case (Cons v ws)
  then show ?case by (cases ws) auto
qed simp

lemma abs_path_snoc: "ws \<noteq> [] \<Longrightarrow> abs_path (ws @ [w]) = abs_path ws @ CHR ''/'' # w"
  by (simp add: abs_path_def join_snoc)

lemma takeWhile_no_slash: "CHR ''/'' \<notin> set w \<Longrightarrow> takeWhile (\<lambda>c. c \<noteq> CHR ''/'') (w @ CHR ''/'' # p) = w"
  by (induction w) auto

lemma dropWhile_no_slash: "CHR ''/'' \<notin> set w \<Longrightarrow> dropWhile (\<lambda>c. c \<noteq> CHR ''/'') (w @ CHR ''/'' # p) = CHR ''/'' # p"
  by (induction w) auto

lemma clean_trailing: "clean_elems r out (ws @ [[]]) = clean_elems r out ws"
  by (induction r out ws rule: clean_elems.induct) (auto split: list.splits)

lemma split_trailing: "split_on (CHR ''/'') (p @ [CHR ''/'']) = split_on (CHR ''/'') p @ [[]]"
  by (induction p) (auto split: list.split)

lemma Clean_trailing: "p \<noteq> [] \<Longrightarrow> filepath_Clean (p @ [CHR ''/'']) = filepath_Clean p"
  by (cases p) (simp_all add: filepath_Clean_def rooted_path_def split_trailing [of "_ # _", simplified] clean_trailing Let_def)

lemma Dir_abs: "names_ok (ws @ [w]) \<Longrightarrow> filepath_Dir (abs_path (ws @ [w])) = abs_path ws"
proof (cases "ws = []")
  case True
  assume ok: "names_ok (ws @ [w])"
  have "dropWhile (\<lambda>c. c \<noteq> CHR ''/'') (rev w @ [CHR ''/'']) = [CHR ''/'']"
    using dropWhile_no_slash [of "rev w" "[]"] ok by (simp add: ordinary_slash)
  then show ?thesis using True Clean_abs [of "[]"] by (simp add: filepath_Dir_def abs_path_def)
next
  case False
  assume ok: "names_ok (ws @ [w])"
  have "dropWhile (\<lambda>c. c \<noteq> CHR ''/'') (rev w @ CHR ''/'' # rev (abs_path ws)) = CHR ''/'' # rev (abs_path ws)"
    using dropWhile_no_slash [of "rev w"] ok by (simp add: ordinary_slash)
  then show ?thesis using False Clean_trailing [of "abs_path ws"] Clean_abs [of ws] ok
    by (simp add: filepath_Dir_def abs_path_snoc) (simp add: abs_path_def)
qed

lemma Base_abs: "names_ok (ws @ [w]) \<Longrightarrow> filepath_Base (abs_path (ws @ [w])) = w"
proof -
  assume ok: "names_ok (ws @ [w])"
  have w: "rev w \<noteq> []" "CHR ''/'' \<notin> set (rev w)" using ok by (auto simp: ordinary_def)
  obtain p where p: "abs_path (ws @ [w]) = p @ CHR ''/'' # w"
    by (cases "ws = []") (auto simp: abs_path_snoc, simp add: abs_path_def)
  have "dropWhile (\<lambda>c. c = CHR ''/'') (rev w @ CHR ''/'' # rev p) = rev w @ CHR ''/'' # rev p"
    using w by (cases "rev w") auto
  then show ?thesis using w takeWhile_no_slash [of "rev w" "rev p"] by (simp add: filepath_Base_def p)
qed

lemma Dir_root: "filepath_Dir (abs_path []) = abs_path []"
  using Clean_abs [of "[]"] by (simp add: filepath_Dir_def abs_path_def)

end
