(* ===== verification/Orch_Paths.thy ===== *)
theory Orch_Paths
  imports Go_Path Plan_Model
begin

text \<open>
  Declared inputs and outputs (\<open>internal/orch/task_paths.go\<close>) on a Unix system.  The file system is a
  parameter: \<open>eval\<close> is \<open>filepath.EvalSymlinks\<close> and \<open>hash\<close> the digest of a file read through the no-follow
  handle, \<open>None\<close> where it cannot be opened or read.
\<close>

section \<open>Resolution\<close>

datatype eval_result = Resolved string | NotExist | Fault

type_synonym file_system = "string \<Rightarrow> eval_result"

datatype path_error =
    ErrTaskPathEscapesProject string
  | ErrTaskPathUnresolvable string
  | ErrTaskInputPinMismatch string
  | OutOfFuel

text \<open>The loop of \<open>resolveThroughExistingAncestor\<close>; \<open>fuel\<close> bounds the number of ancestors.\<close>

fun resolve_loop :: "file_system \<Rightarrow> nat \<Rightarrow> string list \<Rightarrow> string \<Rightarrow> path_error + string" where
  "resolve_loop eval 0 remaining current = Inl OutOfFuel"
| "resolve_loop eval (Suc fuel) remaining current = (case eval current of
     Resolved resolved \<Rightarrow> Inr (if remaining = [] then resolved else filepath_Join (resolved # rev remaining))
   | Fault \<Rightarrow> Inl (ErrTaskPathUnresolvable current)
   | NotExist \<Rightarrow>
       (let parent = filepath_Dir current in
        if parent = current then Inl (ErrTaskPathUnresolvable current)
        else resolve_loop eval fuel (remaining @ [filepath_Base current]) parent))"

definition resolveThroughExistingAncestor :: "file_system \<Rightarrow> string \<Rightarrow> path_error + string" where
  "resolveThroughExistingAncestor eval path = resolve_loop eval (Suc (length path)) [] path"

definition isDriveLetter :: "char \<Rightarrow> bool" where
  "isDriveLetter c \<longleftrightarrow> (CHR ''a'' \<le> c \<and> c \<le> CHR ''z'') \<or> (CHR ''A'' \<le> c \<and> c \<le> CHR ''Z'')"

definition isRooted :: "string \<Rightarrow> bool" where
  "isRooted declared = (case declared of
     [] \<Rightarrow> False
   | c # cs \<Rightarrow> filepath_IsAbs declared \<or> c = CHR ''/'' \<or> c = CHR 0x5C \<or>
       (case cs of d # _ \<Rightarrow> d = CHR '':'' \<and> isDriveLetter c | [] \<Rightarrow> False))"

definition containedIn :: "string \<Rightarrow> string \<Rightarrow> bool" where
  "containedIn root path = (path = root \<or> strip_prefix (root @ ''/'') path \<noteq> None)"

definition secureProjectPath :: "file_system \<Rightarrow> string \<Rightarrow> string \<Rightarrow> path_error + string" where
  "secureProjectPath eval root declared =
    (if declared = [] then Inl (ErrTaskPathEscapesProject declared)
     else if isRooted declared then Inl (ErrTaskPathEscapesProject declared)
     else case eval root of
       Resolved resolvedRoot \<Rightarrow>
         (case resolveThroughExistingAncestor eval (filepath_Join [resolvedRoot, filepath_Clean declared]) of
            Inl e \<Rightarrow> Inl (ErrTaskPathUnresolvable declared)
          | Inr resolved \<Rightarrow>
              if containedIn resolvedRoot resolved then Inr resolved else Inl (ErrTaskPathEscapesProject declared))
     | _ \<Rightarrow> Inl (ErrTaskPathUnresolvable root))"

section \<open>Declarations of a task\<close>

record taskInputDecl =
  in_Path :: string
  in_SHA256 :: string

record taskFilesystemDecl =
  decl_Inputs :: "taskInputDecl list"
  decl_Outputs :: "string list"

definition declFromMetadata :: "Step \<Rightarrow> taskFilesystemDecl" where
  "declFromMetadata step = (case step_Metadata step of
     None \<Rightarrow> \<lparr>decl_Inputs = [], decl_Outputs = []\<rparr>
   | Some m \<Rightarrow> \<lparr>decl_Inputs = map (\<lambda>i. \<lparr>in_Path = ti_Path i, in_SHA256 = ti_SHA256 i\<rparr>) (elems (meta_Inputs m)),
               decl_Outputs = map to_Path (elems (meta_Outputs m))\<rparr>)"

text \<open>One declared input: \<open>None\<close> is acceptance.\<close>

definition check_input :: "file_system \<Rightarrow> (string \<Rightarrow> string option) \<Rightarrow> string \<Rightarrow> taskInputDecl \<Rightarrow> path_error option" where
  "check_input eval hash root i = (case secureProjectPath eval root (in_Path i) of
     Inl e \<Rightarrow> Some e
   | Inr resolved \<Rightarrow>
       if in_SHA256 i = [] then None
       else (case hash resolved of
          None \<Rightarrow> Some (ErrTaskInputPinMismatch (in_Path i))
        | Some got \<Rightarrow> if got \<noteq> in_SHA256 i then Some (ErrTaskInputPinMismatch (in_Path i)) else None))"

definition check_output :: "file_system \<Rightarrow> string \<Rightarrow> string \<Rightarrow> path_error option" where
  "check_output eval root out = (case secureProjectPath eval root out of Inl e \<Rightarrow> Some e | Inr _ \<Rightarrow> None)"

definition validateTaskFilesystem :: "file_system \<Rightarrow> (string \<Rightarrow> string option) \<Rightarrow> string \<Rightarrow> taskFilesystemDecl \<Rightarrow> path_error option" where
  "validateTaskFilesystem eval hash root decl =
    (case first_some (check_input eval hash root) (decl_Inputs decl) of
       Some e \<Rightarrow> Some e
     | None \<Rightarrow> first_some (check_output eval root) (decl_Outputs decl))"

definition escapes :: "path_error \<Rightarrow> bool" where
  "escapes e = (case e of ErrTaskPathEscapesProject _ \<Rightarrow> True | _ \<Rightarrow> False)"

section \<open>Absolute paths\<close>

text \<open>Walking a cleaned relative path from an absolute one.\<close>

definition walk_path :: "string list \<Rightarrow> string \<Rightarrow> string list" where
  "walk_path ws declared = clean_elems True (rev ws) (split_on (CHR ''/'') declared)"

end
