(* ===== verification/Orch_Paths_Laws.thy ===== *)
theory Orch_Paths_Laws
  imports Orch_Paths "HOL-Library.Sublist"
begin

text \<open>
  Containment of declared paths.  On a tree without symbolic links the check on strings is the prefix
  test on path elements.
\<close>

section \<open>Cleaning and walking\<close>










lemma abs_path_ne [simp]: "abs_path ws \<noteq> []"
  by (simp add: abs_path_def)



section \<open>Containment\<close>




section \<open>A tree without symbolic links\<close>









text \<open>With the fallback root \<open>.\<close> of a project without a recorded checkout nothing is contained: the
  joined path has no leading \<open>./\<close>.\<close>

lemma fallback_root_refuses:
  "secureProjectPath (\<lambda>p. if p = ''.'' then Resolved ''.'' else NotExist) ''.'' ''out'' = Inl (ErrTaskPathEscapesProject ''out'')"
  by code_simp

end
