(* ===== verification/Provider_Bindings.thy ===== *)
theory Provider_Bindings
  imports Ralph_Prelude Go_Text Go_Path
begin

text \<open>
  Provider bindings (\<open>internal/provider\<close>: \<open>binding.go\<close>, \<open>provider.go\<close>, \<open>capabilities.go\<close>,
  \<open>invocation.go\<close>, \<open>failure.go\<close>, the model and effort mapping of \<open>claude.go\<close>).  A binding is a name
  with a capability record; resolution is pure.  The digest behind the invocation hash is a
  parameter.
\<close>

section \<open>Capability records\<close>

type_synonym Model = string

record BindingConfig =
  bc_Type :: string
  bc_Bin :: string
  bc_Binary :: string
  bc_Args :: "string list option"
  bc_OutputFile :: string
  bc_TurnTimeout :: string
  bc_StallTimeout :: string
  bc_MaxRetries :: int
  bc_SessionIDRegex :: string
  bc_HaikuModel :: string
  bc_SonnetModel :: string
  bc_OpusModel :: string
  bc_LowEffort :: string
  bc_MediumEffort :: string
  bc_HighEffort :: string
  bc_MaxEffort :: string
  bc_SupportsResume :: "bool option"
  bc_UseAppendSystemPrompt :: "bool option"
  bc_NativeFanout :: bool
  bc_SupportsContainment :: "bool option"
  bc_WritePaths :: "string list option"

definition zero_config :: BindingConfig where
  "zero_config = \<lparr>bc_Type = [], bc_Bin = [], bc_Binary = [], bc_Args = None, bc_OutputFile = [], bc_TurnTimeout = [],
     bc_StallTimeout = [], bc_MaxRetries = 0, bc_SessionIDRegex = [], bc_HaikuModel = [], bc_SonnetModel = [],
     bc_OpusModel = [], bc_LowEffort = [], bc_MediumEffort = [], bc_HighEffort = [], bc_MaxEffort = [],
     bc_SupportsResume = None, bc_UseAppendSystemPrompt = None, bc_NativeFanout = False, bc_SupportsContainment = None,
     bc_WritePaths = None\<rparr>"

record Binding =
  b_Name :: string
  b_Config :: BindingConfig
  b_BinaryFromLocal :: bool

definition BindingSupportsContainment :: "Binding \<Rightarrow> bool" where
  "BindingSupportsContainment b = (bc_SupportsContainment (b_Config b) \<noteq> Some False)"

text \<open>\<open>home\<close> is the home directory, \<open>None\<close> where the system reports none.  \<close>

definition BindingWritePaths :: "string option \<Rightarrow> Binding \<Rightarrow> string list" where
  "BindingWritePaths home b =
    List.map_filter (\<lambda>entry.
      let e = TrimSpace entry in
      if e = [] then None
      else if hd e = CHR 0x7E then (case home of None \<Rightarrow> None | Some h \<Rightarrow> if h = [] then None else Some (filepath_Join [h, tl e]))
      else Some e) (case bc_WritePaths (b_Config b) of None \<Rightarrow> [] | Some ps \<Rightarrow> ps)"

section \<open>Resolution\<close>

record provider_File =
  pf_DefaultProvider :: string
  pf_Providers :: "string \<rightharpoonup> BindingConfig"

record provider_Local =
  pl_ProviderBinary :: string
  pl_ProviderBinaries :: "string \<rightharpoonup> string"

definition BinaryFor :: "provider_Local \<Rightarrow> string \<Rightarrow> string option" where
  "BinaryFor l n = (case pl_ProviderBinaries l n of
     Some bin \<Rightarrow> if bin \<noteq> [] then Some bin else if pl_ProviderBinary l \<noteq> [] then Some (pl_ProviderBinary l) else None
   | None \<Rightarrow> if pl_ProviderBinary l \<noteq> [] then Some (pl_ProviderBinary l) else None)"

definition defaultClaudeProvider :: BindingConfig where
  "defaultClaudeProvider = zero_config\<lparr>bc_Type := ''claude'', bc_Binary := ''claude'', bc_NativeFanout := True\<rparr>"

definition defaultCodexProvider :: BindingConfig where
  "defaultCodexProvider = zero_config\<lparr>bc_Type := ''codex'', bc_Binary := ''codex'', bc_NativeFanout := False,
     bc_WritePaths := Some [''~/.codex'']\<rparr>"

definition defaultOpencodeProvider :: BindingConfig where
  "defaultOpencodeProvider = zero_config\<lparr>bc_Type := ''opencode'', bc_Binary := ''opencode'', bc_NativeFanout := True,
     bc_WritePaths := Some [''~/.local/share/opencode'']\<rparr>"

definition defaultCopilotProvider :: BindingConfig where
  "defaultCopilotProvider = zero_config\<lparr>bc_Type := ''copilot'', bc_Binary := ''copilot'', bc_NativeFanout := False,
     bc_WritePaths := Some [''~/.copilot'']\<rparr>"

definition builtInProvider :: "string \<Rightarrow> BindingConfig option" where
  "builtInProvider n =
    (if n = [] \<or> n = ''claude'' then Some defaultClaudeProvider
     else if n = ''codex'' then Some defaultCodexProvider
     else if n = ''opencode'' then Some defaultOpencodeProvider
     else if n = ''copilot'' then Some defaultCopilotProvider
     else None)"

datatype provider_error =
    ErrProviderUndeclared string
  | ErrCapabilityUnknown "string list"
  | ErrCapabilityUnmet string "string list"
  | ErrProviderNotAllowed string string "string list"
  | ErrInvocationWhitespace string
  | ErrBindingCannotHonorRequest string
  | ErrUnsupportedProviderType string
  | ErrTimeoutSyntax string string
  | ErrTimeoutNotPositive string
  | ErrTimeoutTooLong string
  | ErrUnknownTimeoutField string
  | ErrProviderSelection string
  | ErrNotADuration string

definition resolved_name :: "provider_File \<Rightarrow> string \<Rightarrow> string" where
  "resolved_name cfg requested =
    (let n = (if requested = [] then pf_DefaultProvider cfg else requested) in if n = [] then ''claude'' else n)"

definition ResolveBinding :: "provider_File \<Rightarrow> provider_Local \<Rightarrow> string \<Rightarrow> provider_error + Binding" where
  "ResolveBinding cfg l requested =
    (let n = resolved_name cfg requested in
     case (case pf_Providers cfg n of Some c \<Rightarrow> Some c | None \<Rightarrow> builtInProvider n) of
       None \<Rightarrow> Inl (ErrProviderUndeclared n)
     | Some c0 \<Rightarrow>
         (let c1 = (if bc_Type c0 = [] then c0\<lparr>bc_Type := n\<rparr> else c0);
              c2 = (case BinaryFor l n of Some bin \<Rightarrow> c1\<lparr>bc_Binary := bin\<rparr> | None \<Rightarrow> c1);
              c3 = (if bc_Binary c2 = [] then (case builtInProvider (bc_Type c2) of
                      Some d \<Rightarrow> c2\<lparr>bc_Binary := bc_Binary d\<rparr> | None \<Rightarrow> c2) else c2)
          in Inr \<lparr>b_Name = n, b_Config = c3, b_BinaryFromLocal = BinaryFor l n \<noteq> None\<rparr>))"

datatype runner_kind = ClaudeRunner | CodexRunner | OpencodeRunner | CopilotRunner | DeclarativeRunner

definition NewRunner :: "Binding \<Rightarrow> provider_error + runner_kind" where
  "NewRunner b = (let ty = bc_Type (b_Config b) in
     if ty = [] \<or> ty = ''claude'' then Inr ClaudeRunner
     else if ty = ''codex'' then Inr CodexRunner
     else if ty = ''opencode'' then Inr OpencodeRunner
     else if ty = ''copilot'' then Inr CopilotRunner
     else if ty \<in> {''plain-stdout'', ''last-message-file'', ''stream-json''} then Inr DeclarativeRunner
     else Inl (ErrUnsupportedProviderType ty))"

section \<open>Capabilities\<close>

definition CapabilityNativeFanout :: string where "CapabilityNativeFanout = ''native_fanout''"
definition CapabilityResume :: string where "CapabilityResume = ''resume''"
definition CapabilityAppendSystemPrompt :: string where "CapabilityAppendSystemPrompt = ''append_system_prompt''"

definition BindingCapabilities :: "BindingConfig \<Rightarrow> string list" where
  "BindingCapabilities cfg =
    (if bc_NativeFanout cfg then [CapabilityNativeFanout] else []) @
    (if bc_SupportsResume cfg = Some True then [CapabilityResume] else []) @
    (if bc_UseAppendSystemPrompt cfg = Some True then [CapabilityAppendSystemPrompt] else [])"

definition KnownCapability :: "string \<Rightarrow> bool" where
  "KnownCapability key \<longleftrightarrow> key \<in> {CapabilityNativeFanout, CapabilityResume, CapabilityAppendSystemPrompt}"

definition CheckRequirements :: "Binding \<Rightarrow> string list \<Rightarrow> provider_error option" where
  "CheckRequirements b requires =
    (let keys = filter (\<lambda>k. k \<noteq> []) (map TrimSpace requires);
         unknown = filter (\<lambda>k. \<not> KnownCapability k) keys;
         unmet = filter (\<lambda>k. KnownCapability k \<and> k \<notin> set (BindingCapabilities (b_Config b))) keys in
     if requires = [] then None
     else if unknown \<noteq> [] then Some (ErrCapabilityUnknown (sort unknown))
     else if unmet \<noteq> [] then Some (ErrCapabilityUnmet (b_Name b) (sort unmet))
     else None)"

definition CheckAllowedProviders :: "Binding \<Rightarrow> string list \<Rightarrow> provider_error option" where
  "CheckAllowedProviders b providers =
    (let names = filter (\<lambda>n. n \<noteq> []) (map TrimSpace providers) in
     if b_Name b \<in> set names \<or> bc_Type (b_Config b) \<in> set names then None
     else if names = [] then None
     else Some (ErrProviderNotAllowed (b_Name b) (bc_Type (b_Config b)) (sort names)))"

section \<open>Invocations\<close>

record Request =
  rq_WorkingDir :: string
  rq_ManagedSessionID :: string
  rq_HookEndpoint :: string
  rq_ContainmentRoot :: string
  rq_UserPrompt :: string
  rq_Model :: Model
  rq_Effort :: string
  rq_TurnTimeout :: int
  rq_StallTimeout :: int
  rq_StrictBinding :: bool

definition zero_request :: Request where
  "zero_request = \<lparr>rq_WorkingDir = [], rq_ManagedSessionID = [], rq_HookEndpoint = [], rq_ContainmentRoot = [],
     rq_UserPrompt = [], rq_Model = [], rq_Effort = [], rq_TurnTimeout = 0, rq_StallTimeout = 0, rq_StrictBinding = False\<rparr>"

record Invocation =
  iv_Alias :: string
  iv_Provider :: string
  iv_Model :: string
  iv_Effort :: string

definition zero_invocation :: Invocation where
  "zero_invocation = \<lparr>iv_Alias = [], iv_Provider = [], iv_Model = [], iv_Effort = []\<rparr>"

definition resolveModel :: "BindingConfig \<Rightarrow> Model \<Rightarrow> string" where
  "resolveModel cfg model =
    (if model = ''haiku'' \<and> bc_HaikuModel cfg \<noteq> [] then bc_HaikuModel cfg
     else if model = ''opus'' \<and> bc_OpusModel cfg \<noteq> [] then bc_OpusModel cfg
     else if bc_SonnetModel cfg \<noteq> [] then bc_SonnetModel cfg
     else if bc_Type cfg = [] \<or> bc_Type cfg = ''claude'' then model
     else [])"

definition resolveEffort :: "BindingConfig \<Rightarrow> string \<Rightarrow> string" where
  "resolveEffort cfg effort =
    (if effort = ''low'' \<and> bc_LowEffort cfg \<noteq> [] then bc_LowEffort cfg
     else if effort = ''medium'' \<and> bc_MediumEffort cfg \<noteq> [] then bc_MediumEffort cfg
     else if effort = ''high'' \<and> bc_HighEffort cfg \<noteq> [] then bc_HighEffort cfg
     else if effort = ''max'' \<and> bc_MaxEffort cfg \<noteq> [] then bc_MaxEffort cfg
     else effort)"

definition bindingHonorsModel :: "BindingConfig \<Rightarrow> Model \<Rightarrow> string \<Rightarrow> bool" where
  "bindingHonorsModel cfg requested resolved \<longleftrightarrow>
    (requested = ''haiku'' \<and> bc_HaikuModel cfg \<noteq> []) \<or> (requested = ''sonnet'' \<and> bc_SonnetModel cfg \<noteq> []) \<or>
    (requested = ''opus'' \<and> bc_OpusModel cfg \<noteq> []) \<or> resolved = requested"

definition bindingMapsEffort :: "BindingConfig \<Rightarrow> string \<Rightarrow> bool" where
  "bindingMapsEffort cfg effort =
    (if effort = [] \<or> effort = ''default'' then True
     else if effort = ''low'' then bc_LowEffort cfg \<noteq> []
     else if effort = ''medium'' then bc_MediumEffort cfg \<noteq> []
     else if effort = ''high'' then bc_HighEffort cfg \<noteq> []
     else if effort = ''max'' then bc_MaxEffort cfg \<noteq> []
     else False)"

definition validateExactlyHonorable :: "Binding \<Rightarrow> Request \<Rightarrow> string \<Rightarrow> provider_error option" where
  "validateExactlyHonorable b req model =
    (if model = [] \<or> (rq_Model req \<noteq> [] \<and> \<not> bindingHonorsModel (b_Config b) (rq_Model req) model) \<or>
        (rq_Effort req \<noteq> [] \<and> \<not> bindingMapsEffort (b_Config b) (rq_Effort req))
     then Some (ErrBindingCannotHonorRequest (b_Name b)) else None)"

definition ResolveInvocation :: "Binding \<Rightarrow> Request \<Rightarrow> provider_error + Invocation" where
  "ResolveInvocation b req =
    (let model = resolveModel (b_Config b) (rq_Model req); effort = resolveEffort (b_Config b) (rq_Effort req) in
     case (if rq_StrictBinding req then validateExactlyHonorable b req model else None) of
       Some e \<Rightarrow> Inl e
     | None \<Rightarrow>
         if TrimSpace model \<noteq> model \<or> TrimSpace effort \<noteq> effort then Inl (ErrInvocationWhitespace (b_Name b))
         else Inr \<lparr>iv_Alias = b_Name b, iv_Provider = bc_Type (b_Config b), iv_Model = model, iv_Effort = effort\<rparr>)"

text \<open>The struct that is hashed: the capability record has no JSON tags, so its members carry the Go field
  names.\<close>

definition json_bool_ptr :: "bool option \<Rightarrow> json_value" where
  "json_bool_ptr p = (case p of None \<Rightarrow> JsonNull | Some b \<Rightarrow> JsonBool b)"

definition config_json :: "BindingConfig \<Rightarrow> json_value" where
  "config_json c = JsonObject
     [(''Type'', JsonString (bc_Type c)), (''Bin'', JsonString (bc_Bin c)), (''Binary'', JsonString (bc_Binary c)),
      (''Args'', json_slice JsonString (bc_Args c)), (''OutputFile'', JsonString (bc_OutputFile c)),
      (''TurnTimeout'', JsonString (bc_TurnTimeout c)), (''StallTimeout'', JsonString (bc_StallTimeout c)),
      (''MaxRetries'', JsonInt (bc_MaxRetries c)), (''SessionIDRegex'', JsonString (bc_SessionIDRegex c)),
      (''HaikuModel'', JsonString (bc_HaikuModel c)), (''SonnetModel'', JsonString (bc_SonnetModel c)),
      (''OpusModel'', JsonString (bc_OpusModel c)), (''LowEffort'', JsonString (bc_LowEffort c)),
      (''MediumEffort'', JsonString (bc_MediumEffort c)), (''HighEffort'', JsonString (bc_HighEffort c)),
      (''MaxEffort'', JsonString (bc_MaxEffort c)), (''SupportsResume'', json_bool_ptr (bc_SupportsResume c)),
      (''UseAppendSystemPrompt'', json_bool_ptr (bc_UseAppendSystemPrompt c)), (''NativeFanout'', JsonBool (bc_NativeFanout c)),
      (''SupportsContainment'', json_bool_ptr (bc_SupportsContainment c)), (''WritePaths'', json_slice JsonString (bc_WritePaths c))]"

definition InvocationConfigHash :: "(string \<Rightarrow> string) \<Rightarrow> Binding \<Rightarrow> Model \<Rightarrow> string \<Rightarrow> string" where
  "InvocationConfigHash digest b model effort = digest (json_encode (JsonObject
     [(''alias'', JsonString (b_Name b)), (''config'', config_json (b_Config b)), (''model'', JsonString model),
      (''effort'', JsonString effort)]))"

end
