(* ===== verification/Provider_Failures.thy ===== *)
theory Provider_Failures
  imports Provider_Bindings
begin

text \<open>
  Failure classification and time limits of a provider turn (\<open>internal/provider/failure.go\<close>,
  \<open>timeouts.go\<close>).  An error is what \<open>errors.Is\<close> and \<open>errors.As\<close> can tell of it: the sentinels in its
  chain and the \<open>BlockedError\<close> it wraps.  Durations are nanoseconds.
\<close>

section \<open>Classification\<close>

datatype sentinel =
    ErrProcessSessionCleanup | ErrProcessTermination | ErrProcessExitObservation
  | ErrObservedOutputTooLarge | ErrOutputLineTooLong | ErrAuthoritativeResultTooLarge
  | ErrStructuredEvidenceTooLarge | ErrProviderOutputTooLarge | ErrStreamJSONLineTooLong
  | ErrProviderStalled | DeadlineExceeded | Canceled
  | ErrClaudeAuthentication | ErrClaudeModelAccess | ErrClaudeRateLimit | ErrClaudeServiceUnavailable
  | ErrClaudeResultFailed | ErrClaudeAPIFailure | ErrClaudeMaximumTurns | ErrClaudeInvalidRequest
  | ErrClaudeMissingResult | ErrCodexTurnFailed | ErrCodexOversizeSchema | ErrOpencodeReportedError
  | ErrOpencodeFinalReason | ErrOpencodeMissingFinish | ErrOpencodeInvalidUsage

datatype BlockReason = BlockReasonPrompt | BlockReasonStall

datatype PromptKind = PromptKindPermission | PromptKindConfirm | PromptKindClarification | PromptKindUnknown

record go_error =
  err_is :: "sentinel list"
  err_blocked :: "(BlockReason \<times> PromptKind) option"

datatype FailureCategory =
    FailureProcessCleanup | FailureOutputLimit | FailureInteractivePrompt | FailureInteractivePromptPermission
  | FailureInteractivePromptConfirm | FailureInteractivePromptClarification | FailureStall | FailureTurnDeadline
  | FailureCanceled | FailureProviderRejected | FailureProviderAuth | FailureProviderThrottled
  | FailureProviderUnavailable | FailureRuntime

definition category_text :: "FailureCategory \<Rightarrow> string" where
  "category_text c = (case c of
     FailureProcessCleanup \<Rightarrow> ''process_cleanup'' | FailureOutputLimit \<Rightarrow> ''output_limit''
   | FailureInteractivePrompt \<Rightarrow> ''interactive_prompt''
   | FailureInteractivePromptPermission \<Rightarrow> ''interactive_prompt_permission''
   | FailureInteractivePromptConfirm \<Rightarrow> ''interactive_prompt_confirm''
   | FailureInteractivePromptClarification \<Rightarrow> ''interactive_prompt_clarification''
   | FailureStall \<Rightarrow> ''stall_timeout'' | FailureTurnDeadline \<Rightarrow> ''turn_deadline'' | FailureCanceled \<Rightarrow> ''canceled''
   | FailureProviderRejected \<Rightarrow> ''provider_rejected'' | FailureProviderAuth \<Rightarrow> ''provider_auth''
   | FailureProviderThrottled \<Rightarrow> ''provider_throttled'' | FailureProviderUnavailable \<Rightarrow> ''provider_unavailable''
   | FailureRuntime \<Rightarrow> ''provider_runtime'')"

record Failure =
  f_Category :: FailureCategory
  f_Summary :: string

definition promptBlockFailure :: "PromptKind \<Rightarrow> Failure" where
  "promptBlockFailure kind = (case kind of
     PromptKindPermission \<Rightarrow> \<lparr>f_Category = FailureInteractivePromptPermission,
       f_Summary = ''provider requested permission to act (usually a write-path or binding grant, not a keystroke)''\<rparr>
   | PromptKindConfirm \<Rightarrow> \<lparr>f_Category = FailureInteractivePromptConfirm,
       f_Summary = ''provider requested confirmation of an action it already intended (usually suppressible with a flag)''\<rparr>
   | PromptKindClarification \<Rightarrow> \<lparr>f_Category = FailureInteractivePromptClarification,
       f_Summary = ''provider requested clarification about the task (the step's scoped context was insufficient)''\<rparr>
   | PromptKindUnknown \<Rightarrow> \<lparr>f_Category = FailureInteractivePrompt, f_Summary = ''provider requested interactive input''\<rparr>)"

definition any_of :: "sentinel list \<Rightarrow> go_error \<Rightarrow> bool" where
  "any_of xs e = list_ex (\<lambda>x. x \<in> set (err_is e)) xs"

text \<open>The classification of an error that is not nil; the switches are tried in order.\<close>

definition ClassifyFailure :: "go_error \<Rightarrow> Failure" where
  "ClassifyFailure e =
    (if any_of [ErrProcessSessionCleanup, ErrProcessTermination, ErrProcessExitObservation] e
     then \<lparr>f_Category = FailureProcessCleanup, f_Summary = ''provider process cleanup failed''\<rparr>
     else if any_of [ErrObservedOutputTooLarge, ErrOutputLineTooLong, ErrAuthoritativeResultTooLarge,
         ErrStructuredEvidenceTooLarge, ErrProviderOutputTooLarge, ErrStreamJSONLineTooLong] e
     then \<lparr>f_Category = FailureOutputLimit, f_Summary = ''provider output exceeded a safety limit''\<rparr>
     else case err_blocked e of
       Some (BlockReasonPrompt, kind) \<Rightarrow> promptBlockFailure kind
     | Some (BlockReasonStall, kind) \<Rightarrow>
         \<lparr>f_Category = FailureStall, f_Summary = ''provider made no progress before its stall timeout''\<rparr>
     | None \<Rightarrow>
         if any_of [ErrProviderStalled] e
         then \<lparr>f_Category = FailureStall, f_Summary = ''provider made no progress before its stall timeout''\<rparr>
         else if any_of [DeadlineExceeded] e
         then \<lparr>f_Category = FailureTurnDeadline, f_Summary = ''provider exceeded its total turn deadline''\<rparr>
         else if any_of [Canceled] e
         then \<lparr>f_Category = FailureCanceled, f_Summary = ''provider turn was canceled''\<rparr>
         else if any_of [ErrClaudeAuthentication, ErrClaudeModelAccess] e
         then \<lparr>f_Category = FailureProviderAuth, f_Summary = ''provider authentication or model access was denied''\<rparr>
         else if any_of [ErrClaudeRateLimit] e
         then \<lparr>f_Category = FailureProviderThrottled, f_Summary = ''provider rate limited the turn''\<rparr>
         else if any_of [ErrClaudeServiceUnavailable] e
         then \<lparr>f_Category = FailureProviderUnavailable, f_Summary = ''provider service was unavailable''\<rparr>
         else if any_of [ErrClaudeResultFailed, ErrClaudeAPIFailure, ErrClaudeMaximumTurns, ErrClaudeInvalidRequest,
             ErrClaudeMissingResult, ErrCodexTurnFailed, ErrCodexOversizeSchema, ErrOpencodeReportedError,
             ErrOpencodeFinalReason, ErrOpencodeMissingFinish, ErrOpencodeInvalidUsage] e
         then \<lparr>f_Category = FailureProviderRejected, f_Summary = ''provider reported an unsuccessful turn''\<rparr>
         else \<lparr>f_Category = FailureRuntime, f_Summary = ''provider execution failed''\<rparr>)"

definition Retryable_failure :: "Failure \<Rightarrow> bool" where
  "Retryable_failure f \<longleftrightarrow> f_Category f \<notin> {FailureProviderAuth, FailureProviderRejected, FailureInteractivePrompt,
     FailureInteractivePromptPermission, FailureInteractivePromptConfirm, FailureInteractivePromptClarification,
     FailureOutputLimit, FailureProcessCleanup, FailureCanceled}"

definition RetryBudget :: "Failure \<Rightarrow> int \<Rightarrow> int" where
  "RetryBudget f configured = (if Retryable_failure f then configured else 0)"

section \<open>time: ParseDuration\<close>

text \<open>Units in nanoseconds.  The micro sign has two code points.\<close>

definition unit_of :: "string \<Rightarrow> nat option" where
  "unit_of u = map_of [(''ns'', 1), (''us'', 1000), (bytes [0xC2, 0xB5, 0x73], 1000), (bytes [0xCE, 0xBC, 0x73], 1000),
     (''ms'', 1000000), (''s'', 1000000000), (''m'', 60000000000), (''h'', 3600000000000)] u"

definition is_digit :: "char \<Rightarrow> bool" where
  "is_digit c \<longleftrightarrow> CHR ''0'' \<le> c \<and> c \<le> CHR ''9''"

text \<open>\<open>leadingInt\<close> fails above \<open>2 ^ 63\<close>; \<open>leadingFraction\<close> drops the digits that would pass it.  A fraction is
  scaled in exact arithmetic where Go uses \<open>float64\<close>.\<close>

definition fraction_of :: "string \<Rightarrow> nat \<times> nat" where
  "fraction_of ds = (let ds' = take 18 ds in (digits_value ds', 10 ^ length ds'))"

fun duration_terms :: "nat \<Rightarrow> string \<Rightarrow> nat \<Rightarrow> nat option" where
  "duration_terms 0 s d = None"
| "duration_terms (Suc n) s d =
    (if s = [] then Some d
     else
       (let pre = takeWhile is_digit s; s1 = dropWhile is_digit s;
            dot = (s1 \<noteq> [] \<and> hd s1 = CHR ''.'');
            post = (if dot then takeWhile is_digit (tl s1) else []);
            s2 = (if dot then dropWhile is_digit (tl s1) else s1);
            u = takeWhile (\<lambda>c. c \<noteq> CHR ''.'' \<and> \<not> is_digit c) s2;
            s3 = dropWhile (\<lambda>c. c \<noteq> CHR ''.'' \<and> \<not> is_digit c) s2 in
        if pre = [] \<and> post = [] then None
        else if digits_value pre > 2 ^ 63 then None
        else case unit_of u of
          None \<Rightarrow> None
        | Some unit \<Rightarrow>
            if digits_value pre > 2 ^ 63 div unit then None
            else (let v = digits_value pre * unit + fst (fraction_of post) * unit div snd (fraction_of post) in
              if v > 2 ^ 63 \<or> d + v > 2 ^ 63 then None else duration_terms n s3 (d + v))))"

definition ParseDuration :: "string \<Rightarrow> int option" where
  "ParseDuration s =
    (let neg = (s \<noteq> [] \<and> hd s = CHR ''-'');
         body = (if s \<noteq> [] \<and> (hd s = CHR ''-'' \<or> hd s = CHR ''+'') then tl s else s) in
     if body = ''0'' then Some 0
     else if body = [] then None
     else case duration_terms (Suc (length body)) body 0 of
       None \<Rightarrow> None
     | Some d \<Rightarrow> if neg then Some (- int d) else if d > 2 ^ 63 - 1 then None else Some (int d))"

section \<open>Turn limits\<close>

definition DefaultTurnTimeout :: int where "DefaultTurnTimeout = 30 * 60 * 1000000000"
definition MaxTurnTimeout :: int where "MaxTurnTimeout = 24 * 3600 * 1000000000"
definition DefaultStallTimeout :: int where "DefaultStallTimeout = 3 * 60 * 1000000000"
definition MaxStallTimeout :: int where "MaxStallTimeout = 3600 * 1000000000"

record TurnLimits =
  tl_TurnTimeout :: int
  tl_StallTimeout :: int

definition validateBoundedTimeout :: "string \<Rightarrow> int \<Rightarrow> int \<Rightarrow> provider_error option" where
  "validateBoundedTimeout name value maxBound =
    (if value \<le> 0 then Some (ErrTimeoutNotPositive name)
     else if value > maxBound then Some (ErrTimeoutTooLong name) else None)"

definition parseBoundedTimeout :: "string \<Rightarrow> string \<Rightarrow> int \<Rightarrow> int \<Rightarrow> provider_error + int" where
  "parseBoundedTimeout field raw fallback maxBound =
    (if raw = [] then (case validateBoundedTimeout field fallback maxBound of Some e \<Rightarrow> Inl e | None \<Rightarrow> Inr fallback)
     else case ParseDuration raw of
       None \<Rightarrow> Inl (ErrTimeoutSyntax field raw)
     | Some value \<Rightarrow> (case validateBoundedTimeout field value maxBound of Some e \<Rightarrow> Inl e | None \<Rightarrow> Inr value))"

definition request_override :: "string \<Rightarrow> int \<Rightarrow> int \<Rightarrow> int \<Rightarrow> provider_error + int" where
  "request_override name requested configured maxBound =
    (if requested = 0 then Inr configured
     else case validateBoundedTimeout name requested maxBound of Some e \<Rightarrow> Inl e | None \<Rightarrow> Inr requested)"

definition ResolveTurnLimits :: "Binding \<Rightarrow> Request \<Rightarrow> provider_error + TurnLimits" where
  "ResolveTurnLimits b req =
    (case parseBoundedTimeout ''turn_timeout'' (bc_TurnTimeout (b_Config b)) DefaultTurnTimeout MaxTurnTimeout of
       Inl e \<Rightarrow> Inl e
     | Inr turn0 \<Rightarrow>
         (case parseBoundedTimeout ''stall_timeout'' (bc_StallTimeout (b_Config b)) DefaultStallTimeout MaxStallTimeout of
            Inl e \<Rightarrow> Inl e
          | Inr stall0 \<Rightarrow>
              (case request_override ''request turn timeout'' (rq_TurnTimeout req) turn0 MaxTurnTimeout of
                 Inl e \<Rightarrow> Inl e
               | Inr turn \<Rightarrow>
                   (case request_override ''request stall timeout'' (rq_StallTimeout req) stall0 MaxStallTimeout of
                      Inl e \<Rightarrow> Inl e
                    | Inr stall \<Rightarrow> Inr \<lparr>tl_TurnTimeout = turn, tl_StallTimeout = stall\<rparr>))))"

definition ValidateConfiguredTimeout :: "string \<Rightarrow> string \<Rightarrow> provider_error option" where
  "ValidateConfiguredTimeout field raw =
    (if raw = [] then None
     else if field \<noteq> ''turn_timeout'' \<and> field \<noteq> ''stall_timeout'' then Some (ErrUnknownTimeoutField field)
     else case ParseDuration raw of
       None \<Rightarrow> Some (ErrTimeoutSyntax field raw)
     | Some value \<Rightarrow> validateBoundedTimeout field value (if field = ''turn_timeout'' then MaxTurnTimeout else MaxStallTimeout))"

lemma parseBoundedTimeout_cases:
  assumes "0 < fallback" "fallback \<le> maxBound"
  shows "case parseBoundedTimeout field raw fallback maxBound of Inr v \<Rightarrow> 0 < v \<and> v \<le> maxBound
    | Inl e \<Rightarrow> raw \<noteq> [] \<and> (case ParseDuration raw of None \<Rightarrow> True | Some v \<Rightarrow> validateBoundedTimeout field v maxBound \<noteq> None)"
  using assms by (auto simp: parseBoundedTimeout_def validateBoundedTimeout_def split: option.split)

lemma request_override_bounded:
  "request_override n r c m = Inr v \<Longrightarrow> 0 < c \<Longrightarrow> c \<le> m \<Longrightarrow> 0 < v \<and> v \<le> m"
  by (auto simp: request_override_def validateBoundedTimeout_def split: if_splits)

lemma default_limits:
  "0 < DefaultTurnTimeout" "DefaultTurnTimeout \<le> MaxTurnTimeout" "0 < DefaultStallTimeout" "DefaultStallTimeout \<le> MaxStallTimeout"
  by (simp_all add: DefaultTurnTimeout_def MaxTurnTimeout_def DefaultStallTimeout_def MaxStallTimeout_def)

lemma parseBoundedTimeout_bounded:
  "parseBoundedTimeout field raw fallback maxBound = Inr v \<Longrightarrow> 0 < fallback \<Longrightarrow> fallback \<le> maxBound \<Longrightarrow> 0 < v \<and> v \<le> maxBound"
  using parseBoundedTimeout_cases [of fallback maxBound raw field] by simp

lemma resolved_limits_bounded:
  assumes "ResolveTurnLimits b req = Inr l"
  shows "0 < tl_TurnTimeout l \<and> tl_TurnTimeout l \<le> MaxTurnTimeout \<and> 0 < tl_StallTimeout l \<and> tl_StallTimeout l \<le> MaxStallTimeout"
proof -
  obtain turn0 stall0 turn stall where
    "parseBoundedTimeout ''turn_timeout'' (bc_TurnTimeout (b_Config b)) DefaultTurnTimeout MaxTurnTimeout = Inr turn0"
    "parseBoundedTimeout ''stall_timeout'' (bc_StallTimeout (b_Config b)) DefaultStallTimeout MaxStallTimeout = Inr stall0"
    and over: "request_override ''request turn timeout'' (rq_TurnTimeout req) turn0 MaxTurnTimeout = Inr turn"
    "request_override ''request stall timeout'' (rq_StallTimeout req) stall0 MaxStallTimeout = Inr stall"
    and l: "l = \<lparr>tl_TurnTimeout = turn, tl_StallTimeout = stall\<rparr>"
    using assms unfolding ResolveTurnLimits_def by (clarsimp split: sum.split_asm)
  then have "0 < turn0 \<and> turn0 \<le> MaxTurnTimeout" "0 < stall0 \<and> stall0 \<le> MaxStallTimeout"
    using parseBoundedTimeout_bounded default_limits by blast+
  then show ?thesis
    using request_override_bounded [OF over(1)] request_override_bounded [OF over(2)] unfolding l by simp
qed

lemma parseBoundedTimeout_accepts:
  assumes "0 < fallback" "fallback \<le> maxBound"
    and "raw = [] \<or> (\<exists>v. ParseDuration raw = Some v \<and> validateBoundedTimeout field v maxBound = None)"
  shows "\<exists>v. parseBoundedTimeout field raw fallback maxBound = Inr v"
  using parseBoundedTimeout_cases [OF assms(1,2), of raw field] assms(3)
  by (cases "parseBoundedTimeout field raw fallback maxBound") auto

lemma configured_timeout_accepted:
  "ValidateConfiguredTimeout ''turn_timeout'' raw = None \<Longrightarrow>
    raw = [] \<or> (\<exists>v. ParseDuration raw = Some v \<and> validateBoundedTimeout ''turn_timeout'' v MaxTurnTimeout = None)"
  "ValidateConfiguredTimeout ''stall_timeout'' raw = None \<Longrightarrow>
    raw = [] \<or> (\<exists>v. ParseDuration raw = Some v \<and> validateBoundedTimeout ''stall_timeout'' v MaxStallTimeout = None)"
  unfolding ValidateConfiguredTimeout_def by (auto split: if_splits option.split_asm)

lemma resolve_limits_refused:
  assumes "ResolveTurnLimits b req = Inl e"
  shows "\<not> (rq_TurnTimeout req = 0 \<and> rq_StallTimeout req = 0 \<and>
       ValidateConfiguredTimeout ''turn_timeout'' (bc_TurnTimeout (b_Config b)) = None \<and>
       ValidateConfiguredTimeout ''stall_timeout'' (bc_StallTimeout (b_Config b)) = None)"
proof
  assume a: "rq_TurnTimeout req = 0 \<and> rq_StallTimeout req = 0 \<and>
       ValidateConfiguredTimeout ''turn_timeout'' (bc_TurnTimeout (b_Config b)) = None \<and>
       ValidateConfiguredTimeout ''stall_timeout'' (bc_StallTimeout (b_Config b)) = None"
  obtain t s where
    "parseBoundedTimeout ''turn_timeout'' (bc_TurnTimeout (b_Config b)) DefaultTurnTimeout MaxTurnTimeout = Inr t"
    "parseBoundedTimeout ''stall_timeout'' (bc_StallTimeout (b_Config b)) DefaultStallTimeout MaxStallTimeout = Inr s"
    using parseBoundedTimeout_accepts [OF default_limits(1,2) configured_timeout_accepted(1)]
      parseBoundedTimeout_accepts [OF default_limits(3,4) configured_timeout_accepted(2)] a by blast
  then show False using assms a by (simp add: ResolveTurnLimits_def request_override_def)
qed

text \<open>Turn limits are bounded, and configuration checked early is accepted late.  Whatever the binding and
  the request say, resolved limits are positive and at most 24 hours for the turn and one hour for
  the progress lease; and resolution never fails for a request without overrides whose binding has
  two timeouts that pass \<open>ValidateConfiguredTimeout\<close>.\<close>

theorem turn_limits_bounded:
  "case ResolveTurnLimits b req of
     Inr l \<Rightarrow> 0 < tl_TurnTimeout l \<and> tl_TurnTimeout l \<le> 86400 * 10 ^ 9 \<and>
       0 < tl_StallTimeout l \<and> tl_StallTimeout l \<le> 3600 * 10 ^ 9
   | Inl e \<Rightarrow> \<not> (rq_TurnTimeout req = 0 \<and> rq_StallTimeout req = 0 \<and>
       ValidateConfiguredTimeout ''turn_timeout'' (bc_TurnTimeout (b_Config b)) = None \<and>
       ValidateConfiguredTimeout ''stall_timeout'' (bc_StallTimeout (b_Config b)) = None)"
proof -
  have caps: "MaxTurnTimeout = 86400 * 10 ^ 9" "MaxStallTimeout = 3600 * 10 ^ 9"
    by (simp_all add: MaxTurnTimeout_def MaxStallTimeout_def)
  show ?thesis
  proof (cases "ResolveTurnLimits b req")
    case (Inr l)
    then show ?thesis using resolved_limits_bounded [OF Inr] unfolding caps by simp
  next
    case (Inl e)
    then show ?thesis using resolve_limits_refused [OF Inl] by simp
  qed
qed

end
