(* ===== verification/Orch_State.thy ===== *)
theory Orch_State
  imports Store_Evidence Store_Events Store_Registry Store_Workers Store_Partitions Orch_Graph Orch_Paths Provider_Failures
begin

text \<open>
  The orchestrator's own state (\<open>internal/orch/orchestrator.go\<close>): the database it works on, the dispatch
  slots, the saturation flags, the reservations of capped providers (\<open>spend.go\<close>), the turns in flight, and
  the state of the injected binding resolver.  Evidence is the record of \<open>internal/a2a\<close>.
\<close>

section \<open>Evidence\<close>

record Evidence =
  ev_Ran :: string
  ev_ExitCode :: int
  ev_Output :: string
  ev_FailureCategory :: string
  ev_Diff :: string
  ev_FilesChanged :: "string list"

definition zero_evidence :: Evidence where
  "zero_evidence = \<lparr>ev_Ran = [], ev_ExitCode = 0, ev_Output = [], ev_FailureCategory = [], ev_Diff = [], ev_FilesChanged = []\<rparr>"

definition text_member :: "string \<Rightarrow> string \<Rightarrow> (string \<times> json_value) list" where
  "text_member k v = (if v = [] then [] else [(k, JsonString v)])"

definition list_member :: "string \<Rightarrow> string list \<Rightarrow> (string \<times> json_value) list" where
  "list_member k vs = (if vs = [] then [] else [(k, json_slice JsonString (Some vs))])"

definition flag_member :: "string \<Rightarrow> bool \<Rightarrow> (string \<times> json_value) list" where
  "flag_member k b = (if b then [(k, JsonBool True)] else [])"

definition MarshalEvidence :: "Evidence \<Rightarrow> string" where
  "MarshalEvidence ev = json_encode (JsonObject
     (text_member ''ran'' (ev_Ran ev) @ [(''exit_code'', JsonInt (ev_ExitCode ev))] @ text_member ''output'' (ev_Output ev) @
      text_member ''failure_category'' (ev_FailureCategory ev) @ text_member ''diff'' (ev_Diff ev) @
      list_member ''files_changed'' (ev_FilesChanged ev)))"

definition mustPayloadJSON :: "EventPayload \<Rightarrow> string" where
  "mustPayloadJSON p = json_encode (JsonObject
     (text_member ''summary'' (Summary p) @ text_member ''reason'' (Reason p) @ list_member ''evidence'' (Evidence p) @
      text_member ''handoff_to'' (HandoffTo p) @ flag_member ''retryable'' (Retryable p) @
      list_member ''needs_context'' (NeedsContext p) @ flag_member ''approval_required'' (ApprovalRequired p) @
      text_member ''provider'' (Provider p) @ text_member ''provider_session_id'' (ProviderSessionID p) @
      text_member ''failure_category'' (FailureCategory p) @ text_member ''operator_action'' (OperatorAction p)))"

section \<open>Configuration and state\<close>

datatype BindingResolutionPurpose = BindingProbe | BindingDispatch

datatype orch_error =
    StoreFault store_error
  | ProviderFault provider_error
  | ImportFault import_error
  | PathFault path_error
  | ResolverFault string
  | NoSourceMarkdown ident
  | MarkdownRejected
  | NoStepForTask ident
  | NoAllowedProvider "string list"
  | NoPinnedProvider string
  | PeerWithoutRecord ident store_error
  | PeerUncalibrated ident
  | NoIndependentProvider "string list" "string list"
  | ContainmentUnsupported string string
  | ErrSpendCapExceeded string int int
  | ErrProviderTurnInFlight string
  | CapabilityChanged
  | AcceptanceFault string
  | VerificationBudgetExceeded ident ident
  | OutputEscapes string
  | TurnPanicked

text \<open>What an acceptance check reports: \<open>Expired\<close> when the verification budget ran out while it ran.\<close>

datatype check_outcome = Expired | CheckFault string | Verdict bool string

text \<open>A step paired with the task claimed for it, and a provider turn in flight.\<close>

record dispatchedStep =
  ds_ref :: StepRef
  ds_step :: Step
  ds_task :: Task

record turn =
  tu_project :: ident
  tu_dir :: string
  tu_plan :: ident
  tu_session :: ident
  tu_worker :: ident
  tu_binding :: Binding
  tu_steps :: "dispatchedStep list"
  tu_prompt :: string
  tu_heading :: string
  tu_fanout :: bool
  tu_reserved :: string

record 'r orch =
  db :: store
  slots :: int
  saturated :: "ident \<Rightarrow> bool"
  cap_in_flight :: "string \<Rightarrow> int"
  inflight :: "turn list"
  resolver :: 'r
  fresh :: nat
  orch_session :: ident
  decision_logs :: "ident \<Rightarrow> string"

text \<open>The options of \<open>New\<close> and what lies outside the package: the markdown parser, the file system, the
  digest, the identifier supply, the texts of errors, and \<open>strconv.Quote\<close> with its table of printable runes.\<close>

record 'r cfg =
  maxParallel :: int
  spendCap :: "string \<rightharpoonup> int"
  turnTimeout :: int
  stallTimeout :: int
  hookEndpoint :: string
  containProviderWrites :: bool
  containmentResolver :: "(ident \<Rightarrow> store \<Rightarrow> bool) option"
  resolveBinding :: "ident \<Rightarrow> bool \<Rightarrow> BindingResolutionPurpose \<Rightarrow> store \<Rightarrow> 'r \<Rightarrow> (orch_error + Binding) \<times> 'r"
  acceptanceCheck :: "string \<Rightarrow> string \<Rightarrow> Evidence \<Rightarrow> check_outcome"
  parseMarkdown :: "string \<Rightarrow> PlanDoc option"
  evalPath :: file_system
  fileHash :: "string \<Rightarrow> string option"
  digest :: "string \<Rightarrow> string"
  uuid :: "nat \<Rightarrow> ident"
  roleAgent :: string
  messageJSON :: "ident \<Rightarrow> ident \<Rightarrow> Evidence \<Rightarrow> string"
  render :: "orch_error \<Rightarrow> string"
  quoted :: "string \<Rightarrow> string"
  failureCallback :: "(Binding \<Rightarrow> Failure option \<Rightarrow> 'r \<Rightarrow> 'r) option"

type_synonym ('r, 'a) act = "'r orch \<Rightarrow> (orch_error + 'a) \<times> 'r orch"

definition act_return :: "'a \<Rightarrow> 's \<Rightarrow> ('e + 'a) \<times> 's" where
  "act_return x o' = (Inr x, o')"

definition act_fail :: "orch_error \<Rightarrow> ('r, 'a) act" where
  "act_fail e o' = (Inl e, o')"

text \<open>\<open>if err != nil { return err }\<close>.\<close>

definition act_bind :: "('s \<Rightarrow> ('e + 'a) \<times> 's) \<Rightarrow> ('a \<Rightarrow> 's \<Rightarrow> ('e + 'b) \<times> 's) \<Rightarrow> 's \<Rightarrow> ('e + 'b) \<times> 's" where
  "act_bind m f o' = (case m o' of (Inl e, o1) \<Rightarrow> (Inl e, o1) | (Inr x, o1) \<Rightarrow> f x o1)"

definition on_store :: "'a op \<Rightarrow> ('r, 'a) act" where
  "on_store m o' = (case m (db o') of (Inl e, s) \<Rightarrow> (Inl (StoreFault e), o'\<lparr>db := s\<rparr>) | (Inr x, s) \<Rightarrow> (Inr x, o'\<lparr>db := s\<rparr>))"

text \<open>\<open>_ = o.store.F(...)\<close>: the error is dropped.\<close>

definition quietly :: "'a op \<Rightarrow> 'r orch \<Rightarrow> 'r orch" where
  "quietly m o' = o'\<lparr>db := snd (m (db o'))\<rparr>"

definition service_event :: "ident \<Rightarrow> ident \<Rightarrow> ident \<Rightarrow> string \<Rightarrow> EventPayload \<Rightarrow> unit op" where
  "service_event projectID planID taskID kind payload = Emit \<lparr>em_ProjectID = projectID, em_PlanID = planID,
     em_TaskID = taskID, em_Kind = kind, em_Stream = ''service'', em_Actor = [], em_PayloadJSON = mustPayloadJSON payload\<rparr>"

definition reason_payload :: "string \<Rightarrow> EventPayload" where
  "reason_payload r = emptyPayload\<lparr>Reason := r\<rparr>"

definition admission_refused :: "'r cfg \<Rightarrow> ident \<Rightarrow> ident \<Rightarrow> ident \<Rightarrow> orch_error \<Rightarrow> 'r orch \<Rightarrow> 'r orch" where
  "admission_refused c projectID planID taskID e =
    quietly (service_event projectID planID taskID ''worker.admission_refused'' (reason_payload (render c e)))"

section \<open>Dispatch slots\<close>

definition acquireDispatchSlot :: "'r cfg \<Rightarrow> 'r orch \<Rightarrow> bool \<times> 'r orch" where
  "acquireDispatchSlot c o' =
    (if maxParallel c \<le> 0 then (True, o')
     else if slots o' < maxParallel c then (True, o'\<lparr>slots := slots o' + 1\<rparr>)
     else (False, o'))"

definition clearSaturation :: "'r orch \<Rightarrow> 'r orch" where
  "clearSaturation o' = o'\<lparr>saturated := \<lambda>_. False\<rparr>"

definition releaseDispatchSlot :: "'r cfg \<Rightarrow> 'r orch \<Rightarrow> 'r orch" where
  "releaseDispatchSlot c o' = (if maxParallel c \<le> 0 then o' else clearSaturation (o'\<lparr>slots := slots o' - 1\<rparr>))"

definition reportSaturation :: "ident \<Rightarrow> ident \<Rightarrow> nat \<Rightarrow> 'r orch \<Rightarrow> 'r orch" where
  "reportSaturation projectID planID waiting o' =
    (let already = saturated o' planID; o1 = o'\<lparr>saturated := (saturated o')(planID := True)\<rparr> in
     if already then o1
     else quietly (service_event projectID planID [] ''dispatch.saturated''
       (reason_payload (''dispatch pipeline full; '' @ Itoa (int waiting) @ '' candidate(s) left unexamined this pass''))) o1)"

section \<open>Spend caps\<close>

definition spendKey :: "ident \<Rightarrow> string \<Rightarrow> string" where
  "spendKey projectID providerName = projectID @ [CHR 0x00] @ providerName"

definition capped :: "'r cfg \<Rightarrow> string \<Rightarrow> bool" where
  "capped c providerName = (case spendCap c providerName of None \<Rightarrow> False | Some cap \<Rightarrow> cap > 0)"

definition checkSpendCap :: "'r cfg \<Rightarrow> ident \<Rightarrow> string \<Rightarrow> ('r, unit) act" where
  "checkSpendCap c projectID providerName o' =
    (case spendCap c providerName of
       None \<Rightarrow> (Inr (), o')
     | Some cap \<Rightarrow>
         if cap \<le> 0 then (Inr (), o')
         else let key = spendKey projectID providerName in
           if cap_in_flight o' key > 0 then (Inl (ErrProviderTurnInFlight providerName), o')
           else let spent = (case ProjectSpendByProvider projectID (db o') providerName of None \<Rightarrow> 0 | Some v \<Rightarrow> v) in
             if spent \<ge> cap then (Inl (ErrSpendCapExceeded providerName spent cap), o')
             else (Inr (), o'\<lparr>cap_in_flight := (cap_in_flight o')(key := cap_in_flight o' key + 1)\<rparr>))"

definition releaseSpendReservation :: "'r cfg \<Rightarrow> ident \<Rightarrow> string \<Rightarrow> 'r orch \<Rightarrow> 'r orch" where
  "releaseSpendReservation c projectID providerName o' =
    (if \<not> capped c providerName then o'
     else let key = spendKey projectID providerName in
       if cap_in_flight o' key > 0 then o'\<lparr>cap_in_flight := (cap_in_flight o')(key := cap_in_flight o' key - 1)\<rparr> else o')"

record Usage =
  us_Input :: int
  us_Output :: int
  us_Cached :: int
  us_Cost :: int

definition recordUsage :: "ident \<Rightarrow> ident \<Rightarrow> string \<Rightarrow> string \<Rightarrow> Usage \<Rightarrow> unit op" where
  "recordUsage projectID workerID providerName model usage = RecordSpend \<lparr>rs_ProjectID = projectID,
     rs_WorkerID = workerID, rs_Provider = providerName, rs_Model = model, rs_InputTokens = us_Input usage,
     rs_OutputTokens = us_Output usage, rs_CachedTokens = us_Cached usage, rs_Cost = us_Cost usage\<rparr>"

section \<open>Containment\<close>

definition containmentRootFor :: "'r cfg \<Rightarrow> ident \<Rightarrow> string \<Rightarrow> store \<Rightarrow> string \<times> bool" where
  "containmentRootFor c projectID projectDir s =
    (case containmentResolver c of
       Some f \<Rightarrow> if \<not> f projectID s then ([], False) else (projectDir, True)
     | None \<Rightarrow> if \<not> containProviderWrites c then ([], False) else (projectDir, True))"

definition resolveContainment :: "'r cfg \<Rightarrow> ident \<Rightarrow> string \<Rightarrow> Binding \<Rightarrow> store \<Rightarrow> orch_error + string" where
  "resolveContainment c projectID projectDir b s =
    (let (root, requested) = containmentRootFor c projectID projectDir s in
     if \<not> requested then Inr []
     else if \<not> BindingSupportsContainment b then Inl (ContainmentUnsupported (b_Name b) (bc_Type (b_Config b)))
     else Inr root)"

section \<open>Progress and small helpers\<close>

definition doneSet :: "ident \<Rightarrow> store \<Rightarrow> ident \<Rightarrow> bool" where
  "doneSet planID s i = list_ex (\<lambda>t. Task_ID t = i \<and> satisfied (Task_Status t)) (ListTasks planID [] s)"

record Progress =
  pg_Done :: nat
  pg_Total :: nat

definition PlanProgress :: "'r cfg \<Rightarrow> ident \<Rightarrow> store \<Rightarrow> orch_error + Progress" where
  "PlanProgress c planID s = (case GetPlan planID s of
     (Inl e, _) \<Rightarrow> Inl (StoreFault e)
   | (Inr p, _) \<Rightarrow> (case parseMarkdown c (Plan_SourceMarkdown p) of
       None \<Rightarrow> Inl MarkdownRejected
     | Some doc \<Rightarrow> Inr \<lparr>pg_Done = length (filter (doneSet planID s) (StepIDs doc)), pg_Total = length (StepIDs doc)\<rparr>))"

definition groupHeadingFor :: "PlanDoc \<Rightarrow> StepRef \<Rightarrow> string" where
  "groupHeadingFor p ref = (case StepAt p ref of Inl e \<Rightarrow> [] | Inr (_, g) \<Rightarrow> Heading g)"

definition planTitle :: "PlanDoc \<Rightarrow> string \<Rightarrow> string" where
  "planTitle p storeTitle = (case Groups p of [] \<Rightarrow> storeTitle | g # _ \<Rightarrow> if Heading g \<noteq> [] then Heading g else storeTitle)"

definition projectDirFor :: "ident \<Rightarrow> store \<Rightarrow> orch_error + string" where
  "projectDirFor planID s = (case GetPlan planID s of
     (Inl e, _) \<Rightarrow> Inl (StoreFault e)
   | (Inr p, _) \<Rightarrow> (case ProjectAbsPath (Plan_ProjectID p) s of
       (dir, found) \<Rightarrow> Inr (if \<not> found \<or> dir = [] then ''.'' else dir)))"

definition ensureOrchSession :: "'r cfg \<Rightarrow> ('r, ident) act" where
  "ensureOrchSession c o' =
    (if orch_session o' \<noteq> [] then (Inr (orch_session o'), o')
     else (case CreateSession (uuid c (fresh o')) \<lparr>so_ID = [], so_Role = ''orchestrator'', so_PID = 1,
                  so_PIDStartTime = Itoa (clock (db o')), so_Host = []\<rparr> (db o') of
       (Inl e, s) \<Rightarrow> (Inl (StoreFault e), o'\<lparr>db := s, fresh := Suc (fresh o')\<rparr>)
     | (Inr i, s) \<Rightarrow> (Inr i, o'\<lparr>db := s, fresh := Suc (fresh o'), orch_session := i\<rparr>)))"

definition spawnWorkerRows :: "'r cfg \<Rightarrow> Binding \<Rightarrow> ('r, ident \<times> ident) act" where
  "spawnWorkerRows c b o' =
    (case CreateSession (uuid c (fresh o')) \<lparr>so_ID = [], so_Role = ''worker'', so_PID = 1,
            so_PIDStartTime = Itoa (clock (db o')), so_Host = []\<rparr> (db o') of
       (Inl e, s) \<Rightarrow> (Inl (StoreFault e), o'\<lparr>db := s, fresh := Suc (fresh o')\<rparr>)
     | (Inr sessionID, s) \<Rightarrow>
         (case CreateWorker (uuid c (Suc (fresh o'))) \<lparr>wo_SessionID = sessionID, wo_Provider = b_Name b, wo_Model = [],
                  wo_NativeFanout = bc_NativeFanout (b_Config b), wo_SubprocessPID = 1,
                  wo_SubprocessStartTime = Itoa (clock s)\<rparr> s of
            (Inl e, s') \<Rightarrow> (Inl (StoreFault e), o'\<lparr>db := s', fresh := fresh o' + 2\<rparr>)
          | (Inr workerID, s') \<Rightarrow> (Inr (sessionID, workerID), o'\<lparr>db := s', fresh := fresh o' + 2\<rparr>)))"

section \<open>Prompts\<close>

definition nl :: string where "nl = [CHR 0x0A]"

definition scoped_prompt :: "string \<Rightarrow> string \<Rightarrow> string \<Rightarrow> string \<Rightarrow> string" where
  "scoped_prompt title heading text detail =
    ''Plan: '' @ title @ nl @ ''Group: '' @ heading @ nl @ nl @ text @ (if detail \<noteq> [] then nl @ nl @ detail else [])"

definition fanout_instruction :: string where
  "fanout_instruction = ''This provider supports native fan-out. The following steps in this group are independent and ready to run in parallel '' @
     bytes [0xE2, 0x80, 0x94] @ '' use your own subagent/parallel-workflow support to work them concurrently, and report on each one individually by its task id.''"

definition fanout_prompt :: "string \<Rightarrow> string \<Rightarrow> dispatchedStep list \<Rightarrow> string" where
  "fanout_prompt title heading steps =
    (let body = ''Plan: '' @ title @ nl @ ''Group: '' @ heading @ nl @ nl @ fanout_instruction @ nl @ nl @
           concat (map (\<lambda>ds. ''['' @ Task_ID (ds_task ds) @ ''] '' @ step_Text (ds_step ds) @
             (if step_Detail (ds_step ds) \<noteq> [] then nl @ step_Detail (ds_step ds) else []) @ nl @ nl) steps)
     in rev (dropWhile (\<lambda>ch. ch = CHR 0x0A) (rev body)) @ nl)"

end
