(* ===== verification/Orch_Gates.thy ===== *)
theory Orch_Gates
  imports Orch_State
begin

text \<open>
  Admission of one ready step (\<open>internal/orch/orchestrator.go\<close>): the task row behind the step, the rotations
  of the provider pool under the step's restrictions, the approval, path and capability gates, and the
  claim.
\<close>

section \<open>The row behind a step\<close>

definition team_path :: "Step \<Rightarrow> string" where
  "team_path step = (case step_Metadata step of None \<Rightarrow> [] | Some m \<Rightarrow> meta_Team m)"

definition metadata_json :: "Step \<Rightarrow> string" where
  "metadata_json step = (case step_Metadata step of None \<Rightarrow> [] | Some m \<Rightarrow> json_encode (metadata_value m))"

definition materializeStepMetadata :: "ident \<Rightarrow> ident \<Rightarrow> StepRef \<Rightarrow> Step \<Rightarrow> ('r, unit) act" where
  "materializeStepMetadata planID taskID ref step o' =
    (case PutTaskMetadata planID taskID (GroupID ref) (team_path step) (metadata_json step) (db o') of
       (Inr u, s) \<Rightarrow> (Inr (), o'\<lparr>db := s\<rparr>)
     | (Inl e, s) \<Rightarrow> if e = ErrDuplicateTaskMetadata then (Inr (), o'\<lparr>db := s\<rparr>) else (Inl (StoreFault e), o'\<lparr>db := s\<rparr>))"

definition is_duplicate_task :: "store_error \<Rightarrow> bool" where
  "is_duplicate_task e = (case e of ErrDuplicateTask _ _ \<Rightarrow> True | _ \<Rightarrow> False)"

definition step_task_opts :: "ident \<Rightarrow> StepRef \<Rightarrow> Step \<Rightarrow> CreateTaskOpts" where
  "step_task_opts planID ref step = \<lparr>ct_PlanID = planID, ct_ID = stepTaskID ref step, ct_Description = step_Text step,
     ct_ParallelGroup = None, ct_SequenceOrdinal = None, ct_AcceptanceJSON = defaultAcceptanceJSON step,
     ct_ParentTaskID = [], ct_RequiresApproval = step_RequiresApproval step\<rparr>"

definition create_step_task :: "ident \<Rightarrow> StepRef \<Rightarrow> Step \<Rightarrow> ('r, unit) act" where
  "create_step_task planID ref step o' = (case CreateTask (step_task_opts planID ref step) (db o') of
     (Inr u, s) \<Rightarrow> (Inr (), o'\<lparr>db := s\<rparr>)
   | (Inl e, s) \<Rightarrow> if is_duplicate_task e then (Inr (), o'\<lparr>db := s\<rparr>) else (Inl (StoreFault e), o'\<lparr>db := s\<rparr>))"

definition materializeStepTask :: "ident \<Rightarrow> StepRef \<Rightarrow> Step \<Rightarrow> ('r, Task) act" where
  "materializeStepTask planID ref step o' =
    (let taskID = stepTaskID ref step in
     case GetTask planID taskID (db o') of
       (Inr existing, _) \<Rightarrow> act_bind (materializeStepMetadata planID taskID ref step) (\<lambda>_. act_return existing) o'
     | (Inl _, _) \<Rightarrow>
         act_bind (create_step_task planID ref step)
           (\<lambda>_. act_bind (materializeStepMetadata planID taskID ref step) (\<lambda>_. on_store (GetTask planID taskID))) o')"

section \<open>Rotation of the pool\<close>

record dispatchStepArgs =
  sa_projectID :: ident
  sa_projectDir :: string
  sa_planID :: ident
  sa_title :: string
  sa_groupHeading :: string
  sa_parallel :: bool
  sa_ref :: StepRef
  sa_step :: Step

definition next_binding :: "'r cfg \<Rightarrow> ident \<Rightarrow> bool \<Rightarrow> BindingResolutionPurpose \<Rightarrow> ('r, Binding) act" where
  "next_binding c projectID parallel purpose o' =
    (case resolveBinding c projectID parallel purpose (db o') (resolver o') of (r, st) \<Rightarrow> (r, o'\<lparr>resolver := st\<rparr>))"

definition maxProviderRotations :: nat where "maxProviderRotations = 16"

text \<open>The loop that the three rotations share: \<open>ok\<close> judges a candidate, \<open>None\<close> is the exhausted pool.\<close>

fun rotate_loop :: "(Binding \<Rightarrow> orch_error + bool) \<Rightarrow> ('r, Binding) act \<Rightarrow> nat \<Rightarrow> string list \<Rightarrow> Binding \<Rightarrow> ('r, Binding option) act" where
  "rotate_loop ok next_one 0 seen candidate o' = (Inr None, o')"
| "rotate_loop ok next_one (Suc n) seen candidate o' = (case ok candidate of
     Inl e \<Rightarrow> (Inl e, o')
   | Inr good \<Rightarrow>
       if good then (Inr (Some candidate), o')
       else if b_Name candidate \<in> set seen then (Inr None, o')
       else (case next_one o' of (Inl e, o1) \<Rightarrow> (Inl e, o1)
             | (Inr b, o1) \<Rightarrow> rotate_loop ok next_one n (b_Name candidate # seen) b o1))"

definition rotate_pool :: "'r cfg \<Rightarrow> dispatchStepArgs \<Rightarrow> (Binding \<Rightarrow> orch_error + bool) \<Rightarrow> orch_error \<Rightarrow> Binding \<Rightarrow> ('r, Binding) act" where
  "rotate_pool c a ok exhausted b = act_bind
     (rotate_loop ok (next_binding c (sa_projectID a) (sa_parallel a) BindingDispatch) (Suc maxProviderRotations) [] b)
     (\<lambda>r. case r of Some b' \<Rightarrow> act_return b' | None \<Rightarrow> act_fail exhausted)"

definition resolveAllowedBinding :: "'r cfg \<Rightarrow> dispatchStepArgs \<Rightarrow> string list \<Rightarrow> Binding \<Rightarrow> ('r, Binding) act" where
  "resolveAllowedBinding c a allowed b =
    rotate_pool c a (\<lambda>b. Inr (CheckAllowedProviders b allowed = None)) (NoAllowedProvider allowed) b"

definition resolvePinnedBinding :: "'r cfg \<Rightarrow> dispatchStepArgs \<Rightarrow> string \<Rightarrow> Binding \<Rightarrow> ('r, Binding) act" where
  "resolvePinnedBinding c a pinned b =
    rotate_pool c a (\<lambda>b. Inr (bc_Type (b_Config b) = pinned)) (NoPinnedProvider pinned) b"

text \<open>A calibration counts only for the invocation it measured.\<close>

definition bindingDomain :: "'r cfg \<Rightarrow> store \<Rightarrow> Binding \<Rightarrow> orch_error + string" where
  "bindingDomain c s b = (case GetCalibrationByAlias (b_Name b) s of
     (Inl e, _) \<Rightarrow> if e = ErrCalibrationNotFound then Inr [] else Inl (StoreFault e)
   | (Inr cal, _) \<Rightarrow> (case ResolveInvocation b zero_request of
       Inl _ \<Rightarrow> Inr []
     | Inr iv \<Rightarrow> if pc_InvocationHash cal \<noteq> InvocationConfigHash (digest c) b (iv_Model iv) (iv_Effort iv) then Inr []
                else Inr (pc_IndependenceDomain cal)))"

fun peer_domains :: "ident \<Rightarrow> store \<Rightarrow> string list \<Rightarrow> orch_error + string list" where
  "peer_domains planID s [] = Inr []"
| "peer_domains planID s (peer # peers) = (case GetTaskExecutionMetadata planID peer s of
     (Inl e, _) \<Rightarrow> Inl (PeerWithoutRecord peer e)
   | (Inr m, _) \<Rightarrow>
       if tm_AssignedIndependenceDomain m = [] then Inl (PeerUncalibrated peer)
       else (case peer_domains planID s peers of
          Inl e \<Rightarrow> Inl e | Inr ds \<Rightarrow> Inr (tm_AssignedIndependenceDomain m # ds)))"

definition independent_of :: "'r cfg \<Rightarrow> store \<Rightarrow> string list \<Rightarrow> string list \<Rightarrow> Binding \<Rightarrow> orch_error + bool" where
  "independent_of c s allowed domains b = (case bindingDomain c s b of
     Inl e \<Rightarrow> Inl e
   | Inr domain \<Rightarrow> Inr (domain \<noteq> [] \<and> (allowed = [] \<or> CheckAllowedProviders b allowed = None) \<and> domain \<notin> set domains))"

definition resolveIndependentBinding :: "'r cfg \<Rightarrow> dispatchStepArgs \<Rightarrow> string list \<Rightarrow> Binding \<Rightarrow> ('r, Binding) act" where
  "resolveIndependentBinding c a peers b o' =
    (let allowed = AllowedProviders (step_Metadata (sa_step a)) in
     case peer_domains (sa_planID a) (db o') peers of
       Inl e \<Rightarrow> (Inl e, o')
     | Inr domains \<Rightarrow> rotate_pool c a (independent_of c (db o') allowed domains) (NoIndependentProvider allowed peers) b o')"

section \<open>Gates\<close>

definition pathGateBlocks :: "'r cfg \<Rightarrow> ident \<Rightarrow> ident \<Rightarrow> Step \<Rightarrow> ('r, bool) act" where
  "pathGateBlocks c planID taskID step o' =
    (let decl = declFromMetadata step in
     if decl_Inputs decl = [] \<and> decl_Outputs decl = [] then (Inr False, o')
     else case projectDirFor planID (db o') of
       Inl e \<Rightarrow> (Inl e, o')
     | Inr projectDir \<Rightarrow>
         (case validateTaskFilesystem (evalPath c) (fileHash c) projectDir decl of
            None \<Rightarrow> (Inr False, o')
          | Some e \<Rightarrow>
              if \<not> escapes e then (Inl (PathFault e), o')
              else (case MarkBlockedInput planID taskID (render c (PathFault e)) (db o') of
                 (Inl e', s) \<Rightarrow> (Inl (StoreFault e'), o'\<lparr>db := s\<rparr>)
               | (Inr transitioned, s) \<Rightarrow>
                   (Inr True, if transitioned then quietly (Emit \<lparr>em_ProjectID = [], em_PlanID = planID, em_TaskID = taskID,
                        em_Kind = ''task.blocked_input'', em_Stream = ''service'', em_Actor = [], em_PayloadJSON = []\<rparr>)
                      (o'\<lparr>db := s\<rparr>) else o'\<lparr>db := s\<rparr>))))"

definition capability_refusal :: "provider_error \<Rightarrow> bool" where
  "capability_refusal e = (case e of ErrCapabilityUnmet _ _ \<Rightarrow> True | ErrCapabilityUnknown _ \<Rightarrow> True | _ \<Rightarrow> False)"

definition capabilityGateBlocks :: "'r cfg \<Rightarrow> ident \<Rightarrow> ident \<Rightarrow> bool \<Rightarrow> ident \<Rightarrow> Step \<Rightarrow> ('r, bool) act" where
  "capabilityGateBlocks c planID projectID parallel taskID step o' =
    (let requires = (case step_Metadata step of None \<Rightarrow> [] | Some m \<Rightarrow> elems (meta_Requires m)) in
     if requires = [] then (Inr False, o')
     else case next_binding c projectID parallel BindingProbe o' of
       (Inl e, o1) \<Rightarrow> (Inl e, o1)
     | (Inr b, o1) \<Rightarrow>
         (case CheckRequirements b requires of
            None \<Rightarrow>
              (case ClearTaskBlock planID taskID TaskStatusBlockedCapability (db o1) of
                 (Inl e, s) \<Rightarrow> (Inl (StoreFault e), o1\<lparr>db := s\<rparr>)
               | (Inr cleared, s) \<Rightarrow>
                   (Inr False, if cleared then quietly (Emit \<lparr>em_ProjectID = projectID, em_PlanID = planID, em_TaskID = taskID,
                        em_Kind = ''task.unblocked_capability'', em_Stream = ''service'', em_Actor = [], em_PayloadJSON = []\<rparr>)
                      (o1\<lparr>db := s\<rparr>) else o1\<lparr>db := s\<rparr>))
          | Some e \<Rightarrow>
              if \<not> capability_refusal e then (Inl (ProviderFault e), o1)
              else (case MarkBlockedCapability planID taskID (render c (ProviderFault e)) (db o1) of
                 (Inl e', s) \<Rightarrow> (Inl (StoreFault e'), o1\<lparr>db := s\<rparr>)
               | (Inr _, s) \<Rightarrow> (Inr True, o1\<lparr>db := s\<rparr>))))"

definition stepGateBlocks :: "'r cfg \<Rightarrow> ident \<Rightarrow> ident \<Rightarrow> bool \<Rightarrow> StepRef \<Rightarrow> Step \<Rightarrow> ('r, bool) act" where
  "stepGateBlocks c planID projectID parallel ref step = act_bind (materializeStepTask planID ref step)
     (\<lambda>task. if Task_Status task = TaskStatusReadyPendingApproval then act_return True
             else act_bind (pathGateBlocks c planID (Task_ID task) step)
               (\<lambda>blocked. if blocked then act_return True
                          else capabilityGateBlocks c planID projectID parallel (Task_ID task) step))"

section \<open>The claim\<close>

definition not_claimable_now :: "store_error \<Rightarrow> bool" where
  "not_claimable_now e = (case e of ErrNoReadyTask \<Rightarrow> True | ErrOutputReserved _ \<Rightarrow> True | _ \<Rightarrow> False)"

definition claimStepTask :: "ident \<Rightarrow> StepRef \<Rightarrow> Step \<Rightarrow> ident \<Rightarrow> ident \<Rightarrow> ('r, dispatchedStep option) act" where
  "claimStepTask planID ref step sessionID workerID = act_bind (materializeStepTask planID ref step)
     (\<lambda>task o'. case ClaimTask planID (Task_ID task) sessionID workerID (db o') of
        (Inl e, s) \<Rightarrow> if not_claimable_now e then (Inr None, o'\<lparr>db := s\<rparr>) else (Inl (StoreFault e), o'\<lparr>db := s\<rparr>)
      | (Inr claimed, s) \<Rightarrow> (Inr (Some \<lparr>ds_ref = ref, ds_step = step, ds_task = claimed\<rparr>), o'\<lparr>db := s\<rparr>))"

end
