(* ===== verification/Orch_Dispatch.thy ===== *)
theory Orch_Dispatch
  imports Orch_Gates
begin

text \<open>
  The dispatch pass (\<open>internal/orch/orchestrator.go\<close>, \<open>dispatch_graph.go\<close>): the ready wave, one step, a
  fan-out group, a leaf group, and \<open>DispatchNext\<close>.  A launched turn joins \<open>inflight\<close>; its goroutine ends in
  \<open>Orch_Turn\<close>.
\<close>

section \<open>The ready wave\<close>

record readyGroup =
  rg_path :: string
  rg_heading :: string
  rg_parallel :: bool
  rg_steps :: "(StepRef \<times> Step) list"
  rg_tasks :: "Task list"

fun locate_tasks :: "(string \<rightharpoonup> StepRef \<times> Step) \<Rightarrow> Task list \<Rightarrow> orch_error + (StepRef \<times> Step) list" where
  "locate_tasks index [] = Inr []"
| "locate_tasks index (t # ts) = (case index (Task_ID t) of
     None \<Rightarrow> Inl (NoStepForTask (Task_ID t))
   | Some located \<Rightarrow> (case locate_tasks index ts of Inl e \<Rightarrow> Inl e | Inr ls \<Rightarrow> Inr (located # ls)))"

fun wave_groups :: "PlanDoc \<Rightarrow> ReadyPartition list \<Rightarrow> orch_error + readyGroup list" where
  "wave_groups parsed [] = Inr []"
| "wave_groups parsed (part # parts) = (case locate_tasks (indexPlanSteps parsed) (rp_Tasks part) of
     Inl e \<Rightarrow> Inl e
   | Inr located \<Rightarrow> (case wave_groups parsed parts of
       Inl e \<Rightarrow> Inl e
     | Inr groups \<Rightarrow> Inr (\<lparr>rg_path = rp_GroupPath part,
           rg_heading = (case located of [] \<Rightarrow> [] | l # _ \<Rightarrow> groupHeadingFor parsed (fst l)),
           rg_parallel = length (rp_Tasks part) > 1, rg_steps = located, rg_tasks = rp_Tasks part\<rparr> # groups)))"

definition loadReadyWave :: "ident \<Rightarrow> PlanDoc \<Rightarrow> ('r, readyGroup list) act" where
  "loadReadyWave planID parsed o' = (case ensurePlanGraph planID parsed (db o') of
     (Inl e, s) \<Rightarrow> (Inl (ImportFault e), o'\<lparr>db := s\<rparr>)
   | (Inr _, s) \<Rightarrow> (wave_groups parsed (ReadyPartitions planID s), o'\<lparr>db := s\<rparr>))"

section \<open>One step\<close>

definition launch :: "turn \<Rightarrow> 'r orch \<Rightarrow> 'r orch" where
  "launch t o' = o'\<lparr>inflight := inflight o' @ [t]\<rparr>"

text \<open>Both resources of a step that is not launched; the provider name guards the second as in the code.\<close>

definition release_admission :: "'r cfg \<Rightarrow> ident \<Rightarrow> string \<Rightarrow> 'r orch \<Rightarrow> 'r orch" where
  "release_admission c projectID providerName o' =
    (let o1 = releaseDispatchSlot c o' in
     if providerName \<noteq> [] then releaseSpendReservation c projectID providerName o1 else o1)"

text \<open>A refusal carries the task id that its event names.\<close>

definition refusing :: "ident \<Rightarrow> ('r, 'a) act \<Rightarrow> 'r orch \<Rightarrow> ((ident \<times> orch_error) + 'a) \<times> 'r orch" where
  "refusing taskID m o' = (case m o' of (Inl e, o1) \<Rightarrow> (Inl (taskID, e), o1) | (Inr x, o1) \<Rightarrow> (Inr x, o1))"

text \<open>The restrictions of the step, the write boundary and the spend cap, in the order of the code.\<close>

definition admit_step :: "'r cfg \<Rightarrow> dispatchStepArgs \<Rightarrow> Binding \<Rightarrow> 'r orch \<Rightarrow> ((ident \<times> orch_error) + Binding) \<times> 'r orch" where
  "admit_step c a b0 =
    (let md = step_Metadata (sa_step a); taskID = stepTaskID (sa_ref a) (sa_step a) in
     act_bind (refusing [] (if AllowedProviders md \<noteq> [] then resolveAllowedBinding c a (AllowedProviders md) b0 else act_return b0))
       (\<lambda>b1. act_bind (refusing [] (if PinnedProviderType md \<noteq> [] then resolvePinnedBinding c a (PinnedProviderType md) b1 else act_return b1))
       (\<lambda>b2. act_bind (refusing taskID (if IndependencePeers md \<noteq> [] then resolveIndependentBinding c a (IndependencePeers md) b2 else act_return b2))
       (\<lambda>b3. act_bind (refusing taskID (\<lambda>o'. (resolveContainment c (sa_projectID a) (sa_projectDir a) b3 (db o'), o')))
       (\<lambda>_. act_bind (refusing [] (checkSpendCap c (sa_projectID a) (b_Name b3))) (\<lambda>_. act_return b3))))))"

definition launch_step :: "'r cfg \<Rightarrow> dispatchStepArgs \<Rightarrow> Binding \<Rightarrow> ('r, bool) act" where
  "launch_step c a b o' =
    (let release = release_admission c (sa_projectID a) (b_Name b) in
     case spawnWorkerRows c b o' of
       (Inl e, o1) \<Rightarrow> (Inl e, release o1)
     | (Inr (sessionID, workerID), o1) \<Rightarrow>
         (case claimStepTask (sa_planID a) (sa_ref a) (sa_step a) sessionID workerID o1 of
            (Inl e, o2) \<Rightarrow> (Inl e, quietly (ClearWorkerTask workerID ''crashed'') (release o2))
          | (Inr None, o2) \<Rightarrow> (Inr False, quietly (ClearWorkerTask workerID ''idle'') (release o2))
          | (Inr (Some ds), o2) \<Rightarrow>
              (case on_store (SetWorkerTask workerID (sa_planID a) (Task_ID (ds_task ds))) o2 of
                 (Inl e, o3) \<Rightarrow> (Inl e, release o3)
               | (Inr _, o3) \<Rightarrow> (Inr True, launch \<lparr>tu_project = sa_projectID a, tu_dir = sa_projectDir a, tu_plan = sa_planID a,
                     tu_session = sessionID, tu_worker = workerID, tu_binding = b, tu_steps = [ds],
                     tu_prompt = scoped_prompt (sa_title a) (sa_groupHeading a) (step_Text (ds_step ds)) (step_Detail (ds_step ds)),
                     tu_heading = sa_groupHeading a, tu_fanout = False, tu_reserved = b_Name b\<rparr> o3))))"

definition dispatchReadyStep :: "'r cfg \<Rightarrow> dispatchStepArgs \<Rightarrow> ('r, bool) act" where
  "dispatchReadyStep c a o' = (case next_binding c (sa_projectID a) (sa_parallel a) BindingDispatch o' of
     (Inl e, o1) \<Rightarrow> (Inl e, releaseDispatchSlot c o1)
   | (Inr b0, o1) \<Rightarrow> (case admit_step c a b0 o1 of
       (Inl (taskID, e), o2) \<Rightarrow>
         (Inr False, admission_refused c (sa_projectID a) (sa_planID a) taskID e (releaseDispatchSlot c o2))
     | (Inr b, o2) \<Rightarrow> launch_step c a b o2))"

section \<open>A fan-out group\<close>

record dispatchGroupArgs =
  ga_projectID :: ident
  ga_projectDir :: string
  ga_planID :: ident
  ga_title :: string
  ga_group :: readyGroup
  ga_alreadyAdmitted :: nat

definition coalescable :: "Step \<Rightarrow> bool" where
  "coalescable step \<longleftrightarrow> (let md = step_Metadata step in
     IndependencePeers md = [] \<and> AllowedProviders md = [] \<and> PinnedProviderType md = [])"

fun coalescableSteps :: "'r cfg \<Rightarrow> ident \<Rightarrow> ident \<Rightarrow> bool \<Rightarrow> (StepRef \<times> Step) list \<Rightarrow> ('r, (StepRef \<times> Step) list) act" where
  "coalescableSteps c planID projectID parallel [] o' = (Inr [], o')"
| "coalescableSteps c planID projectID parallel (rs # rest) o' =
    (if \<not> coalescable (snd rs) then coalescableSteps c planID projectID parallel rest o'
     else act_bind (stepGateBlocks c planID projectID parallel (fst rs) (snd rs))
       (\<lambda>gated. act_bind (coalescableSteps c planID projectID parallel rest)
         (\<lambda>steps. act_return (if gated then steps else rs # steps))) o')"

definition releaseClaimedTasks :: "ident \<Rightarrow> ident \<Rightarrow> dispatchedStep list \<Rightarrow> 'r orch \<Rightarrow> 'r orch" where
  "releaseClaimedTasks planID sessionID claimed =
    fold (\<lambda>ds. quietly (ReleaseClaim planID (Task_ID (ds_task ds)) sessionID ''released: fan-out group claim aborted'')) claimed"

text \<open>The claiming loop; the tasks claimed so far are returned with an error as well.\<close>

fun claim_group :: "ident \<Rightarrow> ident \<Rightarrow> ident \<Rightarrow> (StepRef \<times> Step) list \<Rightarrow> dispatchedStep list \<Rightarrow> 'r orch \<Rightarrow>
    (orch_error option \<times> dispatchedStep list) \<times> 'r orch" where
  "claim_group planID sessionID workerID [] claimed o' = ((None, claimed), o')"
| "claim_group planID sessionID workerID (rs # rest) claimed o' =
    (case claimStepTask planID (fst rs) (snd rs) sessionID workerID o' of
       (Inl e, o1) \<Rightarrow> ((Some e, claimed), o1)
     | (Inr None, o1) \<Rightarrow> claim_group planID sessionID workerID rest claimed o1
     | (Inr (Some ds), o1) \<Rightarrow> claim_group planID sessionID workerID rest (claimed @ [ds]) o1)"

definition dispatchFanoutGroup :: "'r cfg \<Rightarrow> dispatchGroupArgs \<Rightarrow> Binding \<Rightarrow> (StepRef \<times> Step) list \<Rightarrow> ('r, nat) act" where
  "dispatchFanoutGroup c a b steps o' =
    (case checkSpendCap c (ga_projectID a) (b_Name b) o' of
       (Inl e, o1) \<Rightarrow> (Inr 0, admission_refused c (ga_projectID a) (ga_planID a) [] e (releaseDispatchSlot c o1))
     | (Inr _, o1) \<Rightarrow>
         (let release = release_admission c (ga_projectID a) (b_Name b); planID = ga_planID a in
          case spawnWorkerRows c b o1 of
            (Inl e, o2) \<Rightarrow> (Inl e, release o2)
          | (Inr (sessionID, workerID), o2) \<Rightarrow>
              (case claim_group planID sessionID workerID steps [] o2 of
                 ((Some e, claimed), o3) \<Rightarrow>
                   (Inl e, quietly (ClearWorkerTask workerID ''crashed'') (releaseClaimedTasks planID sessionID claimed (release o3)))
               | ((None, claimed), o3) \<Rightarrow>
                   if claimed = [] then (Inr 0, quietly (ClearWorkerTask workerID ''idle'') (release o3))
                   else (case on_store (SetWorkerTask workerID planID (Task_ID (ds_task (hd claimed)))) o3 of
                      (Inl e, o4) \<Rightarrow>
                        (Inl e, quietly (ClearWorkerTask workerID ''crashed'') (releaseClaimedTasks planID sessionID claimed (release o4)))
                    | (Inr _, o4) \<Rightarrow>
                        (Inr (length claimed), launch \<lparr>tu_project = ga_projectID a, tu_dir = ga_projectDir a, tu_plan = planID,
                          tu_session = sessionID, tu_worker = workerID, tu_binding = b, tu_steps = claimed,
                          tu_prompt = fanout_prompt (ga_title a) (rg_heading (ga_group a)) claimed,
                          tu_heading = rg_heading (ga_group a), tu_fanout = True, tu_reserved = b_Name b\<rparr> o4)))))"

section \<open>A leaf group\<close>

text \<open>Tasks started, workers admitted, and the error.\<close>

type_synonym pass_result = "nat \<times> nat \<times> orch_error option"

text \<open>The fan-out branch: \<open>None\<close> is control falling through to the loop over the steps.\<close>

definition try_fanout :: "'r cfg \<Rightarrow> dispatchGroupArgs \<Rightarrow> 'r orch \<Rightarrow> pass_result option \<times> 'r orch" where
  "try_fanout c a o' =
    (let g = ga_group a; projectID = ga_projectID a; planID = ga_planID a in
     if \<not> (rg_parallel g \<and> length (rg_steps g) > 1) then (None, o')
     else case next_binding c projectID (rg_parallel g) BindingProbe o' of
       (Inl e, o1) \<Rightarrow> (Some (0, 0, Some e), o1)
     | (Inr b, o1) \<Rightarrow>
         if \<not> bc_NativeFanout (b_Config b) then (None, o1)
         else (case coalescableSteps c planID projectID (rg_parallel g) (rg_steps g) o1 of
            (Inl e, o2) \<Rightarrow> (Some (0, 0, Some e), o2)
          | (Inr eligible, o2) \<Rightarrow>
              if eligible = [] then (None, o2)
              else (case acquireDispatchSlot c o2 of
                 (False, o3) \<Rightarrow> (Some (0, 0, None), reportSaturation projectID planID (length eligible) o3)
               | (True, o3) \<Rightarrow> (case next_binding c projectID (rg_parallel g) BindingDispatch o3 of
                   (Inl e, o4) \<Rightarrow> (Some (0, 0, Some e), releaseDispatchSlot c o4)
                 | (Inr b', o4) \<Rightarrow>
                     if \<not> bc_NativeFanout (b_Config b') then (Some (0, 0, Some CapabilityChanged), releaseDispatchSlot c o4)
                     else (case resolveContainment c projectID (ga_projectDir a) b' (db o4) of
                        Inl e \<Rightarrow> (Some (0, 0, None), admission_refused c projectID planID [] e (releaseDispatchSlot c o4))
                      | Inr _ \<Rightarrow> (case dispatchFanoutGroup c a b' eligible o4 of
                          (Inl e, o5) \<Rightarrow> (Some (0, 0, Some e), o5)
                        | (Inr n, o5) \<Rightarrow> (Some (n, 1, None), o5)))))))"

definition step_args :: "dispatchGroupArgs \<Rightarrow> StepRef \<times> Step \<Rightarrow> dispatchStepArgs" where
  "step_args a rs = \<lparr>sa_projectID = ga_projectID a, sa_projectDir = ga_projectDir a, sa_planID = ga_planID a,
     sa_title = ga_title a, sa_groupHeading = rg_heading (ga_group a), sa_parallel = rg_parallel (ga_group a),
     sa_ref = fst rs, sa_step = snd rs\<rparr>"

fun dispatch_steps :: "'r cfg \<Rightarrow> dispatchGroupArgs \<Rightarrow> (StepRef \<times> Step) list \<Rightarrow> nat \<Rightarrow> nat \<Rightarrow> 'r orch \<Rightarrow> pass_result \<times> 'r orch" where
  "dispatch_steps c a [] dispatched admitted o' = ((dispatched, admitted, None), o')"
| "dispatch_steps c a (rs # rest) dispatched admitted o' =
    (if maxParallel c > 0 \<and> int (ga_alreadyAdmitted a + admitted) \<ge> maxParallel c
     then ((dispatched, admitted, None), o')
     else case stepGateBlocks c (ga_planID a) (ga_projectID a) (rg_parallel (ga_group a)) (fst rs) (snd rs) o' of
       (Inl e, o1) \<Rightarrow> ((dispatched, admitted, Some e), o1)
     | (Inr gated, o1) \<Rightarrow>
         if gated then
           (if \<not> rg_parallel (ga_group a) then ((dispatched, admitted, None), o1)
            else dispatch_steps c a rest dispatched admitted o1)
         else (case acquireDispatchSlot c o1 of
            (False, o2) \<Rightarrow> ((dispatched, admitted, None),
               reportSaturation (ga_projectID a) (ga_planID a) (Suc (length rest)) o2)
          | (True, o2) \<Rightarrow> (case dispatchReadyStep c (step_args a rs) o2 of
              (Inl e, o3) \<Rightarrow> ((dispatched, admitted, Some e), o3)
            | (Inr launched, o3) \<Rightarrow>
                if launched then dispatch_steps c a rest (Suc dispatched) (Suc admitted) o3
                else dispatch_steps c a rest dispatched admitted o3)))"

definition dispatchReadyGroup :: "'r cfg \<Rightarrow> dispatchGroupArgs \<Rightarrow> 'r orch \<Rightarrow> pass_result \<times> 'r orch" where
  "dispatchReadyGroup c a o' = (case try_fanout c a o' of
     (Some r, o1) \<Rightarrow> (r, o1)
   | (None, o1) \<Rightarrow> dispatch_steps c a (rg_steps (ga_group a)) 0 0 o1)"

section \<open>The pass\<close>

fun dispatch_groups :: "'r cfg \<Rightarrow> (nat \<Rightarrow> readyGroup \<Rightarrow> dispatchGroupArgs) \<Rightarrow> readyGroup list \<Rightarrow> nat \<Rightarrow> nat \<Rightarrow> 'r orch \<Rightarrow>
    (nat \<times> orch_error option) \<times> 'r orch" where
  "dispatch_groups c mk [] dispatched admitted o' = ((dispatched, None), o')"
| "dispatch_groups c mk (g # gs) dispatched admitted o' =
    (if maxParallel c > 0 \<and> int admitted \<ge> maxParallel c then ((dispatched, None), o')
     else case dispatchReadyGroup c (mk admitted g) o' of
       ((n, w, Some e), o1) \<Rightarrow> ((dispatched + n, Some e), o1)
     | ((n, w, None), o1) \<Rightarrow> dispatch_groups c mk gs (dispatched + n) (admitted + w) o1)"

definition DispatchNext :: "'r cfg \<Rightarrow> ident \<Rightarrow> ident \<Rightarrow> 'r orch \<Rightarrow> (nat \<times> orch_error option) \<times> 'r orch" where
  "DispatchNext c projectID planID o' = (case GetPlan planID (db o') of
     (Inl e, _) \<Rightarrow> ((0, Some (StoreFault e)), o')
   | (Inr p, _) \<Rightarrow>
       if Plan_SourceMarkdown p = [] then ((0, Some (NoSourceMarkdown planID)), o')
       else (case parseMarkdown c (Plan_SourceMarkdown p) of
          None \<Rightarrow> ((0, Some MarkdownRejected), o')
        | Some parsed \<Rightarrow> (case loadReadyWave planID parsed o' of
            (Inl e, o1) \<Rightarrow> ((0, Some e), o1)
          | (Inr groups, o1) \<Rightarrow>
              if groups = [] then ((0, None), o1)
              else (case projectDirFor planID (db o1) of
                 Inl e \<Rightarrow> ((0, Some e), o1)
               | Inr projectDir \<Rightarrow> dispatch_groups c
                   (\<lambda>admitted g. \<lparr>ga_projectID = projectID, ga_projectDir = projectDir, ga_planID = planID,
                      ga_title = planTitle parsed (Plan_Title p), ga_group = g, ga_alreadyAdmitted = admitted\<rparr>)
                   groups 0 0 o1))))"

end
