(* ===== verification/Orch_Verify.thy ===== *)
theory Orch_Verify
  imports Orch_State
begin

text \<open>
  Completion (\<open>internal/orch/verify.go\<close>): the acceptance check that is re-run, the stop gate, the
  containment of declared outputs and \<open>VerifyAndCompleteAs\<close>, the one place that marks a task done.  The
  file system and the shell are parameters.  What other goroutines do to the database while the
  acceptance command runs is the parameter \<open>during\<close>, heartbeats included.
\<close>

section \<open>The acceptance check\<close>

definition acceptance_fields :: "(string \<times> Acceptance setter) list" where
  "acceptance_fields =
    [(''command'', string_field (\<lambda>t a. a\<lparr>acc_Command := t\<rparr>)),
     (''file_exists'', string_field (\<lambda>t a. a\<lparr>acc_FileExists := t\<rparr>)),
     (''dir'', string_field (\<lambda>t a. a\<lparr>acc_Dir := t\<rparr>))]"

definition decode_acceptance :: "string \<Rightarrow> Acceptance option" where
  "decode_acceptance raw = (case json_parse raw of
     None \<Rightarrow> None
   | Some v \<Rightarrow> decode_struct False acceptance_fields v \<lparr>acc_Command = [], acc_FileExists = [], acc_Dir = []\<rparr>)"

text \<open>\<open>stat\<close> gives \<open>None\<close> for a path that exists and the reason otherwise.\<close>

definition checkFileExists :: "(string \<Rightarrow> string option) \<Rightarrow> string \<Rightarrow> string \<Rightarrow> string option" where
  "checkFileExists stat dir path =
    stat (if dir \<noteq> [] \<and> \<not> filepath_IsAbs path then filepath_Join [dir, path] else path)"

text \<open>\<open>sh dir command\<close> is \<open>checkCommandExitsZero\<close>: the verdict on the exit status, or an expired budget.\<close>

definition mechanicalAcceptanceCheck ::
  "(string \<Rightarrow> string option) \<Rightarrow> (string \<Rightarrow> string \<Rightarrow> check_outcome) \<Rightarrow> string \<Rightarrow> string \<Rightarrow> Evidence \<Rightarrow> check_outcome" where
  "mechanicalAcceptanceCheck stat sh dir acceptanceJSON ev =
    (if TrimSpace acceptanceJSON = [] then
       if TrimSpace (ev_Output ev) = [] then Verdict False ''no acceptance criterion and no evidence output''
       else Verdict True []
     else case decode_acceptance acceptanceJSON of
       None \<Rightarrow> CheckFault ''orch: unmarshal acceptance''
     | Some acc \<Rightarrow>
         if TrimSpace (acc_Command acc) = [] \<and> TrimSpace (acc_FileExists acc) = []
         then Verdict False ''explicit acceptance has no mechanical predicate''
         else let checkDir = (if acc_Dir acc = [] then dir else acc_Dir acc) in
           case (if acc_FileExists acc \<noteq> [] then checkFileExists stat checkDir (acc_FileExists acc) else None) of
             Some reason \<Rightarrow> Verdict False reason
           | None \<Rightarrow> if acc_Command acc \<noteq> [] then sh checkDir (acc_Command acc) else Verdict True [])"

definition hasMechanicalAcceptance :: "string \<Rightarrow> bool" where
  "hasMechanicalAcceptance acceptanceJSON =
    (if TrimSpace acceptanceJSON = [] then False
     else case decode_acceptance acceptanceJSON of
       None \<Rightarrow> False
     | Some acc \<Rightarrow> TrimSpace (acc_Command acc) \<noteq> [] \<or> TrimSpace (acc_FileExists acc) \<noteq> [])"

section \<open>Declared outputs\<close>

definition stepForTask :: "'r cfg \<Rightarrow> store \<Rightarrow> Task \<Rightarrow> Step option" where
  "stepForTask c s task = (case GetPlan (Task_PlanID task) s of
     (Inl _, _) \<Rightarrow> None
   | (Inr p, _) \<Rightarrow>
       if Plan_SourceMarkdown p = [] then None
       else (case parseMarkdown c (Plan_SourceMarkdown p) of
          None \<Rightarrow> None | Some doc \<Rightarrow> map_option snd (indexPlanSteps doc (Task_ID task))))"

text \<open>The loop over the outputs; a fault that is no escape ends it without a finding.\<close>

fun escaping_output :: "file_system \<Rightarrow> string \<Rightarrow> string list \<Rightarrow> string option" where
  "escaping_output eval projectDir [] = None"
| "escaping_output eval projectDir (out # outs) = (case secureProjectPath eval projectDir out of
     Inr _ \<Rightarrow> escaping_output eval projectDir outs
   | Inl e \<Rightarrow> if escapes e then Some out else None)"

definition verifyTaskOutputContainment :: "'r cfg \<Rightarrow> store \<Rightarrow> Task \<Rightarrow> string \<Rightarrow> string option" where
  "verifyTaskOutputContainment c s task projectDir = (case stepForTask c s task of
     None \<Rightarrow> None | Some step \<Rightarrow> escaping_output (evalPath c) projectDir (decl_Outputs (declFromMetadata step)))"

section \<open>The stop gate\<close>

definition CanStopAs :: "'r cfg \<Rightarrow> (store \<Rightarrow> store) \<Rightarrow> ident \<Rightarrow> ident \<Rightarrow> ident \<Rightarrow> store \<Rightarrow> orch_error + bool" where
  "CanStopAs c during planID taskID reportingSession s = (case GetTask planID taskID s of
     (Inl e, _) \<Rightarrow> Inl (StoreFault e)
   | (Inr task, _) \<Rightarrow>
       if reportingSession = [] \<or> Task_ClaimedBySession task \<noteq> reportingSession then Inr False
       else (case projectDirFor planID s of
          Inl e \<Rightarrow> Inl e
        | Inr dir \<Rightarrow> (case acceptanceCheck c dir (Task_AcceptanceJSON task) zero_evidence of
            Expired \<Rightarrow> Inl (VerificationBudgetExceeded planID taskID)
          | CheckFault t \<Rightarrow> Inl (AcceptanceFault t)
          | Verdict ok _ \<Rightarrow> Inr (ok \<and> verifyTaskOutputContainment c (during s) task dir = None))))"

section \<open>Verification and completion\<close>

definition orch_event :: "ident \<Rightarrow> ident \<Rightarrow> string \<Rightarrow> string \<Rightarrow> unit op" where
  "orch_event planID taskID kind payload = Emit \<lparr>em_ProjectID = [], em_PlanID = planID, em_TaskID = taskID,
     em_Kind = kind, em_Stream = ''orch'', em_Actor = ''orchestrator'', em_PayloadJSON = payload\<rparr>"

definition reject_task :: "ident \<Rightarrow> ident \<Rightarrow> ident \<Rightarrow> string \<Rightarrow> ('r, bool) act" where
  "reject_task planID taskID sessionID reason o' =
    (case MarkFailedWithPayload planID taskID sessionID (emptyPayload\<lparr>Reason := reason, Retryable := True\<rparr>) 3 (db o') of
       (Inl e, s) \<Rightarrow> if e = ErrTaskNotOwnedRunning then (Inr False, o'\<lparr>db := s\<rparr>) else (Inl (StoreFault e), o'\<lparr>db := s\<rparr>)
     | (Inr _, s) \<Rightarrow> act_bind (on_store (orch_event planID taskID ''worker.verification_failed''
                       (mustPayloadJSON (reason_payload reason)))) (\<lambda>_. act_return False) (o'\<lparr>db := s\<rparr>))"

definition complete_task :: "ident \<Rightarrow> ident \<Rightarrow> ident \<Rightarrow> Evidence \<Rightarrow> ('r, bool) act" where
  "complete_task planID taskID sessionID ev o' =
    (case MarkDone planID taskID sessionID (MarshalEvidence ev) (db o') of
       (Inl e, s) \<Rightarrow> if e = ErrTaskNotOwnedRunning then (Inr False, o'\<lparr>db := s\<rparr>) else (Inl (StoreFault e), o'\<lparr>db := s\<rparr>)
     | (Inr _, s) \<Rightarrow> act_bind (on_store (orch_event planID taskID ''worker.verified_done'' [])) (\<lambda>_. act_return True)
                       (o'\<lparr>db := s\<rparr>))"

definition verdict_session :: "'r cfg \<Rightarrow> ident \<Rightarrow> Task \<Rightarrow> ('r, ident) act" where
  "verdict_session c reportingSession task =
    (if reportingSession \<noteq> [] then act_return reportingSession
     else if Task_ClaimedBySession task \<noteq> [] then act_return (Task_ClaimedBySession task)
     else ensureOrchSession c)"

definition record_verdict :: "'r cfg \<Rightarrow> ident \<Rightarrow> ident \<Rightarrow> ident \<Rightarrow> Evidence \<Rightarrow> Task \<Rightarrow> string \<Rightarrow> bool \<Rightarrow> string \<Rightarrow> ('r, bool) act" where
  "record_verdict c planID taskID reportingSession ev task dir ok reason o' =
    (let escaped = (if ok then verifyTaskOutputContainment c (db o') task dir else None) in
     act_bind (verdict_session c reportingSession task)
       (\<lambda>sessionID. case escaped of
          Some out \<Rightarrow> reject_task planID taskID sessionID (render c (OutputEscapes out))
        | None \<Rightarrow> if ok then complete_task planID taskID sessionID ev else reject_task planID taskID sessionID reason) o')"

definition VerifyAndCompleteAs :: "'r cfg \<Rightarrow> (store \<Rightarrow> store) \<Rightarrow> ident \<Rightarrow> ident \<Rightarrow> ident \<Rightarrow> Evidence \<Rightarrow> ('r, bool) act" where
  "VerifyAndCompleteAs c during planID taskID reportingSession ev o' = (case GetTask planID taskID (db o') of
     (Inl e, _) \<Rightarrow> (Inl (StoreFault e), o')
   | (Inr task, _) \<Rightarrow> (case projectDirFor (Task_PlanID task) (db o') of
       Inl e \<Rightarrow> (Inl e, o')
     | Inr dir \<Rightarrow>
         (let o1 = o'\<lparr>db := during (db o')\<rparr> in
          case acceptanceCheck c dir (Task_AcceptanceJSON task) ev of
            Expired \<Rightarrow> (Inl (VerificationBudgetExceeded planID taskID), o1)
          | CheckFault t \<Rightarrow> (Inl (AcceptanceFault t), o1)
          | Verdict ok reason \<Rightarrow> record_verdict c planID taskID reportingSession ev task dir ok reason o1)))"

definition VerifyAndComplete :: "'r cfg \<Rightarrow> (store \<Rightarrow> store) \<Rightarrow> ident \<Rightarrow> ident \<Rightarrow> Evidence \<Rightarrow> ('r, bool) act" where
  "VerifyAndComplete c during planID taskID ev = VerifyAndCompleteAs c during planID taskID [] ev"

end
