(* ===== verification/Orch_Turn.thy ===== *)
theory Orch_Turn
  imports Orch_Dispatch Orch_Verify
begin

text \<open>
  A provider turn from its launch to the end of its goroutine (\<open>dispatchWorker\<close>, \<open>runFanoutGroup\<close> and their
  helpers in \<open>internal/orch/orchestrator.go\<close>, the decision log and the context end of \<open>lifecycle.go\<close>).  A
  turn's surroundings are a parameter: what the provider returns, and what other goroutines do to the
  database while it runs and while each acceptance check runs.  A panic is an error value that reaches
  the deferred handler.
\<close>

section \<open>The provider's result\<close>

record run_outcome =
  ro_error :: "go_error option"
  ro_output :: string
  ro_usage :: Usage

record world =
  w_run :: "run_outcome option"
  w_during_run :: "store \<Rightarrow> store"
  w_during_check :: "ident \<Rightarrow> store \<Rightarrow> store"

definition maxAuthoritativeResultBytes :: nat where "maxAuthoritativeResultBytes = 16777216"

definition ValidateEvidenceBounds :: "string \<Rightarrow> go_error option" where
  "ValidateEvidenceBounds output =
    (if length output > maxAuthoritativeResultBytes then Some \<lparr>err_is = [ErrAuthoritativeResultTooLarge], err_blocked = None\<rparr>
     else None)"

text \<open>The run error and the output after the bounds check.\<close>

definition bounded_result :: "run_outcome \<Rightarrow> go_error option \<times> string" where
  "bounded_result r = (case ro_error r of
     Some e \<Rightarrow> (Some e, ro_output r)
   | None \<Rightarrow> (case ValidateEvidenceBounds (ro_output r) of Some e \<Rightarrow> (Some e, []) | None \<Rightarrow> (None, ro_output r)))"

definition defaultTurnRetries :: int where "defaultTurnRetries = 3"

section \<open>The decision log\<close>

definition failureDecisionLine :: "string \<Rightarrow> string \<Rightarrow> nat \<Rightarrow> string" where
  "failureDecisionLine category summary runningWorkers =
    ''turn ended '' @ category @ '' ('' @ (if runningWorkers = 1 then ''1 worker running'' else Itoa (int runningWorkers) @ '' workers running'') @
    ''): '' @ summary"

definition WriteWorkerDecision :: "ident \<Rightarrow> string \<Rightarrow> 'r orch \<Rightarrow> 'r orch" where
  "WriteWorkerDecision workerID decision o' =
    o'\<lparr>decision_logs := (decision_logs o')(workerID := decision_logs o' workerID @ ''- '' @ decision @ nl)\<rparr>"

definition AbsorbDecisionLog :: "ident \<Rightarrow> ident \<Rightarrow> ident \<Rightarrow> ident \<Rightarrow> 'r orch \<Rightarrow> 'r orch" where
  "AbsorbDecisionLog projectID planID taskID workerID o' =
    (let raw = decision_logs o' workerID in
     if raw = [] then o'
     else quietly (Emit \<lparr>em_ProjectID = projectID, em_PlanID = planID, em_TaskID = taskID, em_Kind = ''worker.decision_log'',
        em_Stream = ''orch'', em_Actor = workerID, em_PayloadJSON = mustPayloadJSON (emptyPayload\<lparr>Summary := raw\<rparr>)\<rparr>) o')"

definition HandleContextEnd :: "ident \<Rightarrow> ident \<Rightarrow> ident \<Rightarrow> ('r, unit) act" where
  "HandleContextEnd planID taskID sessionID o' =
    (case MarkBlocked planID taskID sessionID (emptyPayload\<lparr>Reason := ''worker hit context end; killed for fresh re-dispatch'',
            Retryable := True, OperatorAction := ''requeue''\<rparr>) (db o') of
       (Inl e, s) \<Rightarrow> if e = ErrTaskNotOwnedRunning then (Inr (), o'\<lparr>db := s\<rparr>) else (Inl (StoreFault e), o'\<lparr>db := s\<rparr>)
     | (Inr _, s) \<Rightarrow> (Inr (), o'\<lparr>db := s\<rparr>))"

section \<open>Before the run\<close>

definition configureManagedHooks :: "ident \<Rightarrow> string \<Rightarrow> Task list \<Rightarrow> Request \<Rightarrow> Request" where
  "configureManagedHooks sessionID endpoint ts req =
    (if sessionID = [] \<or> endpoint = [] \<or> ts = [] then req
     else if \<not> list_all (\<lambda>t. hasMechanicalAcceptance (Task_AcceptanceJSON t)) ts then req
     else req\<lparr>rq_ManagedSessionID := sessionID, rq_HookEndpoint := endpoint\<rparr>)"

definition turn_request :: "'r cfg \<Rightarrow> turn \<Rightarrow> string \<Rightarrow> Request" where
  "turn_request c t root = configureManagedHooks (tu_session t) (hookEndpoint c) (map ds_task (tu_steps t))
     (zero_request\<lparr>rq_WorkingDir := tu_dir t, rq_ContainmentRoot := root, rq_UserPrompt := tu_prompt t,
        rq_TurnTimeout := turnTimeout c, rq_StallTimeout := stallTimeout c\<rparr>)"

definition provenance_event :: "turn \<Rightarrow> ident \<Rightarrow> string \<Rightarrow> string \<Rightarrow> 'r orch \<Rightarrow> 'r orch" where
  "provenance_event t taskID kind reason = quietly (service_event (tu_project t) (tu_plan t) taskID kind
     (emptyPayload\<lparr>Provider := b_Name (tu_binding t), Reason := reason\<rparr>))"

text \<open>The domain of a calibration that measured this invocation, with the event of a stale or unreadable one.\<close>

definition provenance_domain :: "'r cfg \<Rightarrow> turn \<Rightarrow> ident \<Rightarrow> Invocation \<Rightarrow> 'r orch \<Rightarrow> string \<times> 'r orch" where
  "provenance_domain c t taskID iv o' = (case GetCalibrationByAlias (b_Name (tu_binding t)) (db o') of
     (Inl e, _) \<Rightarrow>
       if e = ErrCalibrationNotFound then ([], o')
       else ([], provenance_event t taskID ''task.provenance_calibration_error'' (render c (StoreFault e)) o')
   | (Inr cal, _) \<Rightarrow>
       if pc_InvocationHash cal = InvocationConfigHash (digest c) (tu_binding t) (iv_Model iv) (iv_Effort iv)
       then (pc_IndependenceDomain cal, o')
       else ([], provenance_event t taskID ''task.calibration_stale'' (''calibration '' @ pc_ID cal @
              '' measured a different invocation; independence domain not reused'') o'))"

definition recordExecutionProvenance :: "'r cfg \<Rightarrow> turn \<Rightarrow> Request \<Rightarrow> ident \<Rightarrow> 'r orch \<Rightarrow> 'r orch" where
  "recordExecutionProvenance c t req taskID o' =
    (let b = tu_binding t;
         (iv, o1) = (case ResolveInvocation b req of
            Inl e \<Rightarrow> (zero_invocation, provenance_event t taskID ''task.provenance_invocation_error'' (render c (ProviderFault e)) o')
          | Inr iv \<Rightarrow> (iv, o'));
         (domain, o2) = provenance_domain c t taskID iv o1
     in case RecordTaskExecution (tu_plan t) taskID (b_Name b) (bc_Type (b_Config b)) (iv_Model iv) (iv_Effort iv) domain
               (tu_session t) (db o2) of
          (Inl e, s) \<Rightarrow> provenance_event t taskID ''task.provenance_write_failed'' (render c (StoreFault e)) (o2\<lparr>db := s\<rparr>)
        | (Inr _, s) \<Rightarrow> o2\<lparr>db := s\<rparr>)"

definition task_ids_of :: "turn \<Rightarrow> ident list" where
  "task_ids_of t = map (\<lambda>ds. Task_ID (ds_task ds)) (tu_steps t)"

text \<open>The failure report of one task; a stale report is no error.\<close>

definition report_failure :: "turn \<Rightarrow> Failure \<Rightarrow> ident \<Rightarrow> ('r, unit) act" where
  "report_failure t f taskID o' =
    (case MarkFailedWithPayload (tu_plan t) taskID (tu_session t)
            (emptyPayload\<lparr>Reason := f_Summary f, FailureCategory := category_text (f_Category f)\<rparr>)
            (RetryBudget f defaultTurnRetries) (db o') of
       (Inl e, s) \<Rightarrow> if e = ErrTaskNotOwnedRunning then (Inr (), o'\<lparr>db := s\<rparr>) else (Inl (StoreFault e), o'\<lparr>db := s\<rparr>)
     | (Inr _, s) \<Rightarrow> (Inr (), o'\<lparr>db := s\<rparr>))"

fun act_each :: "('x \<Rightarrow> ('r, unit) act) \<Rightarrow> 'x list \<Rightarrow> ('r, unit) act" where
  "act_each f [] o' = (Inr (), o')"
| "act_each f (x # xs) o' = act_bind (f x) (\<lambda>_. act_each f xs) o'"

text \<open>The boundary is resolved again at the launch.  Only a fan-out turn releases its claims when it is refused.\<close>

definition launch_containment :: "'r cfg \<Rightarrow> turn \<Rightarrow> ('r, string) act" where
  "launch_containment c t o' = (case resolveContainment c (tu_project t) (tu_dir t) (tu_binding t) (db o') of
     Inr root \<Rightarrow> (Inr root, o')
   | Inl e \<Rightarrow>
       if \<not> tu_fanout t then (Inl e, o')
       else act_bind (act_each (report_failure t (ClassifyFailure \<lparr>err_is = [], err_blocked = None\<rparr>)) (task_ids_of t))
         (\<lambda>_ o1. (Inl e, quietly (ClearWorkerTask (tu_worker t) ''idle'') o1)) o')"

definition prepare_turn :: "'r cfg \<Rightarrow> turn \<Rightarrow> ('r, Request) act" where
  "prepare_turn c t o' = (case NewRunner (tu_binding t) of
     Inl e \<Rightarrow> (Inl (ProviderFault e), o')
   | Inr _ \<Rightarrow> act_bind (launch_containment c t) (\<lambda>root o1.
       let req = turn_request c t root in
       case ResolveTurnLimits (tu_binding t) req of
         Inl e \<Rightarrow> (Inl (ProviderFault e), o1)
       | Inr limits \<Rightarrow>
           (let req' = req\<lparr>rq_TurnTimeout := tl_TurnTimeout limits, rq_StallTimeout := tl_StallTimeout limits\<rparr> in
            (Inr req', fold (recordExecutionProvenance c t req') (task_ids_of t) o1))) o')"

text \<open>\<open>runWithHeartbeat\<close> around \<open>runner.Run\<close>.\<close>

definition run_provider :: "world \<Rightarrow> ('r, run_outcome) act" where
  "run_provider w o' = (let o1 = o'\<lparr>db := w_during_run w (db o')\<rparr> in
     case w_run w of None \<Rightarrow> (Inl TurnPanicked, o1) | Some r \<Rightarrow> (Inr r, o1))"

section \<open>After the run\<close>

definition notify :: "'r cfg \<Rightarrow> turn \<Rightarrow> Failure option \<Rightarrow> 'r orch \<Rightarrow> 'r orch" where
  "notify c t f o' = (case failureCallback c of None \<Rightarrow> o' | Some cb \<Rightarrow> o'\<lparr>resolver := cb (tu_binding t) f (resolver o')\<rparr>)"

definition evidence_of :: "'r cfg \<Rightarrow> turn \<Rightarrow> string \<Rightarrow> Failure option \<Rightarrow> Evidence" where
  "evidence_of c t output f =
    (let ran = (if tu_fanout t
           then ''fan-out group '' @ quoted c (tu_heading t) @ '' ('' @ Itoa (int (length (tu_steps t))) @ '' steps)''
           else (case tu_steps t of [] \<Rightarrow> [] | ds # _ \<Rightarrow> Task_Description (ds_task ds)))
     in case f of
          None \<Rightarrow> zero_evidence\<lparr>ev_Ran := ran, ev_Output := output\<rparr>
        | Some f \<Rightarrow> zero_evidence\<lparr>ev_Ran := ran, ev_ExitCode := 1, ev_Output := f_Summary f,
            ev_FailureCategory := category_text (f_Category f)\<rparr>)"

definition log_failure :: "turn \<Rightarrow> Failure \<Rightarrow> 'r orch \<Rightarrow> 'r orch" where
  "log_failure t f o' = WriteWorkerDecision (tu_worker t)
     (failureDecisionLine (category_text (f_Category f)) (f_Summary f) (CountRunningWorkers (db o'))) o'"

definition append_evidence :: "'r cfg \<Rightarrow> turn \<Rightarrow> Evidence \<Rightarrow> ident \<Rightarrow> ('r, unit) act" where
  "append_evidence c t ev taskID = on_store (AppendMessage \<lparr>ao_WorkerID = tu_worker t, ao_PlanID = tu_plan t,
     ao_TaskID = taskID, ao_Role = roleAgent c, ao_ContentJSON = messageJSON c taskID (tu_plan t) ev\<rparr>)"

definition log_task :: "turn \<Rightarrow> ident" where
  "log_task t = (case task_ids_of t of [] \<Rightarrow> [] | i # _ \<Rightarrow> i)"

text \<open>The common end of every path that reaches it: the log is folded into an event, the worker row cleared.\<close>

definition retire_worker :: "turn \<Rightarrow> string \<Rightarrow> 'r orch \<Rightarrow> 'r orch" where
  "retire_worker t status o' = quietly (ClearWorkerTask (tu_worker t) status)
     (AbsorbDecisionLog (tu_project t) (tu_plan t) (log_task t) (tu_worker t) o')"

definition record_turn_usage :: "turn \<Rightarrow> Request \<Rightarrow> run_outcome \<Rightarrow> ('r, unit) act" where
  "record_turn_usage t req r = on_store (recordUsage (tu_project t) (tu_worker t) (b_Name (tu_binding t)) (rq_Model req) (ro_usage r))"

definition fail_worker :: "'r cfg \<Rightarrow> turn \<Rightarrow> Failure \<Rightarrow> string \<Rightarrow> ('r, unit) act" where
  "fail_worker c t f output o' = act_bind (append_evidence c t (evidence_of c t output (Some f)) (log_task t))
     (\<lambda>_ o1. act_bind (report_failure t f (log_task t)) (\<lambda>_ o2. (Inr (), retire_worker t ''crashed'' o2)) (notify c t (Some f) o1))
     (log_failure t f o')"

definition complete_worker :: "'r cfg \<Rightarrow> world \<Rightarrow> turn \<Rightarrow> string \<Rightarrow> ('r, unit) act" where
  "complete_worker c w t output =
    (let ev = evidence_of c t output None in
     act_bind (append_evidence c t ev (log_task t))
       (\<lambda>_ o1. case VerifyAndCompleteAs c (w_during_check w (log_task t)) (tu_plan t) (log_task t) (tu_session t) ev o1 of
          (Inl e, o2) \<Rightarrow> (Inl e, retire_worker t ''idle'' o2)
        | (Inr _, o2) \<Rightarrow> (Inr (), retire_worker t ''idle'' (notify c t None o2))))"

definition dispatchWorker :: "'r cfg \<Rightarrow> world \<Rightarrow> turn \<Rightarrow> ('r, unit) act" where
  "dispatchWorker c w t =
    act_bind (prepare_turn c t) (\<lambda>req. act_bind (run_provider w) (\<lambda>r. act_bind (record_turn_usage t req r) (\<lambda>_.
      case bounded_result r of
        (Some e, output) \<Rightarrow> fail_worker c t (ClassifyFailure e) output
      | (None, output) \<Rightarrow> complete_worker c w t output)))"

text \<open>Every task of the group is verified; the first error is kept.\<close>

fun verify_group :: "'r cfg \<Rightarrow> world \<Rightarrow> turn \<Rightarrow> Evidence \<Rightarrow> ident list \<Rightarrow> orch_error option \<Rightarrow> 'r orch \<Rightarrow> orch_error option \<times> 'r orch" where
  "verify_group c w t ev [] verifyErr o' = (verifyErr, o')"
| "verify_group c w t ev (i # rest) verifyErr o' =
    (case VerifyAndCompleteAs c (w_during_check w i) (tu_plan t) i (tu_session t) ev o' of
       (Inl e, o1) \<Rightarrow> verify_group c w t ev rest (case verifyErr of None \<Rightarrow> Some e | Some e0 \<Rightarrow> Some e0) o1
     | (Inr _, o1) \<Rightarrow> verify_group c w t ev rest verifyErr o1)"

definition fail_group :: "'r cfg \<Rightarrow> turn \<Rightarrow> Failure \<Rightarrow> string \<Rightarrow> ('r, unit) act" where
  "fail_group c t f output o' = act_bind (act_each (append_evidence c t (evidence_of c t output (Some f))) (task_ids_of t))
     (\<lambda>_. act_bind (act_each (report_failure t f) (task_ids_of t)) (\<lambda>_ o1. (Inr (), retire_worker t ''crashed'' o1)))
     (log_failure t f (notify c t (Some f) o'))"

definition complete_group :: "'r cfg \<Rightarrow> world \<Rightarrow> turn \<Rightarrow> string \<Rightarrow> ('r, unit) act" where
  "complete_group c w t output =
    (let ev = evidence_of c t output None in
     act_bind (act_each (append_evidence c t ev) (task_ids_of t))
       (\<lambda>_ o1. case verify_group c w t ev (task_ids_of t) None o1 of
          (Some e, o2) \<Rightarrow> (Inl e, retire_worker t ''idle'' o2)
        | (None, o2) \<Rightarrow> (Inr (), notify c t None (retire_worker t ''idle'' o2))))"

definition runFanoutGroup :: "'r cfg \<Rightarrow> world \<Rightarrow> turn \<Rightarrow> ('r, unit) act" where
  "runFanoutGroup c w t =
    act_bind (prepare_turn c t) (\<lambda>req. act_bind (run_provider w) (\<lambda>r. act_bind (record_turn_usage t req r) (\<lambda>_.
      case bounded_result r of
        (Some e, output) \<Rightarrow> fail_group c t (ClassifyFailure e) output
      | (None, output) \<Rightarrow> complete_group c w t output)))"

section \<open>The end of the goroutine\<close>

definition panic_release :: "'r cfg \<Rightarrow> turn \<Rightarrow> ident \<Rightarrow> 'r orch \<Rightarrow> 'r orch" where
  "panic_release c t taskID o' = (case ReleaseClaim (tu_plan t) taskID (tu_session t) ''dispatch goroutine panicked'' (db o') of
     (Inr _, s) \<Rightarrow> o'\<lparr>db := s\<rparr>
   | (Inl e, s) \<Rightarrow>
       if e = ErrTaskNotOwnedRunning then o'\<lparr>db := s\<rparr>
       else quietly (service_event (tu_project t) (tu_plan t) [] ''worker.dispatch_error''
              (reason_payload (''release claim after panic on '' @ taskID @ '': '' @ render c (StoreFault e)))) (o'\<lparr>db := s\<rparr>))"

definition recoverDispatchPanic :: "'r cfg \<Rightarrow> turn \<Rightarrow> 'r orch \<Rightarrow> 'r orch" where
  "recoverDispatchPanic c t o' =
    (let o1 = quietly (service_event (tu_project t) (tu_plan t) [] ''worker.dispatch_panic''
               (reason_payload (render c TurnPanicked))) o';
         o2 = fold (panic_release c t) (task_ids_of t) o1
     in if tu_worker t \<noteq> [] then quietly (ClearWorkerTask (tu_worker t) ''crashed'') o2 else o2)"

definition turn_body :: "'r cfg \<Rightarrow> world \<Rightarrow> turn \<Rightarrow> 'r orch \<Rightarrow> 'r orch" where
  "turn_body c w t o' = (case (if tu_fanout t then runFanoutGroup c w t o' else dispatchWorker c w t o') of
     (Inr _, o1) \<Rightarrow> o1
   | (Inl e, o1) \<Rightarrow>
       if e = TurnPanicked then recoverDispatchPanic c t o1
       else quietly (service_event (tu_project t) (tu_plan t) [] ''worker.dispatch_error'' (reason_payload (render c e))) o1)"

definition release_turn :: "'r cfg \<Rightarrow> turn \<Rightarrow> 'r orch \<Rightarrow> 'r orch" where
  "release_turn c t o' =
    (if tu_fanout t then release_admission c (tu_project t) (tu_reserved t) o'
     else releaseDispatchSlot c (releaseSpendReservation c (tu_project t) (tu_reserved t) o'))"

definition finish_turn :: "'r cfg \<Rightarrow> world \<Rightarrow> turn \<Rightarrow> 'r orch \<Rightarrow> 'r orch" where
  "finish_turn c w t o' = (let o1 = release_turn c t (turn_body c w t o') in o1\<lparr>inflight := remove1 t (inflight o1)\<rparr>)"

end
