(* ===== verification/Orch_Moves.thy ===== *)
theory Orch_Moves
  imports Orch_Turn Store_Steps
begin

text \<open>
  What the orchestrator's functions do to its state.  \<open>moves\<close>: the slots, the reservations and the turns
  in flight stay as they are and the database changes by a relation \<open>R\<close>.  Almost every function moves; the
  exceptions are acquiring and releasing, the spend check and the launch.  The locale names the operations of the
  store that the orchestrator calls; any relation that contains them, is reflexive and transitive follows
  the orchestrator through a dispatch pass and a turn.  It is interpreted with the steps of the store here,
  and with the relation that adds no stop verdict in \<open>Sup_Hook_Laws\<close>.
\<close>

named_theorems moving \<open>functions that keep the admission accounts and change the store by R\<close>

abbreviation store_steps :: "store \<Rightarrow> store \<Rightarrow> bool" where
  "store_steps \<equiv> store_step\<^sup>*\<^sup>*"

lemma store_reachable_steps: "store_steps s s' \<Longrightarrow> store_reachable s \<Longrightarrow> store_reachable s'"
  by (induction rule: rtranclp_induct) (auto intro: store_reachable.step)

definition moves_by :: "(store \<Rightarrow> store \<Rightarrow> bool) \<Rightarrow> 'r orch \<Rightarrow> 'r orch \<Rightarrow> bool" where
  "moves_by R o' o1 \<longleftrightarrow> slots o1 = slots o' \<and> cap_in_flight o1 = cap_in_flight o' \<and> inflight o1 = inflight o' \<and>
     R (db o') (db o1)"

definition world_by :: "(store \<Rightarrow> store \<Rightarrow> bool) \<Rightarrow> world \<Rightarrow> bool" where
  "world_by R w \<longleftrightarrow> (\<forall>s. R s (w_during_run w s)) \<and> (\<forall>i s. R s (w_during_check w i s))"

section \<open>The operations the orchestrator calls\<close>

locale store_relation =
  fixes R :: "store \<Rightarrow> store \<Rightarrow> bool"
  assumes R_refl: "R s s"
    and R_trans: "R s s1 \<Longrightarrow> R s1 s2 \<Longrightarrow> R s s2"
    and on_create_task: "R s (snd (CreateTask cto s))"
    and on_claim_task: "R s (snd (ClaimTask planID taskID sessionID workerID s))"
    and on_mark_done: "R s (snd (MarkDone planID taskID sessionID evidence s))"
    and on_mark_failed: "R s (snd (MarkFailedWithPayload planID taskID sessionID payload maxRetries s))"
    and on_release_claim: "R s (snd (ReleaseClaim planID taskID sessionID reason s))"
    and on_mark_blocked: "R s (snd (MarkBlocked planID taskID sessionID payload s))"
    and on_put_metadata: "R s (snd (PutTaskMetadata planID taskID groupPath teamPath json s))"
    and on_record_execution: "R s (snd (RecordTaskExecution planID taskID alias provider model effort domain sessionID s))"
    and on_block_capability: "R s (snd (MarkBlockedCapability planID taskID reason s))"
    and on_block_input: "R s (snd (MarkBlockedInput planID taskID reason s))"
    and on_clear_block: "R s (snd (ClearTaskBlock planID taskID blocked s))"
    and on_create_session: "R s (snd (CreateSession newID so s))"
    and on_create_worker: "R s (snd (CreateWorker newID wo s))"
    and on_set_worker_task: "R s (snd (SetWorkerTask workerID planID taskID s))"
    and on_materialize: "R s (snd (MaterializePlanGraph planID specs s))"
    and on_emit: "R s (snd (Emit eo s))"
    and on_record_spend: "R s (snd (RecordSpend ro s))"
    and on_append_message: "R s (snd (AppendMessage ao s))"
    and on_clear_worker_task: "R s (snd (ClearWorkerTask workerID status s))"
begin

abbreviation moves :: "'r orch \<Rightarrow> 'r orch \<Rightarrow> bool" where
  "moves \<equiv> moves_by R"

abbreviation world_fits :: "world \<Rightarrow> bool" where
  "world_fits \<equiv> world_by R"

lemma moves_refl [simp, intro]: "moves o' o'"
  by (simp add: moves_by_def R_refl)

lemma moves_trans [trans]: "moves o' o1 \<Longrightarrow> moves o1 o2 \<Longrightarrow> moves o' o2"
  by (auto simp: moves_by_def intro: R_trans)

lemma moves_db [intro]: "R (db o') s \<Longrightarrow> moves o' (o'\<lparr>db := s\<rparr>)"
  by (simp add: moves_by_def)

lemma moves_update [simp]:
  "moves o' (o1\<lparr>resolver := x\<rparr>) \<longleftrightarrow> moves o' o1" "moves o' (o1\<lparr>fresh := n\<rparr>) \<longleftrightarrow> moves o' o1"
  "moves o' (o1\<lparr>saturated := f\<rparr>) \<longleftrightarrow> moves o' o1" "moves o' (o1\<lparr>orch_session := i\<rparr>) \<longleftrightarrow> moves o' o1"
  "moves o' (o1\<lparr>decision_logs := l\<rparr>) \<longleftrightarrow> moves o' o1"
  by (simp_all add: moves_by_def)

text \<open>Results of store operations.\<close>

lemma step_result: "R s (snd x) \<Longrightarrow> x = (r, s') \<Longrightarrow> R s s'"
  by auto

lemmas step_results =
  on_create_task [THEN step_result] on_claim_task [THEN step_result] on_mark_done [THEN step_result]
  on_mark_failed [THEN step_result] on_release_claim [THEN step_result] on_mark_blocked [THEN step_result]
  on_put_metadata [THEN step_result] on_record_execution [THEN step_result]
  on_block_capability [THEN step_result] on_block_input [THEN step_result] on_clear_block [THEN step_result]
  on_create_session [THEN step_result] on_create_worker [THEN step_result]
  on_set_worker_task [THEN step_result] on_materialize [THEN step_result] on_emit [THEN step_result]
  on_record_spend [THEN step_result] on_append_message [THEN step_result]
  on_clear_worker_task [THEN step_result]

lemma moves_result: "moves o' (snd x) \<Longrightarrow> x = (r, o1) \<Longrightarrow> moves o' o1"
  by simp

lemma moves_quietly [moving]:
  assumes "\<And>s r s'. m s = (r, s') \<Longrightarrow> R s s'"
  shows "moves o' (quietly m o')"
  using assms by (metis moves_db prod.collapse quietly_def)

lemma moves_on_store [moving]:
  assumes "\<And>s r s'. m s = (r, s') \<Longrightarrow> R s s'"
  shows "moves o' (snd (on_store m o'))"
  using assms by (auto simp: on_store_def moves_by_def split: prod.split sum.split)

lemma moves_bind [moving]:
  assumes "\<And>o'. moves o' (snd (m o'))" and "\<And>x o'. moves o' (snd (f x o'))"
  shows "moves o' (snd (act_bind m f o'))"
  using assms(1) [of o'] assms(2) moves_trans by (force simp: act_bind_def split: prod.splits sum.splits)

lemma moves_return [moving, simp]: "moves o' (snd (act_return x o'))" "moves o' (snd (act_fail e o'))"
  by (simp_all add: act_return_def act_fail_def)

lemma moves_if [moving]: "(b \<Longrightarrow> moves o' x) \<Longrightarrow> (\<not> b \<Longrightarrow> moves o' y) \<Longrightarrow> moves o' (if b then x else y)"
  by simp

lemma service_event_steps: "service_event j p i k pay s = (r, s') \<Longrightarrow> R s s'"
  unfolding service_event_def by (rule step_results)

lemma moves_service_event [moving, simp]: "moves o' (quietly (service_event j p i k pay) o')"
  by (rule moves_quietly) (rule service_event_steps)

lemma moves_emit [moving, simp]: "moves o' (quietly (Emit eo) o')"
  by (rule moves_quietly) (rule step_results)

lemma moves_clear_worker [moving, simp]: "moves o' (quietly (ClearWorkerTask w st) o')"
  by (rule moves_quietly) (rule step_results)

lemma moves_refused [moving, simp]: "moves o' (admission_refused c j p i e o')"
  by (simp add: admission_refused_def)

lemma moves_saturation [moving, simp]: "moves o' (reportSaturation j p n o')"
proof -
  have *: "moves o' (o'\<lparr>saturated := (saturated o')(p := True)\<rparr>)" by simp
  show ?thesis unfolding reportSaturation_def Let_def
    by (rule moves_if, rule *, rule moves_trans [OF * moves_service_event])
qed

text \<open>Admission.\<close>

lemma moves_next_binding [moving, simp]: "moves o' (snd (next_binding c j par pu o'))"
  by (simp add: next_binding_def split: prod.split)

lemma moves_metadata [moving, simp]: "moves o' (snd (materializeStepMetadata p i ref step o'))"
  by (auto simp: materializeStepMetadata_def split: prod.split sum.split dest: step_results)

lemma moves_create [moving, simp]: "moves o' (snd (create_step_task p ref step o'))"
  by (auto simp: create_step_task_def split: prod.split sum.split dest: step_results)

lemma GetTask_same [simp]: "snd (GetTask p i s) = s"
  by (simp add: GetTask_def split: option.split)

lemma moves_get [moving, simp]: "moves o' (snd (on_store (GetTask p i) o'))"
  by (rule moves_on_store) (metis GetTask_same R_refl snd_conv)

lemma moves_materialize [moving, simp]: "moves o' (snd (materializeStepTask p ref step o'))"
  by (auto simp: materializeStepTask_def Let_def split: prod.split sum.split intro!: moves_bind)

lemma moves_rotate [moving]:
  assumes "\<And>o'. moves o' (snd (next_one o'))"
  shows "moves o' (snd (rotate_loop ok next_one n seen b o'))"
proof (induction n arbitrary: seen b o')
  case (Suc n)
  then show ?case
    by (auto split: sum.split prod.split intro: moves_trans dest: assms [THEN moves_result])
qed simp

lemma moves_rotate_pool [moving, simp]: "moves o' (snd (rotate_pool c a ok e b o'))"
  unfolding rotate_pool_def by (intro moves_bind moves_rotate) (auto split: option.split)

lemma moves_restrictions [moving, simp]:
  "moves o' (snd (resolveAllowedBinding c a allowed b o'))" "moves o' (snd (resolvePinnedBinding c a pin b o'))"
  "moves o' (snd (resolveIndependentBinding c a peers b o'))"
  by (auto simp: resolveAllowedBinding_def resolvePinnedBinding_def resolveIndependentBinding_def Let_def split: sum.split)

lemma moves_path_gate [moving, simp]: "moves o' (snd (pathGateBlocks c p i step o'))"
  unfolding pathGateBlocks_def Let_def
  by (auto split: sum.split prod.split option.split intro: moves_trans [OF _ moves_emit] dest!: step_results(10))

lemma moves_capability_gate [moving, simp]: "moves o' (snd (capabilityGateBlocks c p j par i step o'))"
  unfolding capabilityGateBlocks_def Let_def
  by (auto split: sum.split prod.split option.split intro: moves_trans [OF _ moves_emit] moves_trans [OF _ moves_db]
      dest!: step_results(9,11) dest: moves_next_binding [THEN moves_result])

lemma moves_gates [moving, simp]: "moves o' (snd (stepGateBlocks c p j par ref step o'))"
  unfolding stepGateBlocks_def by (intro moving) (auto intro!: moves_bind)

lemma moves_claim [moving, simp]: "moves o' (snd (claimStepTask p ref step se w o'))"
  unfolding claimStepTask_def
  by (intro moves_bind moves_materialize) (auto split: sum.split prod.split dest!: step_results(2))

lemma moves_spawn [moving, simp]: "moves o' (snd (spawnWorkerRows c b o'))"
proof -
  have "moves o' (o'\<lparr>db := s', fresh := n\<rparr>)" if "R (db o') s" "R s s'" for s s' n
    using that by (auto simp: moves_by_def intro: R_trans)
  then show ?thesis unfolding spawnWorkerRows_def
    by (auto split: sum.split prod.split dest!: step_results(12,13))
qed

lemma moves_set_worker_task [moving, simp]: "moves o' (snd (on_store (SetWorkerTask w p i) o'))"
  by (rule moves_on_store) (rule step_results)

lemma moves_coalescable [moving, simp]: "moves o' (snd (coalescableSteps c p j par steps o'))"
  by (induction steps arbitrary: o') (auto intro!: moves_bind)

lemma ReleaseClaim_moves [moving, simp]: "moves o' (quietly (ReleaseClaim p i se rea) o')"
  by (rule moves_quietly) (rule step_results)

lemma moves_fold [moving]:
  assumes "\<And>x o'. moves o' (f x o')"
  shows "moves o' (fold f xs o')"
  by (induction xs arbitrary: o') (auto intro: moves_trans assms)

lemma moves_release_claims [moving, simp]: "moves o' (releaseClaimedTasks p se cl o')"
  unfolding releaseClaimedTasks_def by (rule moves_fold) simp

lemma moves_claim_group [moving, simp]: "moves o' (snd (claim_group p se w steps cl o'))"
proof (induction steps arbitrary: cl o')
  case (Cons rs rest)
  then show ?case
    by (auto split: sum.split prod.split option.split intro: moves_trans dest: moves_claim [THEN moves_result])
qed simp

lemma moves_wave [moving, simp]: "moves o' (snd (loadReadyWave p doc o'))"
  unfolding loadReadyWave_def ensurePlanGraph_def by (auto split: sum.split prod.split dest!: step_results(15))

text \<open>Verification.\<close>

lemma moves_session [moving, simp]: "moves o' (snd (ensureOrchSession c o'))"
proof -
  have "moves o' (o'\<lparr>db := s, fresh := n\<rparr>)" "moves o' (o'\<lparr>db := s, fresh := n, orch_session := i\<rparr>)"
    if "R (db o') s" for s n i
    using that by (simp_all add: moves_by_def)
  then show ?thesis unfolding ensureOrchSession_def
    by (auto split: sum.split prod.split dest!: step_results(12))
qed

lemma orch_event_steps: "orch_event p i k pay s = (r, s') \<Longrightarrow> R s s'"
  unfolding orch_event_def by (rule step_results)

lemma moves_orch_event [moving, simp]: "moves o' (snd (on_store (orch_event p i k pay) o'))"
  by (rule moves_on_store) (rule orch_event_steps)

text \<open>An event after a store operation.\<close>

lemma moves_then_event: "R (db o') s \<Longrightarrow> moves o' (snd (act_bind (on_store (orch_event p i k pay)) (\<lambda>_. act_return x) (o'\<lparr>db := s\<rparr>)))"
  by (rule moves_trans [OF moves_db]) (auto intro!: moves_bind)

lemma moves_reject [moving, simp]: "moves o' (snd (reject_task p i se rea o'))"
  unfolding reject_task_def
  by (auto split: sum.split prod.split intro!: moves_then_event dest!: step_results(4))

lemma moves_complete [moving, simp]: "moves o' (snd (complete_task p i se evi o'))"
  unfolding complete_task_def
  by (auto split: sum.split prod.split intro!: moves_then_event dest!: step_results(3))

lemma moves_verdict [moving, simp]: "moves o' (snd (record_verdict c p i se evi task dir ok rea o'))"
  unfolding record_verdict_def Let_def verdict_session_def
  by (rule moves_bind) (auto split: option.split)

lemma moves_verify [moving]:
  assumes "\<And>s. R s (during s)"
  shows "moves o' (snd (VerifyAndCompleteAs c during p i se evi o'))"
proof -
  have *: "moves o' (o'\<lparr>db := during (db o')\<rparr>)" using assms by auto
  show ?thesis unfolding VerifyAndCompleteAs_def Let_def
    by (auto split: sum.split prod.split check_outcome.split intro: * moves_trans [OF * moves_verdict])
qed

text \<open>A turn.\<close>

lemma moves_decision [moving, simp]: "moves o' (WriteWorkerDecision w d o')"
  by (simp add: WriteWorkerDecision_def)

lemma moves_absorb [moving, simp]: "moves o' (AbsorbDecisionLog j p i w o')"
  by (simp add: AbsorbDecisionLog_def Let_def)

lemma moves_context_end [moving, simp]: "moves o' (snd (HandleContextEnd p i se o'))"
  unfolding HandleContextEnd_def by (auto split: sum.split prod.split dest!: step_results(6))

lemma moves_provenance_event [moving, simp]: "moves o' (provenance_event t i k rea o')"
  by (simp add: provenance_event_def)

lemma moves_provenance_domain [moving, simp]: "moves o' (snd (provenance_domain c t i iv o'))"
  by (auto simp: provenance_domain_def split: sum.split prod.split)

lemma moves_provenance_write: "moves o' o1 \<Longrightarrow> moves o' (case RecordTaskExecution p i al pt m e d se (db o1) of
    (Inl err, s) \<Rightarrow> provenance_event t i k (rea err) (o1\<lparr>db := s\<rparr>) | (Inr u, s) \<Rightarrow> o1\<lparr>db := s\<rparr>)"
  by (auto split: sum.split prod.split dest!: step_results(8)
      intro: moves_trans [OF moves_trans [OF _ moves_db] moves_provenance_event] moves_trans [OF _ moves_db])

lemma moves_provenance [moving, simp]: "moves o' (recordExecutionProvenance c t req i o')"
proof -
  obtain iv o1 where io: "(case ResolveInvocation (tu_binding t) req of
      Inl e \<Rightarrow> (zero_invocation, provenance_event t i ''task.provenance_invocation_error'' (render c (ProviderFault e)) o')
    | Inr iv \<Rightarrow> (iv, o')) = (iv, o1)" by fastforce
  obtain d o2 where d: "provenance_domain c t i iv o1 = (d, o2)" by fastforce
  have "moves o' o1" using io by (auto split: sum.splits)
  with moves_result [OF moves_provenance_domain d] have "moves o' o2" by (rule moves_trans [rotated])
  then show ?thesis unfolding recordExecutionProvenance_def Let_def io d prod.case by (rule moves_provenance_write)
qed

lemma moves_report_failure [moving, simp]: "moves o' (snd (report_failure t f i o'))"
  unfolding report_failure_def by (auto split: sum.split prod.split dest!: step_results(4))

lemma moves_each [moving]:
  assumes "\<And>x o'. moves o' (snd (f x o'))"
  shows "moves o' (snd (act_each f xs o'))"
proof (induction xs arbitrary: o')
  case (Cons x xs)
  then show ?case by (auto intro: moves_bind assms)
qed simp

lemma moves_launch_containment [moving, simp]: "moves o' (snd (launch_containment c t o'))"
  unfolding launch_containment_def
  by (auto split: sum.split intro!: moves_bind moves_each)

lemma moves_prepare [moving, simp]: "moves o' (snd (prepare_turn c t o'))"
  unfolding prepare_turn_def Let_def
  by (auto split: sum.split intro!: moves_bind moves_fold)

lemma moves_run [moving]: "world_fits w \<Longrightarrow> moves o' (snd (run_provider w o'))"
  by (auto simp: run_provider_def Let_def world_by_def split: option.split)

lemma moves_notify [moving, simp]: "moves o' (notify c t f o')"
  by (simp add: notify_def split: option.split)

lemma moves_log_failure [moving, simp]: "moves o' (log_failure t f o')"
  by (simp add: log_failure_def)

lemma moves_append [moving, simp]: "moves o' (snd (append_evidence c t evi i o'))"
  unfolding append_evidence_def by (rule moves_on_store) (rule step_results)

lemma moves_retire [moving, simp]: "moves o' (retire_worker t st o')"
  unfolding retire_worker_def by (rule moves_trans [OF moves_absorb moves_clear_worker])

lemma moves_usage [moving, simp]: "moves o' (snd (record_turn_usage t req r o'))"
  unfolding record_turn_usage_def recordUsage_def by (rule moves_on_store) (rule step_results)

lemma moves_fail_worker [moving, simp]: "moves o' (snd (fail_worker c t f out o'))"
  unfolding fail_worker_def
  by (rule moves_trans [OF moves_log_failure], rule moves_bind [OF moves_append], rule moves_trans [OF moves_notify], rule moves_bind)
    simp_all

lemma moves_complete_worker [moving]:
  assumes "world_fits w"
  shows "moves o' (snd (complete_worker c w t out o'))"
proof -
  have v: "moves o1 (snd (VerifyAndCompleteAs c (w_during_check w i) p i se evi o1))" for o1 i p se evi
    by (rule moves_verify) (use assms in \<open>simp add: world_by_def\<close>)
  show ?thesis unfolding complete_worker_def Let_def
    by (rule moves_bind [OF moves_append])
      (auto split: sum.split prod.split intro: moves_trans [OF moves_result [OF v]] moves_trans [OF moves_notify moves_retire])
qed

lemma moves_dispatchWorker [moving]: "world_fits w \<Longrightarrow> moves o' (snd (dispatchWorker c w t o'))"
  unfolding dispatchWorker_def
  by (intro moves_bind moves_prepare moves_usage moves_run) (auto split: prod.split option.split intro: moves_complete_worker)

lemma moves_verify_group [moving]:
  assumes "world_fits w"
  shows "moves o' (snd (verify_group c w t evi is e o'))"
proof (induction "is" arbitrary: e o')
  case (Cons i "is")
  have v: "moves o1 (snd (VerifyAndCompleteAs c (w_during_check w i) p i se evi o1))" for o1 p se
    by (rule moves_verify) (use assms in \<open>simp add: world_by_def\<close>)
  show ?case by (auto split: sum.split prod.split intro: moves_trans [OF moves_result [OF v] Cons.IH])
qed simp

lemma moves_fail_group [moving, simp]: "moves o' (snd (fail_group c t f out o'))"
proof -
  have "moves o' (log_failure t f (notify c t (Some f) o'))" by (rule moves_trans [OF moves_notify moves_log_failure])
  then show ?thesis unfolding fail_group_def
    by (rule moves_trans) (intro moves_bind moves_each, simp_all)
qed

lemma moves_complete_group [moving]:
  assumes "world_fits w"
  shows "moves o' (snd (complete_group c w t out o'))"
proof -
  have v: "moves o1 (snd (case verify_group c w t evi is e o1 of
      (Some e, o2) \<Rightarrow> (Inl e, retire_worker t st o2)
    | (None, o2) \<Rightarrow> (Inr (), notify c t None (retire_worker t st o2))))" for o1 evi "is" e st
  proof -
    obtain r o2 where g: "verify_group c w t evi is e o1 = (r, o2)" by fastforce
    have "moves o1 (retire_worker t st o2)"
      by (rule moves_trans [OF moves_result [OF moves_verify_group [OF assms] g] moves_retire])
    then show ?thesis unfolding g by (cases r) (auto intro: moves_trans [OF _ moves_notify])
  qed
  show ?thesis unfolding complete_group_def Let_def
    by (intro moves_bind moves_each) (simp_all only: moves_append v)
qed

lemma moves_runFanoutGroup [moving]: "world_fits w \<Longrightarrow> moves o' (snd (runFanoutGroup c w t o'))"
  unfolding runFanoutGroup_def
  by (intro moves_bind moves_prepare moves_usage moves_run) (auto split: prod.split option.split intro: moves_complete_group)

lemma moves_panic_release [moving, simp]: "moves o' (panic_release c t i o')"
  unfolding panic_release_def
  by (auto split: sum.split prod.split intro: moves_trans [OF moves_db moves_service_event] dest!: step_results(5))

lemma moves_recover [moving, simp]: "moves o' (recoverDispatchPanic c t o')"
proof -
  have "moves o' (fold (panic_release c t) is (quietly (service_event j p i k pay) o'))" for "is" j p i k pay
    by (rule moves_trans [OF moves_service_event moves_fold]) simp
  then show ?thesis unfolding recoverDispatchPanic_def Let_def
    by (auto intro: moves_trans [OF _ moves_clear_worker])
qed

lemma moves_turn_body: "world_fits w \<Longrightarrow> moves o' (turn_body c w t o')"
  unfolding turn_body_def
  by (auto split: sum.split prod.split intro: moves_trans [OF _ moves_recover] moves_trans [OF _ moves_service_event]
      dest: moves_dispatchWorker [THEN moves_result] moves_runFanoutGroup [THEN moves_result])

end

text \<open>The steps of the store are such a relation.\<close>

interpretation steps: store_relation store_steps
  by unfold_locales (auto intro: store_step.intros)

abbreviation world_ok :: "world \<Rightarrow> bool" where
  "world_ok \<equiv> world_by store_steps"

end
