(* ===== verification/Orch_Demo.thy ===== *)
theory Orch_Demo
  imports Orch_Turn Store_Demo
begin

text \<open>
  A small orchestrator on which the properties are instantiated: a plan with one group of two steps, a
  pool with one capped provider, two dispatch slots.
\<close>

definition demo_doc :: PlanDoc where
  "demo_doc = \<lparr>Groups = [Group ''G'' 2 True
     [\<lparr>step_Text = ''one'', step_Detail = [], step_RequiresApproval = False, step_Metadata = None\<rparr>,
      \<lparr>step_Text = ''two'', step_Detail = [], step_RequiresApproval = False, step_Metadata = None\<rparr>] []]\<rparr>"

definition demo_binding :: Binding where
  "demo_binding = \<lparr>b_Name = ''codex'', b_Config = defaultCodexProvider, b_BinaryFromLocal = False\<rparr>"

definition demo_cfg :: "unit cfg" where
  "demo_cfg = \<lparr>maxParallel = 2, spendCap = [''codex'' \<mapsto> 100], turnTimeout = 0, stallTimeout = 0, hookEndpoint = [],
     containProviderWrites = False, containmentResolver = None,
     resolveBinding = (\<lambda>_ _ _ _ r. (Inr demo_binding, r)),
     acceptanceCheck = (\<lambda>_ _ ev. Verdict (ev_Output ev \<noteq> []) []), parseMarkdown = (\<lambda>_. Some demo_doc),
     evalPath = Resolved, fileHash = (\<lambda>_. None), digest = (\<lambda>x. x), uuid = (\<lambda>n. ''u'' @ Itoa (int n)),
     roleAgent = ''agent'', messageJSON = (\<lambda>_ _ _. []), render = (\<lambda>_. []), quoted = (\<lambda>x. x), failureCallback = None\<rparr>"

definition demo_planned :: store where
  "demo_planned = snd (SetPlanStatus ''p'' PlanStatusActive (snd (CreatePlan ''p'' \<lparr>cp_ProjectID = ''j'', cp_Slug = ''s'', cp_Title = ''t'', cp_SourceMarkdown = ''m'',
     cp_TagsJSON = []\<rparr> (snd (CreateProject ''j'' [] [] (empty_store 0))))))"

definition demo_idle :: "unit orch" where
  "demo_idle = \<lparr>db = demo_planned, slots = 0, saturated = (\<lambda>_. False), cap_in_flight = (\<lambda>_. 0), inflight = [], resolver = (),
     fresh = 0, orch_session = [], decision_logs = (\<lambda>_. [])\<rparr>"

definition demo_dispatched :: "unit orch" where
  "demo_dispatched = snd (DispatchNext demo_cfg ''j'' ''p'' demo_idle)"


lemma demo_planned_reachable: "store_reachable demo_planned"
  unfolding demo_planned_def
  by (rule step [OF step [OF step [OF start create_project] create_plan] set_plan_status])

text \<open>An orchestrator over the store of \<open>Store_Demo\<close> in which session \<open>s\<close> runs the task \<open>a\<close>, and a report with output.\<close>

definition demo_reporting :: "unit orch" where
  "demo_reporting = demo_idle\<lparr>db := demo_running\<rparr>"

definition demo_evidence :: Evidence where
  "demo_evidence = zero_evidence\<lparr>ev_Output := ''ok''\<rparr>"

end
