(* ===== verification/Orch_Admission_Laws.thy ===== *)
theory Orch_Admission_Laws
  imports Orch_Moves Orch_Demo
begin

text \<open>
  The accounts of admission (\<open>orchestrator.go\<close>, \<open>spend.go\<close>): every slot belongs to a turn in flight or to
  the dispatch that is running, and every reservation of a capped provider likewise, so the limits hold
  on every path, errors included.  \<open>account\<close> is the invariant while a dispatch holds \<open>n\<close> slots and the
  reservations \<open>held\<close>; \<open>s0\<close> is the database it started from.
\<close>

section \<open>The accounts\<close>

definition reserves :: "'r cfg \<Rightarrow> ident \<Rightarrow> string \<Rightarrow> string list" where
  "reserves c projectID providerName = (if capped c providerName then [spendKey projectID providerName] else [])"

definition turn_keys :: "'r cfg \<Rightarrow> turn list \<Rightarrow> string list" where
  "turn_keys c ts = concat (map (\<lambda>t. reserves c (tu_project t) (tu_reserved t)) ts)"

lemma turn_keys_simps [simp]:
  "turn_keys c [] = []" "turn_keys c (t # ts) = reserves c (tu_project t) (tu_reserved t) @ turn_keys c ts"
  "turn_keys c (ts @ us) = turn_keys c ts @ turn_keys c us"
  by (simp_all add: turn_keys_def)

definition account_by :: "(store \<Rightarrow> store \<Rightarrow> bool) \<Rightarrow> 'r cfg \<Rightarrow> store \<Rightarrow> nat \<Rightarrow> string list \<Rightarrow> 'r orch \<Rightarrow> bool" where
  "account_by R c s0 n held o' \<longleftrightarrow>
     (maxParallel c > 0 \<longrightarrow> slots o' = int (length (inflight o') + n) \<and> slots o' \<le> maxParallel c) \<and>
     cap_in_flight o' = (\<lambda>k. int (count_list (turn_keys c (inflight o') @ held) k)) \<and>
     distinct (turn_keys c (inflight o') @ held) \<and> R s0 (db o')"

text \<open>The account of a dispatch that admits a binding or refuses.\<close>

definition admits_by :: "(store \<Rightarrow> store \<Rightarrow> bool) \<Rightarrow> 'r cfg \<Rightarrow> store \<Rightarrow> nat \<Rightarrow> ident \<Rightarrow> ('x + Binding) \<times> 'r orch \<Rightarrow> bool" where
  "admits_by R c s0 n p x \<longleftrightarrow> account_by R c s0 n (case fst x of Inl _ \<Rightarrow> [] | Inr b \<Rightarrow> reserves c p (b_Name b)) (snd x)"

context store_relation
begin

abbreviation account :: "'r cfg \<Rightarrow> store \<Rightarrow> nat \<Rightarrow> string list \<Rightarrow> 'r orch \<Rightarrow> bool" where
  "account \<equiv> account_by R"

abbreviation admits :: "'r cfg \<Rightarrow> store \<Rightarrow> nat \<Rightarrow> ident \<Rightarrow> ('x + Binding) \<times> 'r orch \<Rightarrow> bool" where
  "admits \<equiv> admits_by R"

lemma account_moves: "moves o' o1 \<Longrightarrow> account c s0 n held o' \<Longrightarrow> account c s0 n held o1"
  by (auto simp: account_by_def moves_by_def intro: R_trans)

lemma account_result: "moves o' (snd x) \<Longrightarrow> x = (r, o1) \<Longrightarrow> account c s0 n held o' \<Longrightarrow> account c s0 n held o1"
  using account_moves by force

lemma account_quietly: "(\<And>s r s'. m s = (r, s') \<Longrightarrow> R s s') \<Longrightarrow> account c s0 n held o' \<Longrightarrow> account c s0 n held (quietly m o')"
  by (rule account_moves [OF moves_quietly])

lemma account_acquire:
  assumes "acquireDispatchSlot c o' = (ok, o1)" and "account c s0 n held o'"
  shows "account c s0 (if ok then Suc n else n) held o1"
  using assms by (auto simp: acquireDispatchSlot_def account_by_def split: if_splits)

lemma account_saturated [simp]: "account c s0 n held (o'\<lparr>saturated := f\<rparr>) \<longleftrightarrow> account c s0 n held o'"
  by (simp add: account_by_def)

lemma account_release_slot: "account c s0 (Suc n) held o' \<Longrightarrow> account c s0 n held (releaseDispatchSlot c o')"
  by (auto simp: releaseDispatchSlot_def clearSaturation_def account_by_def)

lemma account_check:
  assumes "checkSpendCap c p name o' = (r, o1)" and "account c s0 n [] o'"
  shows "account c s0 n (case r of Inl _ \<Rightarrow> [] | Inr _ \<Rightarrow> reserves c p name) o1"
  using assms unfolding checkSpendCap_def account_by_def reserves_def capped_def
  by (auto simp: Let_def count_list_0_iff split: option.splits if_splits)

lemma account_release_spend:
  "account c s0 n (reserves c p name) o' \<Longrightarrow> account c s0 n [] (releaseSpendReservation c p name o')"
  by (auto simp: releaseSpendReservation_def account_by_def reserves_def Let_def fun_eq_iff)

lemma account_launch:
  assumes "account c s0 (Suc n) (reserves c p name) o'" and "tu_project t = p" "tu_reserved t = name"
  shows "account c s0 n [] (launch t o')"
  using assms by (auto simp: account_by_def launch_def)

text \<open>Released reservations: an empty provider name is never capped.\<close>

lemma account_release_both:
  assumes "account c s0 (Suc n) (reserves c p name) o'" and "\<not> capped c []"
  shows "account c s0 n [] (release_admission c p name o')"
  using account_release_slot [OF assms(1)] account_release_spend assms(2)
  by (auto simp: release_admission_def Let_def reserves_def)

text \<open>Dispatch.\<close>

lemma account_refusing:
  assumes "account c s0 n held o'" and "moves o' (snd (m o'))" and "refusing i m o' = (r, o1)"
  shows "account c s0 n held o1"
  using assms account_moves by (auto simp: refusing_def split: prod.splits sum.splits)

lemma admits_bind:
  assumes o': "account c s0 n [] o'" and m: "\<And>o'. moves o' (snd (m o'))"
    and f: "\<And>x o1. account c s0 n [] o1 \<Longrightarrow> admits c s0 n p (f x o1)"
  shows "admits c s0 n p (act_bind (refusing i m) f o')"
proof -
  obtain r o1 where x: "refusing i m o' = (r, o1)" by fastforce
  have "account c s0 n [] o1" by (rule account_refusing [OF o' m x])
  then show ?thesis using f by (cases r) (auto simp: act_bind_def x admits_by_def)
qed

lemma admits_spend:
  assumes "account c s0 n [] o'"
  shows "admits c s0 n p (act_bind (refusing i (checkSpendCap c p (b_Name b))) (\<lambda>_. act_return b) o')"
proof -
  obtain r o1 where x: "checkSpendCap c p (b_Name b) o' = (r, o1)" by fastforce
  show ?thesis using account_check [OF x assms]
    by (cases r) (auto simp: act_bind_def refusing_def act_return_def admits_by_def x)
qed

lemma account_admit: "account c s0 n [] o' \<Longrightarrow> admits c s0 n (sa_projectID a) (admit_step c a b0 o')"
  unfolding admit_step_def Let_def
  by (intro admits_bind admits_spend) simp_all

text \<open>The account of a dispatch that has ended.\<close>

lemma account_store:
  assumes "on_store m o' = (r, o1)" and "\<And>s r s'. m s = (r, s') \<Longrightarrow> R s s'" and "account c s0 n held o'"
  shows "account c s0 n held o1"
  using account_result [OF moves_on_store assms(1,3)] assms(2) by blast

lemmas account_facts =
  account_result [OF moves_next_binding] account_result [OF moves_spawn] account_result [OF moves_claim]
  account_result [OF moves_set_worker_task] account_result [OF moves_claim_group] account_result [OF moves_gates]
  account_result [OF moves_coalescable] account_result [OF moves_wave]

lemmas account_ends = account_moves [OF moves_clear_worker] account_moves [OF moves_refused]
  account_moves [OF moves_release_claims] account_moves [OF moves_saturation]

lemma account_launch_step:
  assumes "account c s0 (Suc n) (reserves c (sa_projectID a) (b_Name b)) o'" and "\<not> capped c []"
  shows "account c s0 n [] (snd (launch_step c a b o'))"
proof -
  have release: "account c s0 n [] (release_admission c (sa_projectID a) (b_Name b) o1)"
    if "account c s0 (Suc n) (reserves c (sa_projectID a) (b_Name b)) o1" for o1
    using account_release_both [OF that assms(2)] .
  show ?thesis unfolding launch_step_def Let_def
    by (auto split: prod.split sum.split option.split
        dest!: account_facts(2) [OF _ assms(1)] dest: account_facts(3) account_facts(4)
        intro!: account_ends release account_launch)
qed

lemma account_step:
  assumes "account c s0 (Suc n) [] o'" and "\<not> capped c []"
  shows "account c s0 n [] (snd (dispatchReadyStep c a o'))"
proof -
  obtain r o1 where b: "next_binding c (sa_projectID a) (sa_parallel a) BindingDispatch o' = (r, o1)" by fastforce
  have o1: "account c s0 (Suc n) [] o1" by (rule account_facts(1) [OF b assms(1)])
  show ?thesis
  proof (cases r)
    case (Inl e)
    then show ?thesis by (simp add: dispatchReadyStep_def b account_release_slot o1)
  next
    case (Inr b0)
    obtain r' o2 where a: "admit_step c a b0 o1 = (r', o2)" by fastforce
    have adm: "account c s0 (Suc n) (case r' of Inl _ \<Rightarrow> [] | Inr b \<Rightarrow> reserves c (sa_projectID a) (b_Name b)) o2"
      using account_admit [OF o1, of a b0] by (simp add: a admits_by_def)
    show ?thesis
      using adm by (cases r')
        (auto simp: dispatchReadyStep_def b Inr a intro!: account_ends account_launch_step assms(2) dest: account_release_slot)
  qed
qed

lemma account_fanout:
  assumes "account c s0 (Suc n) [] o'" and "\<not> capped c []"
  shows "account c s0 n [] (snd (dispatchFanoutGroup c a b steps o'))"
proof -
  obtain r o1 where sp: "checkSpendCap c (ga_projectID a) (b_Name b) o' = (r, o1)" by fastforce
  note o1 = account_check [OF sp assms(1)]
  have release: "account c s0 n [] (release_admission c (ga_projectID a) (b_Name b) o2)"
    if "account c s0 (Suc n) (reserves c (ga_projectID a) (b_Name b)) o2" for o2
    using account_release_both [OF that assms(2)] .
  show ?thesis
  proof (cases r)
    case (Inl e)
    then show ?thesis using o1 by (auto simp: dispatchFanoutGroup_def sp intro: account_ends account_release_slot)
  next
    case (Inr u)
    then have o1': "account c s0 (Suc n) (reserves c (ga_projectID a) (b_Name b)) o1" using o1 by simp
    show ?thesis unfolding dispatchFanoutGroup_def sp Inr prod.case sum.case Let_def
      by (auto split: prod.split sum.split option.split
          dest!: account_facts(2) [OF _ o1'] dest: account_facts(5) account_facts(4)
          intro!: account_ends release account_launch)
  qed
qed

lemma account_try_fanout:
  assumes "account c s0 n [] o'" and "\<not> capped c []"
  shows "account c s0 n [] (snd (try_fanout c a o'))"
proof -
  have acq: "account c s0 (Suc n) [] o2" if "acquireDispatchSlot c o1 = (True, o2)" "account c s0 n [] o1" for o1 o2
    using account_acquire [OF that] by simp
  have full: "account c s0 n [] o2" if "acquireDispatchSlot c o1 = (False, o2)" "account c s0 n [] o1" for o1 o2
    using account_acquire [OF that] by simp
  have group: "account c s0 n [] o2" if "dispatchFanoutGroup c a b steps o1 = (r, o2)" "account c s0 (Suc n) [] o1" for b steps o1 r o2
    using account_fanout [OF that(2) assms(2), of a b steps] by (simp add: that(1))
  show ?thesis unfolding try_fanout_def Let_def
    by (auto split: prod.split sum.split bool.split simp: assms(1)
        dest!: account_facts(1) [OF _ assms(1)] dest: account_facts(1) account_facts(7) acq full group
        intro: account_release_slot intro!: account_ends)
qed

lemma account_dispatch_steps:
  assumes "\<not> capped c []"
  shows "account c s0 n [] o' \<Longrightarrow> account c s0 n [] (snd (dispatch_steps c a steps d m o'))"
proof (induction steps arbitrary: d m o')
  case (Cons rs rest)
  have acq: "account c s0 (Suc n) [] o2" if "acquireDispatchSlot c o1 = (True, o2)" "account c s0 n [] o1" for o1 o2
    using account_acquire [OF that] by simp
  have full: "account c s0 n [] o2" if "acquireDispatchSlot c o1 = (False, o2)" "account c s0 n [] o1" for o1 o2
    using account_acquire [OF that] by simp
  have one: "account c s0 n [] o2" if "dispatchReadyStep c b o1 = (r, o2)" "account c s0 (Suc n) [] o1" for b o1 r o2
    using account_step [OF that(2) assms, of b] by (simp add: that(1))
  show ?case
    by (auto split: prod.split sum.split bool.split simp: Cons.prems
        dest!: account_facts(6) [OF _ Cons.prems] dest: acq full one intro: Cons.IH intro!: account_ends)
qed simp

lemma account_group:
  assumes "account c s0 n [] o'" and "\<not> capped c []"
  shows "account c s0 n [] (snd (dispatchReadyGroup c a o'))"
proof -
  obtain r o1 where f: "try_fanout c a o' = (r, o1)" by fastforce
  have "account c s0 n [] o1" using account_try_fanout [OF assms, of a] by (simp add: f)
  then show ?thesis by (auto simp: dispatchReadyGroup_def f account_dispatch_steps assms(2) split: option.split)
qed

lemma account_groups:
  assumes "\<not> capped c []"
  shows "account c s0 n [] o' \<Longrightarrow> account c s0 n [] (snd (dispatch_groups c mk gs d m o'))"
proof (induction gs arbitrary: d m o')
  case (Cons g gs)
  obtain k w e o1 where g: "dispatchReadyGroup c (mk m g) o' = ((k, w, e), o1)" by (metis surj_pair)
  have "account c s0 n [] o1" using account_group [OF Cons.prems assms, of "mk m g"] by (simp add: g)
  then show ?case by (auto simp: g Cons.prems split: option.split intro: Cons.IH)
qed simp

lemma account_DispatchNext:
  assumes "account c s0 n [] o'" and "\<not> capped c []"
  shows "account c s0 n [] (snd (DispatchNext c p i o'))"
  unfolding DispatchNext_def
  by (auto split: prod.split sum.split option.split simp: assms dest!: account_facts(8) [OF _ assms(1)] intro: account_groups)

text \<open>The end of a turn.\<close>

lemma turn_keys_remove: "t \<in> set ts \<Longrightarrow>
    mset (turn_keys c (remove1 t ts) @ reserves c (tu_project t) (tu_reserved t)) = mset (turn_keys c ts)"
  by (induction ts) auto

lemma account_remove:
  assumes "account c s0 n [] o'" and t: "t \<in> set (inflight o')"
  shows "account c s0 (Suc n) (reserves c (tu_project t) (tu_reserved t)) (o'\<lparr>inflight := remove1 t (inflight o')\<rparr>)"
proof -
  note keys = turn_keys_remove [OF t, of c]
  have "count_list (turn_keys c (remove1 t (inflight o')) @ reserves c (tu_project t) (tu_reserved t)) = count_list (turn_keys c (inflight o'))"
    using keys by (metis count_mset ext)
  moreover have "distinct (turn_keys c (remove1 t (inflight o')) @ reserves c (tu_project t) (tu_reserved t))"
    using mset_eq_imp_distinct_iff [OF keys] assms(1) by (simp add: account_by_def)
  moreover have "length (inflight o') = Suc (length (remove1 t (inflight o')))"
    using t length_pos_if_in_set [OF t] by (simp add: length_remove1)
  ultimately show ?thesis using assms(1) by (auto simp: account_by_def)
qed

lemma release_turn_inflight: "release_turn c t (o'\<lparr>inflight := ts\<rparr>) = (release_turn c t o')\<lparr>inflight := ts\<rparr>"
  by (simp add: release_turn_def release_admission_def releaseDispatchSlot_def releaseSpendReservation_def clearSaturation_def Let_def)

lemma inflight_release: "inflight (release_turn c t o') = inflight o'"
  by (simp add: release_turn_def release_admission_def releaseDispatchSlot_def releaseSpendReservation_def clearSaturation_def Let_def)

lemma account_finish:
  assumes "account c s0 n [] o'" and "\<not> capped c []" and "world_fits w" and "t \<in> set (inflight o')"
  shows "account c s0 n [] (finish_turn c w t o')"
proof -
  let ?o = "turn_body c w t o'"
  have body: "account c s0 n [] ?o" by (rule account_moves [OF moves_turn_body [OF assms(3)] assms(1)])
  have "t \<in> set (inflight ?o)" using moves_turn_body [OF assms(3), of o' c t] assms(4) by (simp add: moves_by_def)
  from account_remove [OF body this]
  have "account c s0 n [] (release_turn c t (?o\<lparr>inflight := remove1 t (inflight ?o)\<rparr>))"
    unfolding release_turn_def
    using account_release_both [OF _ assms(2)] by (auto intro: account_release_slot account_release_spend)
  then show ?thesis by (simp add: finish_turn_def Let_def release_turn_inflight inflight_release)
qed

end

abbreviation account :: "'r cfg \<Rightarrow> store \<Rightarrow> nat \<Rightarrow> string list \<Rightarrow> 'r orch \<Rightarrow> bool" where
  "account \<equiv> account_by store_steps"

section \<open>Reachable orchestrators\<close>

text \<open>The steps of the service: a dispatch pass, the end of a turn, a verification that a hook or an operator asks
  for, a worker at the end of its context, other work on the database, a change of the resolver's state.\<close>

inductive orch_step :: "'r cfg \<Rightarrow> 'r orch \<Rightarrow> 'r orch \<Rightarrow> bool" for c where
  dispatch: "orch_step c o' (snd (DispatchNext c projectID planID o'))"
| finish: "t \<in> set (inflight o') \<Longrightarrow> world_ok w \<Longrightarrow> orch_step c o' (finish_turn c w t o')"
| verify: "(\<And>s. store_steps s (during s)) \<Longrightarrow>
    orch_step c o' (snd (VerifyAndCompleteAs c during planID taskID sessionID ev o'))"
| context_end: "orch_step c o' (snd (HandleContextEnd planID taskID sessionID o'))"
| other: "store_step (db o') s \<Longrightarrow> orch_step c o' (o'\<lparr>db := s\<rparr>)"
| resolve: "orch_step c o' (o'\<lparr>resolver := r\<rparr>)"

definition orch_start :: "'r \<Rightarrow> store \<Rightarrow> 'r orch" where
  "orch_start r s = \<lparr>db = s, slots = 0, saturated = (\<lambda>_. False), cap_in_flight = (\<lambda>_. 0), inflight = [], resolver = r,
     fresh = 0, orch_session = [], decision_logs = (\<lambda>_. [])\<rparr>"

inductive orch_reachable :: "'r cfg \<Rightarrow> 'r orch \<Rightarrow> bool" for c where
  start: "store_reachable s \<Longrightarrow> orch_reachable c (orch_start r s)"
| step: "orch_reachable c o' \<Longrightarrow> orch_step c o' o1 \<Longrightarrow> orch_reachable c o1"

lemma account_orch_step:
  assumes "orch_step c o' o1" and "\<not> capped c []" and "account c s0 0 [] o'"
  shows "account c s0 0 [] o1"
  using assms(1)
proof cases
  case (dispatch projectID planID)
  then show ?thesis by (simp add: steps.account_DispatchNext assms)
next
  case (finish t w)
  then show ?thesis by (simp add: steps.account_finish assms)
next
  case (verify during planID taskID sessionID ev)
  then show ?thesis using steps.account_moves [OF steps.moves_verify assms(3)] by simp
next
  case (context_end planID taskID sessionID)
  then show ?thesis using steps.account_moves [OF steps.moves_context_end assms(3)] by simp
next
  case (other s)
  then have "moves_by store_steps o' o1" by (simp add: moves_by_def)
  then show ?thesis by (rule steps.account_moves [OF _ assms(3)])
next
  case (resolve r)
  then have "moves_by store_steps o' o1" by simp
  then show ?thesis by (rule steps.account_moves [OF _ assms(3)])
qed

lemma account_start: "\<exists>s0. store_reachable s0 \<and> account c s0 0 [] o'"
  if "orch_reachable c o'" "\<not> capped c []"
  using that
proof (induction rule: orch_reachable.induct)
  case (start s r)
  have "account c s 0 [] (orch_start r s)" by (simp add: account_by_def orch_start_def)
  with start show ?case by blast
next
  case (step o' o1)
  then show ?case using account_orch_step by blast
qed


section \<open>Properties\<close>

text \<open>The turns in flight that hold the reservation of a capped provider in a project.\<close>

definition reserving :: "'r cfg \<Rightarrow> 'r orch \<Rightarrow> string \<Rightarrow> turn list" where
  "reserving c o' key = filter (\<lambda>t. capped c (tu_reserved t) \<and> spendKey (tu_project t) (tu_reserved t) = key) (inflight o')"

lemma count_turn_keys:
  "count_list (turn_keys c ts) k = length (filter (\<lambda>t. capped c (tu_reserved t) \<and> spendKey (tu_project t) (tu_reserved t) = k) ts)"
  by (induction ts) (auto simp: reserves_def)

lemma distinct_count: "distinct xs \<Longrightarrow> count_list xs k \<le> 1"
  by (induction xs) (auto simp: count_list_0_iff)

text \<open>\<^bold>\<open>C4.\<close> Admission control in every reachable orchestrator, whatever the dispatch passes, refusals, errors,
  finished and panicked turns: the slots taken are exactly the turns in flight and never more than
  \<open>maxParallel\<close>, and a provider with a spend cap has at most one turn in flight per project, with a
  reservation that is there exactly as long as the turn.\<close>

theorem admission_stays_within_limits:
  assumes "orch_reachable c o'" "\<not> capped c []"
  shows "(maxParallel c > 0 \<longrightarrow> slots o' = int (length (inflight o')) \<and> int (length (inflight o')) \<le> maxParallel c) \<and>
    cap_in_flight o' key = int (length (reserving c o' key)) \<and> length (reserving c o' key) \<le> 1"
proof -
  obtain s0 where a: "account c s0 0 [] o'" using account_start assms by blast
  have "cap_in_flight o' key = int (length (reserving c o' key))"
    using a by (simp add: account_by_def reserving_def count_turn_keys)
  moreover have "length (reserving c o' key) \<le> 1"
    using a distinct_count by (force simp add: account_by_def reserving_def simp flip: count_turn_keys)
  ultimately show ?thesis using a by (auto simp: account_by_def)
qed


lemma demo_uncapped: "\<not> capped demo_cfg []"
  by (simp add: capped_def demo_cfg_def)

lemma demo_idle_reachable: "orch_reachable demo_cfg demo_idle"
  using orch_reachable.start [OF demo_planned_reachable, of demo_cfg "()"] by (simp add: orch_start_def demo_idle_def)

lemma demo_dispatch: "orch_step demo_cfg demo_idle demo_dispatched"
  unfolding demo_dispatched_def by (rule dispatch)

lemma demo_dispatched_reachable: "orch_reachable demo_cfg demo_dispatched"
  by (rule orch_reachable.step [OF demo_idle_reachable demo_dispatch])

theorem admission_stays_within_limits_witness:
  "slots demo_dispatched = 1 \<and> length (reserving demo_cfg demo_dispatched (spendKey ''j'' ''codex'')) = 1 \<and>
   length (inflight demo_dispatched) = 1"
proof -
  have "map tu_reserved (inflight demo_dispatched) = [''codex''] \<and> map tu_project (inflight demo_dispatched) = [''j'']"
    by code_simp
  then have l: "length (inflight demo_dispatched) = 1" by (cases "inflight demo_dispatched") auto
  have "cap_in_flight demo_dispatched (spendKey ''j'' ''codex'') = 1" by code_simp
  moreover have "maxParallel demo_cfg > 0" by (simp add: demo_cfg_def)
  ultimately show ?thesis
    using admission_stays_within_limits [OF demo_dispatched_reachable demo_uncapped, of "spendKey ''j'' ''codex''"] l by simp
qed


end
