(* ===== verification/Orch_Verify_Laws.thy ===== *)
theory Orch_Verify_Laws
  imports Orch_Verify Orch_Demo Store_Report_Laws
begin


section \<open>Rows\<close>

lemma Emit_tasks [simp]: "tasks (snd (Emit eo s)) = tasks s"
  by (simp add: Emit_def insert_event_def Let_def)

lemma on_store_tasks:
  assumes "tasks (snd (m (db o'))) = tasks (db o')"
  shows "tasks (db (snd (on_store m o'))) = tasks (db o')"
  using assms by (auto simp: on_store_def split: prod.split sum.split)

lemma event_tasks [simp]:
  "tasks (db (snd (act_bind (on_store (orch_event p i k pay)) (\<lambda>_. act_return x) o'))) = tasks (db o')"
  using on_store_tasks [of "orch_event p i k pay" o']
  by (auto simp: orch_event_def act_bind_def act_return_def split: prod.split sum.split)







lemma verdict_session_of: "se \<noteq> [] \<Longrightarrow> verdict_session c se task = act_return se"
  by (simp add: verdict_session_def)



text \<open>A stale report changes nothing: when the reporting session no longer holds the running claim
  after the acceptance check, verification does not report a completion and leaves the database as
  the check found or left it.\<close>

theorem stale_verification_changes_nothing:
  assumes "sessionID \<noteq> []" and "\<not> owns_running planID taskID sessionID (during (db o'))"
  shows "db (snd (VerifyAndCompleteAs c during planID taskID sessionID ev o')) \<in> {db o', during (db o')} \<and>
    fst (VerifyAndCompleteAs c during planID taskID sessionID ev o') \<noteq> Inr True"
  using done_report.stale [OF assms(2)] failed_report.stale [OF assms(2)]
  by (auto simp: VerifyAndCompleteAs_def Let_def record_verdict_def verdict_session_of [OF assms(1)] act_bind_def act_return_def
      complete_task_def reject_task_def split: prod.split sum.split check_outcome.split option.split)


theorem stale_verification_changes_nothing_witness:
  "db (snd (VerifyAndCompleteAs demo_cfg (\<lambda>s. s) ''p'' ''a'' ''z'' demo_evidence demo_reporting)) = demo_running"
proof -
  have "\<not> owns_running ''p'' ''a'' ''z'' (db demo_reporting)" by code_simp
  then show ?thesis
    using stale_verification_changes_nothing
      [of "''z''" "''p''" "''a''" "\<lambda>s. s" demo_reporting demo_cfg demo_evidence]
    by (simp add: demo_reporting_def)
qed

end
