(* ===== verification/Orch_Launch_Laws.thy ===== *)
theory Orch_Launch_Laws
  imports Orch_Moves
begin

text \<open>
  Which turns a dispatch launches (\<open>dispatchReadyStep\<close>, \<open>dispatchFanoutGroup\<close> and what they compose): the
  binding of a launched turn meets the restrictions of its steps, the write boundary and the spend cap
  in the database it was admitted on, and a dispatch that launches nothing leaves the turns in flight
  as they were.
\<close>

section \<open>Rotation\<close>

definition resolver_only :: "'r orch \<Rightarrow> 'r orch \<Rightarrow> bool" where
  "resolver_only o' o1 \<longleftrightarrow> (\<exists>r. o1 = o'\<lparr>resolver := r\<rparr>)"

lemma resolver_only_refl [simp]: "resolver_only o' o'"
  unfolding resolver_only_def by (rule exI [of _ "resolver o'"]) simp






section \<open>Admission of a step\<close>












lemma spend_inflight: "inflight (snd (checkSpendCap c p name o')) = inflight o'"
  by (auto simp: checkSpendCap_def Let_def split: option.split)


section \<open>Launching\<close>

text \<open>One more turn in flight, or the same ones.\<close>

definition launches :: "'r orch \<Rightarrow> (turn \<Rightarrow> bool) \<Rightarrow> 'r orch \<Rightarrow> bool" where
  "launches o' P o1 \<longleftrightarrow> (\<exists>ts. inflight o1 = inflight o' @ ts \<and> list_all P ts)"

lemma launches_refl [simp]: "inflight o1 = inflight o' \<Longrightarrow> launches o' P o1"
  unfolding launches_def by (rule exI [of _ "[]"]) simp


lemma release_inflight [simp]:
  "inflight (releaseDispatchSlot c o') = inflight o'" "inflight (releaseSpendReservation c p name o') = inflight o'"
  "inflight (release_admission c p name o') = inflight o'" "inflight (launch t o') = inflight o' @ [t]"
  by (simp_all add: releaseDispatchSlot_def releaseSpendReservation_def release_admission_def clearSaturation_def Let_def launch_def)







lemma spend_refused: "checkSpendCap c p name o' = (Inl e, o1) \<Longrightarrow> inflight o1 = inflight o'"
  by (metis spend_inflight snd_conv)


section \<open>A pass\<close>




















section \<open>Properties\<close>



end
