(* ===== verification/Config_Layers.thy ===== *)
theory Config_Layers
  imports Store_Registry Go_Json "HOL-Library.AList"
begin

text \<open>
  The virtual configuration layers of \<open>internal/vconfig\<close>: \<open>source.go\<close>, \<open>vconfig.go\<close>, \<open>effective.go\<close>,
  \<open>diff.go\<close>, \<open>validate.go\<close> and \<open>containment.go\<close>.  A Go map is an association list with distinct keys
  whose order is the order of one iteration.  The TOML reader and merger (\<open>viper\<close>) is a parameter:
  from the defaults and the files, lowest precedence first, it gives all settings, or the file it
  could not merge.  A float is kept as its literal, and the prefixes of wrapped errors are left out.
\<close>

section \<open>Values\<close>

text \<open>What an \<open>any\<close> of a configuration map can hold: \<open>encoding/json\<close> gives strings, booleans, floats, slices
  of \<open>any\<close> and tables; the TOML reader also integers; a normalized selection is a slice of strings.\<close>

datatype any =
    NilValue
  | BoolValue bool
  | StringValue string
  | IntValue int
  | FloatValue string
  | StringsValue "string list"
  | SliceValue "any list"
  | TableValue "(string \<times> any) list"

type_synonym layer = "(string \<times> any) list"

text \<open>\<open>mergeMapInto\<close>: every key of \<open>src\<close> is copied into \<open>dst\<close>.\<close>

definition mergeMapInto :: "('k \<times> 'v) list \<Rightarrow> ('k \<times> 'v) list \<Rightarrow> ('k \<times> 'v) list" where
  "mergeMapInto dst src = fold (\<lambda>kv m. AList.update (fst kv) (snd kv) m) src dst"

text \<open>The value \<open>json.Unmarshal\<close> stores in an \<open>any\<close>; the last member of a name wins.\<close>

fun any_of_json :: "json_value \<Rightarrow> any" where
  "any_of_json JsonNull = NilValue"
| "any_of_json (JsonBool b) = BoolValue b"
| "any_of_json (JsonString t) = StringValue t"
| "any_of_json (JsonInt i) = FloatValue (Itoa i)"
| "any_of_json (JsonNumber l) = FloatValue l"
| "any_of_json (JsonArray vs) = SliceValue (map any_of_json vs)"
| "any_of_json (JsonObject kvs) = TableValue (mergeMapInto [] (map (\<lambda>kv. (fst kv, any_of_json (snd kv))) kvs))"

text \<open>What \<open>json.Marshal\<close> writes for an \<open>any\<close>, the keys of a table in order; it refuses the floats that
  JSON has no literal for.\<close>

fun json_of_any :: "any \<Rightarrow> json_value" where
  "json_of_any NilValue = JsonNull"
| "json_of_any (BoolValue b) = JsonBool b"
| "json_of_any (StringValue t) = JsonString t"
| "json_of_any (IntValue i) = JsonInt i"
| "json_of_any (FloatValue l) = JsonNumber l"
| "json_of_any (StringsValue ts) = JsonArray (map JsonString ts)"
| "json_of_any (SliceValue vs) = JsonArray (map json_of_any vs)"
| "json_of_any (TableValue kvs) = JsonObject (sort_key fst (map (\<lambda>kv. (fst kv, json_of_any (snd kv))) kvs))"

fun marshals :: "any \<Rightarrow> bool" where
  "marshals (FloatValue l) = (l \<notin> {''NaN'', ''+Inf'', ''-Inf''})"
| "marshals (SliceValue vs) = list_all marshals vs"
| "marshals (TableValue kvs) = list_all (\<lambda>kv. marshals (snd kv)) kvs"
| "marshals v = True"

text \<open>\<open>reflect.DeepEqual\<close> on values: the dynamic types must agree, and NaN is not equal to itself.\<close>

fun DeepEqual :: "any \<Rightarrow> any \<Rightarrow> bool" where
  "DeepEqual NilValue w = (case w of NilValue \<Rightarrow> True | _ \<Rightarrow> False)"
| "DeepEqual (BoolValue b) w = (case w of BoolValue b' \<Rightarrow> b = b' | _ \<Rightarrow> False)"
| "DeepEqual (StringValue t) w = (case w of StringValue t' \<Rightarrow> t = t' | _ \<Rightarrow> False)"
| "DeepEqual (IntValue i) w = (case w of IntValue i' \<Rightarrow> i = i' | _ \<Rightarrow> False)"
| "DeepEqual (FloatValue l) w = (case w of FloatValue l' \<Rightarrow> l = l' \<and> l \<noteq> ''NaN'' | _ \<Rightarrow> False)"
| "DeepEqual (StringsValue ts) w = (case w of StringsValue ts' \<Rightarrow> ts = ts' | _ \<Rightarrow> False)"
| "DeepEqual (SliceValue vs) w = (case w of SliceValue ws \<Rightarrow> list_all2 DeepEqual vs ws | _ \<Rightarrow> False)"
| "DeepEqual (TableValue kvs) w = (case w of
     TableValue ls \<Rightarrow> length kvs = length ls \<and>
       list_all (\<lambda>kv. case map_of ls (fst kv) of None \<Rightarrow> False | Some w' \<Rightarrow> DeepEqual (snd kv) w') kvs
   | _ \<Rightarrow> False)"

section \<open>Sources\<close>

datatype config_error =
    ConfigStoreError store_error
  | ErrDecodeStored string
  | ErrEncodeValue string
  | ErrNoConfigSource
  | ErrMergeFile string
  | ErrLoadFile string

text \<open>\<open>ConfigSource\<close>: where configuration is read and written, by the supervisor in its database, by a
  client through the supervisor.  \<open>None\<close> is a nil source.\<close>

record 's ConfigSource =
  UserScopeProject :: "'s \<Rightarrow> (config_error + ident) \<times> 's"
  ProjectConfigValues :: "ident \<Rightarrow> 's \<Rightarrow> config_error + (string \<times> string) list"
  ApplyProjectConfigValues :: "ident \<Rightarrow> (string \<times> string) list \<Rightarrow> string list \<Rightarrow> 's \<Rightarrow> (config_error + unit) \<times> 's"

definition config_result :: "(store_error + 'a) \<times> 's \<Rightarrow> (config_error + 'a) \<times> 's" where
  "config_result r = (case r of (Inl e, s) \<Rightarrow> (Inl (ConfigStoreError e), s) | (Inr x, s) \<Rightarrow> (Inr x, s))"

definition userScopeProjectDisplayName :: string where
  "userScopeProjectDisplayName = ''__vconfig_user_scope__''"

definition userScopeFingerprint :: Fingerprint where
  "userScopeFingerprint = \<lparr>fp_Kind = ''abs_path'', fp_Value = ''vconfig://user-scope''\<rparr>"

definition UserScopeProjectID :: "ident \<Rightarrow> store \<Rightarrow> (config_error + ident) \<times> store" where
  "UserScopeProjectID uuid s =
    (case ResolveProject [userScopeFingerprint] s of
       (projectID, True) \<Rightarrow> (Inr projectID, s)
     | (_, False) \<Rightarrow> config_result (CreateProject uuid userScopeProjectDisplayName [userScopeFingerprint] s))"

text \<open>The rows of \<open>GetProjectConfig\<close>, one for each key.\<close>

definition config_values :: "ident \<Rightarrow> store \<Rightarrow> (string \<times> string) list" where
  "config_values projectID s =
    mergeMapInto [] (map (\<lambda>r. (cf_key r, cf_value r)) (filter (\<lambda>r. cf_project r = projectID) (config s)))"

definition StoreConfigSource :: "ident \<Rightarrow> store ConfigSource" where
  "StoreConfigSource uuid =
    \<lparr>UserScopeProject = UserScopeProjectID uuid,
     ProjectConfigValues = (\<lambda>projectID s. Inr (config_values projectID s)),
     ApplyProjectConfigValues = (\<lambda>projectID upserts deleteKeys s. config_result (ApplyProjectConfig projectID upserts deleteKeys s))\<rparr>"

definition decodeConfigValue :: "string \<Rightarrow> string \<Rightarrow> config_error + any" where
  "decodeConfigValue key encoded =
    (case json_parse encoded of None \<Rightarrow> Inl (ErrDecodeStored key) | Some v \<Rightarrow> Inr (any_of_json v))"

fun decodeConfigValues :: "(string \<times> string) list \<Rightarrow> config_error + layer" where
  "decodeConfigValues [] = Inr []"
| "decodeConfigValues (kv # raw) =
    (case decodeConfigValue (fst kv) (snd kv) of
       Inl e \<Rightarrow> Inl e
     | Inr v \<Rightarrow> (case decodeConfigValues raw of Inl e \<Rightarrow> Inl e | Inr out \<Rightarrow> Inr ((fst kv, v) # out)))"

definition loadSourceConfig :: "'s ConfigSource option \<Rightarrow> ident \<Rightarrow> 's \<Rightarrow> config_error + layer" where
  "loadSourceConfig src projectID s =
    (case src of
       None \<Rightarrow> Inr []
     | Some source \<Rightarrow> (case ProjectConfigValues source projectID s of Inl e \<Rightarrow> Inl e | Inr raw \<Rightarrow> decodeConfigValues raw))"

section \<open>The user layer and the project layer\<close>

record UserConfig =
  uc_Values :: layer
  uc_Projects :: "(string \<times> layer) list"

record ProjectConfig =
  pc_Values :: layer

type_synonym viper = "layer \<Rightarrow> string list \<Rightarrow> string + layer"

definition projectsStanzaKey :: string where
  "projectsStanzaKey = ''projects''"

definition extractProjectsStanza :: "layer \<Rightarrow> (string \<times> layer) list" where
  "extractProjectsStanza settings =
    (case map_of settings projectsStanzaKey of
       Some (TableValue raw) \<Rightarrow>
         List.map_filter (\<lambda>kv. case snd kv of TableValue sub \<Rightarrow> Some (fst kv, sub) | _ \<Rightarrow> None) raw
     | _ \<Rightarrow> [])"

definition ResolveUserFrom ::
  "viper \<Rightarrow> 's ConfigSource option \<Rightarrow> string \<Rightarrow> string \<Rightarrow> 's \<Rightarrow> (config_error + UserConfig) \<times> 's" where
  "ResolveUserFrom viper src configFile userConfigFile s =
    (let loaded =
       (case src of
          None \<Rightarrow> (Inr [], s)
        | Some source \<Rightarrow>
            (case UserScopeProject source s of
               (Inl e, s1) \<Rightarrow> (Inl e, s1)
             | (Inr userProjectID, s1) \<Rightarrow> (loadSourceConfig src userProjectID s1, s1))) in
     case loaded of
       (Inl e, s1) \<Rightarrow> (Inl e, s1)
     | (Inr dbValues, s1) \<Rightarrow>
         (case viper dbValues (filter (\<lambda>f. f \<noteq> []) [configFile, userConfigFile]) of
            Inl f \<Rightarrow> (Inl (ErrMergeFile f), s1)
          | Inr settings \<Rightarrow>
              (Inr \<lparr>uc_Values = AList.delete projectsStanzaKey settings, uc_Projects = extractProjectsStanza settings\<rparr>, s1)))"

definition ResolveProjectsFrom :: "'s ConfigSource option \<Rightarrow> UserConfig \<Rightarrow> ident \<Rightarrow> 's \<Rightarrow> config_error + ProjectConfig" where
  "ResolveProjectsFrom src userCfg projectID s =
    (case loadSourceConfig src projectID s of
       Inl e \<Rightarrow> Inl e
     | Inr base \<Rightarrow>
         Inr \<lparr>pc_Values = (case map_of (uc_Projects userCfg) projectID of
           Some overlay \<Rightarrow> mergeMapInto base overlay | None \<Rightarrow> base)\<rparr>)"

text \<open>\<open>ResolveUser\<close> and \<open>ResolveProjects\<close> work on the database.\<close>

definition ResolveUser ::
  "viper \<Rightarrow> ident \<Rightarrow> string \<Rightarrow> string \<Rightarrow> store \<Rightarrow> (config_error + UserConfig) \<times> store" where
  "ResolveUser viper uuid = ResolveUserFrom viper (Some (StoreConfigSource uuid))"

definition ResolveProjects :: "UserConfig \<Rightarrow> ident \<Rightarrow> store \<Rightarrow> config_error + ProjectConfig" where
  "ResolveProjects = ResolveProjectsFrom (Some (StoreConfigSource []))"

section \<open>The effective configuration\<close>

datatype Mode = ModeChange | ModeOverride

fun encode_values :: "layer \<Rightarrow> config_error + (string \<times> string) list" where
  "encode_values [] = Inr []"
| "encode_values (kv # kvs) =
    (if \<not> marshals (snd kv) then Inl (ErrEncodeValue (fst kv))
     else case encode_values kvs of
            Inl e \<Rightarrow> Inl e
          | Inr out \<Rightarrow> Inr ((fst kv, json_encode (json_of_any (snd kv))) # out))"

definition EffectiveProjectFromValuesFrom ::
  "'s ConfigSource option \<Rightarrow> ProjectConfig \<Rightarrow> ident \<Rightarrow> layer \<Rightarrow> Mode \<Rightarrow> 's \<Rightarrow> (config_error + ProjectConfig) \<times> 's" where
  "EffectiveProjectFromValuesFrom src projectsCfg projectID overlay mode s =
    (let merged = \<lparr>pc_Values = mergeMapInto (pc_Values projectsCfg) overlay\<rparr> in
     case mode of
       ModeOverride \<Rightarrow> (Inr merged, s)
     | ModeChange \<Rightarrow>
         (case src of
            None \<Rightarrow> (Inl ErrNoConfigSource, s)
          | Some source \<Rightarrow>
              (case encode_values overlay of
                 Inl e \<Rightarrow> (Inl e, s)
               | Inr upserts \<Rightarrow>
                   if upserts = [] then (Inr merged, s)
                   else case ApplyProjectConfigValues source projectID upserts [] s of
                          (Inl e, s1) \<Rightarrow> (Inl e, s1)
                        | (Inr _, s1) \<Rightarrow> (Inr merged, s1))))"

definition LoadFileValues :: "viper \<Rightarrow> string \<Rightarrow> config_error + layer" where
  "LoadFileValues viper path = (case viper [] [path] of Inl _ \<Rightarrow> Inl (ErrLoadFile path) | Inr settings \<Rightarrow> Inr settings)"

definition EffectiveProjectFrom ::
  "viper \<Rightarrow> 's ConfigSource option \<Rightarrow> ProjectConfig \<Rightarrow> ident \<Rightarrow> string \<Rightarrow> Mode \<Rightarrow> 's \<Rightarrow> (config_error + ProjectConfig) \<times> 's" where
  "EffectiveProjectFrom viper src projectsCfg projectID projectConfigFile mode s =
    (if projectConfigFile = [] then (Inr projectsCfg, s)
     else case LoadFileValues viper projectConfigFile of
            Inl e \<Rightarrow> (Inl e, s)
          | Inr overlay \<Rightarrow> EffectiveProjectFromValuesFrom src projectsCfg projectID overlay mode s)"

section \<open>Conflicts\<close>

record Conflict =
  co_Key :: string
  co_Stored :: any
  co_Incoming :: any

definition DiffConflicts :: "ProjectConfig \<Rightarrow> layer \<Rightarrow> Conflict list" where
  "DiffConflicts stored incoming =
    List.map_filter (\<lambda>kv. case map_of (pc_Values stored) (fst kv) of
        None \<Rightarrow> None
      | Some storedVal \<Rightarrow>
          if DeepEqual storedVal (snd kv) then None
          else Some \<lparr>co_Key = fst kv, co_Stored = storedVal, co_Incoming = snd kv\<rparr>) incoming"

definition AutoRemove :: "layer \<Rightarrow> Conflict list \<Rightarrow> layer" where
  "AutoRemove incoming conflicts = fold (\<lambda>c out. AList.delete (co_Key c) out) conflicts incoming"

section \<open>Validation\<close>

record MissingField =
  mf_Key :: string
  mf_Reason :: string

definition isEmptyValue :: "any \<Rightarrow> bool" where
  "isEmptyValue v = (case v of NilValue \<Rightarrow> True | StringValue t \<Rightarrow> t = [] | SliceValue vs \<Rightarrow> length vs = 0
     | TableValue kvs \<Rightarrow> length kvs = 0 | _ \<Rightarrow> False)"

definition Validate :: "ProjectConfig \<Rightarrow> string list \<Rightarrow> MissingField list" where
  "Validate cfg required =
    List.map_filter (\<lambda>key. case map_of (pc_Values cfg) key of
        Some v \<Rightarrow> if isEmptyValue v then Some \<lparr>mf_Key = key, mf_Reason = ''required config key not set''\<rparr> else None
      | None \<Rightarrow> Some \<lparr>mf_Key = key, mf_Reason = ''required config key not set''\<rparr>) required"

definition FormatMissing :: "MissingField list \<Rightarrow> string" where
  "FormatMissing missing =
    (if missing = [] then []
     else (let nl = CHR 0x0A;
               b = ''missing required config:'' @ [nl] @ concat (map (\<lambda>m. ''  - '' @ mf_Key m @ '' ('' @ mf_Reason m @
                 ''); define it via --config-file, --user-config-file, or the init wizard'' @ [nl]) missing) in
           rev (dropWhile (\<lambda>c. c = nl) (rev b))))"

section \<open>Containment\<close>

definition ParseBool :: "string \<Rightarrow> bool option" where
  "ParseBool t =
    (if t \<in> {''1'', ''t'', ''T'', ''true'', ''TRUE'', ''True''} then Some True
     else if t \<in> {''0'', ''f'', ''F'', ''false'', ''FALSE'', ''False''} then Some False
     else None)"

definition ContainProviderWritesKey :: string where
  "ContainProviderWritesKey = ''contain_provider_writes''"

definition ContainProviderWrites :: "ProjectConfig \<Rightarrow> bool" where
  "ContainProviderWrites cfg =
    (case map_of (pc_Values cfg) ContainProviderWritesKey of
       Some (BoolValue b) \<Rightarrow> b
     | Some (StringValue t) \<Rightarrow> (case ParseBool t of None \<Rightarrow> True | Some b \<Rightarrow> b)
     | _ \<Rightarrow> True)"

end
