(* ===== verification/Config_Layers_Laws.thy ===== *)
theory Config_Layers_Laws
  imports Config_Layers Store_Registry_Laws Go_Json_Valid
begin

text \<open>
  The promises of the configuration layers.  \<open>config_source\<close> is what \<open>vconfig\<close> relies on in a source of
  configuration, with the lemmas of its clients; the database is one.  A change that was persisted is
  read back, in the form JSON gives it; an override writes nothing.
\<close>

section \<open>Association lists\<close>

lemma merge_lookup [simp]: "map_of (mergeMapInto dst src) = map_of dst ++ map_of (rev src)"
proof (induction src arbitrary: dst)
  case (Cons kv src)
  have "mergeMapInto dst (kv # src) = mergeMapInto (AList.update (fst kv) (snd kv) dst) src"
    by (simp add: mergeMapInto_def)
  then show ?case using Cons.IH by (cases kv) (simp add: update_conv' map_add_def fun_eq_iff split: option.split)
qed (simp add: mergeMapInto_def)

lemma map_of_rev: "distinct (map fst kvs) \<Longrightarrow> map_of (rev kvs) = map_of kvs"
  by (rule map_of_eqI [OF _ ballI]) (auto simp: map_of_eq_Some_iff distinct_map)

lemma merge_distinct: "distinct (map fst dst) \<Longrightarrow> distinct (map fst (mergeMapInto dst src))"
  unfolding mergeMapInto_def by (induction src arbitrary: dst) (auto simp: distinct_update)

lemma map_of_map_snd: "map_of (map (\<lambda>kv. (fst kv, f (snd kv))) kvs) k = map_option f (map_of kvs k)"
  by (induction kvs) auto

lemma map_of_sort_key: "distinct (map fst kvs) \<Longrightarrow> map_of (sort_key fst kvs) = map_of kvs"
  by (rule map_of_eqI [OF _ ballI]) (auto simp: map_of_eq_Some_iff distinct_map)

lemma decoded_lookup:
  assumes "decodeConfigValues raw = Inr out"
  shows "map_of out k = (case map_of raw k of None \<Rightarrow> None | Some t \<Rightarrow> map_option any_of_json (json_parse t)) \<and>
    map fst out = map fst raw"
  using assms by (induction raw arbitrary: out) (auto simp: decodeConfigValue_def split: sum.splits option.splits)

lemma decoded_readable: "decodeConfigValues raw = Inr out \<Longrightarrow> map_of raw k = Some t \<Longrightarrow> json_parse t \<noteq> None"
  by (induction raw arbitrary: out) (auto simp: decodeConfigValue_def split: sum.splits option.splits if_splits)

lemma decode_total: "(\<And>kv. kv \<in> set raw \<Longrightarrow> json_parse (snd kv) \<noteq> None) \<Longrightarrow> \<exists>out. decodeConfigValues raw = Inr out"
  by (induction raw) (fastforce simp: decodeConfigValue_def)+

lemma encoded_lookup:
  assumes "encode_values kvs = Inr out"
  shows "map_of out k = map_option (\<lambda>v. json_encode (json_of_any v)) (map_of kvs k) \<and> map fst out = map fst kvs"
  using assms by (induction kvs arbitrary: out) (auto split: sum.splits if_splits)

section \<open>Values survive storage\<close>

text \<open>The form a value has once stored: integers are floats, slices of strings are slices, and tables are
  rebuilt.\<close>

definition stored_form :: "any \<Rightarrow> any" where
  "stored_form v = any_of_json (json_of_any v)"

definition storable :: "any \<Rightarrow> bool" where
  "storable v \<longleftrightarrow> marshals v \<and> value_ok (json_of_any v) \<and> nesting (json_of_any v) \<le> json_max_nesting"

lemma stored_value_read: "storable v \<Longrightarrow> json_parse (json_encode (json_of_any v)) = Some (json_of_any v)"
  by (simp add: storable_def parse_encode)

lemma encode_total: "list_all (\<lambda>kv. storable (snd kv)) kvs \<Longrightarrow> \<exists>out. encode_values kvs = Inr out"
  by (induction kvs) (auto simp: storable_def)

lemma stored_form_plain:
  "stored_form (StringValue t) = StringValue t" "stored_form (BoolValue b) = BoolValue b"
  "stored_form (StringsValue ts) = SliceValue (map StringValue ts)"
  by (simp_all add: stored_form_def)

section \<open>Sources of configuration\<close>

text \<open>What \<open>vconfig\<close> relies on: the values of a project have distinct keys and are read without an effect
  (\<open>ProjectConfigValues\<close> does not return a state); the user-scope project is found again and finding it
  leaves the values of every project alone; a change set that was applied is the new configuration of
  its project and of no other, and one that was refused has left the values alone.\<close>

locale config_source =
  fixes source :: "'s ConfigSource"
    and read :: "ident \<Rightarrow> 's \<Rightarrow> string \<rightharpoonup> string"
  assumes values_read: "ProjectConfigValues source p s = Inr raw \<Longrightarrow> distinct (map fst raw) \<and> map_of raw = read p s"
    and values_total: "\<exists>raw. ProjectConfigValues source p s = Inr raw"
    and scope_found_again: "UserScopeProject source s = (Inr u, s') \<Longrightarrow> UserScopeProject source s' = (Inr u, s')"
    and scope_keeps_values: "read p (snd (UserScopeProject source s)) = read p s"
    and applied: "ApplyProjectConfigValues source p ups dels s = (Inr (), s') \<Longrightarrow> distinct (map fst ups) \<Longrightarrow>
      read q s' = (if q = p then (read p s |` (- set dels)) ++ map_of ups else read q s)"
    and refused: "ApplyProjectConfigValues source p ups dels s = (Inl e, s') \<Longrightarrow> s' = s"
begin

lemma load_lookup:
  assumes "loadSourceConfig (Some source) p s = Inr layer"
  shows "map_of layer k = (case read p s k of None \<Rightarrow> None | Some t \<Rightarrow> map_option any_of_json (json_parse t)) \<and>
    distinct (map fst layer)"
proof -
  obtain raw where "ProjectConfigValues source p s = Inr raw" "decodeConfigValues raw = Inr layer"
    using assms by (auto simp: loadSourceConfig_def split: sum.splits)
  then show ?thesis using values_read [of p s raw] decoded_lookup [of raw layer k] by simp
qed

lemma load_total:
  assumes "\<And>k t. read p s k = Some t \<Longrightarrow> json_parse t \<noteq> None"
  shows "\<exists>layer. loadSourceConfig (Some source) p s = Inr layer"
proof -
  obtain raw where raw: "ProjectConfigValues source p s = Inr raw" using values_total by blast
  have "json_parse (snd kv) \<noteq> None" if "kv \<in> set raw" for kv
    using that assms [of "fst kv" "snd kv"] values_read [OF raw] by (metis map_of_is_SomeI prod.collapse)
  then show ?thesis using decode_total raw by (auto simp: loadSourceConfig_def)
qed

lemma load_readable:
  assumes "loadSourceConfig (Some source) p s = Inr layer" "read p s k = Some t"
  shows "json_parse t \<noteq> None"
proof -
  obtain raw where raw: "ProjectConfigValues source p s = Inr raw" "decodeConfigValues raw = Inr layer"
    using assms(1) by (auto simp: loadSourceConfig_def split: sum.splits)
  show ?thesis using decoded_readable [OF raw(2)] values_read [OF raw(1)] assms(2) by auto
qed

text \<open>A change is persisted in one batch and read back; the override of the same values writes nothing and
  answers with the same configuration.\<close>

lemma change_reads_back:
  assumes run: "EffectiveProjectFromValuesFrom (Some source) cfg p overlay ModeChange s = (Inr eff, s')"
    and layer: "loadSourceConfig (Some source) p s = Inr layer"
    and overlay: "distinct (map fst overlay)" "list_all (\<lambda>kv. storable (snd kv)) overlay"
  shows "\<exists>layer'. loadSourceConfig (Some source) p s' = Inr layer' \<and>
    map_of layer' = map_of layer ++ map_of (map (\<lambda>kv. (fst kv, stored_form (snd kv))) overlay) \<and>
    (\<forall>q. q \<noteq> p \<longrightarrow> read q s' = read q s)"
proof -
  obtain ups where ups: "encode_values overlay = Inr ups" using encode_total [OF overlay(2)] by blast
  note e = encoded_lookup [OF ups]
  have d: "distinct (map fst ups)" using e overlay(1) by simp
  have r: "read q s' = (if q = p then read p s ++ map_of ups else read q s)" for q
  proof (cases "ups = []")
    case True
    then show ?thesis using run ups by (auto simp: EffectiveProjectFromValuesFrom_def)
  next
    case False
    obtain x s1 where x: "ApplyProjectConfigValues source p ups [] s = (x, s1)" by fastforce
    then have "ApplyProjectConfigValues source p ups [] s = (Inr (), s')"
      using run ups False by (cases x) (simp_all add: EffectiveProjectFromValuesFrom_def Let_def)
    from applied [OF this d] show ?thesis by (simp add: restrict_map_def)
  qed
  have parsed: "map_option any_of_json (json_parse t) = Some (stored_form v)"
    if "map_of overlay k = Some v" "t = json_encode (json_of_any v)" for k v t
  proof -
    have "storable v" using overlay(2) map_of_SomeD [OF that(1)] by (auto simp: list_all_iff)
    then show ?thesis using that(2) by (simp add: stored_value_read stored_form_def)
  qed
  have lookup: "read p s' k = (case map_of overlay k of Some v \<Rightarrow> Some (json_encode (json_of_any v)) | None \<Rightarrow> read p s k)" for k
    using e [of k] r [of p] by (simp add: map_add_def split: option.split)
  have "json_parse t \<noteq> None" if "read p s' k = Some t" for k t
  proof (cases "map_of overlay k")
    case None
    then show ?thesis using that lookup [of k] load_readable [OF layer, of k t] by simp
  next
    case (Some v)
    then show ?thesis using that lookup [of k] parsed [of k v t] by auto
  qed
  then obtain layer' where layer': "loadSourceConfig (Some source) p s' = Inr layer'" using load_total by blast
  have "map_of layer' k = (map_of layer ++ map_of (map (\<lambda>kv. (fst kv, stored_form (snd kv))) overlay)) k" for k
  proof (cases "map_of overlay k")
    case None
    then show ?thesis using load_lookup [OF layer', of k] load_lookup [OF layer, of k] lookup [of k]
      by (simp add: map_add_def map_of_map_snd)
  next
    case (Some v)
    then show ?thesis using load_lookup [OF layer', of k] lookup [of k] parsed [of k v]
      by (simp add: map_add_def map_of_map_snd)
  qed
  then show ?thesis using layer' r by (auto intro!: ext)
qed

lemma change_refused:
  assumes "EffectiveProjectFromValuesFrom (Some source) cfg p overlay ModeChange s = (Inl e, s')"
  shows "s' = s"
proof (cases "encode_values overlay")
  case (Inr ups)
  obtain r s1 where r: "ApplyProjectConfigValues source p ups [] s = (r, s1)" by fastforce
  show ?thesis
  proof (cases r)
    case (Inl e')
    then have "s1 = s" using refused r by blast
    then show ?thesis using assms Inr Inl r by (simp add: EffectiveProjectFromValuesFrom_def Let_def split: if_splits)
  next
    case r': (Inr x)
    then show ?thesis using assms Inr r by (simp add: EffectiveProjectFromValuesFrom_def Let_def split: if_splits)
  qed
qed (use assms in \<open>simp add: EffectiveProjectFromValuesFrom_def\<close>)

lemma scope_settles:
  "ResolveUserFrom viper (Some source) c u s = (r, s') \<Longrightarrow> read p s' = read p s"
  using scope_keeps_values [of p s]
  by (auto simp: ResolveUserFrom_def loadSourceConfig_def Let_def split: prod.splits sum.splits)

text \<open>Once the user-scope project is there, resolving the user layer has no effect and the same answer.\<close>

lemma resolve_user_again:
  assumes "UserScopeProject source s = (Inr u, s')"
  shows "ResolveUserFrom viper (Some source) c f s' = ResolveUserFrom viper (Some source) c f s \<and>
    snd (ResolveUserFrom viper (Some source) c f s') = s'"
  using assms scope_found_again [OF assms] by (simp add: ResolveUserFrom_def Let_def split: sum.splits)

end

section \<open>The database as a source\<close>

lemma config_values_lookup: "distinct (map fst (config_values p s)) \<and> map_of (config_values p s) = GetProjectConfig p s"
proof -
  have fold: "fold (\<lambda>r out. out(cf_key r \<mapsto> cf_value r)) rows m = m ++ map_of (rev (map (\<lambda>r. (cf_key r, cf_value r)) rows))" for rows m
    by (induction rows arbitrary: m) (auto simp: map_add_def fun_eq_iff split: option.split)
  show ?thesis by (simp add: config_values_def merge_distinct GetProjectConfig_def fold)
qed

lemma user_scope_named: "\<not> blank_fp userScopeFingerprint"
  by (simp add: blank_fp_def userScopeFingerprint_def)

lemma user_scope_cases:
  assumes "UserScopeProjectID uuid s = (r, s')"
  shows "(s' = s \<and> (\<exists>u. r = Inr u \<and> ResolveProject [userScopeFingerprint] s = (u, True))) \<or>
    (owner_of userScopeFingerprint s = None \<and>
      (r, s') = config_result (CreateProject uuid userScopeProjectDisplayName [userScopeFingerprint] s))"
  using assms user_scope_named by (auto simp: UserScopeProjectID_def resolve_owner split: prod.splits bool.splits option.splits if_splits)

lemma CreateProject_Inr:
  assumes "CreateProject uuid name fps s = (Inr u, s')"
  shows "u = uuid \<and> config s' = config s \<and> (\<forall>fp. owner_of fp s' =
    (if fp \<in> set fps \<and> \<not> blank_fp fp \<and> owner_of fp s = None then Some uuid else owner_of fp s))"
proof -
  obtain s1 where ins: "insertIdentifiers uuid fps (now_of s) (s\<lparr>projects := projects s @
      [\<lparr>pr_id = uuid, pr_display_name = nullIfEmpty name, pr_created = now_of s, pr_updated = now_of s,
        pr_last_seen = Some (now_of s)\<rparr>]\<rparr>) = (Inr (), s1)" "s' = s1" "u = uuid"
    using assms by (auto simp: CreateProject_def op_return_def op_bind_def elim!: in_tx_cases split: if_splits prod.splits sum.splits)
  have one: "config (snd (upsert_identifier p n f t)) = config t" for p n f t
    by (simp add: upsert_identifier_def)
  have cfg: "op_each (upsert_identifier p n) fs t = (x, t') \<Longrightarrow> config t' = config t" for p n fs t x t'
  proof (induction fs arbitrary: t)
    case (Cons f fs)
    then show ?case using one [of p n f t] by (auto simp: op_bind_def split: prod.splits sum.splits)
  qed (simp add: op_return_def)
  have "config s' = config s" using cfg ins by (fastforce simp: insertIdentifiers_def)
  moreover have "owner_of fp s' =
    (if fp \<in> set fps \<and> \<not> blank_fp fp \<and> owner_of fp s = None then Some uuid else owner_of fp s)" for fp
    using insertIdentifiers_owner [OF ins(1), of fp] ins(2) by (simp add: owner_of_def)
  ultimately show ?thesis using ins(3) by simp
qed

lemma user_scope_outcome:
  assumes "UserScopeProjectID uuid s = (r, s')"
  shows "GetProjectConfig p s' = GetProjectConfig p s \<and> (r = Inr u \<longrightarrow> owner_of userScopeFingerprint s' = Some u)"
proof -
  consider "s' = s" "\<exists>u. r = Inr u \<and> ResolveProject [userScopeFingerprint] s = (u, True)"
    | "owner_of userScopeFingerprint s = None"
      "(r, s') = config_result (CreateProject uuid userScopeProjectDisplayName [userScopeFingerprint] s)"
    using user_scope_cases [OF assms] by metis
  then show ?thesis
  proof cases
    case 1
    then show ?thesis
      using user_scope_named by (auto simp: resolve_Cons simp del: ResolveProject.simps(2) split: option.splits)
  next
    case 2
    obtain x where x: "CreateProject uuid userScopeProjectDisplayName [userScopeFingerprint] s = (x, s')"
      "r = Inr u \<longrightarrow> x = Inr u" using 2(2) by (auto simp: config_result_def split: prod.splits sum.splits)
    show ?thesis
    proof (cases x)
      case (Inl e)
      then have "s' = s" using x(1) by (auto simp: CreateProject_def dest: in_tx_Inl)
      then show ?thesis using x(2) Inl by simp
    next
      case (Inr v)
      then show ?thesis using CreateProject_Inr [of uuid userScopeProjectDisplayName "[userScopeFingerprint]" s v s'] x 2(1) user_scope_named
        by (auto simp: GetProjectConfig_def)
    qed
  qed
qed

lemma user_scope_stays: "UserScopeProjectID uuid s = (Inr u, s') \<Longrightarrow> UserScopeProjectID uuid' s' = (Inr u, s')"
  using user_scope_outcome [of uuid s "Inr u" s' _ u] user_scope_named
  by (simp add: UserScopeProjectID_def resolve_Cons del: ResolveProject.simps(2))

interpretation database: config_source "StoreConfigSource uuid" GetProjectConfig
proof unfold_locales
  fix p s raw assume "ProjectConfigValues (StoreConfigSource uuid) p s = Inr raw"
  then show "distinct (map fst raw) \<and> map_of raw = GetProjectConfig p s"
    using config_values_lookup by (auto simp: StoreConfigSource_def)
next
  fix p s show "\<exists>raw. ProjectConfigValues (StoreConfigSource uuid) p s = Inr raw" by (simp add: StoreConfigSource_def)
next
  fix s u s' assume "UserScopeProject (StoreConfigSource uuid) s = (Inr u, s')"
  then show "UserScopeProject (StoreConfigSource uuid) s' = (Inr u, s')" using user_scope_stays by (simp add: StoreConfigSource_def)
next
  fix p s show "GetProjectConfig p (snd (UserScopeProject (StoreConfigSource uuid) s)) = GetProjectConfig p s"
    using user_scope_outcome [of uuid s] by (cases "UserScopeProjectID uuid s") (simp add: StoreConfigSource_def)
next
  fix p :: ident and ups dels s s' q
  assume run: "ApplyProjectConfigValues (StoreConfigSource uuid) p ups dels s = (Inr (), s')" and d: "distinct (map fst ups)"
  have "ApplyProjectConfig p ups dels s = (Inr (), s')"
    using run by (auto simp: StoreConfigSource_def config_result_def split: prod.splits sum.splits)
  then show "GetProjectConfig q s' =
      (if q = p then (GetProjectConfig p s |` (- set dels)) ++ map_of ups else GetProjectConfig q s)"
    using config_change_set_applied [OF d] by simp
next
  fix p :: ident and ups dels s e s'
  assume "ApplyProjectConfigValues (StoreConfigSource uuid) p ups dels s = (Inl e, s')"
  then obtain e' where "ApplyProjectConfig p ups dels s = (Inl e', s')"
    by (auto simp: StoreConfigSource_def config_result_def split: prod.splits sum.splits)
  then show "s' = s" by (auto simp: ApplyProjectConfig_def op_fail_def split: if_splits dest: in_tx_Inl)
qed

text \<open>\<^bold>\<open>C31.\<close> A persisted change is read back, an override is not persisted.  When a change of a project's
  configuration has been accepted, loading the configuration from the database gives the old values
  overridden by the overlay in the form JSON gives it, the configurations of the other projects are
  what they were, and the answer is the one that the same overlay as a runtime override gets, which
  leaves the database alone.\<close>

theorem persisted_change_is_read_back:
  assumes "EffectiveProjectFromValuesFrom (Some (StoreConfigSource rowID)) cfg p overlay ModeChange s = (Inr eff, s')"
    and "loadSourceConfig (Some (StoreConfigSource rowID)) p s = Inr layer"
    and "distinct (map fst overlay)" "list_all (\<lambda>kv. storable (snd kv)) overlay"
  shows "(\<exists>layer'. loadSourceConfig (Some (StoreConfigSource rowID)) p s' = Inr layer' \<and>
      map_of layer' = map_of layer ++ map_of (map (\<lambda>kv. (fst kv, stored_form (snd kv))) overlay)) \<and>
    GetProjectConfig q s' = (if q = p then GetProjectConfig p s' else GetProjectConfig q s) \<and>
    EffectiveProjectFromValuesFrom (Some (StoreConfigSource rowID)) cfg p overlay ModeOverride s = (Inr eff, s)"
proof -
  have "eff = \<lparr>pc_Values = mergeMapInto (pc_Values cfg) overlay\<rparr>"
    using assms(1) by (auto simp: EffectiveProjectFromValuesFrom_def Let_def split: sum.splits prod.splits if_splits)
  then show ?thesis
    using database.change_reads_back [OF assms] by (auto simp: EffectiveProjectFromValuesFrom_def)
qed

definition demo_overlay :: layer where
  "demo_overlay = [(''model'', StringValue ''opus''), (''strict'', BoolValue True)]"

theorem persisted_change_is_read_back_witness:
  "\<exists>layer'. loadSourceConfig (Some (StoreConfigSource [])) ''j''
      (snd (EffectiveProjectFromValuesFrom (Some (StoreConfigSource [])) \<lparr>pc_Values = []\<rparr> ''j'' demo_overlay ModeChange demo_project)) =
        Inr layer' \<and> map_of layer' ''model'' = Some (StringValue ''opus'')"
proof -
  let ?r = "EffectiveProjectFromValuesFrom (Some (StoreConfigSource [])) \<lparr>pc_Values = []\<rparr> ''j'' demo_overlay ModeChange demo_project"
  have "isl (fst ?r) = False" by code_simp
  then obtain eff where r: "?r = (Inr eff, snd ?r)" by (cases ?r; cases "fst ?r") auto
  have load: "loadSourceConfig (Some (StoreConfigSource [])) ''j'' demo_project = Inr []" by code_simp
  have ok: "distinct (map fst demo_overlay)" "list_all (\<lambda>kv. storable (snd kv)) demo_overlay"
    unfolding storable_def by code_simp+
  have "stored_form (StringValue ''opus'') = StringValue ''opus''" by (simp add: stored_form_plain)
  then show ?thesis
    using conjunct1 [OF persisted_change_is_read_back [OF r load ok, of "[]"]]
    by (elim exE conjE) (auto simp: demo_overlay_def)
qed

end
