(* ===== verification/Provider_Pool.thy ===== *)
theory Provider_Pool
  imports Config_Layers Orch_State "HOL-Library.Word"
begin

text \<open>
  How the supervisor picks a provider for a turn (\<open>cmd/radioactive_ralph\<close>): the selection in the stored
  configuration (\<open>provider_selection.go\<close>), the cooldowns after failed turns (\<open>provider_cooldowns.go\<close>), and
  the resolver that rotates through a pool (\<open>binding_resolver.go\<close>), with the containment resolver and the
  failure callback of \<open>supervisor_cmd.go\<close>.  Times are nanoseconds; each call of \<open>now\<close> takes the next
  reading of the clock.
\<close>

section \<open>Cooldowns\<close>

record cooldownEntry =
  expiry :: int
  consecutiveFailures :: int

record ProviderCooldowns =
  entries :: "(string \<times> cooldownEntry) list"
  nowAt :: "nat \<Rightarrow> int"
  readings :: nat

definition hour :: int where
  "hour = 3600 * 1000000000"

definition cooldownDurations :: "int list" where
  "cooldownDurations = [1 * hour, 2 * hour, 4 * hour, 8 * hour, 24 * hour]"

definition NewProviderCooldowns :: "(nat \<Rightarrow> int) \<Rightarrow> ProviderCooldowns" where
  "NewProviderCooldowns now = \<lparr>entries = [], nowAt = now, readings = 0\<rparr>"

definition shouldCooldown :: "FailureCategory \<Rightarrow> bool" where
  "shouldCooldown category \<longleftrightarrow> category \<in> {FailureProviderAuth, FailureProviderRejected, FailureProviderThrottled}"

definition clock_now :: "ProviderCooldowns \<Rightarrow> int \<times> ProviderCooldowns" where
  "clock_now c = (nowAt c (readings c), c\<lparr>readings := readings c + 1\<rparr>)"

definition RecordFailure :: "string \<Rightarrow> Failure \<Rightarrow> ProviderCooldowns \<Rightarrow> ProviderCooldowns" where
  "RecordFailure providerName failure c =
    (if \<not> shouldCooldown (f_Category failure) then c
     else
       (let failures = (case map_of (entries c) providerName of None \<Rightarrow> 0 | Some e \<Rightarrow> consecutiveFailures e) + 1;
            idx = (if failures - 1 \<ge> int (length cooldownDurations) then int (length cooldownDurations) - 1 else failures - 1);
            (now, c1) = clock_now c in
        c1\<lparr>entries := AList.update providerName
             \<lparr>expiry = now + cooldownDurations ! nat idx, consecutiveFailures = failures\<rparr> (entries c1)\<rparr>))"

definition RecordSuccess :: "string \<Rightarrow> ProviderCooldowns \<Rightarrow> ProviderCooldowns" where
  "RecordSuccess providerName c = c\<lparr>entries := AList.delete providerName (entries c)\<rparr>"

definition Active :: "ProviderCooldowns \<Rightarrow> (string \<times> int) list \<times> ProviderCooldowns" where
  "Active c =
    (let (now, c1) = clock_now c in
     (map (\<lambda>e. (fst e, expiry (snd e))) (filter (\<lambda>e. now < expiry (snd e)) (entries c1)), c1))"

text \<open>The scan of \<open>EarliestExpiry\<close>: \<open>earliest\<close> is empty until a cooled provider is met, and a later one takes
  over when it expires before.\<close>

definition earlier :: "int \<Rightarrow> string \<times> cooldownEntry \<Rightarrow> string \<times> int \<Rightarrow> string \<times> int" where
  "earlier now e acc =
    (if now < expiry (snd e) \<and> (fst acc = [] \<or> expiry (snd e) < snd acc) then (fst e, expiry (snd e)) else acc)"

definition EarliestExpiry :: "ProviderCooldowns \<Rightarrow> string \<times> ProviderCooldowns" where
  "EarliestExpiry c = (let (now, c1) = clock_now c in (fst (fold (earlier now) (entries c1) ([], 0)), c1))"

text \<open>The callback of the supervisor; \<open>None\<close> is a turn that succeeded.\<close>

definition cooldownFailureCallback :: "Binding \<Rightarrow> Failure option \<Rightarrow> ProviderCooldowns \<Rightarrow> ProviderCooldowns" where
  "cooldownFailureCallback b outcome =
    (case outcome of None \<Rightarrow> RecordSuccess (b_Name b) | Some failure \<Rightarrow> RecordFailure (b_Name b) failure)"

section \<open>The selection of one layer\<close>

definition providerConfigKey :: string where "providerConfigKey = ''provider''"
definition providersConfigKey :: string where "providersConfigKey = ''providers''"
definition providerConfigTableKey :: string where "providerConfigTableKey = ''provider_config''"

datatype selection_error =
    ErrBothKeysSet
  | ErrNotAProviderName
  | ErrNotAnArray
  | ErrEmptyArray
  | ErrEntryNotAName nat
  | ErrDuplicateProvider string
  | ErrUnknownProvider string provider_error
  | ErrTimeoutNotAString string
  | ErrTimeoutValue string provider_error
  | ErrConfig config_error
  | ErrBinding provider_error

definition stringValue :: "any \<Rightarrow> string option" where
  "stringValue v = (case v of StringValue t \<Rightarrow> if TrimSpace t = [] then None else Some (TrimSpace t) | _ \<Rightarrow> None)"

fun collect_names :: "nat \<Rightarrow> string list \<Rightarrow> any list \<Rightarrow> selection_error + string list" where
  "collect_names i names [] = Inr names"
| "collect_names i names (v # raw) =
    (case stringValue v of
       None \<Rightarrow> Inl (ErrEntryNotAName i)
     | Some n \<Rightarrow> if n \<in> set names then Inl (ErrDuplicateProvider n) else collect_names (i + 1) (names @ [n]) raw)"

definition stringSliceValue :: "any \<Rightarrow> selection_error + string list" where
  "stringSliceValue v =
    (case (case v of StringsValue ts \<Rightarrow> Some (map StringValue ts) | SliceValue vs \<Rightarrow> Some vs | _ \<Rightarrow> None) of
       None \<Rightarrow> Inl ErrNotAnArray
     | Some raw \<Rightarrow> if length raw = 0 then Inl ErrEmptyArray else collect_names 0 [] raw)"

definition default_file :: "string \<Rightarrow> (string \<times> BindingConfig) list \<Rightarrow> provider_File" where
  "default_file name providers = \<lparr>pf_DefaultProvider = name, pf_Providers = map_of providers\<rparr>"

definition zero_local :: provider_Local where
  "zero_local = \<lparr>pl_ProviderBinary = [], pl_ProviderBinaries = Map.empty\<rparr>"

fun validateProviderNames :: "string list \<Rightarrow> selection_error option" where
  "validateProviderNames [] = None"
| "validateProviderNames (n # names) =
    (case ResolveBinding (default_file n []) zero_local [] of
       Inl e \<Rightarrow> Some (ErrUnknownProvider n e)
     | Inr _ \<Rightarrow> validateProviderNames names)"

text \<open>\<open>None\<close>: the layer selects nothing.\<close>

definition providerSelectionFromValues :: "layer \<Rightarrow> selection_error + string list option" where
  "providerSelectionFromValues values =
    (case (map_of values providersConfigKey, map_of values providerConfigKey) of
       (Some _, Some _) \<Rightarrow> Inl ErrBothKeysSet
     | (None, None) \<Rightarrow> Inr None
     | (pool, single) \<Rightarrow>
         (case (case pool of
                  Some poolValue \<Rightarrow> stringSliceValue poolValue
                | None \<Rightarrow> (case stringValue (the single) of None \<Rightarrow> Inl ErrNotAProviderName | Some n \<Rightarrow> Inr [n])) of
            Inl e \<Rightarrow> Inl e
          | Inr names \<Rightarrow> (case validateProviderNames names of Some e \<Rightarrow> Inl e | None \<Rightarrow> Inr (Some names))))"

definition normalizeIncomingProviderSelection :: "layer \<Rightarrow> selection_error + (layer \<times> bool)" where
  "normalizeIncomingProviderSelection values =
    (case providerSelectionFromValues values of
       Inl e \<Rightarrow> Inl e
     | Inr None \<Rightarrow> Inr (values, False)
     | Inr (Some names) \<Rightarrow>
         Inr (AList.update providersConfigKey (StringsValue names) (AList.delete providerConfigKey values), True))"

text \<open>The layers are tried from the highest: the stanza of the project, its stored configuration, the user
  layer.  The second component is \<open>pooled\<close>.\<close>

definition resolveProviderNamesFromUserConfigSource ::
  "'s ConfigSource option \<Rightarrow> UserConfig \<Rightarrow> ident \<Rightarrow> 's \<Rightarrow> selection_error + (string list \<times> bool)" where
  "resolveProviderNamesFromUserConfigSource src userCfg projectID s =
    (let found = (\<lambda>names. Inr (names, length names > 1)) in
     case (case map_of (uc_Projects userCfg) projectID of None \<Rightarrow> Inr None | Some overlay \<Rightarrow> providerSelectionFromValues overlay) of
       Inl e \<Rightarrow> Inl e
     | Inr (Some names) \<Rightarrow> found names
     | Inr None \<Rightarrow>
         (case ResolveProjectsFrom src \<lparr>uc_Values = [], uc_Projects = []\<rparr> projectID s of
            Inl e \<Rightarrow> Inl (ErrConfig e)
          | Inr stored \<Rightarrow>
              (case providerSelectionFromValues (pc_Values stored) of
                 Inl e \<Rightarrow> Inl e
               | Inr (Some names) \<Rightarrow> found names
               | Inr None \<Rightarrow>
                   (case providerSelectionFromValues (uc_Values userCfg) of
                      Inl e \<Rightarrow> Inl e
                    | Inr (Some names) \<Rightarrow> found names
                    | Inr None \<Rightarrow> Inr ([], False)))))"

section \<open>Per-provider overrides\<close>

definition fieldString :: "layer \<Rightarrow> string \<Rightarrow> string" where
  "fieldString table key = (case map_of table key of Some (StringValue t) \<Rightarrow> t | _ \<Rightarrow> [])"

definition extractProviderConfigTable :: "layer \<Rightarrow> (string \<times> layer) list" where
  "extractProviderConfigTable values =
    (case map_of values providerConfigTableKey of
       Some (TableValue t) \<Rightarrow>
         List.map_filter (\<lambda>kv. case snd kv of TableValue table \<Rightarrow> Some (fst kv, table) | _ \<Rightarrow> None) t
     | _ \<Rightarrow> [])"

definition merge_fields :: "string \<times> layer \<Rightarrow> (string \<times> layer) list \<Rightarrow> (string \<times> layer) list" where
  "merge_fields entry merged =
    AList.update (fst entry) (mergeMapInto (case map_of merged (fst entry) of None \<Rightarrow> [] | Some fs \<Rightarrow> fs) (snd entry)) merged"

definition mergeProviderConfigTables :: "(string \<times> layer) list list \<Rightarrow> (string \<times> layer) list" where
  "mergeProviderConfigTables layers = fold (fold merge_fields) layers []"

definition native_fanout_of :: "layer \<Rightarrow> bool \<Rightarrow> bool" where
  "native_fanout_of table unset = (case map_of table ''native_fanout'' of Some (BoolValue b) \<Rightarrow> b | _ \<Rightarrow> unset)"

definition bindingConfigFromFields :: "layer \<Rightarrow> BindingConfig" where
  "bindingConfigFromFields table = zero_config
    \<lparr>bc_HaikuModel := fieldString table ''haiku_model'', bc_SonnetModel := fieldString table ''sonnet_model'',
     bc_OpusModel := fieldString table ''opus_model'', bc_LowEffort := fieldString table ''low_effort'',
     bc_MediumEffort := fieldString table ''medium_effort'', bc_HighEffort := fieldString table ''high_effort'',
     bc_MaxEffort := fieldString table ''max_effort'', bc_TurnTimeout := fieldString table ''turn_timeout'',
     bc_StallTimeout := fieldString table ''stall_timeout'', bc_NativeFanout := native_fanout_of table False\<rparr>"

definition override_text :: "layer \<Rightarrow> string \<Rightarrow> string \<Rightarrow> string" where
  "override_text table key base = (if fieldString table key \<noteq> [] then fieldString table key else base)"

definition mergeBindingConfigOverrides :: "BindingConfig \<Rightarrow> layer \<Rightarrow> BindingConfig" where
  "mergeBindingConfigOverrides base table = base
    \<lparr>bc_HaikuModel := override_text table ''haiku_model'' (bc_HaikuModel base),
     bc_SonnetModel := override_text table ''sonnet_model'' (bc_SonnetModel base),
     bc_OpusModel := override_text table ''opus_model'' (bc_OpusModel base),
     bc_LowEffort := override_text table ''low_effort'' (bc_LowEffort base),
     bc_MediumEffort := override_text table ''medium_effort'' (bc_MediumEffort base),
     bc_HighEffort := override_text table ''high_effort'' (bc_HighEffort base),
     bc_MaxEffort := override_text table ''max_effort'' (bc_MaxEffort base),
     bc_TurnTimeout := override_text table ''turn_timeout'' (bc_TurnTimeout base),
     bc_StallTimeout := override_text table ''stall_timeout'' (bc_StallTimeout base),
     bc_NativeFanout := native_fanout_of table (bc_NativeFanout base)\<rparr>"

definition provider_configs :: "UserConfig \<Rightarrow> ProjectConfig \<Rightarrow> (string \<times> BindingConfig) list" where
  "provider_configs userCfg projectCfg =
    map (\<lambda>entry. (fst entry, case builtInProvider (fst entry) of
        None \<Rightarrow> bindingConfigFromFields (snd entry)
      | Some base \<Rightarrow> mergeBindingConfigOverrides base (snd entry)))
      (mergeProviderConfigTables [extractProviderConfigTable (uc_Values userCfg), extractProviderConfigTable (pc_Values projectCfg)])"

fun last_timeout :: "string \<Rightarrow> string \<Rightarrow> layer list \<Rightarrow> selection_error + string" where
  "last_timeout key resolved [] = Inr resolved"
| "last_timeout key resolved (layer # layers) =
    (case map_of layer key of
       None \<Rightarrow> last_timeout key resolved layers
     | Some value \<Rightarrow>
         (case stringValue value of None \<Rightarrow> Inl (ErrTimeoutNotAString key) | Some t \<Rightarrow> last_timeout key t layers))"

definition layeredTimeoutValue :: "string \<Rightarrow> string \<Rightarrow> layer list \<Rightarrow> selection_error + string" where
  "layeredTimeoutValue key field layers =
    (case last_timeout key [] layers of
       Inl e \<Rightarrow> Inl e
     | Inr resolved \<Rightarrow>
         (case ValidateConfiguredTimeout field resolved of Some e \<Rightarrow> Inl (ErrTimeoutValue key e) | None \<Rightarrow> Inr resolved))"

section \<open>The resolver\<close>

text \<open>The cursor of each project, and the cooldowns.\<close>

record pool =
  nextByProject :: "ident \<Rightarrow> 64 word"
  cooldowns :: ProviderCooldowns

text \<open>The supervisor resolves from its database; the user-scope project may be created on the way.  Each
  of the three steps of the resolver resolves the layers again.\<close>

definition with_layers ::
  "viper \<Rightarrow> ident \<Rightarrow> (UserConfig \<Rightarrow> store \<Rightarrow> selection_error + 'a) \<Rightarrow> store \<Rightarrow> (selection_error + 'a) \<times> store" where
  "with_layers viper rowID use s =
    (case ResolveUser viper rowID [] [] s of
       (Inl e, s1) \<Rightarrow> (Inl (ErrConfig e), s1)
     | (Inr userCfg, s1) \<Rightarrow> (use userCfg s1, s1))"

definition resolveProviderNames ::
  "viper \<Rightarrow> ident \<Rightarrow> ident \<Rightarrow> store \<Rightarrow> (selection_error + (string list \<times> bool)) \<times> store" where
  "resolveProviderNames viper rowID projectID = with_layers viper rowID
    (\<lambda>userCfg s. resolveProviderNamesFromUserConfigSource (Some (StoreConfigSource rowID)) userCfg projectID s)"

definition resolveProviderConfigs ::
  "viper \<Rightarrow> ident \<Rightarrow> ident \<Rightarrow> store \<Rightarrow> (selection_error + (string \<times> BindingConfig) list) \<times> store" where
  "resolveProviderConfigs viper rowID projectID = with_layers viper rowID
    (\<lambda>userCfg s. case ResolveProjects userCfg projectID s of
       Inl e \<Rightarrow> Inl (ErrConfig e) | Inr projectCfg \<Rightarrow> Inr (provider_configs userCfg projectCfg))"

definition layered_timeouts :: "UserConfig \<Rightarrow> ProjectConfig \<Rightarrow> selection_error + (string \<times> string)" where
  "layered_timeouts userCfg projectCfg =
    (case layeredTimeoutValue ''turn_timeout'' ''turn_timeout'' [uc_Values userCfg, pc_Values projectCfg] of
       Inl e \<Rightarrow> Inl e
     | Inr turnText \<Rightarrow>
         (case layeredTimeoutValue ''stall_timeout'' ''stall_timeout'' [uc_Values userCfg, pc_Values projectCfg] of
            Inl e \<Rightarrow> Inl e
          | Inr stallText \<Rightarrow> Inr (turnText, stallText)))"

definition resolveProviderTimeouts ::
  "viper \<Rightarrow> ident \<Rightarrow> ident \<Rightarrow> store \<Rightarrow> (selection_error + (string \<times> string)) \<times> store" where
  "resolveProviderTimeouts viper rowID projectID = with_layers viper rowID
    (\<lambda>userCfg s. case ResolveProjects userCfg projectID s of
       Inl e \<Rightarrow> Inl (ErrConfig e) | Inr projectCfg \<Rightarrow> layered_timeouts userCfg projectCfg)"

text \<open>The filter of the cooldowns, then the member under the cursor.\<close>

definition cool_filter :: "string list \<times> bool \<Rightarrow> ProviderCooldowns \<Rightarrow> (string list \<times> bool) \<times> ProviderCooldowns" where
  "cool_filter selection c =
    (let (names, pooled) = selection; (active, c1) = Active c in
     if active \<noteq> [] \<and> length names > 1 then
       (let filtered = filter (\<lambda>n. n \<notin> fst ` set active) names;
            (kept, c2) = (if filtered \<noteq> [] then (filtered, c1)
              else (let (earliest, c2) = EarliestExpiry c1 in (if earliest \<noteq> [] then [earliest] else [], c2))) in
        if kept \<noteq> [] then ((kept, length kept > 1), c2) else ((names, pooled), c2))
     else ((names, pooled), c1))"

definition next_name :: "string list \<Rightarrow> ident \<Rightarrow> BindingResolutionPurpose \<Rightarrow> pool \<Rightarrow> string \<times> pool" where
  "next_name names projectID purpose p =
    (if names = [] then ([], p)
     else
       (let cursor = nextByProject p projectID in
        (names ! unat (cursor mod of_nat (length names)),
         if purpose = BindingDispatch then p\<lparr>nextByProject := (nextByProject p)(projectID := cursor + 1)\<rparr> else p)))"

definition storeBindingResolver ::
  "viper \<Rightarrow> ident \<Rightarrow> ident \<Rightarrow> bool \<Rightarrow> BindingResolutionPurpose \<Rightarrow> store \<Rightarrow> pool \<Rightarrow> (selection_error + Binding) \<times> store \<times> pool" where
  "storeBindingResolver viper rowID projectID requested purpose s p =
    (case resolveProviderNames viper rowID projectID s of
       (Inl e, s1) \<Rightarrow> (Inl e, s1, p)
     | (Inr selection, s1) \<Rightarrow>
         (let ((names, pooled), cd) = cool_filter selection (cooldowns p);
              (name, p1) = next_name names projectID purpose (p\<lparr>cooldowns := cd\<rparr>) in
          case resolveProviderConfigs viper rowID projectID s1 of
            (Inl e, s2) \<Rightarrow> (Inl e, s2, p1)
          | (Inr configs, s2) \<Rightarrow>
              (case ResolveBinding (default_file name configs) zero_local [] of
                 Inl e \<Rightarrow> (Inl (ErrBinding e), s2, p1)
               | Inr b0 \<Rightarrow>
                   (let b1 = (if pooled then b0\<lparr>b_Config := (b_Config b0)\<lparr>bc_NativeFanout := False\<rparr>\<rparr> else b0) in
                    case resolveProviderTimeouts viper rowID projectID s2 of
                      (Inl e, s3) \<Rightarrow> (Inl e, s3, p1)
                    | (Inr (turnText, stallText), s3) \<Rightarrow>
                        (Inr (b1\<lparr>b_Config := (b_Config b1)\<lparr>bc_TurnTimeout := turnText, bc_StallTimeout := stallText\<rparr>\<rparr>), s3, p1)))))"

text \<open>A configuration that cannot be read keeps containment on.\<close>

definition storeContainmentResolver :: "viper \<Rightarrow> ident \<Rightarrow> ident \<Rightarrow> store \<Rightarrow> bool \<times> store" where
  "storeContainmentResolver viper rowID projectID s =
    (case ResolveUser viper rowID [] [] s of
       (Inl _, s1) \<Rightarrow> (True, s1)
     | (Inr userCfg, s1) \<Rightarrow>
         (case ResolveProjects userCfg projectID s1 of
            Inl _ \<Rightarrow> (True, s1)
          | Inr projectCfg \<Rightarrow> (ContainProviderWrites projectCfg, s1)))"

section \<open>The options of the supervisor\<close>

text \<open>\<open>strconv.Atoi\<close>: an optional sign and decimal digits, in the range of \<open>int\<close>.\<close>

definition Atoi :: "string \<Rightarrow> int option" where
  "Atoi t =
    (let neg = (t \<noteq> [] \<and> hd t = CHR ''-'');
         ds = (if t \<noteq> [] \<and> (hd t = CHR ''-'' \<or> hd t = CHR ''+'') then tl t else t);
         v = (if neg then - int (digits_value ds) else int (digits_value ds)) in
     if ds = [] \<or> \<not> list_all is_digit ds then None
     else if v < - (2 ^ 63) \<or> v > 2 ^ 63 - 1 then None
     else Some v)"

definition maxParallelLimit :: int where
  "maxParallelLimit = 256"

text \<open>The bound of the environment, \<open>0\<close> when it is not set; \<open>None\<close> is the error.\<close>

definition supervisorMaxParallel :: "string option \<Rightarrow> int option" where
  "supervisorMaxParallel setting =
    (case setting of
       None \<Rightarrow> Some 0
     | Some value \<Rightarrow>
         (case Atoi (TrimSpace value) of
            None \<Rightarrow> None
          | Some n \<Rightarrow> if n \<le> 0 \<or> n > maxParallelLimit then None else Some n))"

text \<open>The orchestrator of \<open>runSupervisorMode\<close>.  Its resolvers work on the database of the supervisor, where
  the row of the user scope is present after the first resolution; what they do to the database
  before that is not passed on.  \<open>describe\<close> gives the text of an error.\<close>

definition supervisor_resolver ::
  "viper \<Rightarrow> (selection_error \<Rightarrow> string) \<Rightarrow> ident \<Rightarrow> bool \<Rightarrow> BindingResolutionPurpose \<Rightarrow> store \<Rightarrow> pool \<Rightarrow> (orch_error + Binding) \<times> pool" where
  "supervisor_resolver viper describe projectID requested purpose s p =
    (case storeBindingResolver viper [] projectID requested purpose s p of
       (Inl e, _, p') \<Rightarrow> (Inl (ResolverFault (describe e)), p')
     | (Inr b, _, p') \<Rightarrow> (Inr b, p'))"

definition supervisor_cfg ::
  "viper \<Rightarrow> (selection_error \<Rightarrow> string) \<Rightarrow> string \<Rightarrow> int \<Rightarrow> pool cfg \<Rightarrow> pool cfg" where
  "supervisor_cfg viper describe endpoint bound base = base
    \<lparr>resolveBinding := supervisor_resolver viper describe,
     containmentResolver := Some (\<lambda>projectID s. fst (storeContainmentResolver viper [] projectID s)),
     failureCallback := Some (\<lambda>b outcome p. p\<lparr>cooldowns := cooldownFailureCallback b outcome (cooldowns p)\<rparr>),
     hookEndpoint := endpoint,
     maxParallel := (if bound > 0 then bound else maxParallel base)\<rparr>"

end
