(* ===== verification/Provider_Pool_Laws.thy ===== *)
theory Provider_Pool_Laws
  imports Provider_Pool Config_Layers_Laws Orch_Gates "HOL-Library.Multiset"
begin

text \<open>
  The promises of the provider pool.  \<open>round_robin\<close> is the contract of a rotation; the cursor of the
  resolver meets it, and the orchestrator's search for a permitted provider rests on it.
\<close>

section \<open>Rotations\<close>

locale round_robin =
  fixes draw :: "'st \<Rightarrow> 'm \<times> 'st"
    and members :: "'m list"
    and cursor :: "'st \<Rightarrow> nat"
    and limit :: nat
  assumes members_ne: "members \<noteq> []"
    and draws: "length members < limit \<Longrightarrow> fst (draw st) = members ! (cursor st mod length members)"
    and moves: "Suc (cursor st) < limit \<Longrightarrow> cursor (snd (draw st)) = Suc (cursor st)"
begin

primrec drawn :: "nat \<Rightarrow> 'st \<Rightarrow> 'm list" where
  "drawn 0 st = []"
| "drawn (Suc n) st = fst (draw st) # drawn n (snd (draw st))"

lemma drawn_members:
  "length members < limit \<Longrightarrow> cursor st + n < limit \<Longrightarrow> drawn n st = map (\<lambda>i. members ! ((cursor st + i) mod length members)) [0..<n]"
proof (induction n arbitrary: st)
  case (Suc n)
  have "cursor (snd (draw st)) = Suc (cursor st)" using Suc.prems by (intro moves) simp
  then have "drawn (Suc n) st = members ! (cursor st mod length members) #
      map (\<lambda>i. members ! ((cursor st + Suc i) mod length members)) [0..<n]"
    using Suc.IH [of "snd (draw st)"] Suc.prems by (simp add: draws)
  also have "\<dots> = map (\<lambda>i. members ! ((cursor st + i) mod length members)) [0..<Suc n]"
    by (simp add: map_upt_Suc del: upt_Suc)
  finally show ?case .
qed simp

lemma one_round: "map (\<lambda>i. members ! ((c + i) mod length members)) [0..<length members] = rotate c members"
  by (rule nth_equalityI) (simp_all add: nth_rotate)

lemma rotate1_mset: "mset (rotate1 xs) = mset xs"
  by (cases xs) simp_all

lemma rotate_mset: "mset (rotate n xs) = mset xs"
  by (induction n) (simp_all add: rotate1_mset)

text \<open>Every whole number of rounds draws every member as often.\<close>

lemma fair: "length members < limit \<Longrightarrow> cursor st + k * length members < limit \<Longrightarrow>
    mset (drawn (k * length members) st) = repeat_mset k (mset members)"
proof (induction k)
  case (Suc k)
  let ?L = "length members" and ?f = "\<lambda>i. members ! ((cursor st + i) mod length members)"
  have "map ?f [0..<Suc k * ?L] = map ?f [0..<k * ?L] @ map ?f [k * ?L..<k * ?L + ?L]"
    unfolding map_append [symmetric] using upt_add_eq_append [of 0 "k * ?L" ?L] by (simp add: add.commute)
  moreover have "map ?f [k * ?L..<k * ?L + ?L] = map (\<lambda>i. members ! (((cursor st + k * ?L) + i) mod ?L)) [0..<?L]"
    by (rule nth_equalityI) (simp_all add: ac_simps)
  ultimately show ?case using Suc one_round [of "cursor st + k * ?L"] drawn_members [of st "k * ?L"] drawn_members [of st "Suc k * ?L"]
    by (simp add: rotate_mset)
qed simp

text \<open>Looking for a member with a property by drawing: the search starts at the member of the last draw, at
  cursor \<open>i\<close>, and finds the first of the rotation from \<open>i\<close> that has the property.\<close>

abbreviation member_at :: "nat \<Rightarrow> 'm" where
  "member_at i \<equiv> members ! (i mod length members)"

lemma member_at_distinct:
  assumes "distinct members" "j < j'" "j' < length members"
  shows "member_at (i + j) \<noteq> member_at (i + j')"
proof -
  have "rotate i members ! j \<noteq> rotate i members ! j'"
    using assms nth_eq_iff_index_eq [of "rotate i members" j j'] by simp
  then show ?thesis using assms by (simp add: nth_rotate)
qed

lemma search_from:
  assumes step: "\<And>o'. steady o' \<Longrightarrow>
      next_one o' = (Inr (bind (fst (draw (resolver o')))), o'\<lparr>resolver := snd (draw (resolver o'))\<rparr>)"
    and keeps: "\<And>o'. steady o' \<Longrightarrow> steady (o'\<lparr>resolver := snd (draw (resolver o'))\<rparr>)"
    and names: "distinct members" "inj_on (\<lambda>m. b_Name (bind m)) (set members)"
  shows "steady o' \<Longrightarrow> j \<le> length members \<Longrightarrow> length members - j \<le> n \<Longrightarrow> cursor (resolver o') = Suc (i + j) \<Longrightarrow>
    Suc (i + length members) < limit \<Longrightarrow> set seen = (\<lambda>j'. b_Name (bind (member_at (i + j')))) ` {..<j} \<Longrightarrow>
    (\<And>j'. j' < j \<Longrightarrow> \<not> good (bind (member_at (i + j')))) \<Longrightarrow>
    \<exists>st. rotate_loop (\<lambda>b. Inr (good b)) next_one n seen (bind (member_at (i + j))) o' =
      (Inr (map_option bind (List.find (\<lambda>m. good (bind m)) (map (\<lambda>j. member_at (i + j)) [j..<length members]))),
       o'\<lparr>resolver := st\<rparr>)"
proof (induction n arbitrary: j o' seen)
  case 0
  then have "o'\<lparr>resolver := resolver o'\<rparr> = o'" by simp
  then show ?case using 0 by (intro exI [of _ "resolver o'"]) simp
next
  case (Suc n)
  have self: "o'\<lparr>resolver := resolver o'\<rparr> = o'" by simp
  show ?case
  proof (cases "j = length members")
    case True
    have "member_at (i + j) = member_at (i + 0)" using True by simp
    moreover have "0 < j" using True members_ne by simp
    moreover have "b_Name (bind (member_at (i + 0))) \<in> set seen"
      unfolding Suc.prems(6) using \<open>0 < j\<close> by blast
    ultimately have "\<not> good (bind (member_at (i + j)))" "b_Name (bind (member_at (i + j))) \<in> set seen"
      using Suc.prems(7) [of 0] by auto
    then show ?thesis using True self by (intro exI [of _ "resolver o'"]) simp
  next
    case False
    then have j: "j < length members" using Suc.prems(2) by simp
    have split: "[j..<length members] = j # [Suc j..<length members]" using j by (rule upt_conv_Cons)
    show ?thesis
    proof (cases "good (bind (member_at (i + j)))")
      case True
      then show ?thesis unfolding split using self by (intro exI [of _ "resolver o'"]) simp
    next
      case bad: False
      have fresh_name: "b_Name (bind (member_at (i + j))) \<notin> set seen"
      proof
        assume "b_Name (bind (member_at (i + j))) \<in> set seen"
        then obtain j' where j': "j' < j" "b_Name (bind (member_at (i + j'))) = b_Name (bind (member_at (i + j)))"
          using Suc.prems(6) by auto
        have "member_at (i + j') = member_at (i + j)"
          using inj_onD [OF names(2) j'(2)] members_ne by simp
        then show False using member_at_distinct [OF names(1) j'(1) j] by simp
      qed
      let ?o = "o'\<lparr>resolver := snd (draw (resolver o'))\<rparr>"
      have cur: "cursor (resolver ?o) = Suc (i + Suc j)" using moves [of "resolver o'"] Suc.prems(4,5) j by simp
      have cand: "fst (draw (resolver o')) = member_at (i + Suc j)" using Suc.prems(4,5) by (simp add: draws)
      have seen: "set (b_Name (bind (member_at (i + j))) # seen) = (\<lambda>j'. b_Name (bind (member_at (i + j')))) ` {..<Suc j}"
        using Suc.prems(6) by (simp add: lessThan_Suc)
      have prefix: "\<not> good (bind (member_at (i + j')))" if "j' < Suc j" for j'
        using that bad Suc.prems(7) by (cases "j' = j") auto
      from Suc.IH [OF keeps [OF Suc.prems(1)] _ _ cur Suc.prems(5) seen prefix] j Suc.prems(3) obtain st where
        "rotate_loop (\<lambda>b. Inr (good b)) next_one n (b_Name (bind (member_at (i + j))) # seen) (bind (member_at (i + Suc j))) ?o =
          (Inr (map_option bind (List.find (\<lambda>m. good (bind m)) (map (\<lambda>j. member_at (i + j)) [Suc j..<length members]))),
           ?o\<lparr>resolver := st\<rparr>)" by fastforce
      then show ?thesis unfolding split using bad fresh_name cand step [OF Suc.prems(1)] by (intro exI [of _ st]) simp
    qed
  qed
qed

lemma search:
  assumes "\<And>o'. steady o' \<Longrightarrow>
      next_one o' = (Inr (bind (fst (draw (resolver o')))), o'\<lparr>resolver := snd (draw (resolver o'))\<rparr>)"
    and "\<And>o'. steady o' \<Longrightarrow> steady (o'\<lparr>resolver := snd (draw (resolver o'))\<rparr>)"
    and "distinct members" "inj_on (\<lambda>m. b_Name (bind m)) (set members)"
    and "steady o'" "cursor (resolver o') = Suc i" "Suc (i + length members) < limit" "length members \<le> fuel"
  shows "\<exists>st. rotate_loop (\<lambda>b. Inr (good b)) next_one fuel [] (bind (member_at i)) o' =
    (Inr (map_option bind (List.find (\<lambda>m. good (bind m)) (rotate i members))), o'\<lparr>resolver := st\<rparr>)"
  using search_from [of steady next_one bind o' 0 fuel i "[]" good, OF assms(1-4)] assms(5-8) one_round [of i] by simp

end

section \<open>The selection\<close>

lemma stringValue_nonempty: "stringValue v = Some n \<Longrightarrow> n \<noteq> []"
  by (auto simp: stringValue_def split: any.splits if_splits)

lemma collect_names_distinct:
  "collect_names i ns raw = Inr names \<Longrightarrow> distinct ns \<Longrightarrow> [] \<notin> set ns \<Longrightarrow>
    distinct names \<and> [] \<notin> set names \<and> length names = length ns + length raw"
proof (induction i ns raw rule: collect_names.induct)
  case (2 i ns v raw)
  then show ?case using stringValue_nonempty [of v] by (auto split: option.splits if_splits)
qed simp

lemma valid_names_known: "validateProviderNames names = None \<Longrightarrow> n \<in> set names \<Longrightarrow> n \<noteq> [] \<Longrightarrow> builtInProvider n \<noteq> None"
  by (induction names) (auto simp: ResolveBinding_def default_file_def resolved_name_def Let_def split: sum.splits option.splits)

definition sound_selection :: "string list \<Rightarrow> bool" where
  "sound_selection names \<longleftrightarrow> names \<noteq> [] \<and> distinct names \<and> (\<forall>n \<in> set names. n \<noteq> [] \<and> builtInProvider n \<noteq> None)"

lemma selection_sound:
  assumes "providerSelectionFromValues values = Inr (Some names)"
  shows "sound_selection names"
proof -
  have "names \<noteq> [] \<and> distinct names \<and> [] \<notin> set names \<and> validateProviderNames names = None"
  proof (cases "map_of values providersConfigKey")
    case (Some v)
    then show ?thesis
      using assms
      by (auto simp: providerSelectionFromValues_def stringSliceValue_def split: option.splits sum.splits any.splits if_splits
          dest: collect_names_distinct [of _ "[]", simplified])
  next
    case None
    then show ?thesis
      using assms by (auto simp: providerSelectionFromValues_def split: option.splits sum.splits dest: stringValue_nonempty)
  qed
  then show ?thesis using valid_names_known by (auto simp: sound_selection_def)
qed

lemma resolved_selection_sound:
  assumes "resolveProviderNamesFromUserConfigSource src userCfg p s = Inr (names, pooled)"
  shows "(names = [] \<or> sound_selection names) \<and> pooled = (length names > 1)"
  using assms selection_sound
  by (auto simp: resolveProviderNamesFromUserConfigSource_def Let_def split: option.splits sum.splits)

section \<open>The resolver on a settled database\<close>

definition scope_ready :: "store \<Rightarrow> bool" where
  "scope_ready s \<longleftrightarrow> owner_of userScopeFingerprint s \<noteq> None"

lemma scope_ready_found: "scope_ready s \<Longrightarrow> UserScopeProjectID rowID s = (Inr (the (owner_of userScopeFingerprint s)), s)"
  using user_scope_named by (auto simp: scope_ready_def UserScopeProjectID_def resolve_Cons simp del: ResolveProject.simps(2))

lemma loaded_any_row: "loadSourceConfig (Some (StoreConfigSource rowID)) p s = loadSourceConfig (Some (StoreConfigSource [])) p s"
  by (simp add: loadSourceConfig_def StoreConfigSource_def)

lemma with_layers_ready:
  assumes "scope_ready s"
  shows "with_layers viper rowID use s = (fst (with_layers viper [] use s), s)"
proof -
  have "ResolveUser viper rowID [] [] s = ResolveUser viper [] [] [] s" "snd (ResolveUser viper [] [] [] s) = s"
    using scope_ready_found [OF assms, of rowID] scope_ready_found [OF assms, of "[]"] loaded_any_row [of rowID]
    by (simp_all add: ResolveUser_def ResolveUserFrom_def StoreConfigSource_def loadSourceConfig_def Let_def split: sum.splits)
  then show ?thesis by (cases "ResolveUser viper [] [] [] s") (auto simp: with_layers_def split: sum.splits)
qed

lemma names_any_row:
  "resolveProviderNamesFromUserConfigSource (Some (StoreConfigSource rowID)) =
   resolveProviderNamesFromUserConfigSource (Some (StoreConfigSource []))"
  by (intro ext) (simp only: resolveProviderNamesFromUserConfigSource_def ResolveProjectsFrom_def loaded_any_row [of rowID])

text \<open>What a member of the pool becomes: the part of the resolver after the choice of a name.\<close>

definition member_binding :: "viper \<Rightarrow> ident \<Rightarrow> store \<Rightarrow> bool \<Rightarrow> string \<Rightarrow> selection_error + Binding" where
  "member_binding viper projectID s pooled name =
    (case fst (resolveProviderConfigs viper [] projectID s) of
       Inl e \<Rightarrow> Inl e
     | Inr configs \<Rightarrow>
         (case ResolveBinding (default_file name configs) zero_local [] of
            Inl e \<Rightarrow> Inl (ErrBinding e)
          | Inr b0 \<Rightarrow>
              (let b1 = (if pooled then b0\<lparr>b_Config := (b_Config b0)\<lparr>bc_NativeFanout := False\<rparr>\<rparr> else b0) in
               case fst (resolveProviderTimeouts viper [] projectID s) of
                 Inl e \<Rightarrow> Inl e
               | Inr (turnText, stallText) \<Rightarrow>
                   Inr (b1\<lparr>b_Config := (b_Config b1)\<lparr>bc_TurnTimeout := turnText, bc_StallTimeout := stallText\<rparr>\<rparr>))))"

lemma resolver_ready:
  assumes "scope_ready s" and sel: "fst (resolveProviderNames viper [] projectID s) = Inr selection"
  shows "storeBindingResolver viper rowID projectID req purpose s p =
    (let ((names, pooled), cd) = cool_filter selection (cooldowns p);
         (name, p1) = next_name names projectID purpose (p\<lparr>cooldowns := cd\<rparr>) in
     (member_binding viper projectID s pooled name, s, p1))"
proof -
  note r = with_layers_ready [OF assms(1)]
  have names: "resolveProviderNames viper rowID projectID s = (Inr selection, s)"
    using sel unfolding resolveProviderNames_def names_any_row [of rowID] by (subst r) simp
  have configs: "resolveProviderConfigs viper rowID projectID s = (fst (resolveProviderConfigs viper [] projectID s), s)"
    unfolding resolveProviderConfigs_def by (rule r)
  have timeouts: "resolveProviderTimeouts viper rowID projectID s = (fst (resolveProviderTimeouts viper [] projectID s), s)"
    unfolding resolveProviderTimeouts_def by (rule r)
  show ?thesis
    unfolding storeBindingResolver_def names prod.case sum.case configs timeouts member_binding_def
    by (simp add: Let_def split: prod.splits sum.splits)
qed

lemma member_binding_name: "member_binding viper p s pooled n = Inr b \<Longrightarrow> n \<noteq> [] \<Longrightarrow> b_Name b = n"
  by (auto simp: member_binding_def ResolveBinding_def default_file_def resolved_name_def Let_def
    split: sum.splits option.splits prod.splits if_splits)

text \<open>Known names bind as soon as the overrides and the timeouts of the layers can be read.\<close>

lemma member_binding_total:
  assumes "fst (resolveProviderConfigs viper [] p s) = Inr configs" "fst (resolveProviderTimeouts viper [] p s) = Inr limits"
    and "n \<noteq> []" "builtInProvider n \<noteq> None"
  shows "\<exists>b. member_binding viper p s pooled n = Inr b"
proof -
  have "\<exists>b. ResolveBinding (default_file n configs) zero_local [] = Inr b"
    using assms(3,4) by (auto simp: ResolveBinding_def default_file_def resolved_name_def Let_def split: option.splits)
  then show ?thesis using assms(1,2) by (cases limits) (auto simp: member_binding_def Let_def)
qed

section \<open>Rotating through a pool\<close>

text \<open>A dispatch in a project whose selection is \<open>n # ns\<close>, without cooldowns: the clock is read once and the
  cursor moves on, modulo the size of its type.\<close>

definition pool_draw :: "string list \<Rightarrow> ident \<Rightarrow> pool \<Rightarrow> string \<times> pool" where
  "pool_draw names projectID p = next_name names projectID BindingDispatch (p\<lparr>cooldowns := snd (clock_now (cooldowns p))\<rparr>)"

interpretation rotation: round_robin "pool_draw (n # ns) projectID" "n # ns" "\<lambda>p. unat (nextByProject p projectID)" "2 ^ 64"
proof unfold_locales
  show "n # ns \<noteq> []" by simp
next
  fix p :: pool
  assume "length (n # ns) < 2 ^ 64"
  then have "unat (word_of_nat (length (n # ns)) :: 64 word) = length (n # ns)" by (simp add: unat_of_nat del: list.size)
  then show "fst (pool_draw (n # ns) projectID p) = (n # ns) ! (unat (nextByProject p projectID) mod length (n # ns))"
    by (simp add: pool_draw_def next_name_def Let_def unat_mod del: list.size)
next
  fix p :: pool
  assume "Suc (unat (nextByProject p projectID)) < 2 ^ 64"
  then show "unat (nextByProject (snd (pool_draw (n # ns) projectID p)) projectID) = Suc (unat (nextByProject p projectID))"
    by (simp add: pool_draw_def next_name_def Let_def unat_word_ariths)
qed

lemma no_cooldown: "entries c = [] \<Longrightarrow> cool_filter selection c = (selection, snd (clock_now c))"
  by (cases selection) (simp add: cool_filter_def Active_def clock_now_def Let_def)

end
