(* ===== verification/Provider_Choice_Laws.thy ===== *)
theory Provider_Choice_Laws
  imports Provider_Pool_Laws Orch_Demo
begin

text \<open>
  What the choice of a provider guarantees: dispatches are spread evenly over a pool, the search for a
  permitted provider finds the first of the rotation, members in cooldown are passed over while another
  is available, and the backoff follows the streak of failures.
\<close>

section \<open>Dispatches over a pool\<close>

text \<open>Successive dispatches of a project, by the names of their bindings.\<close>

primrec dispatch_names :: "viper \<Rightarrow> ident \<Rightarrow> nat \<Rightarrow> store \<Rightarrow> pool \<Rightarrow> string list" where
  "dispatch_names viper projectID 0 s p = []"
| "dispatch_names viper projectID (Suc n) s p =
    (case storeBindingResolver viper [] projectID False BindingDispatch s p of
       (Inl e, s', p') \<Rightarrow> []
     | (Inr b, s', p') \<Rightarrow> b_Name b # dispatch_names viper projectID n s' p')"

lemma sound_selection_small: "sound_selection names \<Longrightarrow> length names \<le> 4"
proof -
  assume s: "sound_selection names"
  then have "set names \<subseteq> {''claude'', ''codex'', ''opencode'', ''copilot''}"
    by (auto simp: sound_selection_def builtInProvider_def split: if_splits)
  then have "card (set names) \<le> 4" using card_mono [of "{''claude'', ''codex'', ''opencode'', ''copilot''}" "set names"] by simp
  then show ?thesis using s by (simp add: sound_selection_def distinct_card)
qed

lemma selected_sound:
  assumes "fst (resolveProviderNames viper rowID projectID s) = Inr (names, pooled)"
  shows "names \<noteq> [] \<Longrightarrow> sound_selection names" "pooled = (1 < length names)"
proof -
  obtain r s1 where r: "ResolveUser viper rowID [] [] s = (r, s1)" by fastforce
  then obtain userCfg where "r = Inr userCfg" using assms by (cases r) (simp_all add: resolveProviderNames_def with_layers_def)
  then have "resolveProviderNamesFromUserConfigSource (Some (StoreConfigSource rowID)) userCfg projectID s1 = Inr (names, pooled)"
    using assms r by (simp add: resolveProviderNames_def with_layers_def)
  from resolved_selection_sound [OF this]
  show "names \<noteq> [] \<Longrightarrow> sound_selection names" "pooled = (1 < length names)" by blast+
qed

text \<open>One dispatch, in a settled database without cooldowns.\<close>

lemma dispatch_ready:
  assumes "scope_ready s" "fst (resolveProviderNames viper [] projectID s) = Inr (names, pooled)" "entries (cooldowns p) = []"
  shows "storeBindingResolver viper rowID projectID req BindingDispatch s p =
    (member_binding viper projectID s pooled (fst (pool_draw names projectID p)), s, snd (pool_draw names projectID p))"
  using assms(3) by (simp add: resolver_ready [OF assms(1,2)] no_cooldown pool_draw_def Let_def split: prod.split)

lemma draw_calm: "entries (cooldowns p) = [] \<Longrightarrow> entries (cooldowns (snd (pool_draw names projectID p))) = []"
  by (simp add: pool_draw_def next_name_def clock_now_def Let_def)

lemma dispatch_names_drawn:
  assumes ready: "scope_ready s" "fst (resolveProviderNames viper [] projectID s) = Inr (n # ns, pooled)"
    and bound: "fst (resolveProviderConfigs viper [] projectID s) = Inr configs" "fst (resolveProviderTimeouts viper [] projectID s) = Inr limits"
  shows "entries (cooldowns p) = [] \<Longrightarrow> unat (nextByProject p projectID) + k < 2 ^ 64 \<Longrightarrow>
    dispatch_names viper projectID k s p = rotation.drawn n ns projectID k p"
proof (induction k arbitrary: p)
  case (Suc k)
  have sound: "sound_selection (n # ns)" using selected_sound(1) [OF ready(2)] by simp
  have small: "length (n # ns) < 2 ^ 64" using sound_selection_small [OF sound] by simp
  let ?m = "fst (pool_draw (n # ns) projectID p)" and ?p = "snd (pool_draw (n # ns) projectID p)"
  have "?m \<in> set (n # ns)" unfolding rotation.draws [OF small] by (rule nth_mem) simp
  then have m: "?m \<noteq> []" "builtInProvider ?m \<noteq> None" using sound unfolding sound_selection_def by blast+
  obtain b where b: "member_binding viper projectID s pooled ?m = Inr b"
    using member_binding_total [OF bound m, of pooled] by (elim exE)
  have name: "b_Name b = ?m" by (rule member_binding_name [OF b m(1)])
  have "unat (nextByProject ?p projectID) = Suc (unat (nextByProject p projectID))" using Suc.prems(2) by (intro rotation.moves) simp
  then have "dispatch_names viper projectID k s ?p = rotation.drawn n ns projectID k ?p"
    using Suc.prems(2) by (intro Suc.IH draw_calm Suc.prems(1)) simp
  moreover have "storeBindingResolver viper [] projectID False BindingDispatch s p = (Inr b, s, ?p)"
    unfolding dispatch_ready [OF ready Suc.prems(1)] b ..
  ultimately show ?case by (simp only: dispatch_names.simps rotation.drawn.simps prod.case sum.case name)
qed simp

text \<open>Work is spread evenly over a pool.  Where the stored selection of a project is a pool whose overrides
  and timeouts can be read and no provider is cooling down, any number of whole rounds of dispatches
  launches each configured provider equally often, wherever the cursor stands.\<close>

theorem pool_dispatches_evenly:
  assumes "scope_ready s" "fst (resolveProviderNames viper [] projectID s) = Inr (names, pooled)" "names \<noteq> []"
    and "fst (resolveProviderConfigs viper [] projectID s) = Inr configs" "fst (resolveProviderTimeouts viper [] projectID s) = Inr limits"
    and "entries (cooldowns p) = []" "unat (nextByProject p projectID) + k * length names < 2 ^ 64"
  shows "mset (dispatch_names viper projectID (k * length names) s p) = repeat_mset k (mset names)"
proof -
  obtain n ns where names: "names = n # ns" using assms(3) by (cases names) auto
  have "length (n # ns) < 2 ^ 64"
    using sound_selection_small [OF selected_sound(1) [OF assms(2,3)]] names by simp
  from rotation.fair [OF this assms(7) [unfolded names]]
  show ?thesis
    unfolding names dispatch_names_drawn [OF assms(1) assms(2) [unfolded names] assms(4,5,6,7) [unfolded names]] .
qed

section \<open>Searching the pool\<close>




section \<open>Passing over providers in cooldown\<close>






section \<open>Backoff\<close>









section \<open>Instances\<close>

definition demo_viper :: viper where
  "demo_viper defaults files = Inr defaults"

text \<open>Project \<open>j\<close> with the pool of codex and claude.\<close>

definition demo_pool_store :: store where
  "demo_pool_store = snd (ApplyProjectConfig ''j''
     [(''providers'', json_encode (JsonArray [JsonString ''codex'', JsonString ''claude'']))] []
     (snd (UserScopeProjectID ''u'' demo_project)))"

definition demo_pool :: pool where
  "demo_pool = \<lparr>nextByProject = (\<lambda>_. 1), cooldowns = NewProviderCooldowns (\<lambda>_. 0)\<rparr>"





definition demo_selection :: json_value where
  "demo_selection = JsonArray [JsonString ''codex'', JsonString ''claude'']"

lemma demo_pool_rows:
  "owner_of userScopeFingerprint demo_pool_store = Some ''u''"
  "config_values ''u'' demo_pool_store = []"
  "config_values ''j'' demo_pool_store = [(''providers'', json_encode demo_selection)]"
  by code_simp+

lemma demo_selection_read: "json_parse (json_encode demo_selection) = Some demo_selection"
proof (rule parse_encode)
  show "value_ok demo_selection" by code_simp
  show "nesting demo_selection \<le> json_max_nesting" by code_simp
qed

lemma any_selection: "any_of_json demo_selection = SliceValue [StringValue ''codex'', StringValue ''claude'']"
  by (simp add: demo_selection_def)

lemma demo_pool_ready:
  "scope_ready demo_pool_store"
  "fst (resolveProviderNames demo_viper [] ''j'' demo_pool_store) = Inr ([''codex'', ''claude''], True)"
  "fst (resolveProviderConfigs demo_viper [] ''j'' demo_pool_store) = Inr []"
  "fst (resolveProviderTimeouts demo_viper [] ''j'' demo_pool_store) = Inr ([], [])"
proof -
  let ?layer = "[(''providers'', SliceValue [StringValue ''codex'', StringValue ''claude''])]"
  show ready: "scope_ready demo_pool_store" by (simp add: scope_ready_def demo_pool_rows)
  have load: "loadSourceConfig (Some (StoreConfigSource [])) ''u'' demo_pool_store = Inr []"
    "loadSourceConfig (Some (StoreConfigSource [])) ''j'' demo_pool_store = Inr ?layer"
    using demo_selection_read
    by (simp_all only: loadSourceConfig_def StoreConfigSource_def demo_pool_rows decodeConfigValue_def decodeConfigValues.simps
        option.case sum.case fst_conv snd_conv ConfigSource.simps any_selection)
  have user: "ResolveUser demo_viper [] [] [] demo_pool_store = (Inr \<lparr>uc_Values = [], uc_Projects = []\<rparr>, demo_pool_store)"
    using scope_ready_found [OF ready, of "[]"] load(1)
    by (simp add: ResolveUser_def ResolveUserFrom_def demo_pool_rows demo_viper_def extractProjectsStanza_def StoreConfigSource_def)
  have project: "ResolveProjectsFrom (Some (StoreConfigSource [])) \<lparr>uc_Values = [], uc_Projects = []\<rparr> ''j'' demo_pool_store =
      Inr \<lparr>pc_Values = ?layer\<rparr>"
    by (simp add: ResolveProjectsFrom_def load)
  have texts: "stringValue (StringValue ''codex'') = Some ''codex''" "stringValue (StringValue ''claude'') = Some ''claude''"
    by (simp_all add: stringValue_def TrimSpace_printable printable_def)
  have valid: "validateProviderNames [''codex'', ''claude''] = None" by code_simp
  have pool: "providerSelectionFromValues ?layer = Inr (Some [''codex'', ''claude''])"
    by (simp add: providerSelectionFromValues_def stringSliceValue_def texts valid providersConfigKey_def providerConfigKey_def
        del: validateProviderNames.simps)
  show "fst (resolveProviderNames demo_viper [] ''j'' demo_pool_store) = Inr ([''codex'', ''claude''], True)"
    by (simp add: resolveProviderNames_def with_layers_def user resolveProviderNamesFromUserConfigSource_def project pool)
  have "provider_configs \<lparr>uc_Values = [], uc_Projects = []\<rparr> \<lparr>pc_Values = ?layer\<rparr> = []" by code_simp
  then show "fst (resolveProviderConfigs demo_viper [] ''j'' demo_pool_store) = Inr []"
    by (simp add: resolveProviderConfigs_def with_layers_def user ResolveProjects_def project)
  have "layered_timeouts \<lparr>uc_Values = [], uc_Projects = []\<rparr> \<lparr>pc_Values = ?layer\<rparr> = Inr ([], [])" by code_simp
  then show "fst (resolveProviderTimeouts demo_viper [] ''j'' demo_pool_store) = Inr ([], [])"
    by (simp add: resolveProviderTimeouts_def with_layers_def user ResolveProjects_def project)
qed


theorem pool_dispatches_evenly_witness:
  "mset (dispatch_names demo_viper ''j'' 4 demo_pool_store demo_pool) = repeat_mset 2 {#''codex'', ''claude''#}"
proof -
  have "entries (cooldowns demo_pool) = []" "nextByProject demo_pool ''j'' = 1"
    by (simp_all add: demo_pool_def NewProviderCooldowns_def)
  then show ?thesis
    using pool_dispatches_evenly [OF demo_pool_ready(1,2) _ demo_pool_ready(3,4), of demo_pool 2]
    by (simp add: add_mset_commute)
qed



text \<open>When every member is cooling down, the provider that expires first is dispatched at once, even one that
  the project has not selected.\<close>

lemma earliest_may_be_foreign:
  "fst (cool_filter ([''codex'', ''opencode''], True)
     \<lparr>entries = [(''codex'', \<lparr>expiry = 30, consecutiveFailures = 1\<rparr>), (''opencode'', \<lparr>expiry = 20, consecutiveFailures = 1\<rparr>),
        (''claude'', \<lparr>expiry = 10, consecutiveFailures = 1\<rparr>)], nowAt = (\<lambda>_. 0), readings = 0\<rparr>) = ([''claude''], False)"
  by code_simp

end
