(* ===== verification/Config_Init.thy ===== *)
theory Config_Init
  imports Provider_Pool
begin

text \<open>
  The configuration step of \<open>--init\<close> (\<open>cmd/radioactive_ralph/init_cmd.go\<close>): a project file is merged into the
  stored configuration of the project, the keys that disagree with it left out unless
  \<open>--force-override\<close> is given.  It works on any source of configuration.  The notices it prints are the
  conflicts it returns.
\<close>

datatype init_error =
    InitConfigError config_error
  | InitSelectionError selection_error
  | InitMissingConfig string

definition encodeProjectConfigValues :: "layer \<Rightarrow> config_error + (string \<times> string) list" where
  "encodeProjectConfigValues values = encode_values values"

text \<open>The keys of the file that compete with stored ones: a provider selection always replaces the stored
  one.\<close>

definition conflict_input :: "layer \<Rightarrow> bool \<Rightarrow> layer" where
  "conflict_input incoming selectionFound = (if selectionFound then AList.delete providersConfigKey incoming else incoming)"

definition init_overlay :: "ProjectConfig \<Rightarrow> layer \<Rightarrow> bool \<Rightarrow> bool \<Rightarrow> layer \<times> Conflict list" where
  "init_overlay projectsCfg incoming selectionFound forceOverride =
    (let conflicts = DiffConflicts projectsCfg (conflict_input incoming selectionFound) in
     if length conflicts > 0 \<and> \<not> forceOverride then (AutoRemove incoming conflicts, conflicts) else (incoming, conflicts))"

definition validateProjectConfig ::
  "viper \<Rightarrow> string \<Rightarrow> string \<Rightarrow> string \<Rightarrow> bool \<Rightarrow> 's ConfigSource \<Rightarrow> ident \<Rightarrow> 's \<Rightarrow> (init_error + Conflict list) \<times> 's" where
  "validateProjectConfig viper configFile userConfigFile projectConfigFile forceOverride src projectID s =
    (case ResolveUserFrom viper (Some src) configFile userConfigFile s of
       (Inl e, s1) \<Rightarrow> (Inl (InitConfigError e), s1)
     | (Inr userCfg, s1) \<Rightarrow>
         (case ResolveProjectsFrom (Some src) userCfg projectID s1 of
            Inl e \<Rightarrow> (Inl (InitConfigError e), s1)
          | Inr projectsCfg \<Rightarrow>
              if projectConfigFile = [] then
                (case EffectiveProjectFrom viper (Some src) projectsCfg projectID [] ModeChange s1 of
                   (Inl e, s2) \<Rightarrow> (Inl (InitConfigError e), s2)
                 | (Inr effective, s2) \<Rightarrow>
                     (case resolveProviderNamesFromUserConfigSource (Some src) userCfg projectID s2 of
                        Inl e \<Rightarrow> (Inl (InitSelectionError e), s2)
                      | Inr _ \<Rightarrow>
                          (let missing = Validate effective [] in
                           if length missing > 0 then (Inl (InitMissingConfig (FormatMissing missing)), s2) else (Inr [], s2))))
              else
                (case LoadFileValues viper projectConfigFile of
                   Inl e \<Rightarrow> (Inl (InitConfigError e), s1)
                 | Inr raw \<Rightarrow>
                     (case normalizeIncomingProviderSelection raw of
                        Inl e \<Rightarrow> (Inl (InitSelectionError e), s1)
                      | Inr (incoming, selectionFound) \<Rightarrow>
                          (let (overlay, conflicts) = init_overlay projectsCfg incoming selectionFound forceOverride;
                               base = (if selectionFound
                                 then \<lparr>pc_Values = AList.delete providerConfigKey (pc_Values projectsCfg)\<rparr> else projectsCfg) in
                           case EffectiveProjectFromValuesFrom (Some src) base projectID overlay ModeOverride s1 of
                             (Inl e, s2) \<Rightarrow> (Inl (InitConfigError e), s2)
                           | (Inr effective, s2) \<Rightarrow>
                               (case encodeProjectConfigValues overlay of
                                  Inl e \<Rightarrow> (Inl (InitConfigError e), s2)
                                | Inr pendingUpserts \<Rightarrow>
                                    (case (if selectionFound then Inr ([], False)
                                           else resolveProviderNamesFromUserConfigSource (Some src) userCfg projectID s2) of
                                       Inl e \<Rightarrow> (Inl (InitSelectionError e), s2)
                                     | Inr _ \<Rightarrow>
                                         (let missing = Validate effective [];
                                              pendingDeletes = (if selectionFound then [providerConfigKey] else []) in
                                          if length missing > 0 then (Inl (InitMissingConfig (FormatMissing missing)), s2)
                                          else case ApplyProjectConfigValues src projectID pendingUpserts pendingDeletes s2 of
                                                 (Inl e, s3) \<Rightarrow> (Inl (InitConfigError e), s3)
                                               | (Inr _, s3) \<Rightarrow> (Inr conflicts, s3)))))))))"

end
