(* ===== verification/Config_Init_Laws.thy ===== *)
theory Config_Init_Laws
  imports Config_Init Provider_Choice_Laws
begin

text \<open>
  What \<open>--init\<close> guarantees: without \<open>--force-override\<close> the stored values it disagrees with survive, every
  other key of the file is stored, and an attempt that fails has changed no stored value.
\<close>

lemma auto_remove_lookup:
  "map_of (AutoRemove incoming conflicts) k = (if k \<in> co_Key ` set conflicts then None else map_of incoming k)"
  unfolding AutoRemove_def by (induction conflicts arbitrary: incoming) (auto simp: delete_conv')

lemma auto_remove_distinct: "distinct (map fst incoming) \<Longrightarrow> distinct (map fst (AutoRemove incoming conflicts))"
  unfolding AutoRemove_def by (induction conflicts arbitrary: incoming) (auto simp: distinct_delete)

lemma conflict_keys:
  assumes "distinct (map fst incoming)"
  shows "k \<in> co_Key ` set (DiffConflicts stored incoming) \<longleftrightarrow>
    (\<exists>v w. map_of incoming k = Some v \<and> map_of (pc_Values stored) k = Some w \<and> \<not> DeepEqual w v)"
proof -
  have "k \<in> co_Key ` set (DiffConflicts stored incoming) \<longleftrightarrow>
    (\<exists>v w. (k, v) \<in> set incoming \<and> map_of (pc_Values stored) k = Some w \<and> \<not> DeepEqual w v)"
    by (force simp: DiffConflicts_def map_filter_def image_iff split: option.splits if_splits)
  then show ?thesis using assms by (simp add: map_of_eq_Some_iff)
qed

lemma overlay_lookup:
  assumes "distinct (map fst incoming)"
  shows "map_of (fst (init_overlay cfg incoming found False)) k =
    (case map_of incoming k of
       None \<Rightarrow> None
     | Some v \<Rightarrow>
         if \<not> (found \<and> k = providersConfigKey) \<and> (\<exists>w. map_of (pc_Values cfg) k = Some w \<and> \<not> DeepEqual w v) then None else Some v)"
    and "distinct (map fst (fst (init_overlay cfg incoming found forced)))"
proof -
  have d: "distinct (map fst (conflict_input incoming found))" using assms by (simp add: conflict_input_def distinct_delete)
  have ci: "map_of (conflict_input incoming found) k = (if found \<and> k = providersConfigKey then None else map_of incoming k)"
    by (simp add: conflict_input_def delete_conv')
  note keys = conflict_keys [OF d, of k cfg, unfolded ci]
  show "map_of (fst (init_overlay cfg incoming found False)) k =
    (case map_of incoming k of
       None \<Rightarrow> None
     | Some v \<Rightarrow>
         if \<not> (found \<and> k = providersConfigKey) \<and> (\<exists>w. map_of (pc_Values cfg) k = Some w \<and> \<not> DeepEqual w v) then None else Some v)"
  proof (cases "DiffConflicts cfg (conflict_input incoming found) = []")
    case True
    then show ?thesis using keys by (auto simp: init_overlay_def split: option.split)
  next
    case False
    then show ?thesis using keys by (auto simp: init_overlay_def auto_remove_lookup Let_def split: option.split if_splits)
  qed
  show "distinct (map fst (fst (init_overlay cfg incoming found forced)))"
    using assms auto_remove_distinct by (simp add: init_overlay_def Let_def)
qed

lemma normalized_distinct:
  assumes "normalizeIncomingProviderSelection raw = Inr (incoming, found)" "distinct (map fst raw)"
  shows "distinct (map fst incoming)"
  using assms by (auto simp: normalizeIncomingProviderSelection_def distinct_update distinct_delete split: sum.splits option.splits)

context config_source begin

text \<open>The steps of a successful run with a file.\<close>

lemma init_steps:
  assumes run: "validateProjectConfig viper c u f forced source p s = (Inr conflicts, s')" and given: "f \<noteq> []"
  obtains userCfg s1 cfg raw incoming found ups where
    "ResolveUserFrom viper (Some source) c u s = (Inr userCfg, s1)"
    "ResolveProjectsFrom (Some source) userCfg p s1 = Inr cfg"
    "LoadFileValues viper f = Inr raw" "normalizeIncomingProviderSelection raw = Inr (incoming, found)"
    "encode_values (fst (init_overlay cfg incoming found forced)) = Inr ups"
    "ApplyProjectConfigValues source p ups (if found then [providerConfigKey] else []) s1 = (Inr (), s')"
    "conflicts = snd (init_overlay cfg incoming found forced)"
proof -
  obtain r1 s1 where user: "ResolveUserFrom viper (Some source) c u s = (r1, s1)" by fastforce
  obtain userCfg where 1: "r1 = Inr userCfg" using run user by (cases r1) (simp_all add: validateProjectConfig_def)
  obtain cfg where 2: "ResolveProjectsFrom (Some source) userCfg p s1 = Inr cfg"
    using run user 1 by (cases "ResolveProjectsFrom (Some source) userCfg p s1") (simp_all add: validateProjectConfig_def)
  obtain raw where 3: "LoadFileValues viper f = Inr raw"
    using run user 1 2 given by (cases "LoadFileValues viper f") (simp_all add: validateProjectConfig_def)
  obtain incoming found where 4: "normalizeIncomingProviderSelection raw = Inr (incoming, found)"
    using run user 1 2 3 given by (cases "normalizeIncomingProviderSelection raw") (auto simp: validateProjectConfig_def)
  let ?o = "init_overlay cfg incoming found forced"
  obtain overlay cs where o: "?o = (overlay, cs)" by fastforce
  note body = run [unfolded validateProjectConfig_def user 1 prod.case sum.case 2 3 4 o Let_def if_not_P [OF given]]
  obtain ups where 5: "encode_values overlay = Inr ups"
    using body by (cases "encode_values overlay") (simp_all add: EffectiveProjectFromValuesFrom_def encodeProjectConfigValues_def)
  let ?dels = "if found then [providerConfigKey] else []"
  obtain r3 s3 where 6: "ApplyProjectConfigValues source p ups ?dels s1 = (r3, s3)" by fastforce
  have "Validate cfg' [] = []" for cfg' by (simp add: Validate_def map_filter_def)
  then have "r3 = Inr () \<and> s3 = s' \<and> conflicts = cs"
    using body 5 6 by (cases r3) (auto simp: EffectiveProjectFromValuesFrom_def encodeProjectConfigValues_def split: sum.splits if_splits)
  then show thesis using that [OF _ 2 3 4] user 1 5 6 o by simp
qed

lemma init_exact:
  assumes run: "validateProjectConfig viper c u f False source p s = (Inr conflicts, s')" and given: "f \<noteq> []"
    and user: "ResolveUserFrom viper (Some source) c u s = (Inr userCfg, s1)" "map_of (uc_Projects userCfg) p = None"
    and load: "viper [] [f] = Inr raw" "distinct (map fst raw)"
    and norm: "normalizeIncomingProviderSelection raw = Inr (incoming, found)"
  shows "read q s' k =
    (if q \<noteq> p then read q s k
     else case map_of incoming k of
       None \<Rightarrow> if found \<and> k = providerConfigKey then None else read p s k
     | Some v \<Rightarrow>
         (case read p s k of
            Some t \<Rightarrow> if \<not> (found \<and> k = providersConfigKey) \<and> \<not> DeepEqual (any_of_json (the (json_parse t))) v
                then Some t else Some (json_encode (json_of_any v))
          | None \<Rightarrow> Some (json_encode (json_of_any v))))"
proof -
  obtain userCfg' s1' cfg raw' incoming' found' ups where st:
    "ResolveUserFrom viper (Some source) c u s = (Inr userCfg', s1')"
    "ResolveProjectsFrom (Some source) userCfg' p s1' = Inr cfg"
    "LoadFileValues viper f = Inr raw'" "normalizeIncomingProviderSelection raw' = Inr (incoming', found')"
    "encode_values (fst (init_overlay cfg incoming' found' False)) = Inr ups"
    "ApplyProjectConfigValues source p ups (if found' then [providerConfigKey] else []) s1' = (Inr (), s')"
    by (rule init_steps [OF run given])
  have eqs: "userCfg' = userCfg" "s1' = s1" "incoming' = incoming" "found' = found"
    using st(1,3,4) user(1) load(1) norm by (auto simp: LoadFileValues_def)
  note steps = st(2,5,6) [unfolded eqs]
  have d: "distinct (map fst incoming)" by (rule normalized_distinct [OF norm load(2)])
  note e = encoded_lookup [OF steps(2), of k]
  have du: "distinct (map fst ups)" using e overlay_lookup(2) [OF d] by simp
  have same: "read q s1 = read q s" for q using scope_settles [OF user(1)] .
  note after = applied [OF steps(3) du, of q, unfolded same]
  have layer: "loadSourceConfig (Some source) p s1 = Inr (pc_Values cfg)"
    using steps(1) user(2) by (auto simp: ResolveProjectsFrom_def split: sum.splits)
  have stored: "map_of (pc_Values cfg) k = map_option (\<lambda>t. any_of_json (the (json_parse t))) (read p s k)"
    using load_lookup [OF layer, of k] load_readable [OF layer, of k] same [of p] by (auto split: option.splits)
  have gone: "found \<Longrightarrow> map_of incoming providerConfigKey = None"
    using norm by (auto simp: normalizeIncomingProviderSelection_def update_conv' delete_conv' providersConfigKey_def
        providerConfigKey_def split: sum.splits option.splits)
  show ?thesis
    using after gone e overlay_lookup(1) [OF d, of cfg found k, unfolded stored]
    by (cases "map_of incoming k"; cases "read p s k") (auto simp: map_add_def restrict_map_def split: if_splits)
qed

lemma init_failure:
  assumes "validateProjectConfig viper c u f forced source p s = (Inl e, s')"
  shows "read q s' = read q s"
proof -
  obtain r1 s1 where user: "ResolveUserFrom viper (Some source) c u s = (r1, s1)" by fastforce
  have same: "read q s1 = read q s" by (rule scope_settles [OF user])
  have "s' = s1"
    using assms refused
    by (auto simp: validateProjectConfig_def user EffectiveProjectFrom_def EffectiveProjectFromValuesFrom_def Let_def
        split: sum.splits prod.splits if_splits)
  then show ?thesis using same by simp
qed

end

section \<open>On the database\<close>


theorem failed_init_changes_nothing:
  "validateProjectConfig viper c u f forced (StoreConfigSource rowID) p s = (Inl e, s') \<Longrightarrow> GetProjectConfig q s' = GetProjectConfig q s"
  by (rule database.init_failure)




end
