(* ===== verification/Sup_State.thy ===== *)
theory Sup_State
  imports Orch_Turn Plan_Parse Config_Layers
begin

text \<open>
  The supervisor (\<open>internal/supervisor\<close>): the one process that owns the database and the orchestrator.  Its
  state is the orchestrator, its own session, the cursor of the dispatch rotation, the stop verifications
  in flight and the registry of running workers.  Requests of clients are the handlers of
  \<open>drive.go\<close>, \<open>project.go\<close>, \<open>config.go\<close>, \<open>calibration.go\<close> and \<open>supervisor.go\<close>; their argument and reply records
  are those of \<open>internal/ipc/protocol.go\<close>.
\<close>

section \<open>State\<close>

record hookRunKey =
  hk_SessionID :: ident
  hk_PlanID :: ident
  hk_TaskID :: ident

text \<open>\<open>hook_checks\<close> are the goroutines of \<open>VerifyStopAsync\<close> that have not called back, \<open>running_workers\<close> the
  registry that \<open>KillWorker\<close> looks up, \<open>cancelled_runs\<close> the runs whose context it has cancelled.\<close>

record 'r sup =
  sup_orch :: "'r orch"
  sup_session :: ident
  sup_started :: nanos
  dispatchCursor :: nat
  hookRuns :: "hookRunKey list"
  hook_checks :: "hookRunKey list"
  running_workers :: "ident list"
  cancelled_runs :: "ident list"
  stop_requested :: bool
  sup_fresh :: nat

text \<open>What lies outside: the orchestrator's environment, the markdown parser, the digest of calibrations, the
  identifier supply.\<close>

record 'r sup_cfg =
  sc_orch :: "'r cfg"
  sc_markdown :: markdown
  sc_digest :: "string list \<Rightarrow> ident"
  sc_uuid :: "nat \<Rightarrow> ident"

datatype sup_cause =
    Message string
  | BadMarkdown import_refusal
  | StoreCause string store_error
  | ImportCause string import_error
  | ConfigCause string config_error
  | BadStatus string

text \<open>An error without a class, and \<open>codedError\<close> with its class.\<close>

datatype sup_error = Plain sup_cause | Coded string sup_cause

definition CodeNotFound :: string where "CodeNotFound = ''not_found''"
definition CodeConflict :: string where "CodeConflict = ''conflict''"
definition CodeInvalidArgs :: string where "CodeInvalidArgs = ''invalid_args''"

type_synonym ('r, 'a) handler = "'r sup \<Rightarrow> (sup_error + 'a) \<times> 'r sup"

abbreviation sup_db :: "'r sup \<Rightarrow> store" where
  "sup_db s \<equiv> db (sup_orch s)"

definition with_db :: "store \<Rightarrow> 'r sup \<Rightarrow> 'r sup" where
  "with_db st s = s\<lparr>sup_orch := (sup_orch s)\<lparr>db := st\<rparr>\<rparr>"

definition run_store :: "'a op \<Rightarrow> 'r sup \<Rightarrow> (store_error + 'a) \<times> 'r sup" where
  "run_store m s = (case m (sup_db s) of (r, st) \<Rightarrow> (r, with_db st s))"

text \<open>The error of the operation is logged and dropped.\<close>

definition run_quietly :: "'a op \<Rightarrow> 'r sup \<Rightarrow> 'r sup" where
  "run_quietly m s = with_db (snd (m (sup_db s))) s"

definition next_uuid :: "'r sup_cfg \<Rightarrow> 'r sup \<Rightarrow> ident \<times> 'r sup" where
  "next_uuid c s = (sc_uuid c (sup_fresh s), s\<lparr>sup_fresh := Suc (sup_fresh s)\<rparr>)"

definition refuse :: "string \<Rightarrow> ('r, 'a) handler" where
  "refuse msg s = (Inl (Coded CodeInvalidArgs (Message msg)), s)"

lemma with_db_simps [simp]:
  "sup_db (with_db st s) = st" "hookRuns (with_db st s) = hookRuns s" "hook_checks (with_db st s) = hook_checks s"
  "sup_session (with_db st s) = sup_session s" "dispatchCursor (with_db st s) = dispatchCursor s"
  "running_workers (with_db st s) = running_workers s" "cancelled_runs (with_db st s) = cancelled_runs s"
  "sup_orch (with_db st s) = (sup_orch s)\<lparr>db := st\<rparr>"
  by (simp_all add: with_db_def)

section \<open>The dispatch pass\<close>

definition maxEnqueueDispatchPlans :: nat where "maxEnqueueDispatchPlans = 50"

definition staleAfter90s :: nanos where "staleAfter90s = 90000000000"

text \<open>The plans of a pass and the cursor after it.\<close>

definition dispatch_window :: "nat \<Rightarrow> 'p list \<Rightarrow> 'p list" where
  "dispatch_window cursor ps =
    (let start = cursor mod length ps in
     map (\<lambda>i. ps ! ((start + i) mod length ps)) [0..<min (length ps) maxEnqueueDispatchPlans])"

definition next_cursor :: "nat \<Rightarrow> nat \<Rightarrow> nat" where
  "next_cursor cursor n = (if n > 0 then (cursor mod n + min n maxEnqueueDispatchPlans) mod n else cursor)"

text \<open>A plan whose dispatch fails is logged and skipped.\<close>

fun dispatch_plans :: "'r cfg \<Rightarrow> Plan list \<Rightarrow> nat \<Rightarrow> 'r orch \<Rightarrow> nat \<times> 'r orch" where
  "dispatch_plans c [] n_started o' = (n_started, o')"
| "dispatch_plans c (p # ps) n_started o' = (case DispatchNext c (Plan_ProjectID p) (Plan_ID p) o' of
     ((n, Some _), o1) \<Rightarrow> dispatch_plans c ps n_started o1
   | ((n, None), o1) \<Rightarrow> dispatch_plans c ps (n_started + n) o1)"

definition active_plans :: "store \<Rightarrow> Plan list" where
  "active_plans st = ListPlans [] [PlanStatusActive] st"

definition dispatchActivePlans :: "'r sup_cfg \<Rightarrow> 'r sup \<Rightarrow> nat \<times> 'r sup" where
  "dispatchActivePlans c s =
    (let active = active_plans (sup_db s) in
     case dispatch_plans (sc_orch c) (dispatch_window (dispatchCursor s) active) 0 (sup_orch s) of
       (n_started, o1) \<Rightarrow> (n_started, s\<lparr>sup_orch := o1, dispatchCursor := next_cursor (dispatchCursor s) (length active)\<rparr>))"

definition sup_tick :: "'r sup_cfg \<Rightarrow> 'r sup \<Rightarrow> 'r sup" where
  "sup_tick c s =
    (let s1 = run_quietly (ReclaimStale staleAfter90s) s;
         s2 = run_quietly (HeartbeatSession (sup_session s1)) s1
     in snd (dispatchActivePlans c s2))"

text \<open>\<open>shutdown\<close> once the goroutines of the orchestrator are drained.\<close>

definition sup_shutdown :: "'r sup \<Rightarrow> 'r sup" where
  "sup_shutdown s = run_quietly (CloseSession (sup_session s)) s"

section \<open>Status, enqueue, stop\<close>

record WorkerSummary =
  ws_WorkerID :: ident
  ws_PlanID :: ident
  ws_TaskID :: ident
  ws_Provider :: string

text \<open>The time of the last event and the age of the heartbeat, which nothing sets, are left out.\<close>

record StatusReply =
  sr_ProtoVersion :: int
  sr_Uptime :: nanos
  sr_ActiveWorkers :: nat
  sr_ReadyTasks :: nat
  sr_ApprovalTasks :: nat
  sr_BlockedTasks :: nat
  sr_RunningTasks :: nat
  sr_FailedTasks :: nat
  sr_ActivePlans :: nat
  sr_Workers :: "WorkerSummary list"

definition ProtoVersion :: int where "ProtoVersion = 5"

definition HandleStatus :: "('r, StatusReply) handler" where
  "HandleStatus s =
    (let running = ListRunningWorkers (sup_db s); counts = StatusCounts_of (sup_db s) in
     (Inr \<lparr>sr_ProtoVersion = ProtoVersion, sr_Uptime = clock (sup_db s) - sup_started s, sr_ActiveWorkers = length running,
           sr_ReadyTasks = sc_Ready counts, sr_ApprovalTasks = sc_Approval counts, sr_BlockedTasks = sc_Blocked counts,
           sr_RunningTasks = sc_Running counts, sr_FailedTasks = sc_Failed counts, sr_ActivePlans = sc_ActivePlans counts,
           sr_Workers = map (\<lambda>w. \<lparr>ws_WorkerID = rw_ID w, ws_PlanID = rw_PlanID w, ws_TaskID = rw_TaskID w,
              ws_Provider = rw_Provider w\<rparr>) running\<rparr>, s))"

record EnqueueArgs =
  ea_TaskID :: ident
  ea_Description :: string
  ea_Priority :: int

record EnqueueReply =
  er_TaskID :: string
  er_Inserted :: bool

definition HandleEnqueue :: "'r sup_cfg \<Rightarrow> EnqueueArgs \<Rightarrow> ('r, EnqueueReply) handler" where
  "HandleEnqueue c args s = (case dispatchActivePlans c s of
     (n_started, s1) \<Rightarrow>
       (Inr \<lparr>er_TaskID = (if ea_TaskID args = [] then ''dispatched='' @ Itoa (int n_started) else ea_TaskID args),
             er_Inserted = (n_started > 0)\<rparr>, s1))"

definition HandleStop :: "('r, unit) handler" where
  "HandleStop s = (Inr (), s\<lparr>stop_requested := True\<rparr>)"

definition HandleReloadConfig :: "('r, unit) handler" where
  "HandleReloadConfig s = (Inr (), s)"

section \<open>The registry of running workers\<close>

definition registerWorker :: "ident \<Rightarrow> 'r sup \<Rightarrow> 'r sup" where
  "registerWorker workerID s = s\<lparr>running_workers := workerID # running_workers s\<rparr>"

definition deregister_worker :: "ident \<Rightarrow> 'r sup \<Rightarrow> 'r sup" where
  "deregister_worker workerID s = s\<lparr>running_workers := removeAll workerID (running_workers s)\<rparr>"

definition KillWorker :: "ident \<Rightarrow> 'r sup \<Rightarrow> bool \<times> 'r sup" where
  "KillWorker workerID s =
    (if workerID \<in> set (running_workers s) then (True, s\<lparr>cancelled_runs := workerID # cancelled_runs s\<rparr>) else (False, s))"

section \<open>Plans, tasks and workers\<close>

record PlanImportArgs =
  pia_Markdown :: string
  pia_Slug :: string
  pia_Title :: string
  pia_Project :: ident

record PlanImportReply =
  pir_PlanID :: ident
  pir_Slug :: string
  pir_Title :: string

text \<open>\<open>ValidateForImport\<close> followed by \<open>Parse\<close>, as \<open>ImportPlan\<close> of the orchestrator calls them.\<close>

definition import_parser :: "markdown \<Rightarrow> string \<Rightarrow> PlanDoc option" where
  "import_parser markdown md = (case ValidateForImport markdown md of
     Some _ \<Rightarrow> None | None \<Rightarrow> (case Parse markdown md of Inl _ \<Rightarrow> None | Inr doc \<Rightarrow> Some doc))"

definition isDuplicateSlug :: "import_error \<Rightarrow> bool" where
  "isDuplicateSlug e \<longleftrightarrow> e = ImportStoreError ErrDuplicateSlug"

definition HandlePlanImport :: "'r sup_cfg \<Rightarrow> PlanImportArgs \<Rightarrow> ('r, PlanImportReply) handler" where
  "HandlePlanImport c args s =
    (if pia_Project args = [] then refuse ''plan-import: project id required'' s
     else if pia_Markdown args = [] then refuse ''plan-import: markdown required'' s
     else case ValidateForImport (sc_markdown c) (pia_Markdown args) of
       Some bad \<Rightarrow> (Inl (Coded CodeInvalidArgs (BadMarkdown bad)), s)
     | None \<Rightarrow>
         (let title = (if pia_Title args = [] then Title (pia_Markdown args) ''plan'' else pia_Title args);
              slug = (if pia_Slug args = [] then Slug title else pia_Slug args);
              (planUUID, s0) = next_uuid c s
          in case ImportPlan (import_parser (sc_markdown c)) planUUID
                    \<lparr>ip_ProjectID = pia_Project args, ip_Slug = slug, ip_Title = title, ip_Markdown = pia_Markdown args\<rparr> (sup_db s0) of
               (Inl e, st) \<Rightarrow>
                 (Inl (if isDuplicateSlug e then Coded CodeConflict (ImportCause [] e)
                       else Plain (ImportCause ''supervisor: import plan'' e)), with_db st s0)
             | (Inr planID, st) \<Rightarrow> (Inr \<lparr>pir_PlanID = planID, pir_Slug = slug, pir_Title = title\<rparr>, with_db st s0)))"

record PlanSetStatusArgs =
  psa_PlanID :: ident
  psa_Status :: string

definition allowedPlanStatuses :: "string \<Rightarrow> PlanStatus option" where
  "allowedPlanStatuses st = (if st = ''paused'' then Some PlanStatusPaused else if st = ''active'' then Some PlanStatusActive
     else if st = ''abandoned'' then Some PlanStatusAbandoned else None)"

text \<open>The reply is the plan and the status written.\<close>

definition HandlePlanSetStatus :: "PlanSetStatusArgs \<Rightarrow> ('r, ident \<times> PlanStatus) handler" where
  "HandlePlanSetStatus args s =
    (if psa_PlanID args = [] then refuse ''plan-set-status: plan_id required'' s
     else case allowedPlanStatuses (psa_Status args) of
       None \<Rightarrow> (Inl (Coded CodeInvalidArgs (BadStatus (psa_Status args))), s)
     | Some target \<Rightarrow> (case run_store (SetPlanStatus (psa_PlanID args) target) s of
         (Inl e, s1) \<Rightarrow> (Inl (if e = ErrPlanNotFound then Coded CodeNotFound (StoreCause [] e)
                             else Plain (StoreCause ''supervisor: set plan status'' e)), s1)
       | (Inr _, s1) \<Rightarrow> (Inr (psa_PlanID args, target), s1)))"

definition kill_workers_of :: "ident \<Rightarrow> RunningWorker list \<Rightarrow> 'r sup \<Rightarrow> 'r sup" where
  "kill_workers_of planID = fold (\<lambda>w s. if rw_PlanID w = planID then snd (KillWorker (rw_ID w) s) else s)"

definition HandlePlanDelete :: "ident \<Rightarrow> ('r, ident) handler" where
  "HandlePlanDelete planID s =
    (if planID = [] then refuse ''plan-delete: plan_id required'' s
     else case run_store (DeletePlan planID) (kill_workers_of planID (ListRunningWorkers (sup_db s)) s) of
       (Inl e, s1) \<Rightarrow> (Inl (if e = ErrPlanNotFound then Coded CodeNotFound (StoreCause [] e)
                           else Plain (StoreCause ''supervisor: delete plan'' e)), s1)
     | (Inr _, s1) \<Rightarrow> (Inr planID, s1))"

record TaskApproveArgs =
  taa_PlanID :: ident
  taa_TaskID :: ident

definition HandleTaskApprove :: "TaskApproveArgs \<Rightarrow> ('r, unit) handler" where
  "HandleTaskApprove args s =
    (if taa_PlanID args = [] then refuse ''task-approve: plan_id required'' s
     else if taa_TaskID args = [] then refuse ''task-approve: task_id required'' s
     else case run_store (ApproveTask (taa_PlanID args) (taa_TaskID args)) s of
       (Inl e, s1) \<Rightarrow> (Inl (Plain (StoreCause ''supervisor: approve task'' e)), s1)
     | (Inr (found, _), s1) \<Rightarrow>
         if \<not> found then (Inl (Coded CodeNotFound (Message (''task '' @ taa_PlanID args @ ''/'' @ taa_TaskID args @ '' not found''))), s1)
         else (Inr (), s1))"

definition HandleWorkerKill :: "ident \<Rightarrow> ('r, unit) handler" where
  "HandleWorkerKill workerID s =
    (if workerID = [] then refuse ''worker-kill: worker_id required'' s
     else case run_store (ReclaimWorker workerID) (snd (KillWorker workerID s)) of
       (Inl e, s1) \<Rightarrow> (Inl (Plain (StoreCause ''supervisor: reclaim worker'' e)), s1)
     | (Inr found, s1) \<Rightarrow>
         if \<not> found then (Inl (Coded CodeNotFound (Message (''worker '' @ workerID @ '' not found''))), s1)
         else (Inr (), s1))"

section \<open>Projects and their configuration\<close>

record ProjectEnsureArgs =
  pea_Fingerprints :: "Fingerprint list"
  pea_DisplayName :: string
  pea_ResolveOnly :: bool

record ProjectEnsureReply =
  per_ProjectID :: ident
  per_Created :: bool

definition HandleProjectEnsure :: "'r sup_cfg \<Rightarrow> ProjectEnsureArgs \<Rightarrow> ('r, ProjectEnsureReply) handler" where
  "HandleProjectEnsure c args s =
    (let fps = pea_Fingerprints args in
     if fps = [] then refuse ''project-ensure: at least one fingerprint required'' s
     else if list_ex blank_fp fps then refuse ''project-ensure: fingerprint kind and value required'' s
     else case ResolveProject fps (sup_db s) of (projectID, found) \<Rightarrow>
       if pea_ResolveOnly args
       then (Inr \<lparr>per_ProjectID = (if found then projectID else []), per_Created = False\<rparr>, s)
       else if found then
         (case run_store (AddProjectIdentifiers projectID fps) s of
            (Inl e, s1) \<Rightarrow> (Inl (Plain (StoreCause ''supervisor: accumulate project identifiers'' e)), s1)
          | (Inr _, s1) \<Rightarrow> (case run_store (TouchProjectLastSeen projectID) s1 of
              (Inl e, s2) \<Rightarrow> (Inl (Plain (StoreCause ''supervisor: touch project'' e)), s2)
            | (Inr _, s2) \<Rightarrow> (Inr \<lparr>per_ProjectID = projectID, per_Created = False\<rparr>, s2)))
       else if pea_DisplayName args = [] then refuse ''project-ensure: display_name required to create a project'' s
       else (let (newID, s0) = next_uuid c s in
         case run_store (CreateProject newID (pea_DisplayName args) fps) s0 of
           (Inl e, s1) \<Rightarrow> (Inl (Plain (StoreCause ''supervisor: create project'' e)), s1)
         | (Inr created, s1) \<Rightarrow> (Inr \<lparr>per_ProjectID = created, per_Created = True\<rparr>, s1)))"

definition resolveConfigProject :: "'r sup_cfg \<Rightarrow> ident \<Rightarrow> bool \<Rightarrow> ('r, ident) handler" where
  "resolveConfigProject c projectID userScope s =
    (if userScope then
       (if projectID \<noteq> [] then refuse ''project config: user_scope and an explicit project id are mutually exclusive'' s
        else let (newID, s0) = next_uuid c s in
          case UserScopeProjectID newID (sup_db s0) of
            (Inl e, st) \<Rightarrow> (Inl (Plain (ConfigCause ''supervisor: resolve user-scope project'' e)), with_db st s0)
          | (Inr i, st) \<Rightarrow> (Inr i, with_db st s0))
     else if projectID = [] then refuse ''project config: project id required'' s
     else (Inr projectID, s))"

text \<open>The reply is the rows of the project and its id.\<close>

definition HandleProjectConfigGet :: "'r sup_cfg \<Rightarrow> ident \<Rightarrow> bool \<Rightarrow> ('r, (string \<times> string) list \<times> ident) handler" where
  "HandleProjectConfigGet c project userScope s = (case resolveConfigProject c project userScope s of
     (Inl e, s1) \<Rightarrow> (Inl e, s1)
   | (Inr projectID, s1) \<Rightarrow> (Inr (config_values projectID (sup_db s1), projectID), s1))"

record ProjectConfigApplyArgs =
  pca_Project :: ident
  pca_UserScope :: bool
  pca_Upserts :: "(string \<times> string) list"
  pca_DeleteKeys :: "string list"

definition HandleProjectConfigApply :: "'r sup_cfg \<Rightarrow> ProjectConfigApplyArgs \<Rightarrow> ('r, unit) handler" where
  "HandleProjectConfigApply c args s =
    (if pca_Upserts args = [] \<and> pca_DeleteKeys args = [] then refuse ''project-config-apply: nothing to apply'' s
     else case resolveConfigProject c (pca_Project args) (pca_UserScope args) s of
       (Inl e, s1) \<Rightarrow> (Inl e, s1)
     | (Inr projectID, s1) \<Rightarrow> (case run_store (ApplyProjectConfig projectID (pca_Upserts args) (pca_DeleteKeys args)) s1 of
         (Inl e, s2) \<Rightarrow> (Inl (Plain (StoreCause ''supervisor: apply project config'' e)), s2)
       | (Inr _, s2) \<Rightarrow> (Inr (), s2)))"

section \<open>Calibrations\<close>

record CalibrationRecord =
  cr_Alias :: string
  cr_Provider :: string
  cr_Model :: string
  cr_Effort :: string
  cr_BinaryPath :: string
  cr_BinaryVersion :: string
  cr_BinarySHA256 :: string
  cr_InvocationHash :: string
  cr_InferenceDomain :: string
  cr_ControlDomain :: string
  cr_IndependenceDomain :: string
  cr_ModelDigest :: string
  cr_CapabilitiesJSON :: string
  cr_EvidenceJSON :: string

definition calibrationFromWire :: "CalibrationRecord \<Rightarrow> ProviderCalibration" where
  "calibrationFromWire r = \<lparr>pc_ID = [], pc_Alias = cr_Alias r, pc_Provider = cr_Provider r, pc_Model = cr_Model r,
     pc_Effort = cr_Effort r, pc_BinaryPath = cr_BinaryPath r, pc_BinaryVersion = cr_BinaryVersion r,
     pc_BinarySHA256 = cr_BinarySHA256 r, pc_InvocationHash = cr_InvocationHash r, pc_InferenceDomain = cr_InferenceDomain r,
     pc_ControlDomain = cr_ControlDomain r, pc_IndependenceDomain = cr_IndependenceDomain r,
     pc_ModelDigest = cr_ModelDigest r, pc_CapabilitiesJSON = cr_CapabilitiesJSON r, pc_EvidenceJSON = cr_EvidenceJSON r\<rparr>"

definition calibrationToWire :: "ProviderCalibration \<Rightarrow> CalibrationRecord" where
  "calibrationToWire v = \<lparr>cr_Alias = pc_Alias v, cr_Provider = pc_Provider v, cr_Model = pc_Model v,
     cr_Effort = pc_Effort v, cr_BinaryPath = pc_BinaryPath v, cr_BinaryVersion = pc_BinaryVersion v,
     cr_BinarySHA256 = pc_BinarySHA256 v, cr_InvocationHash = pc_InvocationHash v, cr_InferenceDomain = pc_InferenceDomain v,
     cr_ControlDomain = pc_ControlDomain v, cr_IndependenceDomain = pc_IndependenceDomain v,
     cr_ModelDigest = pc_ModelDigest v, cr_CapabilitiesJSON = pc_CapabilitiesJSON v, cr_EvidenceJSON = pc_EvidenceJSON v\<rparr>"

definition is_calibration_conflict :: "store_error \<Rightarrow> bool" where
  "is_calibration_conflict e = (case e of ErrCalibrationConflict _ \<Rightarrow> True | _ \<Rightarrow> False)"

text \<open>The reply is the content address.\<close>

definition HandleCalibrationPut :: "'r sup_cfg \<Rightarrow> CalibrationRecord \<Rightarrow> ('r, ident) handler" where
  "HandleCalibrationPut c r s =
    (if cr_Alias r = [] then refuse ''calibration-put: alias required'' s
     else if cr_Provider r = [] then refuse ''calibration-put: provider required'' s
     else if cr_InvocationHash r = [] then refuse ''calibration-put: invocation hash required'' s
     else case run_store (RecordCalibration (sc_digest c) (calibrationFromWire r)) s of
       (Inl e, s1) \<Rightarrow> (Inl (if is_calibration_conflict e then Coded CodeConflict (StoreCause [] e)
                           else Plain (StoreCause ''supervisor: record calibration'' e)), s1)
     | (Inr recorded, s1) \<Rightarrow> (Inr (pc_ID recorded), s1))"

definition HandleCalibrationList :: "('r, CalibrationRecord list) handler" where
  "HandleCalibrationList s = (Inr (map calibrationToWire (ListCalibrations (sup_db s))), s)"

end
