(* ===== verification/Sup_Hooks.thy ===== *)
theory Sup_Hooks
  imports Sup_State
begin

text \<open>
  The signal plane of managed providers (\<open>internal/supervisor/hooks.go\<close>): a provider that works for the
  supervisor reports tool use and asks to stop.  A stop is allowed when the acceptance of every task of
  the session has been verified; the verification runs in a goroutine of its own, so the first request is
  always refused.
\<close>

definition hookAdapters :: "string list" where
  "hookAdapters = [''claude'', ''codex'', ''opencode'']"

definition HookEventPostToolUse :: string where "HookEventPostToolUse = ''PostToolUse''"
definition HookEventStop :: string where "HookEventStop = ''Stop''"

record HookEventArgs =
  ha_Adapter :: string
  ha_Event :: string
  ha_SessionID :: ident

record HookEventReply =
  hr_Allow :: bool
  hr_Reason :: string

definition hook_reply :: "bool \<Rightarrow> string \<Rightarrow> HookEventReply" where
  "hook_reply allow reason = \<lparr>hr_Allow = allow, hr_Reason = reason\<rparr>"

definition hook_key :: "ident \<Rightarrow> HookTask \<Rightarrow> hookRunKey" where
  "hook_key sessionID task = \<lparr>hk_SessionID = sessionID, hk_PlanID = ht_PlanID task, hk_TaskID = ht_TaskID task\<rparr>"

definition claimHookRun :: "hookRunKey \<Rightarrow> 'r sup \<Rightarrow> bool \<times> 'r sup" where
  "claimHookRun key s = (if key \<in> set (hookRuns s) then (False, s) else (True, s\<lparr>hookRuns := key # hookRuns s\<rparr>))"

definition releaseHookRun :: "hookRunKey \<Rightarrow> 'r sup \<Rightarrow> 'r sup" where
  "releaseHookRun key s = s\<lparr>hookRuns := removeAll key (hookRuns s)\<rparr>"

section \<open>Tool use\<close>

text \<open>The heartbeats of the distinct workers; the loop ends at a task without one.\<close>

fun hook_heartbeats :: "ident list \<Rightarrow> HookTask list \<Rightarrow> 'r sup \<Rightarrow> HookEventReply \<times> 'r sup" where
  "hook_heartbeats seen [] s = (hook_reply True ''progress_recorded'', s)"
| "hook_heartbeats seen (task # ts) s =
    (if ht_WorkerID task = [] then (hook_reply False ''worker_missing'', s)
     else if ht_WorkerID task \<in> set seen then hook_heartbeats seen ts s
     else case run_store (HeartbeatWorkerAndSession (ht_WorkerID task)) s of
       (Inl _, s1) \<Rightarrow> (hook_reply False ''internal_error'', s1)
     | (Inr _, s1) \<Rightarrow> hook_heartbeats (ht_WorkerID task # seen) ts s1)"

definition hook_progress :: "ident \<Rightarrow> HookTask list \<Rightarrow> 'r sup \<Rightarrow> HookEventReply \<times> 'r sup" where
  "hook_progress sessionID ts s = (case run_store (InvalidateHookVerifications sessionID) s of
     (Inl _, s1) \<Rightarrow> (hook_reply False ''internal_error'', s1)
   | (Inr _, s1) \<Rightarrow> hook_heartbeats [] ts s1)"

section \<open>Stop\<close>

record stop_flags =
  sf_allPassed :: bool
  sf_started :: bool
  sf_pending :: bool
  sf_failed :: bool

definition stop_verdict :: "stop_flags \<Rightarrow> HookEventReply" where
  "stop_verdict f =
    (if sf_allPassed f then hook_reply True ''acceptance_passed''
     else if sf_started f then hook_reply False ''verification_started''
     else if sf_pending f then hook_reply False ''verification_pending''
     else if sf_failed f then hook_reply False ''verification_failed''
     else hook_reply False ''verification_required'')"

text \<open>\<open>VerifyStopAsync\<close> starts a goroutine for the key.  A plain reply ends the loop early.\<close>

fun stop_loop :: "ident \<Rightarrow> (ident \<times> ident \<rightharpoonup> HookVerificationState) \<Rightarrow> HookTask list \<Rightarrow> stop_flags \<Rightarrow> 'r sup \<Rightarrow>
    HookEventReply \<times> 'r sup" where
  "stop_loop sessionID states [] f s = (stop_verdict f, s)"
| "stop_loop sessionID states (task # ts) f s =
    (let state = states (ht_PlanID task, ht_TaskID task); key = hook_key sessionID task in
     if state = Some HookVerificationPassed then stop_loop sessionID states ts f s
     else if state = Some HookVerificationFailed
     then stop_loop sessionID states ts (f\<lparr>sf_allPassed := False, sf_failed := True\<rparr>) s
     else (case claimHookRun key s of
        (False, _) \<Rightarrow> stop_loop sessionID states ts (f\<lparr>sf_allPassed := False, sf_pending := True\<rparr>) s
      | (True, s1) \<Rightarrow>
          (case run_store (SetHookVerificationPending sessionID (ht_PlanID task) (ht_TaskID task)) s1 of
             (Inl _, s2) \<Rightarrow> (hook_reply False ''internal_error'', releaseHookRun key s2)
           | (Inr written, s2) \<Rightarrow>
               if \<not> written then (hook_reply False ''ownership_changed'', releaseHookRun key s2)
               else stop_loop sessionID states ts (f\<lparr>sf_allPassed := False, sf_started := True\<rparr>)
                      (s2\<lparr>hook_checks := key # hook_checks s2\<rparr>))))"

definition hook_stop :: "ident \<Rightarrow> HookTask list \<Rightarrow> 'r sup \<Rightarrow> HookEventReply \<times> 'r sup" where
  "hook_stop sessionID ts s = stop_loop sessionID (HookVerificationStates sessionID (sup_db s)) ts
     \<lparr>sf_allPassed = True, sf_started = False, sf_pending = False, sf_failed = False\<rparr> s"

section \<open>The handler\<close>

text \<open>Hook events of one session are serialized by \<open>hookEventLock\<close>: the handler is one step.\<close>

definition HandleHookEvent :: "HookEventArgs \<Rightarrow> 'r sup \<Rightarrow> HookEventReply \<times> 'r sup" where
  "HandleHookEvent args s =
    (if ha_Adapter args \<notin> set hookAdapters \<or>
        (ha_Event args \<noteq> HookEventPostToolUse \<and> ha_Event args \<noteq> HookEventStop) \<or> ha_SessionID args = []
     then (hook_reply False ''invalid_event'', s)
     else case run_store (RunningHookTasks (ha_SessionID args)) s of
       (Inl _, s1) \<Rightarrow> (hook_reply False ''internal_error'', s1)
     | (Inr ts, s1) \<Rightarrow>
         if ts = [] then (hook_reply False ''not_managed'', s1)
         else if list_ex (\<lambda>task. ht_Provider task \<noteq> ha_Adapter args) ts then (hook_reply False ''adapter_mismatch'', s1)
         else if ha_Event args = HookEventPostToolUse then hook_progress (ha_SessionID args) ts s1
         else hook_stop (ha_SessionID args) ts s1)"

section \<open>The end of a stop verification\<close>

text \<open>The callback of \<open>VerifyStopAsync\<close>: an error, a panic included, clears the verdict; a verdict is
  written where the row is still there.  \<open>outcome\<close> is what \<open>CanStopAs\<close> returned.\<close>

definition hook_check_done :: "hookRunKey \<Rightarrow> orch_error + bool \<Rightarrow> 'r sup \<Rightarrow> 'r sup" where
  "hook_check_done key outcome s =
    (let s1 = s\<lparr>hook_checks := remove1 key (hook_checks s)\<rparr>;
         s2 = (case outcome of
            Inl _ \<Rightarrow> run_quietly (ClearHookVerification (hk_SessionID key) (hk_PlanID key) (hk_TaskID key)) s1
          | Inr passed \<Rightarrow> run_quietly (SetHookVerificationResult (hk_SessionID key) (hk_PlanID key) (hk_TaskID key) passed) s1)
     in releaseHookRun key s2)"

end
