(* ===== verification/Sup_Steps.thy ===== *)
theory Sup_Steps
  imports Sup_Hooks Orch_Admission_Laws
begin

text \<open>
  The steps of a running supervisor, and that each of them is made of steps of the orchestrator: the periodic
  tick, the requests of clients, the end of a provider turn, hook events, the end of a stop verification.
  A request is one step; what it does to the orchestrator's database is a step of \<open>store_step\<close>.
\<close>

section \<open>Steps\<close>

text \<open>Work, the signal plane of hooks apart.  \<open>quiet_world\<close>: what other goroutines do to the database while a turn
  runs writes no stop verdict, because hook events are steps of their own.\<close>

definition verdicts_kept :: "store \<Rightarrow> store \<Rightarrow> bool" where
  "verdicts_kept s s' \<longleftrightarrow> set (hooks s') \<subseteq> set (hooks s)"

inductive work_step :: "'r sup_cfg \<Rightarrow> 'r sup \<Rightarrow> 'r sup \<Rightarrow> bool" for c where
  time: "now \<ge> clock (sup_db s) \<Longrightarrow> work_step c s (with_db ((sup_db s)\<lparr>clock := now\<rparr>) s)"
| tick: "work_step c s (sup_tick c s)"
| enqueue: "work_step c s (snd (HandleEnqueue c ea s))"
| stop: "work_step c s (snd (HandleStop s))"
| import_plan: "work_step c s (snd (HandlePlanImport c pia s))"
| set_status: "work_step c s (snd (HandlePlanSetStatus psa s))"
| delete_plan: "work_step c s (snd (HandlePlanDelete planID s))"
| approve: "work_step c s (snd (HandleTaskApprove taa s))"
| kill: "work_step c s (snd (HandleWorkerKill workerID s))"
| ensure: "work_step c s (snd (HandleProjectEnsure c pea s))"
| config_get: "work_step c s (snd (HandleProjectConfigGet c project userScope s))"
| config_apply: "work_step c s (snd (HandleProjectConfigApply c pca s))"
| calibrate: "work_step c s (snd (HandleCalibrationPut c cr s))"
| run_begins: "t \<in> set (inflight (sup_orch s)) \<Longrightarrow> work_step c s (registerWorker (tu_worker t) s)"
| run_ends: "work_step c s (deregister_worker workerID s)"
| turn_ends: "t \<in> set (inflight (sup_orch s)) \<Longrightarrow> world_ok w \<Longrightarrow> world_by verdicts_kept w \<Longrightarrow>
    work_step c s (s\<lparr>sup_orch := finish_turn (sc_orch c) w t (sup_orch s)\<rparr>)"
| shutdown: "inflight (sup_orch s) = [] \<Longrightarrow> hook_checks s = [] \<Longrightarrow> work_step c s (sup_shutdown s)"
| resolve: "work_step c s (s\<lparr>sup_orch := (sup_orch s)\<lparr>resolver := r\<rparr>\<rparr>)"

inductive sup_step :: "'r sup_cfg \<Rightarrow> 'r sup \<Rightarrow> 'r sup \<Rightarrow> bool" for c where
  work: "work_step c s s1 \<Longrightarrow> sup_step c s s1"
| hook: "sup_step c s (snd (HandleHookEvent ha s))"
| hook_done: "sup_step c s (hook_check_done key outcome s)"

section \<open>Requests\<close>

text \<open>What a request does, apart from dispatching: operations of the store and changes of the registries that are
  neither the orchestrator nor the verdicts.  Any relation with these laws contains every request.  It is
  interpreted with sequences of steps of the orchestrator below, and with keeping the stop verdicts in
  \<open>Sup_Hook_Laws\<close>.\<close>

locale request_relation =
  fixes Q :: "'r sup \<Rightarrow> 'r sup \<Rightarrow> bool"
  assumes Q_trans: "Q s s1 \<Longrightarrow> Q s1 s2 \<Longrightarrow> Q s s2"
    and Q_same: "sup_orch s1 = sup_orch s \<Longrightarrow> hookRuns s1 = hookRuns s \<Longrightarrow> hook_checks s1 = hook_checks s \<Longrightarrow> Q s s1"
    and on_set_status: "Q s (snd (run_store (SetPlanStatus planID pstatus) s))"
    and on_delete_plan: "Q s (snd (run_store (DeletePlan planID) s))"
    and on_approve: "Q s (snd (run_store (ApproveTask planID taskID) s))"
    and on_reclaim_worker: "Q s (snd (run_store (ReclaimWorker workerID) s))"
    and on_add_identifiers: "Q s (snd (run_store (AddProjectIdentifiers projectID fps) s))"
    and on_touch: "Q s (snd (run_store (TouchProjectLastSeen projectID) s))"
    and on_create_project: "Q s (snd (run_store (CreateProject newID name fps) s))"
    and on_apply_config: "Q s (snd (run_store (ApplyProjectConfig projectID upserts deleteKeys) s))"
    and on_calibration: "Q s (snd (run_store (RecordCalibration dg cal) s))"
    and on_create_graph: "Q s (snd (run_store (CreatePlanGraph newID cgo) s))"
    and on_reclaim_stale: "Q s (snd (run_store (ReclaimStale staleAfter) s))"
    and on_heartbeat: "Q s (snd (run_store (HeartbeatSession sessionID) s))"
    and on_close_session: "Q s (snd (run_store (CloseSession sessionID) s))"
begin

lemma Q_refl [simp]: "Q s s"
  by (rule Q_same) simp_all

lemma Q_result: "Q s (snd x) \<Longrightarrow> x = (r, s1) \<Longrightarrow> Q s s1"
  by simp

lemmas run_results = on_set_status [THEN Q_result] on_delete_plan [THEN Q_result] on_approve [THEN Q_result]
  on_reclaim_worker [THEN Q_result] on_add_identifiers [THEN Q_result] on_touch [THEN Q_result]
  on_create_project [THEN Q_result] on_apply_config [THEN Q_result] on_calibration [THEN Q_result]

lemma Q_update [simp]: "Q s (s\<lparr>cancelled_runs := ws\<rparr>)" "Q s (s\<lparr>sup_fresh := n\<rparr>)" "Q s (s\<lparr>stop_requested := x\<rparr>)"
  "Q s (s\<lparr>running_workers := ws\<rparr>)" "Q s (s\<lparr>dispatchCursor := n\<rparr>)"
  by (rule Q_same; simp)+

lemma stop_request: "Q s (snd (HandleStop s))"
  by (simp add: HandleStop_def)

lemma registry: "Q s (registerWorker w s)" "Q s (deregister_worker w s)" "Q s (snd (KillWorker w s))"
  by (simp_all add: registerWorker_def deregister_worker_def KillWorker_def)

lemma graph_result: "CreatePlanGraph u g (sup_db s) = (r, st) \<Longrightarrow> Q s (with_db st s)"
  using on_create_graph [of s u g] by (simp add: run_store_def)

lemma project_result: "CreateProject u d fps (sup_db s) = (r, st) \<Longrightarrow> Q s (with_db st s)"
  using on_create_project [of s u d fps] by (simp add: run_store_def)

lemma unchanged: "Q s (with_db (sup_db s) s)"
  by (rule Q_same) simp_all

lemma import_result: "ImportPlan parse u opts (sup_db s) = (r, st) \<Longrightarrow> Q s (with_db st s)"
  unfolding ImportPlan_def
  by (auto split: if_splits option.splits sum.splits prod.splits intro: graph_result unchanged)

lemma import_request: "Q s (snd (HandlePlanImport c pia s))"
proof -
  have "Q s (with_db st (s\<lparr>sup_fresh := n\<rparr>))" if "ImportPlan parse u opts (sup_db s) = (r, st)" for parse u opts r st n
    using import_result [of parse u opts "s\<lparr>sup_fresh := n\<rparr>" r st] that by (auto intro: Q_trans [OF Q_update(2)])
  then show ?thesis
    by (auto simp: HandlePlanImport_def refuse_def next_uuid_def Let_def split: option.split sum.split prod.split)
qed

lemma set_status_request: "Q s (snd (HandlePlanSetStatus psa s))"
  by (auto simp: HandlePlanSetStatus_def refuse_def split: option.split sum.split prod.split dest: run_results(1))

lemma kill_workers: "Q s (kill_workers_of p ws s)"
  unfolding kill_workers_of_def by (induction ws arbitrary: s) (auto intro: Q_trans registry(3))

lemma delete_request: "Q s (snd (HandlePlanDelete planID s))"
  by (auto simp: HandlePlanDelete_def refuse_def split: sum.split prod.split dest!: run_results(2) intro: Q_trans [OF kill_workers])

lemma approve_request: "Q s (snd (HandleTaskApprove taa s))"
  by (auto simp: HandleTaskApprove_def refuse_def split: sum.split prod.split dest: run_results(3))

lemma kill_request: "Q s (snd (HandleWorkerKill workerID s))"
  by (auto simp: HandleWorkerKill_def refuse_def split: sum.split prod.split dest!: run_results(4) intro: Q_trans [OF registry(3)])

lemma ensure_request: "Q s (snd (HandleProjectEnsure c pea s))"
  by (auto simp: HandleProjectEnsure_def refuse_def next_uuid_def Let_def split: sum.split prod.split
      dest!: run_results(5,7) dest: run_results(6) intro: Q_trans Q_trans [OF Q_update(2)])

lemma user_scope_result: "UserScopeProjectID u (sup_db s) = (r, st) \<Longrightarrow> Q s (with_db st s)"
  unfolding UserScopeProjectID_def config_result_def
  by (auto split: prod.splits sum.splits bool.splits intro: project_result unchanged)

lemma resolve_config: "Q s (snd (resolveConfigProject c project userScope s))"
proof -
  have "Q s (with_db st (s\<lparr>sup_fresh := n\<rparr>))" if "UserScopeProjectID u (sup_db s) = (r, st)" for u r st n
    using user_scope_result [of u "s\<lparr>sup_fresh := n\<rparr>" r st] that by (auto intro: Q_trans [OF Q_update(2)])
  then show ?thesis
    by (auto simp: resolveConfigProject_def refuse_def next_uuid_def Let_def split: sum.split prod.split)
qed

lemma config_get_request: "Q s (snd (HandleProjectConfigGet c project userScope s))"
  using resolve_config [of s c project userScope] by (auto simp: HandleProjectConfigGet_def split: sum.split prod.split)

lemma config_apply_request: "Q s (snd (HandleProjectConfigApply c pca s))"
  by (auto simp: HandleProjectConfigApply_def refuse_def split: sum.split prod.split
      dest: resolve_config [THEN Q_result] run_results(8) intro: Q_trans)

lemma calibrate_request: "Q s (snd (HandleCalibrationPut c cr s))"
  by (auto simp: HandleCalibrationPut_def refuse_def split: sum.split prod.split dest: run_results(9))

lemma quiet_run: "run_quietly m s = snd (run_store m s)"
  by (simp add: run_quietly_def run_store_def split: prod.split)

lemma before_tick: "Q s (run_quietly (HeartbeatSession i) (run_quietly (ReclaimStale n) s))"
  unfolding quiet_run by (rule Q_trans [OF on_reclaim_stale on_heartbeat])

lemma shutdown_request: "Q s (sup_shutdown s)"
  unfolding sup_shutdown_def quiet_run by (rule on_close_session)

lemmas requests = shutdown_request stop_request registry(1,2) import_request set_status_request delete_request approve_request kill_request
  ensure_request config_get_request config_apply_request calibrate_request

end

section \<open>Each step is a sequence of steps of the orchestrator\<close>

abbreviation orch_steps :: "'r cfg \<Rightarrow> 'r orch \<Rightarrow> 'r orch \<Rightarrow> bool" where
  "orch_steps c \<equiv> (orch_step c)\<^sup>*\<^sup>*"

definition sup_moves :: "'r sup_cfg \<Rightarrow> 'r sup \<Rightarrow> 'r sup \<Rightarrow> bool" where
  "sup_moves c s s1 \<longleftrightarrow> orch_steps (sc_orch c) (sup_orch s) (sup_orch s1)"

lemma sup_moves_refl [simp]: "sup_moves c s s"
  by (simp add: sup_moves_def)

lemma sup_moves_trans: "sup_moves c s s1 \<Longrightarrow> sup_moves c s1 s2 \<Longrightarrow> sup_moves c s s2"
  by (auto simp: sup_moves_def)

lemma sup_moves_same: "sup_orch s1 = sup_orch s \<Longrightarrow> sup_moves c s s1"
  by (simp add: sup_moves_def)

lemma sup_moves_from: "sup_moves c s1 s2 \<Longrightarrow> sup_orch s1 = sup_orch s \<Longrightarrow> sup_moves c s s2"
  by (simp add: sup_moves_def)

lemma sup_moves_update [simp]:
  "sup_moves c s (s1\<lparr>hookRuns := ks\<rparr>) \<longleftrightarrow> sup_moves c s s1" "sup_moves c s (s1\<lparr>hook_checks := ks\<rparr>) \<longleftrightarrow> sup_moves c s s1"
  by (simp_all add: sup_moves_def)

lemma sup_moves_store: "store_step (sup_db s) st \<Longrightarrow> sup_moves c s (with_db st s)"
  by (auto simp: sup_moves_def intro: orch_step.other)

lemma sup_moves_run: "store_step (sup_db s) (snd (m (sup_db s))) \<Longrightarrow> sup_moves c s (snd (run_store m s))"
  by (auto simp: run_store_def split: prod.split intro: sup_moves_store)

lemma sup_moves_quietly: "store_step (sup_db s) (snd (m (sup_db s))) \<Longrightarrow> sup_moves c s (run_quietly m s)"
  by (auto simp: run_quietly_def intro: sup_moves_store)

lemma run_step: "run_store m s = (r, s1) \<Longrightarrow> store_step (sup_db s) (snd (m (sup_db s))) \<Longrightarrow> sup_moves c s s1"
  using sup_moves_run by fastforce

interpretation orchestrated: request_relation "sup_moves c" for c
  by unfold_locales (auto intro: sup_moves_trans sup_moves_same sup_moves_run store_step.intros)

lemma dispatch_plans_moves: "orch_steps c o' (snd (dispatch_plans c ps n o'))"
proof (induction ps arbitrary: n o')
  case (Cons p ps)
  obtain k e o1 where d: "DispatchNext c (Plan_ProjectID p) (Plan_ID p) o' = ((k, e), o1)" by (metis surj_pair)
  have "orch_step c o' o1" using orch_step.dispatch [of c o' "Plan_ProjectID p" "Plan_ID p"] by (simp add: d)
  then have "orch_steps c o' (snd (dispatch_plans c ps m o1))" for m
    using Cons.IH by (meson converse_rtranclp_into_rtranclp)
  then show ?case by (cases e) (simp_all add: d)
qed simp

lemma dispatched_state:
  "snd (dispatchActivePlans c s) = s\<lparr>sup_orch := snd (dispatch_plans (sc_orch c) (dispatch_window (dispatchCursor s) (active_plans (sup_db s))) 0 (sup_orch s)),
     dispatchCursor := next_cursor (dispatchCursor s) (length (active_plans (sup_db s)))\<rparr>"
  by (simp add: dispatchActivePlans_def Let_def split: prod.split)

lemma dispatch_active_moves: "sup_moves c s (snd (dispatchActivePlans c s))"
  by (simp add: dispatched_state sup_moves_def dispatch_plans_moves)

lemma enqueue_state: "snd (HandleEnqueue c ea s) = snd (dispatchActivePlans c s)"
  by (simp add: HandleEnqueue_def split: prod.split)

lemma tick_moves: "sup_moves c s (sup_tick c s)"
  unfolding sup_tick_def Let_def by (rule sup_moves_trans [OF orchestrated.before_tick dispatch_active_moves])

lemma work_moves:
  assumes "work_step c s s1"
  shows "sup_moves c s s1"
  using assms
proof cases
  case (time now)
  then show ?thesis using store_step.tick by (auto intro: sup_moves_store)
next
  case (turn_ends t w)
  then show ?thesis by (auto simp: sup_moves_def intro: orch_step.finish)
next
  case (resolve r)
  then show ?thesis by (auto simp: sup_moves_def intro: orch_step.resolve)
qed (simp_all add: tick_moves enqueue_state dispatch_active_moves orchestrated.requests)

section \<open>Hook events\<close>

lemma hook_runs:
  "run_store (HeartbeatWorkerAndSession w) s = (r, s1) \<Longrightarrow> sup_moves c s s1"
  "run_store (SetHookVerificationPending se p i) s = (r2, s1) \<Longrightarrow> sup_moves c s s1"
  "run_store (InvalidateHookVerifications se) s = (r, s1) \<Longrightarrow> sup_moves c s s1"
  by (erule run_step, rule store_step.intros)+

lemmas heartbeat_run = hook_runs(1) and pending_run = hook_runs(2) and invalidate_run = hook_runs(3)

lemma heartbeats_moves: "sup_moves c s (snd (hook_heartbeats seen ts s))"
proof (induction ts arbitrary: seen s)
  case (Cons task ts)
  then show ?case by (auto split: sum.split prod.split dest: heartbeat_run intro: sup_moves_trans)
qed simp

lemma progress_moves: "sup_moves c s (snd (hook_progress sessionID ts s))"
  by (auto simp: hook_progress_def split: sum.split prod.split dest!: invalidate_run intro: sup_moves_trans heartbeats_moves)

lemma claim_run_same: "claimHookRun key s = (b, s1) \<Longrightarrow> sup_orch s1 = sup_orch s"
  by (auto simp: claimHookRun_def split: if_splits)

lemma stop_moves: "sup_moves c s (snd (stop_loop sessionID states ts f s))"
proof (induction ts arbitrary: f s)
  case (Cons task ts)
  have start: "sup_moves c s s2" if "claimHookRun key s = (b, s1)" "run_store (SetHookVerificationPending se p i) s1 = (r, s2)" for key b s1 se p i r s2
    by (rule sup_moves_from [OF pending_run [OF that(2)] claim_run_same [OF that(1)]])
  have "sup_moves c s (snd (stop_loop sessionID states ts f' (s2\<lparr>hook_checks := ks\<rparr>)))"
    if "sup_moves c s s2" for f' s2 ks
    using sup_moves_trans [OF _ Cons.IH, of s "s2\<lparr>hook_checks := ks\<rparr>"] that by simp
  then show ?case using Cons.IH start
    by (auto simp: Let_def releaseHookRun_def split: prod.split bool.split sum.split)
qed simp

lemma running_tasks_same: "run_store (RunningHookTasks se) s = (r, s1) \<Longrightarrow> s1 = s"
  by (auto simp: run_store_def RunningHookTasks_def with_db_def split: if_splits)

lemma hook_moves: "sup_moves c s (snd (HandleHookEvent ha s))"
  by (auto simp: HandleHookEvent_def hook_stop_def split: sum.split prod.split dest!: running_tasks_same
      intro: progress_moves stop_moves)

lemma hook_done_moves: "sup_moves c s (hook_check_done key outcome s)"
proof -
  have "sup_moves c s (run_quietly m (s\<lparr>hook_checks := ks\<rparr>))" if "store_step (sup_db s) (snd (m (sup_db s)))" for m :: "unit op" and ks
    by (rule sup_moves_from [OF sup_moves_quietly]) (use that in simp_all)
  then show ?thesis
    by (auto simp: hook_check_done_def Let_def releaseHookRun_def split: sum.split intro: store_step.hook_clear store_step.hook_result)
qed

lemma sup_step_moves:
  assumes "sup_step c s s1"
  shows "sup_moves c s s1"
  using assms by cases (auto intro: work_moves hook_moves hook_done_moves)

section \<open>Reachable supervisors\<close>

text \<open>\<open>Run\<close> up to the loop: the supervisor registers a session of its own and begins with empty registries.\<close>

definition sup_start :: "'r sup_cfg \<Rightarrow> string \<Rightarrow> int \<Rightarrow> 'r orch \<Rightarrow> (store_error + 'r sup) \<times> 'r orch" where
  "sup_start c host pid o' =
    (case CreateSession (sc_uuid c 0) \<lparr>so_ID = [], so_Role = ''supervisor'', so_PID = pid, so_PIDStartTime = [], so_Host = host\<rparr> (db o') of
       (Inl e, st) \<Rightarrow> (Inl e, o'\<lparr>db := st\<rparr>)
     | (Inr i, st) \<Rightarrow> (Inr \<lparr>sup_orch = o'\<lparr>db := st\<rparr>, sup_session = i, sup_started = clock (db o'), dispatchCursor = 0, hookRuns = [],
         hook_checks = [], running_workers = [], cancelled_runs = [], stop_requested = False, sup_fresh = 1\<rparr>, o'\<lparr>db := st\<rparr>))"

inductive sup_reachable :: "'r sup_cfg \<Rightarrow> 'r sup \<Rightarrow> bool" for c where
  start: "orch_reachable (sc_orch c) o' \<Longrightarrow> sup_start c host pid o' = (Inr s, o1) \<Longrightarrow> sup_reachable c s"
| step: "sup_reachable c s \<Longrightarrow> sup_step c s s1 \<Longrightarrow> sup_reachable c s1"

lemma orch_steps_reachable: "orch_steps c o' o1 \<Longrightarrow> orch_reachable c o' \<Longrightarrow> orch_reachable c o1"
  by (induction rule: rtranclp_induct) (auto intro: orch_reachable.step)

lemma sup_start_moves:
  assumes "sup_start c host pid o' = (Inr s, o1)"
  shows "orch_step (sc_orch c) o' (sup_orch s)"
proof -
  have "orch_step (sc_orch c) o' (o'\<lparr>db := st\<rparr>)" if "CreateSession u so (db o') = (r, st)" for u so r st
    using orch_step.other [OF store_step.create_session, of "sc_orch c" o' u so] by (simp add: that)
  then show ?thesis using assms by (auto simp: sup_start_def split: prod.splits sum.splits)
qed

lemma sup_reachable_orch: "sup_reachable c s \<Longrightarrow> orch_reachable (sc_orch c) (sup_orch s)"
proof (induction rule: sup_reachable.induct)
  case (start o' host pid s o1)
  then show ?case using sup_start_moves orch_reachable.step by metis
next
  case (step s s1)
  then show ?case using sup_step_moves orch_steps_reachable by (metis sup_moves_def)
qed

end
