(* ===== verification/Sup_Demo.thy ===== *)
theory Sup_Demo
  imports Sup_Steps
begin

text \<open>
  A small supervisor on which the properties are instantiated: the orchestrator of \<open>Orch_Demo\<close> over the
  store of \<open>Store_Demo\<close>, in which session \<open>s\<close> runs the task \<open>a\<close> on \<open>codex\<close>.
\<close>

definition demo_sup_cfg :: "unit sup_cfg" where
  "demo_sup_cfg = \<lparr>sc_orch = demo_cfg, sc_markdown = (\<lambda>_. []), sc_digest = concat, sc_uuid = (\<lambda>n. ''x'' @ Itoa (int n))\<rparr>"

definition demo_hooked :: store where
  "demo_hooked = snd (RecordTaskExecution ''p'' ''a'' ''codex'' ''codex'' ''m'' ''e'' ''d'' ''s'' demo_running)"

definition demo_sup :: "unit sup" where
  "demo_sup = \<lparr>sup_orch = orch_start () demo_hooked, sup_session = ''v'', sup_started = 0, dispatchCursor = 0, hookRuns = [],
     hook_checks = [], running_workers = [''w''], cancelled_runs = [], stop_requested = False, sup_fresh = 1\<rparr>"

definition demo_stop :: HookEventArgs where
  "demo_stop = \<lparr>ha_Adapter = ''codex'', ha_Event = HookEventStop, ha_SessionID = ''s''\<rparr>"

definition demo_asked :: "unit sup" where
  "demo_asked = snd (HandleHookEvent demo_stop demo_sup)"

definition demo_key :: hookRunKey where
  "demo_key = \<lparr>hk_SessionID = ''s'', hk_PlanID = ''p'', hk_TaskID = ''a''\<rparr>"

definition demo_verified :: "unit sup" where
  "demo_verified = hook_check_done demo_key (Inr True) demo_asked"

lemma demo_hooked_reachable: "store_reachable demo_hooked"
  unfolding demo_hooked_def by (rule store_reachable.step [OF demo_reachable(4) store_step.record_execution])

lemma demo_sup_orchestrated: "orch_reachable (sc_orch demo_sup_cfg) (sup_orch demo_sup)"
  using orch_reachable.start [OF demo_hooked_reachable] by (simp add: demo_sup_def)

end
