(* ===== verification/Store_Log.thy ===== *)
theory Store_Log
  imports Store_Steps
begin

text \<open>
  What the operations of the store do to the two things that other parts of the program read while they run,
  the event log and the verdicts of stop hooks: whole rows of the log disappear with their plan, new ones are
  appended by \<open>insert_event\<close>, and verdicts are only dropped, except by the operations of
  \<open>hook_verifications.go\<close>.  Any relation with these laws contains every other operation.  It is interpreted with
  the growth of the log here, and with keeping the verdicts in \<open>Sup_Hook_Laws\<close>.
\<close>

named_theorems keeping

definition keeps_by :: "(store \<Rightarrow> store \<Rightarrow> bool) \<Rightarrow> 'a op \<Rightarrow> bool" where
  "keeps_by R m \<longleftrightarrow> (\<forall>s. R s (snd (m s)))"

lemma update_fields [simp]:
  "hooks (update_tasks P f s) = hooks s" "hooks (update_workers Q g s) = hooks s"
  "events (update_workers Q g s) = events s" "event_seq (update_workers Q g s) = event_seq s"
  "hooks (update_metadata P' f' s) = hooks s"
  by (simp_all add: update_tasks_def update_workers_def update_metadata_def)

section \<open>Relations that contain the operations\<close>

locale log_relation =
  fixes R :: "store \<Rightarrow> store \<Rightarrow> bool"
  assumes R_trans: "R s s1 \<Longrightarrow> R s1 s2 \<Longrightarrow> R s s2"
    and drops: "events s' = filter P (events s) \<Longrightarrow> event_seq s' = event_seq s \<Longrightarrow> set (hooks s') \<subseteq> set (hooks s) \<Longrightarrow> R s s'"
    and logged: "R s (snd (insert_event prj plan task kind stream actor payload s))"
begin

abbreviation keeps :: "'a op \<Rightarrow> bool" where
  "keeps \<equiv> keeps_by R"

lemma same: "hooks s' = hooks s \<Longrightarrow> events s' = events s \<Longrightarrow> event_seq s' = event_seq s \<Longrightarrow> R s s'"
  by (rule drops [where P = "\<lambda>_. True"]) simp_all

lemma R_refl [simp]: "R s s"
  by (rule same) simp_all

lemma after: "R s1 s2 \<Longrightarrow> hooks s1 = hooks s \<Longrightarrow> events s1 = events s \<Longrightarrow> event_seq s1 = event_seq s \<Longrightarrow> R s s2"
  using same R_trans by metis

lemma keeps_run: "keeps m \<Longrightarrow> R s (snd (m s))"
  by (simp add: keeps_by_def)

lemma keeps_return [simp]: "keeps (op_return x)" "keeps (op_fail e)"
  by (simp_all add: keeps_by_def op_return_def op_fail_def)

lemma keepsI: "(\<And>s. hooks (snd (m s)) = hooks s \<and> events (snd (m s)) = events s \<and> event_seq (snd (m s)) = event_seq s) \<Longrightarrow> keeps m"
  by (auto simp: keeps_by_def intro: same)

lemma keeps_event [keeping]: "keeps (insert_event j p i k st a pay)"
  by (simp add: keeps_by_def logged)

lemma keeps_bind: "keeps m \<Longrightarrow> (\<And>x. keeps (f x)) \<Longrightarrow> keeps (op_bind m f)"
  by (auto simp: keeps_by_def op_bind_def split: prod.split sum.split) (metis R_trans snd_conv)+

lemma keeps_tx: "keeps m \<Longrightarrow> keeps (in_tx m)"
  by (auto simp: keeps_by_def in_tx_def split: prod.split sum.split) (metis snd_conv)

lemma keeps_each: "(\<And>x. keeps (f x)) \<Longrightarrow> keeps (op_each f xs)"
  by (induction xs) (auto intro: keeps_bind)

lemma keeps_if [intro]: "(b \<Longrightarrow> keeps m) \<Longrightarrow> (\<not> b \<Longrightarrow> keeps m') \<Longrightarrow> keeps (if b then m else m')"
  by simp

lemma keeps_report [keeping]: "keeps (guarded_report P f p i k st a pay)"
  by (auto simp: keeps_by_def guarded_report_def intro: after [OF logged])

lemma keeps_reads: "(\<And>s. snd (m s) = s) \<Longrightarrow> keeps m"
  by (simp add: keeps_by_def)

text \<open>A body that is one of several operations, chosen by what it reads.\<close>

lemma keeps_choice: "(\<And>s. \<exists>m'. keeps m' \<and> m s = m' s) \<Longrightarrow> keeps m"
  by (metis keeps_by_def)

lemma keeps_create [keeping]: "keeps (createTaskOn cto)" "keeps (CreateTask cto)"
  by (auto intro!: keepsI simp: createTaskOn_def CreateTask_def)

lemma keeps_claim_tail [keeping]: "keeps (claim_tail p i se w)"
proof -
  have "keeps (claim_update p i se w)" by (rule keepsI) (simp add: claim_update_def Let_def)
  then show ?thesis unfolding claim_tail_def by (intro keeps_bind keeps_if keeping keeps_return)
qed

lemma keeps_get [keeping]: "keeps (GetTask p i)"
  by (rule keeps_reads) (simp add: GetTask_def split: option.split)

lemma keeps_claim [keeping]: "keeps (ClaimTask p i se w)"
proof -
  have "keeps (\<lambda>s. case select_row (\<lambda>t. t_id t = i) (ready_rows p s) of
      None \<Rightarrow> (Inl ErrNoReadyTask, s)
    | Some t \<Rightarrow> let conflict = outputReservationConflict p (t_id t) s in
        if conflict \<noteq> [] then (Inl (ErrOutputReserved conflict), s) else claim_tail p (t_id t) se w s)"
    using keeps_claim_tail by (auto simp: keeps_by_def Let_def split: option.split)
  then show ?thesis unfolding ClaimTask_def claimTaskOnce_def by (intro keeps_bind keeps_tx keeping)
qed

lemma keeps_done [keeping]: "keeps (MarkDone p i se ev)"
  unfolding MarkDone_def by (intro keeps_bind keeps_tx keeping keeps_reads) simp

lemma keeps_failed [keeping]: "keeps (MarkFailedWithPayload p i se pay n)"
proof -
  have "keeps (op_bind (guarded_report P f p i k st a pl) (\<lambda>_. op_return b))" for P f k st a pl and b :: bool
    by (intro keeps_bind keeping keeps_return)
  then show ?thesis unfolding MarkFailedWithPayload_def
    by (intro keeps_tx) (auto simp: keeps_by_def split: option.split)
qed

lemma keeps_reports [keeping]: "keeps (ReleaseClaim p i se rea)" "keeps (MarkBlocked p i se pay)"
  unfolding ReleaseClaim_def MarkBlocked_def by (intro keeping keeps_tx)+

lemma keeps_put_metadata [keeping]: "keeps (putTaskMetadataOn p i g t j)" "keeps (PutTaskMetadata p i g t j)"
  by (auto intro!: keepsI simp: putTaskMetadataOn_def PutTaskMetadata_def)

lemma keeps_execution [keeping]: "keeps (RecordTaskExecution p i al pt m e d se)"
  unfolding RecordTaskExecution_def by (intro keeps_tx keepsI) (auto simp: Let_def split: option.split)

lemma keeps_mark_blocked: "keeps (markMetadataBlocked p i st rea)"
proof -
  have "keeps (op_bind (insert_event j p' i' k str a pay) (\<lambda>_. op_return b))" for j p' i' k str a pay and b :: bool
    by (intro keeps_bind keeping keeps_return)
  note marked = keeps_run [OF this]
  show ?thesis unfolding markMetadataBlocked_def
    by (intro keeps_tx) (auto simp: keeps_by_def Let_def split: option.split intro: after [OF marked] same)
qed

lemma keeps_blocks [keeping]:
  "keeps (MarkBlockedCapability p i rea)" "keeps (MarkBlockedInput p i rea)" "keeps (ClearTaskBlock p i st)"
proof -
  show "keeps (MarkBlockedCapability p i rea)" "keeps (MarkBlockedInput p i rea)"
    unfolding MarkBlockedCapability_def MarkBlockedInput_def by (rule keeps_mark_blocked)+
  have "keeps (in_tx (\<lambda>s. let P = (\<lambda>t. is_task p i t \<and> t_status t = st) in
       if rows_affected P (tasks s) = 0 then (Inr False, s)
       else (Inr True, update_metadata (is_metadata p i) (\<lambda>m. m\<lparr>md_blocked_reason := Some []\<rparr>)
              (update_tasks P (\<lambda>t. t\<lparr>t_status := TaskStatusPending\<rparr>) s))))"
    by (rule keeps_tx, rule keepsI) (simp add: Let_def)
  then show "keeps (ClearTaskBlock p i st)"
    unfolding ClearTaskBlock_def by (intro keeps_if keeps_return)
qed

lemma keeps_sessions [keeping]: "keeps (CreateSession u so)" "keeps (CreateWorker u wo)"
  "keeps (SetWorkerTask w p i)" "keeps (ClearWorkerTask w st)"
  by (auto intro!: keepsI simp: CreateSession_def CreateWorker_def SetWorkerTask_def ClearWorkerTask_def Let_def)

lemma keeps_emit [keeping]: "keeps (Emit eo)" "keeps (RecordSpend ro)" "keeps (AppendMessage ao)"
proof -
  show "keeps (Emit eo)" by (simp add: keeps_by_def Emit_def logged)
qed (auto intro!: keepsI simp: RecordSpend_def AppendMessage_def)

lemma keeps_edges [keeping]: "keeps (addDepOn p i d)" "keeps (reserveTaskInputOn p i path sha)"
  "keeps (reserveTaskOutputOn p i path mode)"
  by (auto intro!: keepsI simp: addDepOn_def reserveTaskInputOn_def reserveTaskOutputOn_def Let_def)

lemma keeps_graph [keeping]: "keeps (writeGraphTasksOn p specs)" "keeps (MaterializePlanGraph p specs)"
proof -
  have "keeps (node_metadata p task)" for task
    unfolding node_metadata_def by (intro keeps_if keeping keeps_return)
  then have "keeps (write_node p task)" for task
    unfolding write_node_def by (intro keeps_bind keeps_each keeping)
  then show *: "keeps (writeGraphTasksOn p specs)"
    unfolding writeGraphTasksOn_def write_edges_def by (intro keeps_bind keeps_each keeping)
  then show "keeps (MaterializePlanGraph p specs)"
    unfolding MaterializePlanGraph_def by (rule keeps_tx)
qed

lemma keeps_requests [keeping]:
  "keeps (SetPlanStatus p ps)" "keeps (ApproveTask p i)" "keeps (ReclaimWorker w)"
  "keeps (TouchProjectLastSeen j)" "keeps (RecordCalibration dg cal)" "keeps (HeartbeatSession se)"
proof -
  show "keeps (ApproveTask p i)" unfolding ApproveTask_def
    by (rule keeps_tx, rule keepsI) (simp add: Let_def split: option.split)
  show "keeps (ReclaimWorker w)" unfolding ReclaimWorker_def
    by (rule keeps_tx, rule keepsI) simp
  show "keeps (RecordCalibration dg cal)"
    by (rule keepsI) (simp add: RecordCalibration_def Let_def split: sum.split prod.split)
qed (auto intro!: keepsI simp: SetPlanStatus_def setPlanStatusOn_def TouchProjectLastSeen_def HeartbeatSession_def)

lemma keeps_identifiers: "keeps (upsert_identifier j n fp)"
  by (rule keepsI) (simp add: upsert_identifier_def)

lemma keeps_insert_identifiers: "keeps (insertIdentifiers j fps n)"
  unfolding insertIdentifiers_def by (intro keeps_each keeps_identifiers)

lemma keeps_projects [keeping]: "keeps (AddProjectIdentifiers j fps)" "keeps (CreateProject u d fps)"
proof -
  have "keeps (\<lambda>s. insertIdentifiers j fps (now_of s) s)"
    using keeps_insert_identifiers by (auto simp: keeps_by_def)
  then show "keeps (AddProjectIdentifiers j fps)" unfolding AddProjectIdentifiers_def
    by (intro keeps_if keeps_tx keeps_return)
  have step: "R s' (snd (op_bind (insertIdentifiers u fps n) (\<lambda>_. op_return u) s'))" for s' n
    by (intro keeps_run keeps_bind keeps_insert_identifiers keeps_return)
  have "keeps (\<lambda>s. if project_exists u s then (Inl (ErrConstraint UniqueC), s)
      else op_bind (insertIdentifiers u fps (now_of s)) (\<lambda>_. op_return u) (s\<lparr>projects := projects s @ [new s]\<rparr>))" for new
    by (auto simp: keeps_by_def intro!: after [OF step])
  then show "keeps (CreateProject u d fps)" unfolding CreateProject_def by (rule keeps_tx)
qed

lemma delete_config_log:
  "hooks (fold (delete_config j) ks s) = hooks s" "events (fold (delete_config j) ks s) = events s"
  "event_seq (fold (delete_config j) ks s) = event_seq s"
  by (induction ks arbitrary: s) (simp_all add: delete_config_def)

lemma keeps_config [keeping]: "keeps (ApplyProjectConfig j ups ks)"
proof -
  have "keeps (upsert_config j kv)" for kv
    by (rule keepsI) (simp add: upsert_config_def Let_def)
  then have one: "R s' (snd (op_each (upsert_config j) kvs s'))" for kvs s'
    by (intro keeps_run keeps_each)
  have "keeps (\<lambda>s. op_each (upsert_config j) (sort_key fst ups) (fold (delete_config j) (sort ks) s))"
    by (auto simp: keeps_by_def delete_config_log intro!: after [OF one])
  then show ?thesis unfolding ApplyProjectConfig_def by (intro keeps_if keeps_tx keeps_return)
qed

lemma keeps_graph_creation [keeping]: "keeps (CreatePlanGraph u g)"
proof -
  have "keeps (createPlanOn u cp)" for cp
    by (rule keepsI) (simp add: createPlanOn_def Let_def)
  moreover have "keeps (setPlanStatusOn p st)" for p st
    using keeps_requests(1) by (simp add: SetPlanStatus_def)
  ultimately show ?thesis unfolding CreatePlanGraph_def
    by (intro keeps_tx keeps_bind keeps_if keeping keeps_return)
qed

lemma keeps_delete_plan [keeping]: "keeps (DeletePlan p)"
  unfolding DeletePlan_def
  by (rule keeps_tx) (auto simp: keeps_by_def cascade_plan_def Let_def intro: drops)

lemma delete_rows_log:
  "hooks (delete_workers P s) = hooks s" "events (delete_workers P s) = events s" "event_seq (delete_workers P s) = event_seq s"
  "set (hooks (delete_sessions Q s)) \<subseteq> set (hooks s)" "events (delete_sessions Q s) = events s"
  "event_seq (delete_sessions Q s) = event_seq s"
  by (auto simp: delete_workers_def delete_sessions_def Let_def)

lemma delete_sessions_kept: "R s (delete_sessions Q s)"
  by (rule drops [where P = "\<lambda>_. True"]) (simp_all add: delete_rows_log)

lemma reclaim_step2_kept: "R s (reclaim_step2 m n s)"
  unfolding reclaim_step2_def Let_def by (rule after [OF delete_sessions_kept]) (simp_all add: delete_rows_log)

lemma keeps_reclaim_stale [keeping]: "keeps (ReclaimStale n)"
proof -
  have "keeps (log_reclaims reasons k touched)" for reasons k touched
    unfolding log_reclaims_def by (intro keeps_each keeping)
  then have logged: "R s (snd (op_bind (log_reclaims reasons k touched) (\<lambda>_. op_return i) s))" for reasons k touched s and i :: nat
    by (intro keeps_run keeps_bind keeps_return)
  have "keeps (reclaim_step1 m)" for m
    by (auto simp: keeps_by_def reclaim_step1_def Let_def intro!: after [OF logged])
  then have "R s (snd (op_bind (reclaim_step1 m) (\<lambda>r s1. (Inr r, reclaim_step2 m k s1)) s))" for m k s
    by (intro keeps_run keeps_bind) (auto simp: keeps_by_def reclaim_step2_kept)
  then show ?thesis unfolding ReclaimStale_def by (intro keeps_tx) (simp add: keeps_by_def Let_def)
qed

lemma keeps_locks [keeping]: "keeps (AddDep p i d)" "keeps (ReserveTaskInput p i path sha)" "keeps (ReserveTaskOutput p i path mode)"
  unfolding AddDep_def ReserveTaskInput_def ReserveTaskOutput_def by (intro keeping keeps_tx keeps_if keeps_return)+

lemma keeps_plan [keeping]: "keeps (CreatePlan u cp)"
  by (rule keepsI) (simp add: CreatePlan_def createPlanOn_def Let_def)

lemma keeps_heartbeats [keeping]: "keeps (CloseSession se)" "keeps (HeartbeatWorker w)" "keeps (HeartbeatWorkerAndSession w)"
proof -
  show "keeps (CloseSession se)" by (simp add: keeps_by_def CloseSession_def delete_sessions_kept)
  show "keeps (HeartbeatWorker w)" by (rule keepsI) (simp add: HeartbeatWorker_def)
  show "keeps (HeartbeatWorkerAndSession w)"
    unfolding HeartbeatWorkerAndSession_def by (rule keepsI) (simp add: Let_def in_tx_def split: option.split)
qed

lemma keeps_evidence [keeping]: "keeps (BindTaskCalibration p i ca cap)" "keeps (RecordTaskProviderSession p i cl ps)"
  "keeps (RecordCalibrationAttempt ra)"
  by (auto intro!: keepsI simp: BindTaskCalibration_def RecordTaskProviderSession_def RecordCalibrationAttempt_def Let_def in_tx_def
      split: option.split list.split)

lemma keeps_claim_next [keeping]: "keeps (ClaimNextReady p se w)"
proof -
  have "keeps (\<lambda>s. case claim_candidates p s of [] \<Rightarrow> (Inl ErrNoReadyTask, s) | t # _ \<Rightarrow> claim_tail p (t_id t) se w s)"
    using keeps_claim_tail by (auto simp: keeps_by_def split: list.split)
  then show ?thesis unfolding ClaimNextReady_def by (intro keeps_bind keeps_tx keeping)
qed

end

section \<open>The log only grows\<close>

definition log_grows :: "store \<Rightarrow> store \<Rightarrow> bool" where
  "log_grows s s' \<longleftrightarrow> event_seq s \<le> event_seq s' \<and>
    (\<exists>P new. events s' = filter P (events s) @ new \<and> sorted_wrt (<) (map e_id new) \<and>
       (\<forall>r\<in>set new. event_seq s < e_id r \<and> e_id r \<le> event_seq s'))"

lemma log_growsI:
  "events s' = filter P (events s) @ new \<Longrightarrow> sorted_wrt (<) (map e_id new) \<Longrightarrow>
   (\<And>r. r \<in> set new \<Longrightarrow> event_seq s < e_id r \<and> e_id r \<le> event_seq s') \<Longrightarrow> event_seq s \<le> event_seq s' \<Longrightarrow> log_grows s s'"
  unfolding log_grows_def by blast

lemma log_grows_trans:
  assumes "log_grows s s1" and "log_grows s1 s2"
  shows "log_grows s s2"
proof -
  obtain P new where 1: "events s1 = filter P (events s) @ new" "sorted_wrt (<) (map e_id new)"
      "\<forall>r\<in>set new. event_seq s < e_id r \<and> e_id r \<le> event_seq s1" "event_seq s \<le> event_seq s1"
    using assms(1) by (auto simp: log_grows_def)
  obtain Q later where 2: "events s2 = filter Q (events s1) @ later" "sorted_wrt (<) (map e_id later)"
      "\<forall>r\<in>set later. event_seq s1 < e_id r \<and> e_id r \<le> event_seq s2" "event_seq s1 \<le> event_seq s2"
    using assms(2) by (auto simp: log_grows_def)
  show ?thesis
  proof (rule log_growsI)
    show "events s2 = filter (\<lambda>x. P x \<and> Q x) (events s) @ (filter Q new @ later)"
      by (simp add: 1(1) 2(1) conj_commute)
    show "sorted_wrt (<) (map e_id (filter Q new @ later))"
      using 1(2,3) 2(2,3) by (fastforce simp: sorted_wrt_append sorted_wrt_map sorted_wrt_filter)
  qed (use 1(3,4) 2(3,4) in auto)
qed

interpretation log: log_relation log_grows
proof unfold_locales
  show "log_grows s s'" if "events s' = filter P (events s)" "event_seq s' = event_seq s" for s s' :: store and P
    using that by (intro log_growsI [of _ P _ "[]"]) auto
  show "log_grows s (snd (insert_event prj plan task kind stream actor payload s))" for s prj plan task kind stream actor payload
    by (auto simp: insert_event_def intro!: log_growsI [where P = "\<lambda>_. True"])
qed (rule log_grows_trans)

lemma log_same: "events s' = events s \<Longrightarrow> event_seq s' = event_seq s \<Longrightarrow> log_grows s s'"
  by (intro log_growsI [where P = "\<lambda>_. True" and new = "[]"]) auto

lemma hook_ops_log:
  "log_grows s (snd (SetHookVerificationPending se p i s))" "log_grows s (snd (SetHookVerificationResult se p i b s))"
  "log_grows s (snd (InvalidateHookVerifications se s))" "log_grows s (snd (ClearHookVerification se p i s))"
  by (auto intro!: log_same simp: SetHookVerificationPending_def SetHookVerificationResult_def InvalidateHookVerifications_def
      ClearHookVerification_def Let_def in_tx_def split: option.split)

lemma step_log:
  assumes "store_step s s'"
  shows "log_grows s s'"
  using assms by cases (auto intro: log_same hook_ops_log log.keeps_run keeping)

text \<open>The log is in order, and its ids do not run ahead of the sequence of the table.\<close>

definition log_inv :: "store \<Rightarrow> bool" where
  "log_inv s \<longleftrightarrow> sorted_wrt (<) (map e_id (events s)) \<and> (\<forall>r\<in>set (events s). e_id r \<le> event_seq s)"

lemma log_inv_step:
  assumes "store_step s s'" and "log_inv s"
  shows "log_inv s'"
proof -
  obtain P new where g: "events s' = filter P (events s) @ new" "sorted_wrt (<) (map e_id new)"
      "\<forall>r\<in>set new. event_seq s < e_id r \<and> e_id r \<le> event_seq s'" "event_seq s \<le> event_seq s'"
    using step_log [OF assms(1)] by (auto simp: log_grows_def)
  have "sorted_wrt (<) (map e_id (events s'))"
    using assms(2) g(2,3) by (fastforce simp: g(1) log_inv_def sorted_wrt_append sorted_wrt_map sorted_wrt_filter)
  moreover have "\<forall>r\<in>set (events s'). e_id r \<le> event_seq s'" using assms(2) g(3,4) by (fastforce simp: g(1) log_inv_def)
  ultimately show ?thesis by (simp add: log_inv_def)
qed

lemma reachable_log: "store_reachable s \<Longrightarrow> log_inv s"
proof (induction rule: store_reachable.induct)
  case (start now)
  show ?case by (simp add: log_inv_def empty_store_def)
next
  case (step s s')
  then show ?case using log_inv_step by blast
qed

lemma step_old_rows: "store_step s s' \<Longrightarrow> r \<in> set (events s') \<Longrightarrow> r \<in> set (events s) \<or> event_seq s < e_id r"
  by (drule step_log) (auto simp: log_grows_def)

lemma step_seq: "store_step s s' \<Longrightarrow> event_seq s \<le> event_seq s'"
  by (drule step_log) (simp add: log_grows_def)

lemma log_distinct: "log_inv s \<Longrightarrow> distinct (map e_id (events s))"
  by (simp add: log_inv_def strict_sorted_iff)

end
