(* ===== verification/Sup_Hook_Laws.thy ===== *)
theory Sup_Hook_Laws
  imports Sup_Demo Store_Log
begin

text \<open>
  What a stop verdict means.  No work of the supervisor writes a verdict: \<open>verdicts_kept\<close> is a relation that
  follows the orchestrator through its passes and turns, so only the signal plane itself adds rows, and
  a row that says passed is the result of a verification that began after the last tool use.
\<close>

section \<open>Work adds no verdict\<close>

lemma kept_trans: "verdicts_kept s s1 \<Longrightarrow> verdicts_kept s1 s2 \<Longrightarrow> verdicts_kept s s2"
  by (auto simp: verdicts_kept_def)

lemma kept_same: "hooks s' = hooks s \<Longrightarrow> verdicts_kept s s'"
  by (simp add: verdicts_kept_def)

interpretation signals: log_relation verdicts_kept
  by unfold_locales (auto simp: verdicts_kept_def insert_event_def)

interpretation verdicts: store_relation verdicts_kept
  by unfold_locales (auto intro: kept_trans signals.keeps_run keeping)

section \<open>Requests keep the verdicts\<close>

definition sup_kept :: "'r sup \<Rightarrow> 'r sup \<Rightarrow> bool" where
  "sup_kept s s1 \<longleftrightarrow> verdicts_kept (sup_db s) (sup_db s1) \<and> hookRuns s1 = hookRuns s \<and> hook_checks s1 = hook_checks s"

lemma sup_kept_trans: "sup_kept s s1 \<Longrightarrow> sup_kept s1 s2 \<Longrightarrow> sup_kept s s2"
  by (auto simp: sup_kept_def intro: kept_trans)

lemma sup_kept_same: "sup_orch s1 = sup_orch s \<Longrightarrow> hookRuns s1 = hookRuns s \<Longrightarrow> hook_checks s1 = hook_checks s \<Longrightarrow> sup_kept s s1"
  by (simp add: sup_kept_def)

lemma sup_kept_run: "signals.keeps m \<Longrightarrow> sup_kept s (snd (run_store m s))"
  by (auto simp: sup_kept_def run_store_def split: prod.split dest: signals.keeps_run [of _ "sup_db s"])

interpretation kept: request_relation sup_kept
  by unfold_locales (auto intro: sup_kept_trans sup_kept_run sup_kept_same keeping)

section \<open>Dispatching keeps the verdicts\<close>

lemma idle_account:
  assumes "orch_reachable c o'" and "\<not> capped c []"
  shows "account_by verdicts_kept c (db o') 0 [] o'"
proof -
  obtain s0 where "account_by store_steps c s0 0 [] o'" using account_start [OF assms] by blast
  then show ?thesis by (auto simp: account_by_def)
qed

lemma dispatch_plans_account:
  assumes "\<not> capped c []"
  shows "account_by verdicts_kept c s0 0 [] o' \<Longrightarrow> account_by verdicts_kept c s0 0 [] (snd (dispatch_plans c ps n o'))"
proof (induction ps arbitrary: n o')
  case (Cons p ps)
  obtain k e o1 where d: "DispatchNext c (Plan_ProjectID p) (Plan_ID p) o' = ((k, e), o1)" by (metis surj_pair)
  have "account_by verdicts_kept c s0 0 [] o1"
    using verdicts.account_DispatchNext [OF Cons.prems assms, of "Plan_ProjectID p" "Plan_ID p"] by (simp add: d)
  then show ?case using Cons.IH by (cases e) (simp_all add: d)
qed simp

lemma account_kept: "account_by R c s0 n held o' \<Longrightarrow> R s0 (db o')"
  by (simp add: account_by_def)

lemma dispatch_kept:
  assumes "orch_reachable (sc_orch c) (sup_orch s)" and "\<not> capped (sc_orch c) []"
  shows "sup_kept s (snd (dispatchActivePlans c s))"
  using account_kept [OF dispatch_plans_account [OF assms(2) idle_account [OF assms]]]
  by (simp add: dispatched_state sup_kept_def)

lemma tick_kept:
  assumes "orch_reachable (sc_orch c) (sup_orch s)" and "\<not> capped (sc_orch c) []"
  shows "sup_kept s (sup_tick c s)"
proof -
  define s2 where "s2 = run_quietly (HeartbeatSession (sup_session (run_quietly (ReclaimStale staleAfter90s) s))) (run_quietly (ReclaimStale staleAfter90s) s)"
  have "sup_moves c s s2" unfolding s2_def by (rule orchestrated.before_tick)
  then have "orch_reachable (sc_orch c) (sup_orch s2)" using assms(1) orch_steps_reachable by (auto simp: sup_moves_def)
  from dispatch_kept [OF this assms(2)] have "sup_kept s2 (sup_tick c s)" by (simp add: sup_tick_def s2_def Let_def)
  moreover have "sup_kept s s2" unfolding s2_def by (rule kept.before_tick)
  ultimately show ?thesis using sup_kept_trans by blast
qed

lemma work_kept:
  assumes "work_step c s s1" and "orch_reachable (sc_orch c) (sup_orch s)" and "\<not> capped (sc_orch c) []"
  shows "sup_kept s s1"
  using assms(1)
proof cases
  case (time now)
  then show ?thesis by (simp add: sup_kept_def kept_same)
next
  case (turn_ends t w)
  have "verdicts_kept (sup_db s) (db (finish_turn (sc_orch c) w t (sup_orch s)))"
    by (rule account_kept [OF verdicts.account_finish [OF idle_account [OF assms(2,3)] assms(3) turn_ends(4,2)]])
  then show ?thesis by (simp add: turn_ends(1) sup_kept_def)
next
  case (resolve r)
  then show ?thesis by (simp add: sup_kept_def)
qed (simp_all add: tick_kept enqueue_state dispatch_kept kept.requests assms)

section \<open>Runs with their history\<close>

text \<open>The history, newest first: accepted tool use of a session, a verification that has read the database, its end.\<close>

datatype hook_mark = ToolUse ident | CheckBegan hookRunKey store | CheckEnded hookRunKey bool

definition tool_use :: "HookEventArgs \<Rightarrow> HookEventReply \<Rightarrow> hook_mark list" where
  "tool_use args reply = (if ha_Event args = HookEventPostToolUse \<and> hr_Allow reply then [ToolUse (ha_SessionID args)] else [])"

definition mark_of :: "hookRunKey \<Rightarrow> hook_mark \<Rightarrow> bool" where
  "mark_of key m = (case m of CheckBegan k _ \<Rightarrow> k = key | CheckEnded k _ \<Rightarrow> k = key | ToolUse _ \<Rightarrow> False)"

text \<open>What \<open>CanStopAs\<close> answers on the database the goroutine read, for some answer of the shell and the file system.\<close>

definition check_answer :: "'r sup_cfg \<Rightarrow> (string \<Rightarrow> string \<Rightarrow> Evidence \<Rightarrow> check_outcome) \<Rightarrow> store \<Rightarrow> store \<Rightarrow> hookRunKey \<Rightarrow> orch_error + bool" where
  "check_answer c chk later st key =
     CanStopAs ((sc_orch c)\<lparr>acceptanceCheck := chk\<rparr>) (\<lambda>_. later) (hk_PlanID key) (hk_TaskID key) (hk_SessionID key) st"

inductive hook_run :: "'r sup_cfg \<Rightarrow> 'r sup \<Rightarrow> hook_mark list \<Rightarrow> 'r sup \<Rightarrow> bool" for c s0 where
  start: "hookRuns s0 = [] \<Longrightarrow> hook_checks s0 = [] \<Longrightarrow> orch_reachable (sc_orch c) (sup_orch s0) \<Longrightarrow> hook_run c s0 [] s0"
| work: "hook_run c s0 h s \<Longrightarrow> work_step c s s1 \<Longrightarrow> hook_run c s0 h s1"
| event: "hook_run c s0 h s \<Longrightarrow> HandleHookEvent args s = (reply, s1) \<Longrightarrow> hook_run c s0 (tool_use args reply @ h) s1"
| began: "hook_run c s0 h s \<Longrightarrow> key \<in> set (hook_checks s) \<Longrightarrow> hook_run c s0 (CheckBegan key (sup_db s) # h) s"
| ended: "hook_run c s0 h s \<Longrightarrow> key \<in> set (hook_checks s) \<Longrightarrow> find (mark_of key) h = Some (CheckBegan key st) \<Longrightarrow>
    outcome = check_answer c chk (sup_db s) st key \<Longrightarrow> hook_run c s0 (CheckEnded key (outcome = Inr True) # h) (hook_check_done key outcome s)"

section \<open>The invariant of a run\<close>

definition key_of :: "hook_row \<Rightarrow> hookRunKey" where
  "key_of r = \<lparr>hk_SessionID = h_session r, hk_PlanID = h_plan r, hk_TaskID = h_task r\<rparr>"

text \<open>The marks newer than the last mark of the key, and a verification that passed after the last tool use.\<close>

definition newer :: "hookRunKey \<Rightarrow> hook_mark list \<Rightarrow> hook_mark list" where
  "newer key h = takeWhile (\<lambda>m. \<not> mark_of key m) h"

definition passed_since_use :: "'r sup_cfg \<Rightarrow> hookRunKey \<Rightarrow> hook_mark list \<Rightarrow> bool" where
  "passed_since_use c key h \<longleftrightarrow> (\<exists>h1 h2 h3 st chk later. h = h1 @ CheckEnded key True # h2 @ CheckBegan key st # h3 \<and>
     ToolUse (hk_SessionID key) \<notin> set (h1 @ h2) \<and> check_answer c chk later st key = Inr True)"

definition run_inv :: "'r sup_cfg \<Rightarrow> ident \<Rightarrow> hook_mark list \<Rightarrow> 'r sup \<Rightarrow> bool" where
  "run_inv c se h s \<longleftrightarrow> set (hookRuns s) = set (hook_checks s) \<and> distinct (hook_checks s) \<and>
     (\<forall>key st. find (mark_of key) h = Some (CheckBegan key st) \<longrightarrow> key \<in> set (hook_checks s)) \<and>
     (\<forall>r\<in>set (hooks (sup_db s)). h_session r = se \<longrightarrow>
        (\<forall>st. find (mark_of (key_of r)) h = Some (CheckBegan (key_of r) st) \<longrightarrow> ToolUse se \<notin> set (newer (key_of r) h)) \<and>
        (h_state r = HookVerificationPassed \<longrightarrow> passed_since_use c (key_of r) h))"

lemma run_inv_kept: "run_inv c se h s \<Longrightarrow> sup_kept s s1 \<Longrightarrow> run_inv c se h s1"
  unfolding run_inv_def sup_kept_def verdicts_kept_def by (simp only:) blast

lemma mark_simps [simp]:
  "mark_of key (ToolUse x) = False" "mark_of key (CheckBegan k st) = (k = key)" "mark_of key (CheckEnded k b) = (k = key)"
  by (simp_all add: mark_of_def)

lemma newer_simps [simp]:
  "newer key (m # h) = (if mark_of key m then [] else m # newer key h)"
  by (simp add: newer_def)

lemma newer_split: "find (mark_of key) h = Some m \<Longrightarrow> \<exists>h3. h = newer key h @ m # h3"
  by (induction h) (auto split: if_splits)

lemma passed_cons:
  assumes "passed_since_use c key h" and "m \<noteq> ToolUse (hk_SessionID key)"
  shows "passed_since_use c key (m # h)"
proof -
  obtain h1 h2 h3 st chk later where "h = h1 @ CheckEnded key True # h2 @ CheckBegan key st # h3"
    "ToolUse (hk_SessionID key) \<notin> set (h1 @ h2)" "check_answer c chk later st key = Inr True"
    using assms(1) by (auto simp: passed_since_use_def)
  then show ?thesis unfolding passed_since_use_def
    by (intro exI [of _ "m # h1"] exI [of _ h2] exI [of _ h3] exI [of _ st] exI [of _ chk] exI [of _ later]) (use assms(2) in auto)
qed

text \<open>A mark of another session or of a verification keeps the invariant.\<close>

lemma key_session [simp]: "hk_SessionID (key_of r) = h_session r"
  by (simp add: key_of_def)

lemma run_inv_began:
  assumes "run_inv c se h s" and "key \<in> set (hook_checks s)"
  shows "run_inv c se (CheckBegan key st # h) s"
  using assms unfolding run_inv_def by (auto intro: passed_cons)

lemma run_inv_use:
  assumes "run_inv c se h s" and "x = se \<Longrightarrow> \<forall>r\<in>set (hooks (sup_db s)). h_session r \<noteq> se"
  shows "run_inv c se (ToolUse x # h) s"
proof (cases "x = se")
  case True
  then show ?thesis using assms unfolding run_inv_def by simp
next
  case False
  then show ?thesis using assms(1) unfolding run_inv_def by (auto intro: passed_cons)
qed

text \<open>The end of a verification.\<close>

lemma result_rows:
  assumes "r \<in> set (hooks (sup_db (hook_check_done key outcome s)))"
  shows "\<exists>r0\<in>set (hooks (sup_db s)). key_of r = key_of r0 \<and> h_session r = h_session r0 \<and>
    (h_state r = HookVerificationPassed \<longrightarrow> h_state r0 = HookVerificationPassed \<or> (key_of r = key \<and> outcome = Inr True))"
  using assms
  by (cases outcome; auto simp: hook_check_done_def Let_def releaseHookRun_def run_quietly_def with_db_def ClearHookVerification_def
      SetHookVerificationResult_def upd_where_def key_of_def split: if_splits; metis)

lemma done_registries: "hookRuns (hook_check_done key outcome s) = removeAll key (hookRuns s)"
  "hook_checks (hook_check_done key outcome s) = remove1 key (hook_checks s)"
  by (cases outcome; simp add: hook_check_done_def Let_def releaseHookRun_def run_quietly_def with_db_def)+

lemma run_inv_ended:
  assumes i: "run_inv c se h s" and key: "find (mark_of key) h = Some (CheckBegan key st)"
    and outcome: "outcome = check_answer c chk later st key"
  shows "run_inv c se (CheckEnded key (outcome = Inr True) # h) (hook_check_done key outcome s)"
proof -
  let ?h = "CheckEnded key (outcome = Inr True) # h" and ?s = "hook_check_done key outcome s"
  have reg: "set (hookRuns s) = set (hook_checks s)" "distinct (hook_checks s)"
    and began: "\<And>k st. find (mark_of k) h = Some (CheckBegan k st) \<Longrightarrow> k \<in> set (hook_checks s)"
    using i by (auto simp: run_inv_def)
  have row: "(\<forall>st. find (mark_of (key_of r)) ?h = Some (CheckBegan (key_of r) st) \<longrightarrow> ToolUse se \<notin> set (newer (key_of r) ?h)) \<and>
      (h_state r = HookVerificationPassed \<longrightarrow> passed_since_use c (key_of r) ?h)"
    if r: "r \<in> set (hooks (sup_db ?s))" "h_session r = se" for r
  proof -
    obtain r0 where r0: "r0 \<in> set (hooks (sup_db s))" "key_of r = key_of r0" "h_session r0 = se"
      "h_state r = HookVerificationPassed \<Longrightarrow> h_state r0 = HookVerificationPassed \<or> (key_of r = key \<and> outcome = Inr True)"
      using result_rows [OF r(1)] r(2) by auto
    have old: "find (mark_of (key_of r)) h = Some (CheckBegan (key_of r) st') \<Longrightarrow> ToolUse se \<notin> set (newer (key_of r) h)"
      "h_state r0 = HookVerificationPassed \<Longrightarrow> passed_since_use c (key_of r) h" for st'
      using i r0(1,2,3) by (auto simp: run_inv_def)
    have "passed_since_use c (key_of r) ?h" if "key_of r = key" "outcome = Inr True"
    proof -
      obtain h3 where "h = newer key h @ CheckBegan key st # h3" using newer_split [OF key] by blast
      moreover have "ToolUse se \<notin> set (newer key h)" using old(1) [of st] key that(1) by simp
      moreover have "hk_SessionID key = se" using that(1) r(2) by (auto simp: key_of_def)
      ultimately show ?thesis unfolding passed_since_use_def using that outcome
        by (intro exI [of _ "[]"] exI [of _ "newer key h"] exI [of _ h3] exI [of _ st] exI [of _ chk] exI [of _ later]) auto
    qed
    moreover have "passed_since_use c (key_of r) h \<Longrightarrow> passed_since_use c (key_of r) ?h" by (rule passed_cons) simp_all
    ultimately show ?thesis using old r0(4) by (auto split: if_splits)
  qed
  show ?thesis unfolding run_inv_def done_registries using reg began row by auto
qed

section \<open>Hook events keep the invariant\<close>

lemma heartbeats_kept: "sup_kept s (snd (hook_heartbeats seen ts s))"
proof (induction ts arbitrary: seen s)
  case (Cons task ts)
  have one: "sup_kept s s1" if "run_store (HeartbeatWorkerAndSession w) s = (r, s1)" for w r s1
    using sup_kept_run [OF signals.keeps_heartbeats(3), of s w] by (simp add: that)
  show ?case using Cons.IH by (auto split: sum.split prod.split dest!: one intro: sup_kept_trans)
qed simp

lemma progress_result:
  assumes "hook_progress se ts s = (reply, s1)"
  shows "sup_kept s s1 \<and> (\<forall>r\<in>set (hooks (sup_db s1)). h_session r \<noteq> se)"
proof -
  define s0 where "s0 = with_db ((sup_db s)\<lparr>hooks := filter (\<lambda>h. h_session h \<noteq> se) (hooks (sup_db s))\<rparr>) s"
  have s1: "s1 = snd (hook_heartbeats [] ts s0)"
    using assms by (simp add: hook_progress_def run_store_def InvalidateHookVerifications_def s0_def)
  have "sup_kept s0 s1" unfolding s1 by (rule heartbeats_kept)
  moreover have "sup_kept s s0" "\<forall>r\<in>set (hooks (sup_db s0)). h_session r \<noteq> se"
    by (auto simp: sup_kept_def verdicts_kept_def s0_def)
  ultimately show ?thesis by (auto simp: sup_kept_def verdicts_kept_def)
qed

text \<open>One verification started by a stop request.\<close>

lemma pending_rows:
  assumes "SetHookVerificationPending se p i st = (Inr w, st1)" and "r \<in> set (hooks st1)"
  shows "r \<in> set (hooks st) \<or> (w \<and> key_of r = \<lparr>hk_SessionID = se, hk_PlanID = p, hk_TaskID = i\<rparr> \<and> h_state r = HookVerificationPending)"
  using assms by (auto simp: SetHookVerificationPending_def upd_where_def key_of_def split: if_splits)

lemma run_inv_started:
  assumes i: "run_inv c se h s" and key: "key = hook_key x task" "key \<notin> set (hookRuns s)"
    and st: "SetHookVerificationPending x (ht_PlanID task) (ht_TaskID task) (sup_db s) = (Inr True, st1)"
  shows "run_inv c se h (with_db st1 s\<lparr>hookRuns := key # hookRuns s, hook_checks := key # hook_checks s\<rparr>)"
proof -
  have reg: "set (hookRuns s) = set (hook_checks s)" "distinct (hook_checks s)"
    and began: "\<And>k st. find (mark_of k) h = Some (CheckBegan k st) \<Longrightarrow> k \<in> set (hook_checks s)"
    and rows: "\<And>r. r \<in> set (hooks (sup_db s)) \<Longrightarrow> h_session r = se \<Longrightarrow>
        (\<forall>st. find (mark_of (key_of r)) h = Some (CheckBegan (key_of r) st) \<longrightarrow> ToolUse se \<notin> set (newer (key_of r) h)) \<and>
        (h_state r = HookVerificationPassed \<longrightarrow> passed_since_use c (key_of r) h)"
    using i by (auto simp: run_inv_def)
  have "(\<forall>st. find (mark_of (key_of r)) h = Some (CheckBegan (key_of r) st) \<longrightarrow> ToolUse se \<notin> set (newer (key_of r) h)) \<and>
      (h_state r = HookVerificationPassed \<longrightarrow> passed_since_use c (key_of r) h)"
    if r: "r \<in> set (hooks st1)" "h_session r = se" for r
  proof (cases "r \<in> set (hooks (sup_db s))")
    case True
    then show ?thesis using rows r(2) by blast
  next
    case False
    then have new: "key_of r = key" "h_state r = HookVerificationPending"
      using pending_rows [OF st r(1)] key(1) by (auto simp: hook_key_def)
    have "find (mark_of key) h \<noteq> Some (CheckBegan key st)" for st
      using began [of key st] reg(1) key(2) by auto
    then show ?thesis using new by simp
  qed
  then show ?thesis unfolding run_inv_def using reg began key(2) by auto
qed

lemma run_inv_stop: "run_inv c se h s \<Longrightarrow> run_inv c se h (snd (stop_loop x states ts f s))"
proof (induction ts arbitrary: f s)
  case (Cons task ts)
  let ?p = "ht_PlanID task" and ?i = "ht_TaskID task" and ?key = "hook_key x task"
  obtain res st1 where set: "SetHookVerificationPending x ?p ?i (sup_db s) = (res, st1)" by fastforce
  have fresh: "run_inv c se h (releaseHookRun ?key (with_db st1 (s\<lparr>hookRuns := ?key # hookRuns s\<rparr>)))"
    if "?key \<notin> set (hookRuns s)" "res \<noteq> Inr True"
  proof -
    have "set (hooks st1) \<subseteq> set (hooks (sup_db s))"
      using set that(2) by (auto simp: SetHookVerificationPending_def split: if_splits)
    then show ?thesis using that(1)
      by (intro run_inv_kept [OF Cons.prems]) (simp add: sup_kept_def verdicts_kept_def releaseHookRun_def)
  qed
  have start: "run_inv c se h (snd (stop_loop x states ts f' (with_db st1 (s\<lparr>hookRuns := ?key # hookRuns s\<rparr>)\<lparr>hook_checks := ?key # hook_checks s\<rparr>)))"
    if "?key \<notin> set (hookRuns s)" "res = Inr True" for f'
  proof -
    have "with_db st1 (s\<lparr>hookRuns := ?key # hookRuns s\<rparr>)\<lparr>hook_checks := ?key # hook_checks s\<rparr> =
        with_db st1 s\<lparr>hookRuns := ?key # hookRuns s, hook_checks := ?key # hook_checks s\<rparr>"
      by (simp add: with_db_def)
    then show ?thesis using Cons.IH [OF run_inv_started [OF Cons.prems refl that(1) set [unfolded that(2)]]] by simp
  qed
  have later: "run_inv c se h (snd (stop_loop x states ts f' s))" for f' by (rule Cons.IH [OF Cons.prems])
  show ?case
    using fresh start later
    by (auto simp: Let_def claimHookRun_def run_store_def set split: sum.split)
qed simp

lemma event_result:
  assumes "HandleHookEvent args s = (reply, s1)" and "run_inv c se h s"
  shows "run_inv c se (tool_use args reply @ h) s1"
proof -
  let ?x = "ha_SessionID args"
  obtain res s0 where rs: "run_store (RunningHookTasks ?x) s = (res, s0)" by fastforce
  have [simp]: "s0 = s" using running_tasks_same rs by blast
  have quiet: "run_inv c se (tool_use args reply @ h) s1" if "s1 = s" "\<not> hr_Allow reply"
    using that assms(2) by (simp add: tool_use_def)
  have progress: "run_inv c se (tool_use args reply @ h) s1" if "hook_progress ?x ts s = (reply, s1)" for ts
  proof -
    note res = progress_result [OF that]
    have "run_inv c se h s1" using run_inv_kept [OF assms(2)] res by blast
    then show ?thesis using res by (auto simp: tool_use_def intro: run_inv_use)
  qed
  have stop: "run_inv c se (tool_use args reply @ h) s1" if "hook_stop ?x ts s = (reply, s1)" "ha_Event args \<noteq> HookEventPostToolUse" for ts
    using run_inv_stop [OF assms(2), of ?x "HookVerificationStates ?x (sup_db s)" ts
      "\<lparr>sf_allPassed = True, sf_started = False, sf_pending = False, sf_failed = False\<rparr>"] that
    by (simp add: hook_stop_def tool_use_def)
  show ?thesis using assms(1) quiet progress stop
    by (auto simp: HandleHookEvent_def rs hook_reply_def split: if_splits sum.splits)
qed

lemma run_orchestrated: "hook_run c s0 h s \<Longrightarrow> orch_reachable (sc_orch c) (sup_orch s)"
proof (induction rule: hook_run.induct)
  case (work h s s1)
  then show ?case using work_moves orch_steps_reachable by (metis sup_moves_def)
next
  case (event h s args reply s1)
  then show ?case using hook_moves [of c s args] orch_steps_reachable by (metis sup_moves_def snd_conv)
next
  case (ended h s key st outcome chk)
  then show ?case using hook_done_moves [of c s key outcome] orch_steps_reachable by (metis sup_moves_def)
qed

lemma run_invariant:
  assumes "hook_run c s0 h s" and "\<not> capped (sc_orch c) []" and "\<forall>r\<in>set (hooks (sup_db s0)). h_session r \<noteq> se"
  shows "run_inv c se h s"
  using assms(1)
proof (induction rule: hook_run.induct)
  case start
  then show ?case using assms(3) by (simp add: run_inv_def)
next
  case (work h s s1)
  then show ?case using run_inv_kept work_kept run_orchestrated assms(2) by metis
next
  case (event h s args reply s1)
  then show ?case using event_result by blast
next
  case (began h s key)
  then show ?case using run_inv_began by blast
next
  case (ended h s key st outcome chk)
  then show ?case using run_inv_ended by blast
qed

section \<open>What an allowed stop means\<close>

lemma states_rows:
  "HookVerificationStates se st (p, i) = Some x \<Longrightarrow>
     \<exists>r\<in>set (hooks st). h_session r = se \<and> h_plan r = p \<and> h_task r = i \<and> h_state r = x"
proof -
  have "fold (\<lambda>h out. out((h_plan h, h_task h) \<mapsto> h_state h)) rows m (p, i) = Some x \<Longrightarrow>
      m (p, i) = Some x \<or> (\<exists>r\<in>set rows. h_plan r = p \<and> h_task r = i \<and> h_state r = x)" for rows m
    by (induction rows arbitrary: m) (fastforce split: if_splits)+
  from this [of "filter (\<lambda>h. h_session h = se) (hooks st)" Map.empty]
  show "HookVerificationStates se st (p, i) = Some x \<Longrightarrow> ?thesis" by (auto simp: HookVerificationStates_def)
qed

lemma verdict_allows: "hr_Allow (stop_verdict f) \<longleftrightarrow> sf_allPassed f"
  by (simp add: stop_verdict_def hook_reply_def)

lemma stop_loop_allows:
  "hr_Allow (fst (stop_loop x states ts f s)) \<Longrightarrow>
     sf_allPassed f \<and> (\<forall>task\<in>set ts. states (ht_PlanID task, ht_TaskID task) = Some HookVerificationPassed)"
proof (induction ts arbitrary: f s)
  case Nil
  then show ?case by (simp add: verdict_allows)
next
  case (Cons task ts)
  from Cons.prems show ?case
    by (auto simp: Let_def hook_reply_def split: if_splits prod.splits bool.splits sum.splits dest!: Cons.IH)
qed

lemma stop_allowed:
  assumes "HandleHookEvent args s = (reply, s1)" and "ha_Event args = HookEventStop" and "hr_Allow reply"
    and "RunningHookTasks (ha_SessionID args) (sup_db s) = (Inr ts, st)"
  shows "ts \<noteq> [] \<and> (\<forall>task\<in>set ts. \<exists>r\<in>set (hooks (sup_db s)). key_of r = hook_key (ha_SessionID args) task \<and> h_state r = HookVerificationPassed)"
proof -
  let ?x = "ha_SessionID args"
  have stop: "HookEventStop \<noteq> HookEventPostToolUse" by (simp add: HookEventStop_def HookEventPostToolUse_def)
  have rs: "run_store (RunningHookTasks ?x) s = (Inr ts, s)"
    using assms(4) running_tasks_same [of ?x s "Inr ts"] by (simp add: run_store_def split: prod.splits)
  have "ts \<noteq> []" "hook_stop ?x ts s = (reply, s1)"
    using assms(1-3) stop by (auto simp: HandleHookEvent_def rs hook_reply_def split: if_splits)
  then have "\<forall>task\<in>set ts. HookVerificationStates ?x (sup_db s) (ht_PlanID task, ht_TaskID task) = Some HookVerificationPassed"
    using assms(3) stop_loop_allows unfolding hook_stop_def by (metis fst_conv)
  then show ?thesis using \<open>ts \<noteq> []\<close> by (fastforce simp: key_of_def hook_key_def dest!: states_rows)
qed

text \<open>\<^bold>\<open>C5.\<close> A provider may stop only after its work was verified.  Whatever tool use, stop requests, verifications,
  dispatch passes, requests of clients and ends of turns interleave: when a stop is allowed, the session runs
  at least one task, and for each of them a verification has ended positively that read the database after the
  last accepted tool use of the session, on a task that the session still ran.\<close>

theorem stop_needs_fresh_verification:
  assumes "hook_run c s0 h s" "\<not> capped (sc_orch c) []" "\<forall>r\<in>set (hooks (sup_db s0)). h_session r \<noteq> ha_SessionID args"
    and "HandleHookEvent args s = (reply, s1)" "ha_Event args = HookEventStop" "hr_Allow reply"
    and "RunningHookTasks (ha_SessionID args) (sup_db s) = (Inr ts, st)"
  shows "ts \<noteq> [] \<and> (\<forall>task\<in>set ts. passed_since_use c (hook_key (ha_SessionID args) task) h)"
proof -
  note allowed = stop_allowed [OF assms(4-7)]
  have "passed_since_use c (hook_key (ha_SessionID args) task) h" if "task \<in> set ts" for task
  proof -
    from bspec [OF conjunct2 [OF allowed] that]
    obtain r where r: "r \<in> set (hooks (sup_db s))" "key_of r = hook_key (ha_SessionID args) task" "h_state r = HookVerificationPassed"
      by (elim bexE conjE)
    have "h_session r = ha_SessionID args" using r(2) by (simp add: key_of_def hook_key_def)
    then have "passed_since_use c (key_of r) h" using run_invariant [OF assms(1-3)] r(1,3) by (simp add: run_inv_def)
    then show ?thesis by (simp add: r(2))
  qed
  then show ?thesis using conjunct1 [OF allowed] by simp
qed

definition demo_shell :: "string \<Rightarrow> string \<Rightarrow> Evidence \<Rightarrow> check_outcome" where
  "demo_shell = (\<lambda>_ _ _. Verdict True [])"

lemma demo_answer: "check_answer demo_sup_cfg demo_shell (sup_db demo_asked) (sup_db demo_asked) demo_key = Inr True"
  by code_simp

lemma demo_run: "hook_run demo_sup_cfg demo_sup [CheckEnded demo_key True, CheckBegan demo_key (sup_db demo_asked)] demo_verified"
proof -
  have "hook_run demo_sup_cfg demo_sup [] demo_sup"
    by (rule hook_run.start) (simp_all add: demo_sup_orchestrated, simp_all add: demo_sup_def)
  from hook_run.event [OF this, of demo_stop "fst (HandleHookEvent demo_stop demo_sup)" demo_asked]
  have asked: "hook_run demo_sup_cfg demo_sup [] demo_asked"
    by (simp add: demo_asked_def tool_use_def demo_stop_def HookEventStop_def HookEventPostToolUse_def)
  have key: "demo_key \<in> set (hook_checks demo_asked)" by code_simp
  from hook_run.ended [OF hook_run.began [OF asked key] key _ refl, of "sup_db demo_asked" demo_shell]
  show ?thesis by (simp add: demo_answer demo_verified_def)
qed

theorem stop_needs_fresh_verification_witness:
  "passed_since_use demo_sup_cfg demo_key [CheckEnded demo_key True, CheckBegan demo_key (sup_db demo_asked)]"
proof -
  let ?ts = "[\<lparr>ht_PlanID = ''p'', ht_TaskID = ''a'', ht_WorkerID = ''w'', ht_Provider = ''codex''\<rparr>]"
  have rows: "hooks (sup_db demo_sup) = []" by code_simp
  have "fst (HandleHookEvent demo_stop demo_verified) = hook_reply True ''acceptance_passed''" by code_simp
  then obtain s1 where reply: "HandleHookEvent demo_stop demo_verified = (hook_reply True ''acceptance_passed'', s1)" by (metis prod.collapse)
  have "fst (RunningHookTasks (ha_SessionID demo_stop) (sup_db demo_verified)) = Inr ?ts" by code_simp
  then obtain st where run: "RunningHookTasks (ha_SessionID demo_stop) (sup_db demo_verified) = (Inr ?ts, st)" by (metis prod.collapse)
  have "ha_Event demo_stop = HookEventStop" "hr_Allow (hook_reply True ''acceptance_passed'')"
    by (simp_all add: demo_stop_def hook_reply_def)
  from stop_needs_fresh_verification [OF demo_run _ _ reply this run] demo_uncapped rows
  show ?thesis by (simp add: demo_sup_cfg_def demo_stop_def hook_key_def demo_key_def)
qed

end
