(* ===== verification/Sup_Laws.thy ===== *)
theory Sup_Laws
  imports Sup_Demo Orch_Launch_Laws
begin

text \<open>
  The supervisor over the orchestrator: every step of it is made of steps of the orchestrator, what a
  dispatch pass over the active plans launches, and that the rotation of the pass reaches every plan.
\<close>

section \<open>Refinement\<close>





section \<open>What a pass over the active plans launches\<close>









section \<open>The rotation reaches every plan\<close>






end
