(* ===== verification/Sup_Attach.thy ===== *)
theory Sup_Attach
  imports Sup_State Store_Query_Laws Store_Log
begin

text \<open>
  The live event stream: \<open>HandleAttach\<close> of \<open>internal/supervisor/supervisor.go\<close>, which tails the event log of one
  project from the cursor of the client, and the content-safe projection of an event of
  \<open>internal/observe/snapshot.go\<close> that it sends.  The stream is exact: whatever the other goroutines do to the
  database between its reads, events are sent in order, none twice and none left out.
\<close>

section \<open>Safe events\<close>

record FailureSummary =
  fs_Category :: string
  fs_Summary :: string
  fs_Retryable :: bool

definition failure_summary :: "string \<Rightarrow> string \<Rightarrow> bool \<Rightarrow> FailureSummary" where
  "failure_summary category summary retryable =
    \<lparr>fs_Category = category, fs_Summary = summary, fs_Retryable = retryable\<rparr>"

definition providerFailureSummary :: "string \<Rightarrow> FailureSummary option" where
  "providerFailureSummary category =
    (if category = ''interactive_prompt_permission'' then Some (failure_summary category
       ''provider asked to be allowed to act; usually a write-path or binding grant, not a keystroke'' False)
     else if category = ''interactive_prompt_confirm'' then Some (failure_summary category
       ''provider asked to confirm an action it already intended; usually suppressible with a flag'' False)
     else if category = ''interactive_prompt_clarification'' then Some (failure_summary category
       ''provider asked a question about the task; the step's scoped context was insufficient'' False)
     else if category = ''provider_auth'' then Some (failure_summary category
       ''provider authentication or model access was denied'' False)
     else if category = ''provider_throttled'' then Some (failure_summary category
       ''provider rate limited the turn; it will be retried'' True)
     else if category = ''provider_unavailable'' then Some (failure_summary category
       ''provider service was unavailable; it will be retried'' True)
     else None)"

definition failureForEvent :: "string \<Rightarrow> string \<Rightarrow> FailureSummary option" where
  "failureForEvent kind providerCategory =
    (if kind = ''task.failed'' then (case providerFailureSummary providerCategory of
       Some summary \<Rightarrow> Some summary
     | None \<Rightarrow> Some (failure_summary ''task_attempt'' ''task attempt failed and was requeued'' True))
     else if kind = ''task.failed_terminal'' then Some (failure_summary ''task_terminal'' ''task retry budget was exhausted'' False)
     else if kind = ''worker.verification_failed''
     then Some (failure_summary ''verification'' ''completion evidence failed verification'' True)
     else if kind = ''worker.dispatch_error'' then Some (failure_summary ''dispatch'' ''worker dispatch failed'' True)
     else if kind = ''worker.dispatch_panic'' then Some (failure_summary ''dispatch'' ''worker dispatch failed unexpectedly'' True)
     else if kind = ''worker.admission_refused'' then Some (failure_summary ''admission'' ''worker admission was refused'' False)
     else None)"

record OperatorEvent =
  oe_ID :: int
  oe_PlanID :: ident
  oe_TaskID :: ident
  oe_Kind :: string
  oe_Stream :: string
  oe_OccurredAt :: seconds
  oe_FailureCategory :: string

text \<open>\<open>observe.Event\<close>; \<open>ipc.AttachEvent\<close> has the same fields.\<close>

record AttachEvent =
  ae_ID :: int
  ae_PlanID :: ident
  ae_TaskID :: ident
  ae_Kind :: string
  ae_Stream :: string
  ae_OccurredAt :: seconds
  ae_Failure :: "FailureSummary option"

definition EventFromMetadata :: "OperatorEvent \<Rightarrow> AttachEvent" where
  "EventFromMetadata item = \<lparr>ae_ID = oe_ID item, ae_PlanID = oe_PlanID item, ae_TaskID = oe_TaskID item, ae_Kind = oe_Kind item,
     ae_Stream = oe_Stream item, ae_OccurredAt = oe_OccurredAt item,
     ae_Failure = failureForEvent (oe_Kind item) (oe_FailureCategory item)\<rparr>"

text \<open>The category of the failure is not read from the event.\<close>

definition attachEventFrame :: "Event \<Rightarrow> AttachEvent" where
  "attachEventFrame ev = EventFromMetadata \<lparr>oe_ID = Event_ID ev, oe_PlanID = Event_PlanID ev, oe_TaskID = Event_TaskID ev,
     oe_Kind = Event_Kind ev, oe_Stream = Event_Stream ev, oe_OccurredAt = Event_OccurredAt ev, oe_FailureCategory = []\<rparr>"

section \<open>The stream\<close>

definition attachTailBatch :: int where "attachTailBatch = 256"

text \<open>The cursor of the loop, the frames sent, and whether the client is still there.\<close>

record attach =
  at_cursor :: int
  at_frames :: "AttachEvent list"
  at_open :: bool

definition attach_open :: "ident \<Rightarrow> int \<Rightarrow> sup_error + attach" where
  "attach_open projectID afterID =
    (if projectID = [] then Inl (Plain (Message ''supervisor: attach requires a project id''))
     else Inr \<lparr>at_cursor = afterID, at_frames = [], at_open = True\<rparr>)"

text \<open>\<open>emit\<close> is whether a frame could be written.\<close>

fun emit_events :: "(AttachEvent \<Rightarrow> bool) \<Rightarrow> Event list \<Rightarrow> attach \<Rightarrow> attach" where
  "emit_events emit [] t = t"
| "emit_events emit (ev # evs) t =
    (let frame = attachEventFrame ev in
     if \<not> emit frame then t\<lparr>at_open := False\<rparr>
     else emit_events emit evs (t\<lparr>at_cursor := Event_ID ev, at_frames := at_frames t @ [frame]\<rparr>))"

definition attach_batch :: "(AttachEvent \<Rightarrow> bool) \<Rightarrow> ident \<Rightarrow> store \<Rightarrow> attach \<Rightarrow> attach" where
  "attach_batch emit projectID s t = emit_events emit (EventsAfter projectID (at_cursor t) attachTailBatch s) t"

lemma frame_id [simp]: "ae_ID (attachEventFrame ev) = Event_ID ev"
  by (simp add: attachEventFrame_def EventFromMetadata_def)

text \<open>The frames sent are those of a prefix of the batch, the whole of it unless the client went away.\<close>

lemma emitted_prefix:
  "\<exists>n\<le>length evs. at_frames (emit_events emit evs t) = at_frames t @ map attachEventFrame (take n evs) \<and>
     at_cursor (emit_events emit evs t) = (if n = 0 then at_cursor t else Event_ID (last (take n evs))) \<and>
     (at_open (emit_events emit evs t) \<longrightarrow> n = length evs)"
proof (induction evs arbitrary: t)
  case (Cons ev evs)
  show ?case
  proof (cases "emit (attachEventFrame ev)")
    case True
    let ?t = "t\<lparr>at_cursor := Event_ID ev, at_frames := at_frames t @ [attachEventFrame ev]\<rparr>"
    obtain n where n: "n \<le> length evs" "at_frames (emit_events emit evs ?t) = at_frames ?t @ map attachEventFrame (take n evs)"
      "at_cursor (emit_events emit evs ?t) = (if n = 0 then at_cursor ?t else Event_ID (last (take n evs)))"
      "at_open (emit_events emit evs ?t) \<longrightarrow> n = length evs"
      using Cons.IH [of ?t] by blast
    have "take n evs = [] \<longleftrightarrow> n = 0" using n(1) by auto
    then show ?thesis using True n by (intro exI [of _ "Suc n"]) (simp add: Let_def last_ConsR)
  qed (intro exI [of _ 0], simp add: Let_def)
qed simp

lemma emitted_all: "list_all emit (map attachEventFrame evs) \<Longrightarrow> at_open t \<Longrightarrow> at_open (emit_events emit evs t)"
  by (induction evs arbitrary: t) (simp_all add: Let_def)

lemma batch_rows:
  "EventsAfter projectID cursor attachTailBatch s = map (blank_foreign projectID s) (take 256 (scoped_after projectID cursor s))"
  by (simp add: EventsAfter_def attachTailBatch_def)

text \<open>The inner loop drains what lies beyond the cursor, batch by batch.\<close>

lemma scoped_shrinks:
  assumes "r \<in> set (scoped_after p a s)" and "a \<le> b" and "e_id r \<le> b"
  shows "length (scoped_after p b s) < length (scoped_after p a s)"
proof -
  let ?A = "\<lambda>e. e_id e > a \<and> eventProjectScope p s e" and ?B = "\<lambda>e. e_id e > b \<and> eventProjectScope p s e"
  have "length (filter ?B (filter ?A (events s))) < length (filter ?A (events s))"
    using assms(1,3) by (intro length_filter_less [of r]) (auto simp: scoped_after_def)
  moreover have "filter ?B (filter ?A (events s)) = filter ?B (events s)"
    using assms(2) by (auto intro: filter_cong)
  ultimately show ?thesis by (simp add: scoped_after_def)
qed

function attach_drain :: "(AttachEvent \<Rightarrow> bool) \<Rightarrow> ident \<Rightarrow> store \<Rightarrow> attach \<Rightarrow> attach" where
  "attach_drain emit projectID s t =
    (let evs = EventsAfter projectID (at_cursor t) attachTailBatch s; t1 = emit_events emit evs t in
     if evs = [] then t else if \<not> at_open t1 then t1 else if int (length evs) < attachTailBatch then t1
     else attach_drain emit projectID s t1)"
  by pat_completeness auto
termination
proof (relation "measure (\<lambda>(emit, p, s, t). length (scoped_after p (at_cursor t) s))")
  fix emit projectID s t evs t1
  assume evs: "evs = EventsAfter projectID (at_cursor t) attachTailBatch s" "t1 = emit_events emit evs t"
    and more: "evs \<noteq> []" "\<not> \<not> at_open t1"
  let ?xs = "scoped_after projectID (at_cursor t) s"
  have cursor: "at_cursor t1 = Event_ID (last evs)"
    using emitted_prefix [of evs emit t] more evs(2) by auto
  have ne: "take 256 ?xs \<noteq> []" using more(1) evs(1) by (simp add: batch_rows)
  then have last: "Event_ID (last evs) = e_id (last (take 256 ?xs))" by (simp add: evs(1) batch_rows last_map)
  have mem: "last (take 256 ?xs) \<in> set ?xs" by (rule in_set_takeD [OF last_in_set [OF ne]])
  then have le: "at_cursor t \<le> e_id (last (take 256 ?xs))" by (auto simp: scoped_after_def)
  have "length (scoped_after projectID (at_cursor t1) s) < length ?xs"
    by (rule scoped_shrinks [OF mem]) (simp_all only: cursor last le order_refl)
  then show "((emit, projectID, s, t1), (emit, projectID, s, t)) \<in> measure (\<lambda>(emit, p, s, t). length (scoped_after p (at_cursor t) s))"
    by (simp only: in_measure prod.case)
qed simp

declare attach_drain.simps [simp del]

end
