(* ===== verification/Ipc_Protocol.thy ===== *)
theory Ipc_Protocol
  imports Sup_Hooks "HOL-Library.AList"
begin

text \<open>
  The messages between clients and the supervisor: \<open>internal/ipc/protocol.go\<close>, as Go structs with their JSON
  form.  For each message the members that \<open>json.Marshal\<close> writes, and the fields \<open>json.Unmarshal\<close> fills; an empty
  list stands for a nil slice, which is written as \<open>null\<close> or, with \<open>omitempty\<close>, not at all.
\<close>

section \<open>Fields\<close>

definition list_field :: "(json_value \<Rightarrow> 'e option) \<Rightarrow> ('e list \<Rightarrow> 'r \<Rightarrow> 'r) \<Rightarrow> 'r setter" where
  "list_field elem upd = slice_field elem (\<lambda>l. upd (case l of None \<Rightarrow> [] | Some xs \<Rightarrow> xs))"

text \<open>\<open>map[string]string\<close>: a member is put into the map that is there, \<open>null\<close> makes the map nil.\<close>

fun put_members :: "(string \<times> json_value) list \<Rightarrow> (string \<times> string) list \<Rightarrow> (string \<times> string) list option" where
  "put_members [] m = Some m"
| "put_members ((k, v) # kvs) m = (case string_elem v of None \<Rightarrow> None | Some t \<Rightarrow> put_members kvs (AList.update k t m))"

definition map_field :: "(((string \<times> string) list \<Rightarrow> (string \<times> string) list option) \<Rightarrow> 'r \<Rightarrow> 'r option) \<Rightarrow> 'r setter" where
  "map_field upd v r = (case v of JsonNull \<Rightarrow> upd (\<lambda>_. Some []) r | JsonObject kvs \<Rightarrow> upd (put_members kvs) r | _ \<Rightarrow> None)"

text \<open>\<open>json.RawMessage\<close> keeps whatever value is there.\<close>

definition raw_field :: "(json_value \<Rightarrow> 'r \<Rightarrow> 'r) \<Rightarrow> 'r setter" where
  "raw_field upd v r = Some (upd v r)"

definition member :: "string \<Rightarrow> json_value \<Rightarrow> (string \<times> json_value) list" where
  "member name v = [(name, v)]"

definition omit_if :: "bool \<Rightarrow> string \<Rightarrow> json_value \<Rightarrow> (string \<times> json_value) list" where
  "omit_if blank name v = (if blank then [] else [(name, v)])"

definition text_member :: "string \<Rightarrow> string \<Rightarrow> (string \<times> json_value) list" where
  "text_member name t = omit_if (t = []) name (JsonString t)"

definition list_value :: "('e \<Rightarrow> json_value) \<Rightarrow> 'e list \<Rightarrow> json_value" where
  "list_value f xs = (if xs = [] then JsonNull else JsonArray (map f xs))"

text \<open>\<open>Marshal\<close> writes a map in the order of its keys.\<close>

definition map_value :: "(string \<times> string) list \<Rightarrow> json_value" where
  "map_value m = JsonObject (map (\<lambda>kv. (fst kv, JsonString (snd kv))) (sort_key fst m))"

section \<open>Commands\<close>

definition CmdStatus :: string where "CmdStatus = ''status''"
definition CmdAttach :: string where "CmdAttach = ''attach''"
definition CmdEnqueue :: string where "CmdEnqueue = ''enqueue''"
definition CmdStop :: string where "CmdStop = ''stop''"
definition CmdReloadConfig :: string where "CmdReloadConfig = ''reload-config''"
definition CmdPlanImport :: string where "CmdPlanImport = ''plan-import''"
definition CmdPlanSetStatus :: string where "CmdPlanSetStatus = ''plan-set-status''"
definition CmdPlanDelete :: string where "CmdPlanDelete = ''plan-delete''"
definition CmdTaskApprove :: string where "CmdTaskApprove = ''task-approve''"
definition CmdWorkerKill :: string where "CmdWorkerKill = ''worker-kill''"
definition CmdProjectEnsure :: string where "CmdProjectEnsure = ''project-ensure''"
definition CmdProjectConfigGet :: string where "CmdProjectConfigGet = ''project-config-get''"
definition CmdProjectConfigApply :: string where "CmdProjectConfigApply = ''project-config-apply''"
definition CmdObserveSnapshot :: string where "CmdObserveSnapshot = ''observe-snapshot''"
definition CmdObserveMessages :: string where "CmdObserveMessages = ''observe-messages''"
definition CmdObserveTaskDescriptions :: string where "CmdObserveTaskDescriptions = ''observe-task-descriptions''"
definition CmdCalibrationPut :: string where "CmdCalibrationPut = ''calibration-put''"
definition CmdCalibrationList :: string where "CmdCalibrationList = ''calibration-list''"
definition CmdHookEvent :: string where "CmdHookEvent = ''hook-event''"

definition DriveProtoVersion :: int where "DriveProtoVersion = 2"
definition QueryProtoVersion :: int where "QueryProtoVersion = 3"
definition AttachProtoVersion :: int where "AttachProtoVersion = 3"
definition ResolveOnlyProtoVersion :: int where "ResolveOnlyProtoVersion = 4"
definition HookProtoVersion :: int where "HookProtoVersion = 5"

definition CodeUnsupportedCommand :: string where "CodeUnsupportedCommand = ''unsupported_command''"

section \<open>Frames\<close>

record Request =
  rq_Cmd :: string
  rq_Args :: "json_value option"
  rq_ProtoVersion :: int

definition request_value :: "Request \<Rightarrow> json_value" where
  "request_value r = JsonObject
     (member ''cmd'' (JsonString (rq_Cmd r)) @ (case rq_Args r of None \<Rightarrow> [] | Some v \<Rightarrow> member ''args'' v) @
      omit_if (rq_ProtoVersion r = 0) ''proto_version'' (JsonInt (rq_ProtoVersion r)))"

definition decode_request :: "json_value \<Rightarrow> Request option" where
  "decode_request v = decode_struct False
     [(''cmd'', string_field (\<lambda>t r. r\<lparr>rq_Cmd := t\<rparr>)), (''args'', raw_field (\<lambda>x r. r\<lparr>rq_Args := Some x\<rparr>)),
      (''proto_version'', int_field (\<lambda>i r. r\<lparr>rq_ProtoVersion := i\<rparr>))]
     v \<lparr>rq_Cmd = [], rq_Args = None, rq_ProtoVersion = 0\<rparr>"

record Response =
  rs_Ok :: bool
  rs_Data :: "json_value option"
  rs_Error :: string
  rs_Code :: string

definition response_value :: "Response \<Rightarrow> json_value" where
  "response_value r = JsonObject
     (member ''ok'' (JsonBool (rs_Ok r)) @ (case rs_Data r of None \<Rightarrow> [] | Some v \<Rightarrow> member ''data'' v) @
      text_member ''error'' (rs_Error r) @ text_member ''code'' (rs_Code r))"

definition decode_response :: "json_value \<Rightarrow> Response option" where
  "decode_response v = decode_struct False
     [(''ok'', bool_field (\<lambda>b r. r\<lparr>rs_Ok := b\<rparr>)), (''data'', raw_field (\<lambda>x r. r\<lparr>rs_Data := Some x\<rparr>)),
      (''error'', string_field (\<lambda>t r. r\<lparr>rs_Error := t\<rparr>)), (''code'', string_field (\<lambda>t r. r\<lparr>rs_Code := t\<rparr>))]
     v \<lparr>rs_Ok = False, rs_Data = None, rs_Error = [], rs_Code = []\<rparr>"

definition stream_event_value :: "json_value \<Rightarrow> json_value" where
  "stream_event_value event = JsonObject [(''event'', event)]"

definition newline :: char where "newline = CHR 0x0A"

definition encodeJSONLine :: "json_value \<Rightarrow> string" where
  "encodeJSONLine v = json_encode v @ [newline]"

section \<open>Arguments\<close>

definition enqueue_value :: "EnqueueArgs \<Rightarrow> json_value" where
  "enqueue_value a = JsonObject (member ''task_id'' (JsonString (ea_TaskID a)) @ member ''description'' (JsonString (ea_Description a)) @
     omit_if (ea_Priority a = 0) ''priority'' (JsonInt (ea_Priority a)))"

definition zero_enqueue :: EnqueueArgs where
  "zero_enqueue = \<lparr>ea_TaskID = [], ea_Description = [], ea_Priority = 0\<rparr>"

definition decode_enqueue :: "json_value \<Rightarrow> EnqueueArgs option" where
  "decode_enqueue v = decode_struct False
     [(''task_id'', string_field (\<lambda>t a. a\<lparr>ea_TaskID := t\<rparr>)), (''description'', string_field (\<lambda>t a. a\<lparr>ea_Description := t\<rparr>)),
      (''priority'', int_field (\<lambda>i a. a\<lparr>ea_Priority := i\<rparr>))] v zero_enqueue"

record StopArgs =
  sa_Graceful :: bool
  sa_Timeout :: int

definition stop_value :: "StopArgs \<Rightarrow> json_value" where
  "stop_value a = JsonObject (member ''graceful'' (JsonBool (sa_Graceful a)) @
     omit_if (sa_Timeout a = 0) ''timeout_ns'' (JsonInt (sa_Timeout a)))"

definition zero_stop :: StopArgs where "zero_stop = \<lparr>sa_Graceful = False, sa_Timeout = 0\<rparr>"

definition decode_stop :: "json_value \<Rightarrow> StopArgs option" where
  "decode_stop v = decode_struct False
     [(''graceful'', bool_field (\<lambda>b a. a\<lparr>sa_Graceful := b\<rparr>)), (''timeout_ns'', int_field (\<lambda>i a. a\<lparr>sa_Timeout := i\<rparr>))] v zero_stop"

record AttachArgs =
  aa_ProjectID :: ident
  aa_AfterID :: int

definition zero_attach :: AttachArgs where "zero_attach = \<lparr>aa_ProjectID = [], aa_AfterID = 0\<rparr>"

definition attach_value :: "AttachArgs \<Rightarrow> json_value" where
  "attach_value a = JsonObject (member ''project_id'' (JsonString (aa_ProjectID a)) @
     omit_if (aa_AfterID a = 0) ''after_id'' (JsonInt (aa_AfterID a)))"

definition decode_attach :: "json_value \<Rightarrow> AttachArgs option" where
  "decode_attach v = decode_struct False
     [(''project_id'', string_field (\<lambda>t a. a\<lparr>aa_ProjectID := t\<rparr>)), (''after_id'', int_field (\<lambda>i a. a\<lparr>aa_AfterID := i\<rparr>))] v zero_attach"

definition plan_import_value :: "PlanImportArgs \<Rightarrow> json_value" where
  "plan_import_value a = JsonObject (member ''markdown'' (JsonString (pia_Markdown a)) @ text_member ''slug'' (pia_Slug a) @
     text_member ''title'' (pia_Title a) @ member ''project'' (JsonString (pia_Project a)))"

definition zero_plan_import :: PlanImportArgs where
  "zero_plan_import = \<lparr>pia_Markdown = [], pia_Slug = [], pia_Title = [], pia_Project = []\<rparr>"

definition decode_plan_import :: "json_value \<Rightarrow> PlanImportArgs option" where
  "decode_plan_import v = decode_struct False
     [(''markdown'', string_field (\<lambda>t a. a\<lparr>pia_Markdown := t\<rparr>)), (''slug'', string_field (\<lambda>t a. a\<lparr>pia_Slug := t\<rparr>)),
      (''title'', string_field (\<lambda>t a. a\<lparr>pia_Title := t\<rparr>)), (''project'', string_field (\<lambda>t a. a\<lparr>pia_Project := t\<rparr>))] v zero_plan_import"

definition set_status_value :: "PlanSetStatusArgs \<Rightarrow> json_value" where
  "set_status_value a = JsonObject (member ''plan_id'' (JsonString (psa_PlanID a)) @ member ''status'' (JsonString (psa_Status a)))"

definition zero_set_status :: PlanSetStatusArgs where "zero_set_status = \<lparr>psa_PlanID = [], psa_Status = []\<rparr>"

definition decode_set_status :: "json_value \<Rightarrow> PlanSetStatusArgs option" where
  "decode_set_status v = decode_struct False
     [(''plan_id'', string_field (\<lambda>t a. a\<lparr>psa_PlanID := t\<rparr>)), (''status'', string_field (\<lambda>t a. a\<lparr>psa_Status := t\<rparr>))] v zero_set_status"

text \<open>\<open>PlanDeleteArgs\<close>, \<open>PlanDeleteReply\<close> and \<open>WorkerKillArgs\<close> have one field.\<close>

definition id_value :: "string \<Rightarrow> ident \<Rightarrow> json_value" where
  "id_value name i = JsonObject (member name (JsonString i))"

definition decode_id :: "string \<Rightarrow> json_value \<Rightarrow> ident option" where
  "decode_id name v = decode_struct False [(name, string_field (\<lambda>t _. t))] v []"

definition approve_value :: "TaskApproveArgs \<Rightarrow> json_value" where
  "approve_value a = JsonObject (member ''plan_id'' (JsonString (taa_PlanID a)) @ member ''task_id'' (JsonString (taa_TaskID a)))"

definition zero_approve :: TaskApproveArgs where "zero_approve = \<lparr>taa_PlanID = [], taa_TaskID = []\<rparr>"

definition decode_approve :: "json_value \<Rightarrow> TaskApproveArgs option" where
  "decode_approve v = decode_struct False
     [(''plan_id'', string_field (\<lambda>t a. a\<lparr>taa_PlanID := t\<rparr>)), (''task_id'', string_field (\<lambda>t a. a\<lparr>taa_TaskID := t\<rparr>))] v zero_approve"

definition fingerprint_value :: "Fingerprint \<Rightarrow> json_value" where
  "fingerprint_value f = JsonObject (member ''kind'' (JsonString (fp_Kind f)) @ member ''value'' (JsonString (fp_Value f)))"

definition decode_fingerprint :: "json_value \<Rightarrow> Fingerprint option" where
  "decode_fingerprint v = decode_struct False
     [(''kind'', string_field (\<lambda>t f. f\<lparr>fp_Kind := t\<rparr>)), (''value'', string_field (\<lambda>t f. f\<lparr>fp_Value := t\<rparr>))] v \<lparr>fp_Kind = [], fp_Value = []\<rparr>"

definition ensure_value :: "ProjectEnsureArgs \<Rightarrow> json_value" where
  "ensure_value a = JsonObject (member ''fingerprints'' (list_value fingerprint_value (pea_Fingerprints a)) @
     member ''display_name'' (JsonString (pea_DisplayName a)) @
     omit_if (\<not> pea_ResolveOnly a) ''resolve_only'' (JsonBool (pea_ResolveOnly a)))"

definition zero_ensure :: ProjectEnsureArgs where
  "zero_ensure = \<lparr>pea_Fingerprints = [], pea_DisplayName = [], pea_ResolveOnly = False\<rparr>"

definition decode_ensure :: "json_value \<Rightarrow> ProjectEnsureArgs option" where
  "decode_ensure v = decode_struct False
     [(''fingerprints'', list_field decode_fingerprint (\<lambda>l a. a\<lparr>pea_Fingerprints := l\<rparr>)),
      (''display_name'', string_field (\<lambda>t a. a\<lparr>pea_DisplayName := t\<rparr>)),
      (''resolve_only'', bool_field (\<lambda>b a. a\<lparr>pea_ResolveOnly := b\<rparr>))] v zero_ensure"

record ProjectConfigGetArgs =
  pcg_Project :: ident
  pcg_UserScope :: bool

definition config_get_value :: "ProjectConfigGetArgs \<Rightarrow> json_value" where
  "config_get_value a = JsonObject (member ''project'' (JsonString (pcg_Project a)) @
     omit_if (\<not> pcg_UserScope a) ''user_scope'' (JsonBool (pcg_UserScope a)))"

definition zero_config_get :: ProjectConfigGetArgs where "zero_config_get = \<lparr>pcg_Project = [], pcg_UserScope = False\<rparr>"

definition decode_config_get :: "json_value \<Rightarrow> ProjectConfigGetArgs option" where
  "decode_config_get v = decode_struct False
     [(''project'', string_field (\<lambda>t a. a\<lparr>pcg_Project := t\<rparr>)), (''user_scope'', bool_field (\<lambda>b a. a\<lparr>pcg_UserScope := b\<rparr>))] v zero_config_get"

definition config_apply_value :: "ProjectConfigApplyArgs \<Rightarrow> json_value" where
  "config_apply_value a = JsonObject (member ''project'' (JsonString (pca_Project a)) @
     omit_if (\<not> pca_UserScope a) ''user_scope'' (JsonBool (pca_UserScope a)) @
     omit_if (pca_Upserts a = []) ''upserts'' (map_value (pca_Upserts a)) @
     omit_if (pca_DeleteKeys a = []) ''delete_keys'' (list_value JsonString (pca_DeleteKeys a)))"

definition zero_config_apply :: ProjectConfigApplyArgs where
  "zero_config_apply = \<lparr>pca_Project = [], pca_UserScope = False, pca_Upserts = [], pca_DeleteKeys = []\<rparr>"

definition decode_config_apply :: "json_value \<Rightarrow> ProjectConfigApplyArgs option" where
  "decode_config_apply v = decode_struct False
     [(''project'', string_field (\<lambda>t a. a\<lparr>pca_Project := t\<rparr>)), (''user_scope'', bool_field (\<lambda>b a. a\<lparr>pca_UserScope := b\<rparr>)),
      (''upserts'', map_field (\<lambda>put a. map_option (\<lambda>m. a\<lparr>pca_Upserts := m\<rparr>) (put (pca_Upserts a)))),
      (''delete_keys'', list_field string_elem (\<lambda>l a. a\<lparr>pca_DeleteKeys := l\<rparr>))] v zero_config_apply"

definition calibration_value :: "CalibrationRecord \<Rightarrow> json_value" where
  "calibration_value r = JsonObject (member ''alias'' (JsonString (cr_Alias r)) @ member ''provider'' (JsonString (cr_Provider r)) @
     text_member ''model'' (cr_Model r) @ text_member ''effort'' (cr_Effort r) @ text_member ''binary_path'' (cr_BinaryPath r) @
     text_member ''binary_version'' (cr_BinaryVersion r) @ text_member ''binary_sha256'' (cr_BinarySHA256 r) @
     member ''invocation_hash'' (JsonString (cr_InvocationHash r)) @ text_member ''inference_domain'' (cr_InferenceDomain r) @
     text_member ''control_domain'' (cr_ControlDomain r) @ text_member ''independence_domain'' (cr_IndependenceDomain r) @
     text_member ''model_digest'' (cr_ModelDigest r) @ text_member ''capabilities_json'' (cr_CapabilitiesJSON r) @
     text_member ''evidence_json'' (cr_EvidenceJSON r))"

definition zero_calibration :: CalibrationRecord where
  "zero_calibration = \<lparr>cr_Alias = [], cr_Provider = [], cr_Model = [], cr_Effort = [], cr_BinaryPath = [], cr_BinaryVersion = [],
     cr_BinarySHA256 = [], cr_InvocationHash = [], cr_InferenceDomain = [], cr_ControlDomain = [], cr_IndependenceDomain = [],
     cr_ModelDigest = [], cr_CapabilitiesJSON = [], cr_EvidenceJSON = []\<rparr>"

definition decode_calibration_into :: "json_value \<Rightarrow> CalibrationRecord \<Rightarrow> CalibrationRecord option" where
  "decode_calibration_into v r0 = decode_struct False
     [(''alias'', string_field (\<lambda>t r. r\<lparr>cr_Alias := t\<rparr>)), (''provider'', string_field (\<lambda>t r. r\<lparr>cr_Provider := t\<rparr>)),
      (''model'', string_field (\<lambda>t r. r\<lparr>cr_Model := t\<rparr>)), (''effort'', string_field (\<lambda>t r. r\<lparr>cr_Effort := t\<rparr>)),
      (''binary_path'', string_field (\<lambda>t r. r\<lparr>cr_BinaryPath := t\<rparr>)), (''binary_version'', string_field (\<lambda>t r. r\<lparr>cr_BinaryVersion := t\<rparr>)),
      (''binary_sha256'', string_field (\<lambda>t r. r\<lparr>cr_BinarySHA256 := t\<rparr>)),
      (''invocation_hash'', string_field (\<lambda>t r. r\<lparr>cr_InvocationHash := t\<rparr>)),
      (''inference_domain'', string_field (\<lambda>t r. r\<lparr>cr_InferenceDomain := t\<rparr>)),
      (''control_domain'', string_field (\<lambda>t r. r\<lparr>cr_ControlDomain := t\<rparr>)),
      (''independence_domain'', string_field (\<lambda>t r. r\<lparr>cr_IndependenceDomain := t\<rparr>)),
      (''model_digest'', string_field (\<lambda>t r. r\<lparr>cr_ModelDigest := t\<rparr>)),
      (''capabilities_json'', string_field (\<lambda>t r. r\<lparr>cr_CapabilitiesJSON := t\<rparr>)),
      (''evidence_json'', string_field (\<lambda>t r. r\<lparr>cr_EvidenceJSON := t\<rparr>))] v r0"

definition calibration_put_value :: "CalibrationRecord \<Rightarrow> json_value" where
  "calibration_put_value r = JsonObject (member ''calibration'' (calibration_value r))"

definition decode_calibration_put :: "json_value \<Rightarrow> CalibrationRecord option" where
  "decode_calibration_put v = decode_struct False [(''calibration'', decode_calibration_into)] v zero_calibration"

definition hook_event_value :: "HookEventArgs \<Rightarrow> json_value" where
  "hook_event_value a = JsonObject (member ''adapter'' (JsonString (ha_Adapter a)) @ member ''event'' (JsonString (ha_Event a)) @
     member ''session_id'' (JsonString (ha_SessionID a)))"

definition zero_hook_event :: HookEventArgs where
  "zero_hook_event = \<lparr>ha_Adapter = [], ha_Event = [], ha_SessionID = []\<rparr>"

text \<open>Hook events are decoded with \<open>DisallowUnknownFields\<close>.\<close>

definition decode_hook_event :: "json_value \<Rightarrow> HookEventArgs option" where
  "decode_hook_event v = decode_struct True
     [(''adapter'', string_field (\<lambda>t a. a\<lparr>ha_Adapter := t\<rparr>)), (''event'', string_field (\<lambda>t a. a\<lparr>ha_Event := t\<rparr>)),
      (''session_id'', string_field (\<lambda>t a. a\<lparr>ha_SessionID := t\<rparr>))] v zero_hook_event"

text \<open>The queries of operators, aliases of the records of \<open>internal/observe\<close>.\<close>

record TaskCursor =
  tc_PlanID :: ident
  tc_TaskID :: ident

record SnapshotQuery =
  sq_ProjectID :: ident
  sq_PlanID :: ident
  sq_TaskID :: ident
  sq_PlanLimit :: int
  sq_PlanAfterID :: ident
  sq_TaskLimit :: int
  sq_TaskAfter :: TaskCursor
  sq_EventLimit :: int
  sq_EventBeforeID :: int

definition zero_snapshot :: SnapshotQuery where
  "zero_snapshot = \<lparr>sq_ProjectID = [], sq_PlanID = [], sq_TaskID = [], sq_PlanLimit = 0, sq_PlanAfterID = [], sq_TaskLimit = 0,
     sq_TaskAfter = \<lparr>tc_PlanID = [], tc_TaskID = []\<rparr>, sq_EventLimit = 0, sq_EventBeforeID = 0\<rparr>"

definition decode_snapshot :: "json_value \<Rightarrow> SnapshotQuery option" where
  "decode_snapshot v = decode_struct False
     [(''project_id'', string_field (\<lambda>t q. q\<lparr>sq_ProjectID := t\<rparr>)), (''plan_id'', string_field (\<lambda>t q. q\<lparr>sq_PlanID := t\<rparr>)),
      (''task_id'', string_field (\<lambda>t q. q\<lparr>sq_TaskID := t\<rparr>)), (''plan_limit'', int_field (\<lambda>i q. q\<lparr>sq_PlanLimit := i\<rparr>)),
      (''plan_after_id'', string_field (\<lambda>t q. q\<lparr>sq_PlanAfterID := t\<rparr>)), (''task_limit'', int_field (\<lambda>i q. q\<lparr>sq_TaskLimit := i\<rparr>)),
      (''task_after'', \<lambda>x q. map_option (\<lambda>cu. q\<lparr>sq_TaskAfter := cu\<rparr>) (decode_struct False
         [(''plan_id'', string_field (\<lambda>t cu. cu\<lparr>tc_PlanID := t\<rparr>)), (''task_id'', string_field (\<lambda>t cu. cu\<lparr>tc_TaskID := t\<rparr>))]
         x (sq_TaskAfter q))),
      (''event_limit'', int_field (\<lambda>i q. q\<lparr>sq_EventLimit := i\<rparr>)),
      (''event_before_id'', int_field (\<lambda>i q. q\<lparr>sq_EventBeforeID := i\<rparr>))] v zero_snapshot"

record MessageQuery =
  mq_ProjectID :: ident
  mq_PlanID :: ident
  mq_TaskID :: ident
  mq_AfterID :: int
  mq_Limit :: int

definition zero_messages :: MessageQuery where
  "zero_messages = \<lparr>mq_ProjectID = [], mq_PlanID = [], mq_TaskID = [], mq_AfterID = 0, mq_Limit = 0\<rparr>"

definition decode_messages :: "json_value \<Rightarrow> MessageQuery option" where
  "decode_messages v = decode_struct False
     [(''project_id'', string_field (\<lambda>t q. q\<lparr>mq_ProjectID := t\<rparr>)), (''plan_id'', string_field (\<lambda>t q. q\<lparr>mq_PlanID := t\<rparr>)),
      (''task_id'', string_field (\<lambda>t q. q\<lparr>mq_TaskID := t\<rparr>)), (''after_id'', int_field (\<lambda>i q. q\<lparr>mq_AfterID := i\<rparr>)),
      (''limit'', int_field (\<lambda>i q. q\<lparr>mq_Limit := i\<rparr>))] v zero_messages"

record TaskDescriptionsQuery =
  tdq_ProjectID :: ident
  tdq_PlanID :: ident
  tdq_TaskIDs :: "ident list"

definition zero_descriptions :: TaskDescriptionsQuery where
  "zero_descriptions = \<lparr>tdq_ProjectID = [], tdq_PlanID = [], tdq_TaskIDs = []\<rparr>"

definition decode_descriptions :: "json_value \<Rightarrow> TaskDescriptionsQuery option" where
  "decode_descriptions v = decode_struct False
     [(''project_id'', string_field (\<lambda>t q. q\<lparr>tdq_ProjectID := t\<rparr>)), (''plan_id'', string_field (\<lambda>t q. q\<lparr>tdq_PlanID := t\<rparr>)),
      (''task_ids'', list_field string_elem (\<lambda>l q. q\<lparr>tdq_TaskIDs := l\<rparr>))] v zero_descriptions"

section \<open>Replies\<close>

text \<open>No handler sets the time of the last event: \<open>omitempty\<close> does not drop a zero \<open>time.Time\<close>.\<close>

definition worker_value :: "WorkerSummary \<Rightarrow> json_value" where
  "worker_value w = JsonObject (member ''worker_id'' (JsonString (ws_WorkerID w)) @ member ''plan_id'' (JsonString (ws_PlanID w)) @
     member ''task_id'' (JsonString (ws_TaskID w)) @ text_member ''provider'' (ws_Provider w))"

definition status_value :: "StatusReply \<Rightarrow> json_value" where
  "status_value r = JsonObject
     (omit_if (sr_ProtoVersion r = 0) ''proto_version'' (JsonInt (sr_ProtoVersion r)) @ member ''uptime_ns'' (JsonInt (sr_Uptime r)) @
      member ''active_workers'' (JsonInt (int (sr_ActiveWorkers r))) @ member ''ready_tasks'' (JsonInt (int (sr_ReadyTasks r))) @
      member ''approval_tasks'' (JsonInt (int (sr_ApprovalTasks r))) @ member ''blocked_tasks'' (JsonInt (int (sr_BlockedTasks r))) @
      member ''running_tasks'' (JsonInt (int (sr_RunningTasks r))) @ member ''failed_tasks'' (JsonInt (int (sr_FailedTasks r))) @
      member ''active_plans'' (JsonInt (int (sr_ActivePlans r))) @
      omit_if (sr_Workers r = []) ''workers'' (JsonArray (map worker_value (sr_Workers r))) @
      member ''last_event_at'' (JsonString ''0001-01-01T00:00:00Z''))"

definition enqueue_reply_value :: "EnqueueReply \<Rightarrow> json_value" where
  "enqueue_reply_value r = JsonObject (member ''task_id'' (JsonString (er_TaskID r)) @ member ''inserted'' (JsonBool (er_Inserted r)))"

definition decode_enqueue_reply :: "json_value \<Rightarrow> EnqueueReply option" where
  "decode_enqueue_reply v = decode_struct False
     [(''task_id'', string_field (\<lambda>t r. r\<lparr>er_TaskID := t\<rparr>)), (''inserted'', bool_field (\<lambda>b r. r\<lparr>er_Inserted := b\<rparr>))] v
     \<lparr>er_TaskID = [], er_Inserted = False\<rparr>"

definition plan_import_reply_value :: "PlanImportReply \<Rightarrow> json_value" where
  "plan_import_reply_value r = JsonObject (member ''plan_id'' (JsonString (pir_PlanID r)) @ member ''slug'' (JsonString (pir_Slug r)) @
     member ''title'' (JsonString (pir_Title r)))"

definition decode_plan_import_reply :: "json_value \<Rightarrow> PlanImportReply option" where
  "decode_plan_import_reply v = decode_struct False
     [(''plan_id'', string_field (\<lambda>t r. r\<lparr>pir_PlanID := t\<rparr>)), (''slug'', string_field (\<lambda>t r. r\<lparr>pir_Slug := t\<rparr>)),
      (''title'', string_field (\<lambda>t r. r\<lparr>pir_Title := t\<rparr>))] v \<lparr>pir_PlanID = [], pir_Slug = [], pir_Title = []\<rparr>"

text \<open>\<open>PlanSetStatusReply\<close> has the fields of \<open>PlanSetStatusArgs\<close>.\<close>

type_synonym PlanSetStatusReply = PlanSetStatusArgs

definition ensure_reply_value :: "ProjectEnsureReply \<Rightarrow> json_value" where
  "ensure_reply_value r = JsonObject (member ''project_id'' (JsonString (per_ProjectID r)) @ member ''created'' (JsonBool (per_Created r)))"

definition decode_ensure_reply :: "json_value \<Rightarrow> ProjectEnsureReply option" where
  "decode_ensure_reply v = decode_struct False
     [(''project_id'', string_field (\<lambda>t r. r\<lparr>per_ProjectID := t\<rparr>)), (''created'', bool_field (\<lambda>b r. r\<lparr>per_Created := b\<rparr>))] v
     \<lparr>per_ProjectID = [], per_Created = False\<rparr>"

record ProjectConfigGetReply =
  pgr_Values :: "(string \<times> string) list"
  pgr_ProjectID :: ident

definition config_get_reply_value :: "ProjectConfigGetReply \<Rightarrow> json_value" where
  "config_get_reply_value r = JsonObject (member ''values'' (map_value (pgr_Values r)) @ text_member ''project_id'' (pgr_ProjectID r))"

definition decode_config_get_reply :: "json_value \<Rightarrow> ProjectConfigGetReply option" where
  "decode_config_get_reply v = decode_struct False
     [(''values'', map_field (\<lambda>put r. map_option (\<lambda>m. r\<lparr>pgr_Values := m\<rparr>) (put (pgr_Values r)))),
      (''project_id'', string_field (\<lambda>t r. r\<lparr>pgr_ProjectID := t\<rparr>))] v \<lparr>pgr_Values = [], pgr_ProjectID = []\<rparr>"

definition ok_reply_value :: "unit \<Rightarrow> json_value" where
  "ok_reply_value _ = JsonObject (member ''ok'' (JsonBool True))"

text \<open>The handler builds a list that is not nil.\<close>

definition calibration_list_value :: "CalibrationRecord list \<Rightarrow> json_value" where
  "calibration_list_value rs = JsonObject (member ''calibrations'' (JsonArray (map calibration_value rs)))"

definition decode_calibration_list :: "json_value \<Rightarrow> CalibrationRecord list option" where
  "decode_calibration_list v = decode_struct False
     [(''calibrations'', list_field (\<lambda>x. decode_calibration_into x zero_calibration) (\<lambda>l _. l))] v []"

definition hook_reply_value :: "HookEventReply \<Rightarrow> json_value" where
  "hook_reply_value r = JsonObject (member ''allow'' (JsonBool (hr_Allow r)) @ member ''reason'' (JsonString (hr_Reason r)))"

definition decode_hook_reply :: "json_value \<Rightarrow> HookEventReply option" where
  "decode_hook_reply v = decode_struct False
     [(''allow'', bool_field (\<lambda>b r. r\<lparr>hr_Allow := b\<rparr>)), (''reason'', string_field (\<lambda>t r. r\<lparr>hr_Reason := t\<rparr>))] v
     \<lparr>hr_Allow = False, hr_Reason = []\<rparr>"

end
