(* ===== verification/Ipc_Server.thy ===== *)
theory Ipc_Server
  imports Ipc_Protocol
begin

text \<open>
  The server of \<open>internal/ipc/server.go\<close>: what one connection gets for the bytes it sends, over any handler.  A
  connection is one request; the handler's surfaces beyond \<open>Handler\<close> are optional, as the interfaces
  \<open>DriveHandler\<close>, \<open>CalibrationHandler\<close>, \<open>QueryHandler\<close> and \<open>HookHandler\<close> are.  \<open>'s\<close> is the state behind the handler.
\<close>

section \<open>Handlers\<close>

text \<open>An error that implements \<open>Coded\<close> has a class.\<close>

record handler_error =
  he_Code :: "string option"
  he_Text :: string

type_synonym ('s, 'a) hcall = "'s \<Rightarrow> (handler_error + 'a) \<times> 's"

record 's DriveHandler =
  dh_PlanImport :: "PlanImportArgs \<Rightarrow> ('s, PlanImportReply) hcall"
  dh_PlanSetStatus :: "PlanSetStatusArgs \<Rightarrow> ('s, PlanSetStatusReply) hcall"
  dh_PlanDelete :: "ident \<Rightarrow> ('s, ident) hcall"
  dh_TaskApprove :: "TaskApproveArgs \<Rightarrow> ('s, unit) hcall"
  dh_WorkerKill :: "ident \<Rightarrow> ('s, unit) hcall"
  dh_ProjectEnsure :: "ProjectEnsureArgs \<Rightarrow> ('s, ProjectEnsureReply) hcall"
  dh_ProjectConfigGet :: "ProjectConfigGetArgs \<Rightarrow> ('s, ProjectConfigGetReply) hcall"
  dh_ProjectConfigApply :: "ProjectConfigApplyArgs \<Rightarrow> ('s, unit) hcall"

record 's CalibrationHandler =
  ch_CalibrationPut :: "CalibrationRecord \<Rightarrow> ('s, ident) hcall"
  ch_CalibrationList :: "('s, CalibrationRecord list) hcall"

text \<open>The replies of queries are only marshalled here.\<close>

record 's QueryHandler =
  qh_ObserveSnapshot :: "SnapshotQuery \<Rightarrow> ('s, json_value) hcall"
  qh_ObserveMessages :: "MessageQuery \<Rightarrow> ('s, json_value) hcall"
  qh_ObserveTaskDescriptions :: "TaskDescriptionsQuery \<Rightarrow> ('s, json_value) hcall"

text \<open>\<open>h_Attach\<close>: the frames the handler emitted, and how it ended.\<close>

record 's Handler =
  h_Status :: "('s, StatusReply) hcall"
  h_Enqueue :: "EnqueueArgs \<Rightarrow> ('s, EnqueueReply) hcall"
  h_Stop :: "StopArgs \<Rightarrow> ('s, unit) hcall"
  h_ReloadConfig :: "('s, unit) hcall"
  h_Attach :: "AttachArgs \<Rightarrow> 's \<Rightarrow> (json_value list \<times> handler_error option) \<times> 's"
  h_Drive :: "'s DriveHandler option"
  h_Calibration :: "'s CalibrationHandler option"
  h_Query :: "'s QueryHandler option"
  h_Hook :: "(HookEventArgs \<Rightarrow> ('s, HookEventReply) hcall) option"

text \<open>The texts that \<open>encoding/json\<close> and \<open>strconv.Quote\<close> produce.\<close>

record 's server =
  sv_handler :: "'s Handler"
  sv_malformed :: "string \<Rightarrow> string"
  sv_mismatch :: "json_value \<Rightarrow> string"
  sv_quoted :: "string \<Rightarrow> string"

section \<open>Responses\<close>

type_synonym 's served = "string list \<times> 's"

definition writeResponse :: "Response \<Rightarrow> string list" where
  "writeResponse r = [encodeJSONLine (response_value r)]"

definition refusal :: "string \<Rightarrow> string \<Rightarrow> Response" where
  "refusal code text = \<lparr>rs_Ok = False, rs_Data = None, rs_Error = text, rs_Code = code\<rparr>"

definition errString :: "handler_error option \<Rightarrow> string" where
  "errString e = (case e of None \<Rightarrow> [] | Some err \<Rightarrow> he_Text err)"

definition writeResult :: "('a \<Rightarrow> json_value) \<Rightarrow> handler_error + 'a \<Rightarrow> string list" where
  "writeResult to_json r = (case r of
     Inl e \<Rightarrow> writeResponse (refusal (case he_Code e of None \<Rightarrow> [] | Some code \<Rightarrow> code) (he_Text e))
   | Inr data \<Rightarrow> writeResponse \<lparr>rs_Ok = True, rs_Data = Some (to_json data), rs_Error = [], rs_Code = []\<rparr>)"

text \<open>The plain acknowledgement of stop and reload, without the class of an error.\<close>

definition acknowledge :: "handler_error + unit \<Rightarrow> string list" where
  "acknowledge r = writeResponse (case r of
     Inl e \<Rightarrow> refusal [] (he_Text e) | Inr _ \<Rightarrow> \<lparr>rs_Ok = True, rs_Data = None, rs_Error = [], rs_Code = []\<rparr>)"

definition version_text :: "int \<Rightarrow> string" where
  "version_text v = ''protocol version '' @ Itoa v @ '' not supported (this supervisor speaks v'' @ Itoa ProtoVersion @ '')''"

section \<open>Arguments\<close>

text \<open>Without arguments the zero value is used.\<close>

definition decodeArgs :: "'s server \<Rightarrow> (json_value \<Rightarrow> 'a option) \<Rightarrow> 'a \<Rightarrow> json_value option \<Rightarrow> Response + 'a" where
  "decodeArgs sv dec zero raw = (case raw of
     None \<Rightarrow> Inr zero
   | Some v \<Rightarrow> (case dec v of
       Some a \<Rightarrow> Inr a
     | None \<Rightarrow> Inl (refusal CodeInvalidArgs (''decode args: '' @ sv_mismatch sv v))))"

definition serve :: "'s server \<Rightarrow> (json_value \<Rightarrow> 'a option) \<Rightarrow> 'a \<Rightarrow> ('b \<Rightarrow> json_value) \<Rightarrow> ('a \<Rightarrow> ('s, 'b) hcall) \<Rightarrow>
    json_value option \<Rightarrow> 's \<Rightarrow> 's served" where
  "serve sv dec zero to_json h raw s = (case decodeArgs sv dec zero raw of
     Inl resp \<Rightarrow> (writeResponse resp, s)
   | Inr a \<Rightarrow> (case h a s of (r, s1) \<Rightarrow> (writeResult to_json r, s1)))"

section \<open>Dispatch\<close>

definition unsupported :: "string \<Rightarrow> 's \<Rightarrow> 's served" where
  "unsupported text s = (writeResponse (refusal CodeUnsupportedCommand text), s)"

definition dispatchDrive :: "'s server \<Rightarrow> Request \<Rightarrow> 's \<Rightarrow> 's served" where
  "dispatchDrive sv req s =
    (if rq_ProtoVersion req > ProtoVersion then unsupported (version_text (rq_ProtoVersion req)) s
     else case h_Drive (sv_handler sv) of
       None \<Rightarrow> unsupported (''drive command '' @ sv_quoted sv (rq_Cmd req) @ '' not supported by this supervisor'') s
     | Some dh \<Rightarrow>
         if rq_Cmd req = CmdPlanImport
         then serve sv decode_plan_import zero_plan_import plan_import_reply_value (dh_PlanImport dh) (rq_Args req) s
         else if rq_Cmd req = CmdPlanSetStatus
         then serve sv decode_set_status zero_set_status set_status_value (dh_PlanSetStatus dh) (rq_Args req) s
         else if rq_Cmd req = CmdPlanDelete
         then serve sv (decode_id ''plan_id'') [] (id_value ''plan_id'') (dh_PlanDelete dh) (rq_Args req) s
         else if rq_Cmd req = CmdTaskApprove
         then serve sv decode_approve zero_approve ok_reply_value (dh_TaskApprove dh) (rq_Args req) s
         else if rq_Cmd req = CmdProjectConfigGet
         then serve sv decode_config_get zero_config_get config_get_reply_value (dh_ProjectConfigGet dh) (rq_Args req) s
         else if rq_Cmd req = CmdProjectConfigApply
         then serve sv decode_config_apply zero_config_apply ok_reply_value (dh_ProjectConfigApply dh) (rq_Args req) s
         else if rq_Cmd req = CmdWorkerKill
         then serve sv (decode_id ''worker_id'') [] ok_reply_value (dh_WorkerKill dh) (rq_Args req) s
         else if rq_Cmd req = CmdProjectEnsure
         then serve sv decode_ensure zero_ensure ensure_reply_value (dh_ProjectEnsure dh) (rq_Args req) s
         else ([], s))"

definition dispatchCalibration :: "'s server \<Rightarrow> Request \<Rightarrow> 's \<Rightarrow> 's served" where
  "dispatchCalibration sv req s =
    (if rq_ProtoVersion req > ProtoVersion then unsupported (version_text (rq_ProtoVersion req)) s
     else case h_Calibration (sv_handler sv) of
       None \<Rightarrow> unsupported (''calibration command '' @ sv_quoted sv (rq_Cmd req) @ '' not supported by this supervisor'') s
     | Some ch \<Rightarrow>
         if rq_Cmd req = CmdCalibrationPut
         then serve sv decode_calibration_put zero_calibration (id_value ''id'') (ch_CalibrationPut ch) (rq_Args req) s
         else if rq_Cmd req = CmdCalibrationList
         then (case ch_CalibrationList ch s of (r, s1) \<Rightarrow> (writeResult calibration_list_value r, s1))
         else ([], s))"

definition dispatchQuery :: "'s server \<Rightarrow> Request \<Rightarrow> 's \<Rightarrow> 's served" where
  "dispatchQuery sv req s =
    (if rq_ProtoVersion req < QueryProtoVersion
     then unsupported (''query command '' @ sv_quoted sv (rq_Cmd req) @ '' requires protocol v'' @ Itoa QueryProtoVersion) s
     else case h_Query (sv_handler sv) of
       None \<Rightarrow> unsupported (''query command '' @ sv_quoted sv (rq_Cmd req) @ '' not supported by this supervisor'') s
     | Some qh \<Rightarrow>
         if rq_Cmd req = CmdObserveSnapshot
         then serve sv decode_snapshot zero_snapshot (\<lambda>v. v) (qh_ObserveSnapshot qh) (rq_Args req) s
         else if rq_Cmd req = CmdObserveMessages
         then serve sv decode_messages zero_messages (\<lambda>v. v) (qh_ObserveMessages qh) (rq_Args req) s
         else if rq_Cmd req = CmdObserveTaskDescriptions
         then serve sv decode_descriptions zero_descriptions (\<lambda>v. v) (qh_ObserveTaskDescriptions qh) (rq_Args req) s
         else ([], s))"

text \<open>Hook events need arguments, with no unknown member.\<close>

definition dispatchHook :: "'s server \<Rightarrow> Request \<Rightarrow> 's \<Rightarrow> 's served" where
  "dispatchHook sv req s =
    (if rq_ProtoVersion req < HookProtoVersion
     then unsupported (''hook command requires protocol v'' @ Itoa HookProtoVersion) s
     else case h_Hook (sv_handler sv) of
       None \<Rightarrow> unsupported ''hook command not supported by this supervisor'' s
     | Some hook \<Rightarrow>
         (case Option.bind (rq_Args req) decode_hook_event of
            None \<Rightarrow> (writeResponse (refusal CodeInvalidArgs ''invalid hook args''), s)
          | Some args \<Rightarrow> (case hook args s of (r, s1) \<Rightarrow> (writeResult hook_reply_value r, s1))))"

definition driveCommands :: "string list" where
  "driveCommands = [CmdPlanImport, CmdPlanSetStatus, CmdPlanDelete, CmdTaskApprove, CmdWorkerKill, CmdProjectEnsure,
     CmdProjectConfigGet, CmdProjectConfigApply]"

definition queryCommands :: "string list" where
  "queryCommands = [CmdObserveSnapshot, CmdObserveMessages, CmdObserveTaskDescriptions]"

definition handle_request :: "'s server \<Rightarrow> Request \<Rightarrow> 's \<Rightarrow> 's served" where
  "handle_request sv req s =
    (let h = sv_handler sv in
     if rq_ProtoVersion req > ProtoVersion then unsupported (version_text (rq_ProtoVersion req)) s
     else if rq_Cmd req = CmdStatus then (case h_Status h s of (r, s1) \<Rightarrow> (writeResult status_value r, s1))
     else if rq_Cmd req = CmdEnqueue then
       (case decodeArgs sv decode_enqueue zero_enqueue (rq_Args req) of
          Inl _ \<Rightarrow> (writeResponse (refusal [] (''decode enqueue args: '' @ sv_mismatch sv (the (rq_Args req)))), s)
        | Inr args \<Rightarrow> (case h_Enqueue h args s of (r, s1) \<Rightarrow> (writeResult enqueue_reply_value r, s1)))
     else if rq_Cmd req = CmdStop then
       (case decodeArgs sv decode_stop zero_stop (rq_Args req) of
          Inl _ \<Rightarrow> (writeResponse (refusal [] (''decode stop args: '' @ sv_mismatch sv (the (rq_Args req)))), s)
        | Inr args \<Rightarrow> (case h_Stop h args s of (r, s1) \<Rightarrow> (acknowledge r, s1)))
     else if rq_Cmd req = CmdReloadConfig then (case h_ReloadConfig h s of (r, s1) \<Rightarrow> (acknowledge r, s1))
     else if rq_Cmd req = CmdAttach then
       (case decodeArgs sv decode_attach zero_attach (rq_Args req) of
          Inl _ \<Rightarrow> (writeResponse (refusal CodeInvalidArgs (''attach args: '' @ sv_mismatch sv (the (rq_Args req)))), s)
        | Inr args \<Rightarrow> (case h_Attach h args s of ((evs, err), s1) \<Rightarrow>
            (map (\<lambda>ev. encodeJSONLine (stream_event_value ev)) evs @
               writeResponse \<lparr>rs_Ok = (err = None), rs_Data = None, rs_Error = errString err, rs_Code = []\<rparr>, s1)))
     else if rq_Cmd req \<in> set driveCommands then dispatchDrive sv req s
     else if rq_Cmd req \<in> set queryCommands then dispatchQuery sv req s
     else if rq_Cmd req = CmdCalibrationPut \<or> rq_Cmd req = CmdCalibrationList then dispatchCalibration sv req s
     else if rq_Cmd req = CmdHookEvent then dispatchHook sv req s
     else unsupported (''unknown command: '' @ sv_quoted sv (rq_Cmd req)) s)"

section \<open>Connections\<close>

definition maxRequestBytes :: nat where "maxRequestBytes = 32 * 2 ^ 20"

text \<open>\<open>ReadBytes\<close> on the limited reader: a line that does not end within the limit is never served.  JSON ignores the
  newline at the end of the line.\<close>

definition read_line :: "string \<Rightarrow> string option" where
  "read_line sent = (let s = take maxRequestBytes sent in
     if newline \<in> set s then Some (takeWhile (\<lambda>ch. ch \<noteq> newline) s) else None)"

definition handleConn :: "'s server \<Rightarrow> string \<Rightarrow> 's \<Rightarrow> 's served" where
  "handleConn sv sent s = (case read_line sent of
     None \<Rightarrow> ([], s)
   | Some line \<Rightarrow>
       (case Option.bind (json_parse line) decode_request of
          None \<Rightarrow> (writeResponse (refusal [] (''malformed request: '' @ sv_malformed sv line)), s)
        | Some req \<Rightarrow> handle_request sv req s))"

end
