(* ===== verification/Ipc_Client.thy ===== *)
theory Ipc_Client
  imports Ipc_Server
begin

text \<open>
  The client of \<open>internal/ipc/client.go\<close> and \<open>client_drive.go\<close>: what it sends for a call and what it makes of the
  answer.  \<open>net\<close> is the other end of the connection: the lines it sends back for what was sent, and its
  state.
\<close>

type_synonym 's network = "string \<Rightarrow> 's \<Rightarrow> string list \<times> 's"

text \<open>\<open>CodedError\<close>, \<open>errors.New(resp.Error)\<close>, an answer that cannot be decoded, \<open>ErrClosed\<close>.\<close>

datatype client_error = CodedError string string | PlainError string | BadResponse string | BadReply string | ErrClosed

type_synonym ('s, 'b) remote = "'s \<Rightarrow> (client_error + 'b) \<times> 's"

definition send :: "'s network \<Rightarrow> Request \<Rightarrow> 's \<Rightarrow> string list \<times> 's" where
  "send net req s = net (encodeJSONLine (request_value req)) s"

definition readResponse :: "string list \<Rightarrow> client_error + Response" where
  "readResponse lines = (case lines of
     [] \<Rightarrow> Inl ErrClosed
   | line # _ \<Rightarrow> (case Option.bind (json_parse (takeWhile (\<lambda>ch. ch \<noteq> newline) line)) decode_response of
       None \<Rightarrow> Inl (BadResponse line) | Some resp \<Rightarrow> Inr resp))"

text \<open>A reply without data leaves the zero value.\<close>

definition versionedCall :: "'s network \<Rightarrow> int \<Rightarrow> string \<Rightarrow> json_value \<Rightarrow> (json_value \<Rightarrow> 'b option) \<Rightarrow> 'b \<Rightarrow> ('s, 'b) remote" where
  "versionedCall net protoVersion cmd body dec zero s =
    (case send net \<lparr>rq_Cmd = cmd, rq_Args = Some body, rq_ProtoVersion = protoVersion\<rparr> s of
       (lines, s1) \<Rightarrow>
         (case readResponse lines of
            Inl e \<Rightarrow> Inl e
          | Inr resp \<Rightarrow>
              if \<not> rs_Ok resp then Inl (CodedError (rs_Code resp) (rs_Error resp))
              else (case rs_Data resp of
                 None \<Rightarrow> Inr zero
               | Some v \<Rightarrow> (case dec v of None \<Rightarrow> Inl (BadReply cmd) | Some r \<Rightarrow> Inr r)), s1))"

definition driveCall :: "'s network \<Rightarrow> string \<Rightarrow> json_value \<Rightarrow> (json_value \<Rightarrow> 'b option) \<Rightarrow> 'b \<Rightarrow> ('s, 'b) remote" where
  "driveCall net = versionedCall net DriveProtoVersion"

text \<open>\<open>out\<close> is nil for commands that are only acknowledged.\<close>

definition no_reply :: "json_value \<Rightarrow> unit option" where
  "no_reply v = Some ()"

definition projectEnsureProtoVersion :: "ProjectEnsureArgs \<Rightarrow> int" where
  "projectEnsureProtoVersion args = (if pea_ResolveOnly args then ResolveOnlyProtoVersion else DriveProtoVersion)"

definition PlanImport :: "'s network \<Rightarrow> PlanImportArgs \<Rightarrow> ('s, PlanImportReply) remote" where
  "PlanImport net args = driveCall net CmdPlanImport (plan_import_value args) decode_plan_import_reply
     \<lparr>pir_PlanID = [], pir_Slug = [], pir_Title = []\<rparr>"

definition PlanSetStatus :: "'s network \<Rightarrow> PlanSetStatusArgs \<Rightarrow> ('s, PlanSetStatusReply) remote" where
  "PlanSetStatus net args = driveCall net CmdPlanSetStatus (set_status_value args) decode_set_status zero_set_status"

definition PlanDelete :: "'s network \<Rightarrow> ident \<Rightarrow> ('s, ident) remote" where
  "PlanDelete net planID = driveCall net CmdPlanDelete (id_value ''plan_id'' planID) (decode_id ''plan_id'') []"

definition TaskApprove :: "'s network \<Rightarrow> TaskApproveArgs \<Rightarrow> ('s, unit) remote" where
  "TaskApprove net args = driveCall net CmdTaskApprove (approve_value args) no_reply ()"

definition WorkerKill :: "'s network \<Rightarrow> ident \<Rightarrow> ('s, unit) remote" where
  "WorkerKill net workerID = driveCall net CmdWorkerKill (id_value ''worker_id'' workerID) no_reply ()"

definition ProjectEnsure :: "'s network \<Rightarrow> ProjectEnsureArgs \<Rightarrow> ('s, ProjectEnsureReply) remote" where
  "ProjectEnsure net args = versionedCall net (projectEnsureProtoVersion args) CmdProjectEnsure (ensure_value args)
     decode_ensure_reply \<lparr>per_ProjectID = [], per_Created = False\<rparr>"

definition ProjectConfigGet :: "'s network \<Rightarrow> ProjectConfigGetArgs \<Rightarrow> ('s, ProjectConfigGetReply) remote" where
  "ProjectConfigGet net args = driveCall net CmdProjectConfigGet (config_get_value args) decode_config_get_reply
     \<lparr>pgr_Values = [], pgr_ProjectID = []\<rparr>"

definition ProjectConfigApply :: "'s network \<Rightarrow> ProjectConfigApplyArgs \<Rightarrow> ('s, unit) remote" where
  "ProjectConfigApply net args = driveCall net CmdProjectConfigApply (config_apply_value args) no_reply ()"

definition CalibrationPut :: "'s network \<Rightarrow> CalibrationRecord \<Rightarrow> ('s, ident) remote" where
  "CalibrationPut net r = driveCall net CmdCalibrationPut (calibration_put_value r) (decode_id ''id'') []"

definition CalibrationList :: "'s network \<Rightarrow> ('s, CalibrationRecord list) remote" where
  "CalibrationList net = driveCall net CmdCalibrationList (JsonObject []) decode_calibration_list []"

definition HookEvent :: "'s network \<Rightarrow> HookEventArgs \<Rightarrow> ('s, HookEventReply) remote" where
  "HookEvent net args = versionedCall net HookProtoVersion CmdHookEvent (hook_event_value args) decode_hook_reply
     \<lparr>hr_Allow = False, hr_Reason = []\<rparr>"

text \<open>The oldest commands send no version, and their errors carry no class.\<close>

definition plainCall :: "'s network \<Rightarrow> string \<Rightarrow> json_value option \<Rightarrow> (json_value option \<Rightarrow> 'b option) \<Rightarrow> ('s, 'b) remote" where
  "plainCall net cmd body dec s =
    (case send net \<lparr>rq_Cmd = cmd, rq_Args = body, rq_ProtoVersion = 0\<rparr> s of
       (lines, s1) \<Rightarrow>
         (case readResponse lines of
            Inl e \<Rightarrow> Inl e
          | Inr resp \<Rightarrow>
              if \<not> rs_Ok resp then Inl (PlainError (rs_Error resp))
              else (case dec (rs_Data resp) of None \<Rightarrow> Inl (BadReply cmd) | Some r \<Rightarrow> Inr r), s1))"

definition Enqueue :: "'s network \<Rightarrow> EnqueueArgs \<Rightarrow> ('s, EnqueueReply) remote" where
  "Enqueue net args = plainCall net CmdEnqueue (Some (enqueue_value args)) (\<lambda>raw. Option.bind raw decode_enqueue_reply)"

definition Stop :: "'s network \<Rightarrow> StopArgs \<Rightarrow> ('s, unit) remote" where
  "Stop net args = plainCall net CmdStop (Some (stop_value args)) (\<lambda>_. Some ())"

definition ReloadConfig :: "'s network \<Rightarrow> ('s, unit) remote" where
  "ReloadConfig net = plainCall net CmdReloadConfig None (\<lambda>_. Some ())"

text \<open>\<open>IsCode\<close> on the errors of the client.\<close>

definition IsCode :: "client_error \<Rightarrow> string \<Rightarrow> bool" where
  "IsCode e code \<longleftrightarrow> (case e of CodedError class _ \<Rightarrow> class = code | _ \<Rightarrow> False)"

end
