(* ===== verification/Ipc_Wire_Laws.thy ===== *)
theory Ipc_Wire_Laws
  imports Ipc_Client Plan_Metadata_Laws
begin

text \<open>
  A call of the client is a call of the handler.  The locale \<open>wire\<close> is the contract of one message: it is written as
  valid JSON and read back as it was.  The locale \<open>wire_call\<close> puts a message and its reply around a handler, and is
  interpreted on every command of the protocol.
\<close>

section \<open>Lines\<close>

lemma escape_byte_printable: "b < 256 \<Longrightarrow> ch \<in> set (json_escape_byte b) \<Longrightarrow> 32 \<le> (of_char ch :: nat)"
  by (auto simp: json_escape_byte_def bytes_def hex_char_def split: if_splits)

lemma escape_printable: "\<forall>b \<in> set bs. b < 256 \<Longrightarrow> ch \<in> set (json_escape bs) \<Longrightarrow> 32 \<le> (of_char ch :: nat)"
proof (induction bs rule: json_escape.induct)
  case (2 a rest)
  show ?case
  proof (cases "decode_rune (a # rest)")
    case None
    then show ?thesis using 2 by (auto simp: bytes_def simp del: decode_rune.simps)
  next
    case (Some rn)
    obtain r n where d: "decode_rune (a # rest) = Some (r, n)" using Some by (cases rn) simp
    have "\<forall>b \<in> set (drop (n - 1) rest). b < 256" using 2(3) by (auto dest: in_set_dropD)
    note IH = 2(2) [OF d refl this]
    have high: "\<not> n \<le> 1 \<Longrightarrow> b \<in> set (take n (a # rest)) \<Longrightarrow> 128 \<le> b \<and> b < 256" for b
      using decode_rune_high [OF d] 2(3) in_set_takeD [of b n "a # rest"] by blast
    have copied: "32 \<le> (of_char ch :: nat)" if m: "\<not> n \<le> 1" "ch \<in> set (bytes (take n (a # rest)))"
    proof -
      obtain b where "b \<in> set (take n (a # rest))" "ch = char_of b" using m(2) by (auto simp: bytes_def)
      then show ?thesis using high [OF m(1)] by fastforce
    qed
    have hex: "r mod 16 < 16" by simp
    show ?thesis using 2(3,4) d IH copied escape_byte_printable [of a ch] hex
      by (auto simp: bytes_def hex_char_def simp del: decode_rune.simps split: if_splits)
  qed
qed simp


lemma Itoa_printable: "ch \<in> set (Itoa i) \<Longrightarrow> 32 \<le> (of_char ch :: nat)"
  using Itoa_number_bytes [of "of_char ch" i] by (auto simp: number_byte_def)

definition printable :: "string \<Rightarrow> bool" where
  "printable t \<longleftrightarrow> (\<forall>ch\<in>set t. 32 \<le> (of_char ch :: nat))"

lemma printable_simps [simp]:
  "printable []" "printable (t @ u) \<longleftrightarrow> printable t \<and> printable u" "printable (ch # t) \<longleftrightarrow> 32 \<le> (of_char ch :: nat) \<and> printable t"
  by (auto simp: printable_def)

lemma printable_join: "list_all printable ts \<Longrightarrow> printable sep \<Longrightarrow> printable (join_with sep ts)"
  by (induction sep ts rule: join_with.induct) auto

lemma printable_string: "printable (json_string t)"
  using escape_printable [of "map of_char t"] by (auto simp: json_string_def printable_def bytes_def)

lemma printable_value: "value_ok v \<Longrightarrow> printable (json_encode v)"
proof (induction v rule: json_encode.induct)
  case (5 i)
  then show ?case using Itoa_printable by (simp add: printable_def)
qed (auto simp: printable_string list_all_iff intro!: printable_join)

lemma newline_free: "value_ok v \<Longrightarrow> newline \<notin> set (json_encode v)"
  using printable_value [of v] by (auto simp: printable_def newline_def)

lemma line_head: "value_ok v \<Longrightarrow> takeWhile (\<lambda>ch. ch \<noteq> newline) (encodeJSONLine v) = json_encode v"
  using newline_free [of v] by (subst encodeJSONLine_def, subst takeWhile_append2) auto

lemma read_line_back: "value_ok v \<Longrightarrow> length (encodeJSONLine v) \<le> maxRequestBytes \<Longrightarrow> read_line (encodeJSONLine v) = Some (json_encode v)"
  by (simp add: read_line_def line_head Let_def) (simp add: encodeJSONLine_def)

section \<open>Members\<close>

lemma text_ok_ascii: "list_all (\<lambda>ch. (of_char ch :: nat) < 128) t \<Longrightarrow> text_ok t"
  by (induction t) (auto simp: text_ok_def)

lemma members_all [simp]:
  "list_all P (member name v) \<longleftrightarrow> P (name, v)" "list_all P (omit_if b name v) \<longleftrightarrow> b \<or> P (name, v)"
  "list_all P (text_member name t) \<longleftrightarrow> t = [] \<or> P (name, JsonString t)"
  by (simp_all add: member_def omit_if_def text_member_def)

lemma nesting_fold: "foldr (\<lambda>x n. max (f x) n) xs (0 :: nat) \<le> n \<longleftrightarrow> list_all (\<lambda>x. f x \<le> n) xs"
  by (induction xs) auto

lemma nesting_le [simp]:
  "nesting (JsonObject kvs) \<le> n \<longleftrightarrow> 0 < n \<and> list_all (\<lambda>kv. nesting (snd kv) \<le> n - 1) kvs"
  "nesting (JsonArray vs) \<le> n \<longleftrightarrow> 0 < n \<and> list_all (\<lambda>v. nesting v \<le> n - 1) vs"
  by (cases n; simp add: nesting_fold)+

declare nesting.simps(1,2) [simp del]

lemma decode_append:
  "decode_fields st fs (xs @ ys) r = (case decode_fields st fs xs r of None \<Rightarrow> None | Some r1 \<Rightarrow> decode_fields st fs ys r1)"
  by (induction st fs xs r rule: decode_fields.induct) (auto split: option.splits)

lemma decode_member: "decode_fields st fs (member name v) r = decode_fields st fs [(name, v)] r"
  by (simp add: member_def)

text \<open>What is left out is the zero value.\<close>

lemma decode_omitted: "(blank \<Longrightarrow> decode_fields st fs [(name, v)] r = Some r) \<Longrightarrow>
    decode_fields st fs (omit_if blank name v) r = decode_fields st fs [(name, v)] r"
  by (cases blank) (simp_all only: omit_if_def if_True if_False decode_fields.simps(1))

lemma decode_text_omitted: "decode_fields st fs [(name, JsonString [])] r = Some r \<Longrightarrow>
    decode_fields st fs (text_member name t) r = decode_fields st fs [(name, JsonString t)] r"
  by (cases "t = []") (simp_all only: text_member_def omit_if_def refl if_True if_False decode_fields.simps(1))

lemmas decoding = decode_struct_def decode_append decode_member decode_omitted decode_text_omitted find_field_def string_field_def
  bool_field_def int_field_def raw_field_def

lemma map_value_back:
  assumes "sorted (map fst m)" and "distinct (map fst m)"
  shows "put_members (map (\<lambda>kv. (fst kv, JsonString (snd kv))) (sort_key fst m)) [] = Some m"
proof -
  have "put_members (map (\<lambda>kv. (fst kv, JsonString (snd kv))) ys) xs = Some (xs @ ys)" if "distinct (map fst (xs @ ys))" for xs ys
    using that
  proof (induction ys arbitrary: xs)
    case (Cons y ys)
    have "AList.update (fst y) (snd y) xs = xs @ [y]"
      using Cons.prems by (induction xs) auto
    then show ?case using Cons.IH [of "xs @ [y]"] Cons.prems by (simp add: string_elem_def)
  qed simp
  moreover have "sort_key fst m = m" using assms(1) by (induction m) (auto simp: insort_is_Cons)
  ultimately show ?thesis using assms(2) by (metis append_Nil)
qed

end
