(* ===== verification/Ipc_Messages.thy ===== *)
theory Ipc_Messages
  imports Ipc_Wire_Laws
begin

text \<open>
  The contract of a message, and that every argument and reply of the protocol keeps it: what is written is JSON
  and is read back as it was, for messages whose texts are valid UTF-8 (and whose maps are in key order).
\<close>

section \<open>The contract\<close>

locale wire =
  fixes enc :: "'a \<Rightarrow> json_value" and dec :: "json_value \<Rightarrow> 'a option" and good :: "'a \<Rightarrow> bool"
  assumes written: "good a \<Longrightarrow> value_ok (enc a)"
    and shallow: "nesting (enc a) \<le> 4"
    and read_back: "good a \<Longrightarrow> dec (enc a) = Some a"
begin

lemma parsed: "good a \<Longrightarrow> json_parse (json_encode (enc a)) = Some (enc a)"
  by (rule parse_encode [OF written]) (use shallow [of a] in \<open>simp_all add: json_max_nesting_def\<close>)

lemma served: "good a \<Longrightarrow> serve sv dec zero to_json h (Some (enc a)) s = (writeResult to_json (fst (h a s)), snd (h a s))"
  by (simp add: serve_def decodeArgs_def read_back split: prod.split)

end

section \<open>Arguments\<close>

definition good_enqueue :: "EnqueueArgs \<Rightarrow> bool" where
  "good_enqueue a \<longleftrightarrow> list_all text_ok [ea_TaskID a, ea_Description a] \<and> - (2 ^ 63) \<le> ea_Priority a \<and> ea_Priority a < 2 ^ 63"

interpretation enqueue: wire enqueue_value decode_enqueue good_enqueue
  by unfold_locales (auto simp: enqueue_value_def good_enqueue_def decode_enqueue_def zero_enqueue_def decoding text_ok_ascii)

definition good_stop :: "StopArgs \<Rightarrow> bool" where
  "good_stop a \<longleftrightarrow> - (2 ^ 63) \<le> sa_Timeout a \<and> sa_Timeout a < 2 ^ 63"

interpretation stop: wire stop_value decode_stop good_stop
  by unfold_locales (auto simp: stop_value_def good_stop_def decode_stop_def zero_stop_def decoding text_ok_ascii)

definition good_attach :: "AttachArgs \<Rightarrow> bool" where
  "good_attach a \<longleftrightarrow> text_ok (aa_ProjectID a) \<and> - (2 ^ 63) \<le> aa_AfterID a \<and> aa_AfterID a < 2 ^ 63"

interpretation attach: wire attach_value decode_attach good_attach
  by unfold_locales (auto simp: attach_value_def good_attach_def decode_attach_def zero_attach_def decoding text_ok_ascii)

definition good_plan_import :: "PlanImportArgs \<Rightarrow> bool" where
  "good_plan_import a \<longleftrightarrow> list_all text_ok [pia_Markdown a, pia_Slug a, pia_Title a, pia_Project a]"

interpretation plan_import: wire plan_import_value decode_plan_import good_plan_import
  by unfold_locales (auto simp: plan_import_value_def good_plan_import_def decode_plan_import_def zero_plan_import_def decoding text_ok_ascii)

definition good_set_status :: "PlanSetStatusArgs \<Rightarrow> bool" where
  "good_set_status a \<longleftrightarrow> list_all text_ok [psa_PlanID a, psa_Status a]"

interpretation set_status: wire set_status_value decode_set_status good_set_status
  by unfold_locales (auto simp: set_status_value_def good_set_status_def decode_set_status_def zero_set_status_def decoding text_ok_ascii)

interpretation plan_id: wire "id_value ''plan_id''" "decode_id ''plan_id''" text_ok
  by unfold_locales (auto simp: id_value_def decode_id_def decoding text_ok_ascii)

interpretation worker_id: wire "id_value ''worker_id''" "decode_id ''worker_id''" text_ok
  by unfold_locales (auto simp: id_value_def decode_id_def decoding text_ok_ascii)

interpretation content_id: wire "id_value ''id''" "decode_id ''id''" text_ok
  by unfold_locales (auto simp: id_value_def decode_id_def decoding text_ok_ascii)

definition good_approve :: "TaskApproveArgs \<Rightarrow> bool" where
  "good_approve a \<longleftrightarrow> list_all text_ok [taa_PlanID a, taa_TaskID a]"

interpretation approve: wire approve_value decode_approve good_approve
  by unfold_locales (auto simp: approve_value_def good_approve_def decode_approve_def zero_approve_def decoding text_ok_ascii)

lemma fingerprint_back: "decode_fingerprint (fingerprint_value f) = Some f"
  by (cases f) (simp add: decode_fingerprint_def fingerprint_value_def decoding)

lemma list_back:
  assumes "\<And>x. x \<in> set xs \<Longrightarrow> elem (f x) = Some x"
  shows "list_field elem upd (list_value f xs) r = Some (upd xs r)"
  using assms all_some_map [of xs elem f] by (simp add: list_field_def slice_field_def list_value_def comp_def)

lemma list_nil: "list_field elem upd (list_value f []) r = Some (upd [] r)"
  by (simp add: list_field_def slice_field_def list_value_def)

lemma list_value_ok [simp]:
  "value_ok (list_value f xs) \<longleftrightarrow> list_all (\<lambda>x. value_ok (f x)) xs"
  "nesting (list_value f xs) \<le> n \<longleftrightarrow> xs = [] \<or> 0 < n \<and> list_all (\<lambda>x. nesting (f x) \<le> n - 1) xs"
  by (auto simp: list_value_def list.pred_map comp_def)

definition good_ensure :: "ProjectEnsureArgs \<Rightarrow> bool" where
  "good_ensure a \<longleftrightarrow> text_ok (pea_DisplayName a) \<and> list_all (\<lambda>f. text_ok (fp_Kind f) \<and> text_ok (fp_Value f)) (pea_Fingerprints a)"

interpretation ensure: wire ensure_value decode_ensure good_ensure
proof unfold_locales
  fix a :: ProjectEnsureArgs
  show "nesting (ensure_value a) \<le> 4"
    by (auto simp: ensure_value_def fingerprint_value_def list.pred_True)
  assume good: "good_ensure a"
  then show "value_ok (ensure_value a)"
    by (auto simp: ensure_value_def good_ensure_def fingerprint_value_def text_ok_ascii)
  have fps: "list_field decode_fingerprint (\<lambda>l a. a\<lparr>pea_Fingerprints := l\<rparr>) (list_value fingerprint_value (pea_Fingerprints a)) zero_ensure
      = Some (zero_ensure\<lparr>pea_Fingerprints := pea_Fingerprints a\<rparr>)"
    by (rule list_back) (rule fingerprint_back)
  show "decode_ensure (ensure_value a) = Some a"
    by (cases a) (use fps in \<open>auto simp: decode_ensure_def ensure_value_def zero_ensure_def decoding\<close>)
qed

definition good_config_get :: "ProjectConfigGetArgs \<Rightarrow> bool" where
  "good_config_get a \<longleftrightarrow> text_ok (pcg_Project a)"

interpretation config_get: wire config_get_value decode_config_get good_config_get
  by unfold_locales (auto simp: config_get_value_def good_config_get_def decode_config_get_def zero_config_get_def decoding text_ok_ascii)

definition good_map :: "(string \<times> string) list \<Rightarrow> bool" where
  "good_map m \<longleftrightarrow> sorted (map fst m) \<and> distinct (map fst m) \<and> list_all (\<lambda>kv. text_ok (fst kv) \<and> text_ok (snd kv)) m"

lemma map_value_ok: "good_map m \<Longrightarrow> value_ok (map_value m)" "nesting (map_value m) \<le> 1"
  by (auto simp: good_map_def map_value_def list_all_iff)

definition good_config_apply :: "ProjectConfigApplyArgs \<Rightarrow> bool" where
  "good_config_apply a \<longleftrightarrow> text_ok (pca_Project a) \<and> good_map (pca_Upserts a) \<and> list_all text_ok (pca_DeleteKeys a)"

interpretation config_apply: wire config_apply_value decode_config_apply good_config_apply
proof unfold_locales
  fix a :: ProjectConfigApplyArgs
  have n: "nesting (map_value m) \<le> n" if "1 \<le> n" for m n using map_value_ok(2) [of m] that by linarith
  show "nesting (config_apply_value a) \<le> 4"
    by (auto simp: config_apply_value_def list.pred_True n)
  assume good: "good_config_apply a"
  then show "value_ok (config_apply_value a)"
    by (auto simp: config_apply_value_def good_config_apply_def text_ok_ascii map_value_ok)
  have m: "put_members (map (\<lambda>kv. (fst kv, JsonString (snd kv))) (sort_key fst (pca_Upserts a))) [] = Some (pca_Upserts a)"
    using good by (intro map_value_back) (simp_all add: good_config_apply_def good_map_def)
  have keys: "list_field string_elem (\<lambda>l a. a\<lparr>pca_DeleteKeys := l\<rparr>) (list_value JsonString (pca_DeleteKeys a)) r
      = Some (r\<lparr>pca_DeleteKeys := pca_DeleteKeys a\<rparr>)" for r :: ProjectConfigApplyArgs
    by (rule list_back) (simp add: string_elem_def)
  show "decode_config_apply (config_apply_value a) = Some a"
    by (cases a) (use m keys in \<open>auto simp: list_nil decode_config_apply_def config_apply_value_def zero_config_apply_def decoding map_field_def
        map_value_def\<close>)
qed

definition good_calibration :: "CalibrationRecord \<Rightarrow> bool" where
  "good_calibration r \<longleftrightarrow> list_all text_ok [cr_Alias r, cr_Provider r, cr_Model r, cr_Effort r, cr_BinaryPath r, cr_BinaryVersion r,
     cr_BinarySHA256 r, cr_InvocationHash r, cr_InferenceDomain r, cr_ControlDomain r, cr_IndependenceDomain r, cr_ModelDigest r,
     cr_CapabilitiesJSON r, cr_EvidenceJSON r]"

interpretation calibration: wire calibration_value "\<lambda>v. decode_calibration_into v zero_calibration" good_calibration
  by unfold_locales (auto simp: calibration_value_def good_calibration_def decode_calibration_into_def zero_calibration_def
      decoding text_ok_ascii)

interpretation calibration_put: wire calibration_put_value decode_calibration_put good_calibration
proof unfold_locales
  fix r :: CalibrationRecord
  have "nesting (calibration_value r) \<le> 3" by (simp add: calibration_value_def)
  then show "nesting (calibration_put_value r) \<le> 4" by (simp add: calibration_put_value_def)
  assume good: "good_calibration r"
  then show "value_ok (calibration_put_value r)" by (simp add: calibration_put_value_def calibration.written text_ok_ascii)
  show "decode_calibration_put (calibration_put_value r) = Some r"
    using calibration.read_back [OF good] by (simp add: decode_calibration_put_def calibration_put_value_def decoding)
qed

definition good_hook_event :: "HookEventArgs \<Rightarrow> bool" where
  "good_hook_event a \<longleftrightarrow> list_all text_ok [ha_Adapter a, ha_Event a, ha_SessionID a]"

interpretation hook_event: wire hook_event_value decode_hook_event good_hook_event
  by unfold_locales (auto simp: hook_event_value_def good_hook_event_def decode_hook_event_def zero_hook_event_def decoding text_ok_ascii)

section \<open>Replies\<close>

definition good_enqueue_reply :: "EnqueueReply \<Rightarrow> bool" where
  "good_enqueue_reply r \<longleftrightarrow> text_ok (er_TaskID r)"

interpretation enqueue_reply: wire enqueue_reply_value decode_enqueue_reply good_enqueue_reply
  by unfold_locales (auto simp: enqueue_reply_value_def good_enqueue_reply_def decode_enqueue_reply_def decoding text_ok_ascii)

definition good_plan_import_reply :: "PlanImportReply \<Rightarrow> bool" where
  "good_plan_import_reply r \<longleftrightarrow> list_all text_ok [pir_PlanID r, pir_Slug r, pir_Title r]"

interpretation plan_import_reply: wire plan_import_reply_value decode_plan_import_reply good_plan_import_reply
  by unfold_locales (auto simp: plan_import_reply_value_def good_plan_import_reply_def decode_plan_import_reply_def decoding text_ok_ascii)

definition good_ensure_reply :: "ProjectEnsureReply \<Rightarrow> bool" where
  "good_ensure_reply r \<longleftrightarrow> text_ok (per_ProjectID r)"

interpretation ensure_reply: wire ensure_reply_value decode_ensure_reply good_ensure_reply
  by unfold_locales (auto simp: ensure_reply_value_def good_ensure_reply_def decode_ensure_reply_def decoding text_ok_ascii)

definition good_config_get_reply :: "ProjectConfigGetReply \<Rightarrow> bool" where
  "good_config_get_reply r \<longleftrightarrow> good_map (pgr_Values r) \<and> text_ok (pgr_ProjectID r)"

interpretation config_get_reply: wire config_get_reply_value decode_config_get_reply good_config_get_reply
proof unfold_locales
  fix r :: ProjectConfigGetReply
  have n: "nesting (map_value m) \<le> n" if "1 \<le> n" for m n using map_value_ok(2) [of m] that by linarith
  show "nesting (config_get_reply_value r) \<le> 4" by (simp add: config_get_reply_value_def n)
  assume good: "good_config_get_reply r"
  then show "value_ok (config_get_reply_value r)"
    by (auto simp: config_get_reply_value_def good_config_get_reply_def map_value_ok text_ok_ascii)
  have m: "put_members (map (\<lambda>kv. (fst kv, JsonString (snd kv))) (sort_key fst (pgr_Values r))) [] = Some (pgr_Values r)"
    using good by (intro map_value_back) (simp_all add: good_config_get_reply_def good_map_def)
  show "decode_config_get_reply (config_get_reply_value r) = Some r"
    by (cases r) (use m in \<open>auto simp: decode_config_get_reply_def config_get_reply_value_def decoding map_field_def map_value_def\<close>)
qed

interpretation ok_reply: wire ok_reply_value no_reply "\<lambda>_. True"
  by unfold_locales (auto simp: ok_reply_value_def no_reply_def text_ok_ascii)

interpretation calibration_list: wire calibration_list_value decode_calibration_list "list_all good_calibration"
proof unfold_locales
  fix rs :: "CalibrationRecord list"
  have "nesting (calibration_value r) \<le> 2" for r by (simp add: calibration_value_def)
  then show "nesting (calibration_list_value rs) \<le> 4" by (simp add: calibration_list_value_def list.pred_map comp_def list.pred_True)
  assume good: "list_all good_calibration rs"
  then have "list_all (\<lambda>r. value_ok (calibration_value r)) rs" by (rule list.pred_mono_strong) (rule calibration.written)
  then show "value_ok (calibration_list_value rs)"
    by (simp add: calibration_list_value_def list.pred_map comp_def text_ok_ascii)
  have "all_some (map ((\<lambda>v. decode_calibration_into v zero_calibration) \<circ> calibration_value) rs) = Some rs"
    using good calibration.read_back by (intro all_some_map) (simp add: list_all_iff)
  then show "decode_calibration_list (calibration_list_value rs) = Some rs"
    by (simp add: decode_calibration_list_def calibration_list_value_def decoding list_field_def slice_field_def)
qed

definition good_hook_reply :: "HookEventReply \<Rightarrow> bool" where
  "good_hook_reply r \<longleftrightarrow> text_ok (hr_Reason r)"

interpretation hook_reply: wire hook_reply_value decode_hook_reply good_hook_reply
  by unfold_locales (auto simp: hook_reply_value_def good_hook_reply_def decode_hook_reply_def decoding text_ok_ascii)

section \<open>Frames\<close>

text \<open>Around a value that is not too deep.\<close>

definition good_value :: "json_value \<Rightarrow> bool" where
  "good_value v \<longleftrightarrow> value_ok v \<and> nesting v \<le> 4"

definition good_request :: "Request \<Rightarrow> bool" where
  "good_request r \<longleftrightarrow> text_ok (rq_Cmd r) \<and> pred_option good_value (rq_Args r) \<and> - (2 ^ 63) \<le> rq_ProtoVersion r \<and> rq_ProtoVersion r < 2 ^ 63"

lemma request_ok: "good_request r \<Longrightarrow> value_ok (request_value r) \<and> nesting (request_value r) \<le> 5 \<and> decode_request (request_value r) = Some r"
  by (cases r) (auto simp: good_request_def good_value_def request_value_def decode_request_def decoding text_ok_ascii split: option.split)

definition good_response :: "Response \<Rightarrow> bool" where
  "good_response r \<longleftrightarrow> pred_option good_value (rs_Data r) \<and> list_all text_ok [rs_Error r, rs_Code r]"

lemma response_ok: "good_response r \<Longrightarrow> value_ok (response_value r) \<and> nesting (response_value r) \<le> 5 \<and> decode_response (response_value r) = Some r"
  by (cases r) (auto simp: good_response_def good_value_def response_value_def decode_response_def decoding text_ok_ascii split: option.split)

end
