(* ===== verification/Ipc_Call_Laws.thy ===== *)
theory Ipc_Call_Laws
  imports Ipc_Messages
begin

text \<open>
  A call of the client is a call of the handler: \<open>wire_call\<close> puts a message, its reply and the connection around the
  handler's function, and is interpreted on the commands of the protocol.
\<close>

section \<open>A message and its reply\<close>

text \<open>What the client sees of the handler's result.\<close>

definition carried :: "handler_error + 'b \<Rightarrow> client_error + 'b" where
  "carried r = (case r of
     Inl e \<Rightarrow> Inl (CodedError (case he_Code e of None \<Rightarrow> [] | Some code \<Rightarrow> code) (he_Text e)) | Inr b \<Rightarrow> Inr b)"

definition good_error :: "handler_error \<Rightarrow> bool" where
  "good_error e \<longleftrightarrow> text_ok (he_Text e) \<and> pred_option text_ok (he_Code e)"

definition good_result :: "('b \<Rightarrow> bool) \<Rightarrow> handler_error + 'b \<Rightarrow> bool" where
  "good_result good r \<longleftrightarrow> (case r of Inl e \<Rightarrow> good_error e | Inr b \<Rightarrow> good b)"

definition fits :: "Request \<Rightarrow> bool" where
  "fits req \<longleftrightarrow> length (encodeJSONLine (request_value req)) \<le> maxRequestBytes"

lemma sent_request:
  assumes "good_request req" and "fits req"
  shows "send (handleConn sv) req s = handle_request sv req s"
proof -
  note ok = request_ok [OF assms(1)]
  then have "json_parse (json_encode (request_value req)) = Some (request_value req)"
    by (intro parse_encode) (simp_all add: json_max_nesting_def)
  then show ?thesis using ok assms(2) by (simp add: send_def handleConn_def fits_def read_line_back)
qed

lemma read_response: "good_response r \<Longrightarrow> readResponse (writeResponse r) = Inr r"
  using response_ok [of r] parse_encode [of "response_value r"]
  by (simp add: readResponse_def writeResponse_def line_head json_max_nesting_def)

locale wire_call = msg: wire enc dec good + answer: wire enc' dec' good'
  for enc :: "'a \<Rightarrow> json_value" and dec good and enc' :: "'b \<Rightarrow> json_value" and dec' good'
begin

lemma answered:
  assumes "good_result good' r"
  shows "(case readResponse (writeResult enc' r) of
      Inl e \<Rightarrow> Inl e
    | Inr resp \<Rightarrow> if \<not> rs_Ok resp then Inl (CodedError (rs_Code resp) (rs_Error resp))
        else (case rs_Data resp of None \<Rightarrow> Inr zero | Some v \<Rightarrow> (case dec' v of None \<Rightarrow> Inl (BadReply cmd) | Some b \<Rightarrow> Inr b))) = carried r"
proof (cases r)
  case (Inl e)
  have "good_response (refusal (case he_Code e of None \<Rightarrow> [] | Some code \<Rightarrow> code) (he_Text e))"
    using assms Inl by (auto simp: good_result_def good_error_def good_response_def refusal_def split: option.split)
  then show ?thesis using Inl by (simp add: writeResult_def read_response carried_def) (simp add: refusal_def)
next
  case (Inr b)
  have good: "good' b" using assms Inr by (simp add: good_result_def)
  then have "good_response \<lparr>rs_Ok = True, rs_Data = Some (enc' b), rs_Error = [], rs_Code = []\<rparr>"
    using answer.written answer.shallow by (simp add: good_response_def good_value_def)
  then show ?thesis using Inr good by (simp add: writeResult_def read_response carried_def answer.read_back)
qed

text \<open>The call of a command that the server passes on to the handler.\<close>

lemma transparent:
  fixes cmd v a
  defines "req \<equiv> \<lparr>rq_Cmd = cmd, rq_Args = Some (enc a), rq_ProtoVersion = v\<rparr>"
  assumes "good a" and "fits req" and "text_ok cmd" and "0 < v" "v \<le> ProtoVersion"
    and "handle_request sv req s = serve sv dec zero enc' h (Some (enc a)) s" and "good_result good' (fst (h a s))"
  shows "versionedCall (handleConn sv) v cmd (enc a) dec' zero' s = (carried (fst (h a s)), snd (h a s))"
proof -
  have "good_request req"
    using assms(2,4-6) msg.written msg.shallow by (simp add: req_def good_request_def good_value_def ProtoVersion_def)
  then have "send (handleConn sv) req s = (writeResult enc' (fst (h a s)), snd (h a s))"
    using assms(3,7) msg.served [OF assms(2)] by (simp add: sent_request)
  then show ?thesis using answered [OF assms(8)] by (simp add: versionedCall_def req_def)
qed

end

interpretation import_call: wire_call plan_import_value decode_plan_import good_plan_import
  plan_import_reply_value decode_plan_import_reply good_plan_import_reply by unfold_locales
interpretation status_call: wire_call set_status_value decode_set_status good_set_status
  set_status_value decode_set_status good_set_status by unfold_locales
interpretation delete_call: wire_call "id_value ''plan_id''" "decode_id ''plan_id''" text_ok
  "id_value ''plan_id''" "decode_id ''plan_id''" text_ok by unfold_locales
interpretation approve_call: wire_call approve_value decode_approve good_approve ok_reply_value no_reply "\<lambda>_. True"
  by unfold_locales
interpretation kill_call: wire_call "id_value ''worker_id''" "decode_id ''worker_id''" text_ok ok_reply_value no_reply "\<lambda>_. True"
  by unfold_locales
interpretation ensure_call: wire_call ensure_value decode_ensure good_ensure
  ensure_reply_value decode_ensure_reply good_ensure_reply by unfold_locales
interpretation config_get_call: wire_call config_get_value decode_config_get good_config_get
  config_get_reply_value decode_config_get_reply good_config_get_reply by unfold_locales
interpretation config_apply_call: wire_call config_apply_value decode_config_apply good_config_apply
  ok_reply_value no_reply "\<lambda>_. True" by unfold_locales
interpretation calibration_put_call: wire_call calibration_put_value decode_calibration_put good_calibration
  "id_value ''id''" "decode_id ''id''" text_ok by unfold_locales
interpretation hook_call: wire_call hook_event_value decode_hook_event good_hook_event
  hook_reply_value decode_hook_reply good_hook_reply by unfold_locales

text \<open>The list of calibrations is asked for with an empty object.\<close>

definition no_args :: "unit \<Rightarrow> json_value" where
  "no_args _ = JsonObject []"

interpretation nothing: wire no_args no_reply "\<lambda>_. True"
  by unfold_locales (simp_all add: no_args_def no_reply_def)

interpretation calibration_list_call: wire_call no_args no_reply "\<lambda>_. True"
  calibration_list_value decode_calibration_list "list_all good_calibration" by unfold_locales

section \<open>Calls\<close>

text \<open>The calls of a client that drives the supervisor, made directly on the surfaces of a handler, and made
  through the connection.\<close>

datatype call =
    ImportCall PlanImportArgs
  | StatusCall PlanSetStatusArgs
  | DeleteCall ident
  | ApproveCall TaskApproveArgs
  | KillCall ident
  | EnsureCall ProjectEnsureArgs
  | ConfigGetCall ProjectConfigGetArgs
  | ConfigApplyCall ProjectConfigApplyArgs
  | CalibrationPutCall CalibrationRecord
  | CalibrationListCall
  | HookCall HookEventArgs

datatype answer =
    Imported PlanImportReply
  | StatusSet PlanSetStatusReply
  | Deleted ident
  | Acknowledged
  | Ensured ProjectEnsureReply
  | ConfigRows ProjectConfigGetReply
  | Recorded ident
  | Recordings "CalibrationRecord list"
  | Hooked HookEventReply

definition tagged :: "('b \<Rightarrow> 'c) \<Rightarrow> ('s \<Rightarrow> ('e + 'b) \<times> 's) \<Rightarrow> 's \<Rightarrow> ('e + 'c) \<times> 's" where
  "tagged f m s = (case m s of (r, s1) \<Rightarrow> (map_sum id f r, s1))"

record 's surfaces =
  su_drive :: "'s DriveHandler"
  su_calibration :: "'s CalibrationHandler"
  su_hook :: "HookEventArgs \<Rightarrow> ('s, HookEventReply) hcall"

fun local_call :: "'s surfaces \<Rightarrow> call \<Rightarrow> ('s, answer) hcall" where
  "local_call su (ImportCall a) = tagged Imported (dh_PlanImport (su_drive su) a)"
| "local_call su (StatusCall a) = tagged StatusSet (dh_PlanSetStatus (su_drive su) a)"
| "local_call su (DeleteCall i) = tagged Deleted (dh_PlanDelete (su_drive su) i)"
| "local_call su (ApproveCall a) = tagged (\<lambda>_. Acknowledged) (dh_TaskApprove (su_drive su) a)"
| "local_call su (KillCall i) = tagged (\<lambda>_. Acknowledged) (dh_WorkerKill (su_drive su) i)"
| "local_call su (EnsureCall a) = tagged Ensured (dh_ProjectEnsure (su_drive su) a)"
| "local_call su (ConfigGetCall a) = tagged ConfigRows (dh_ProjectConfigGet (su_drive su) a)"
| "local_call su (ConfigApplyCall a) = tagged (\<lambda>_. Acknowledged) (dh_ProjectConfigApply (su_drive su) a)"
| "local_call su (CalibrationPutCall r) = tagged Recorded (ch_CalibrationPut (su_calibration su) r)"
| "local_call su CalibrationListCall = tagged Recordings (ch_CalibrationList (su_calibration su))"
| "local_call su (HookCall a) = tagged Hooked (su_hook su a)"

fun remote_call :: "'s network \<Rightarrow> call \<Rightarrow> ('s, answer) remote" where
  "remote_call net (ImportCall a) = tagged Imported (PlanImport net a)"
| "remote_call net (StatusCall a) = tagged StatusSet (PlanSetStatus net a)"
| "remote_call net (DeleteCall i) = tagged Deleted (PlanDelete net i)"
| "remote_call net (ApproveCall a) = tagged (\<lambda>_. Acknowledged) (TaskApprove net a)"
| "remote_call net (KillCall i) = tagged (\<lambda>_. Acknowledged) (WorkerKill net i)"
| "remote_call net (EnsureCall a) = tagged Ensured (ProjectEnsure net a)"
| "remote_call net (ConfigGetCall a) = tagged ConfigRows (ProjectConfigGet net a)"
| "remote_call net (ConfigApplyCall a) = tagged (\<lambda>_. Acknowledged) (ProjectConfigApply net a)"
| "remote_call net (CalibrationPutCall r) = tagged Recorded (CalibrationPut net r)"
| "remote_call net CalibrationListCall = tagged Recordings (CalibrationList net)"
| "remote_call net (HookCall a) = tagged Hooked (HookEvent net a)"

fun good_call :: "call \<Rightarrow> bool" where
  "good_call (ImportCall a) = good_plan_import a"
| "good_call (StatusCall a) = good_set_status a"
| "good_call (DeleteCall i) = text_ok i"
| "good_call (ApproveCall a) = good_approve a"
| "good_call (KillCall i) = text_ok i"
| "good_call (EnsureCall a) = good_ensure a"
| "good_call (ConfigGetCall a) = good_config_get a"
| "good_call (ConfigApplyCall a) = good_config_apply a"
| "good_call (CalibrationPutCall r) = good_calibration r"
| "good_call CalibrationListCall = True"
| "good_call (HookCall a) = good_hook_event a"

fun good_answer :: "answer \<Rightarrow> bool" where
  "good_answer (Imported r) = good_plan_import_reply r"
| "good_answer (StatusSet r) = good_set_status r"
| "good_answer (Deleted i) = text_ok i"
| "good_answer Acknowledged = True"
| "good_answer (Ensured r) = good_ensure_reply r"
| "good_answer (ConfigRows r) = good_config_get_reply r"
| "good_answer (Recorded i) = text_ok i"
| "good_answer (Recordings rs) = list_all good_calibration rs"
| "good_answer (Hooked r) = good_hook_reply r"

text \<open>The request that a call sends.\<close>

fun call_request :: "call \<Rightarrow> Request" where
  "call_request (ImportCall a) = \<lparr>rq_Cmd = CmdPlanImport, rq_Args = Some (plan_import_value a), rq_ProtoVersion = DriveProtoVersion\<rparr>"
| "call_request (StatusCall a) = \<lparr>rq_Cmd = CmdPlanSetStatus, rq_Args = Some (set_status_value a), rq_ProtoVersion = DriveProtoVersion\<rparr>"
| "call_request (DeleteCall i) = \<lparr>rq_Cmd = CmdPlanDelete, rq_Args = Some (id_value ''plan_id'' i), rq_ProtoVersion = DriveProtoVersion\<rparr>"
| "call_request (ApproveCall a) = \<lparr>rq_Cmd = CmdTaskApprove, rq_Args = Some (approve_value a), rq_ProtoVersion = DriveProtoVersion\<rparr>"
| "call_request (KillCall i) = \<lparr>rq_Cmd = CmdWorkerKill, rq_Args = Some (id_value ''worker_id'' i), rq_ProtoVersion = DriveProtoVersion\<rparr>"
| "call_request (EnsureCall a) = \<lparr>rq_Cmd = CmdProjectEnsure, rq_Args = Some (ensure_value a), rq_ProtoVersion = projectEnsureProtoVersion a\<rparr>"
| "call_request (ConfigGetCall a) = \<lparr>rq_Cmd = CmdProjectConfigGet, rq_Args = Some (config_get_value a), rq_ProtoVersion = DriveProtoVersion\<rparr>"
| "call_request (ConfigApplyCall a) = \<lparr>rq_Cmd = CmdProjectConfigApply, rq_Args = Some (config_apply_value a), rq_ProtoVersion = DriveProtoVersion\<rparr>"
| "call_request (CalibrationPutCall r) = \<lparr>rq_Cmd = CmdCalibrationPut, rq_Args = Some (calibration_put_value r), rq_ProtoVersion = DriveProtoVersion\<rparr>"
| "call_request CalibrationListCall = \<lparr>rq_Cmd = CmdCalibrationList, rq_Args = Some (no_args ()), rq_ProtoVersion = DriveProtoVersion\<rparr>"
| "call_request (HookCall a) = \<lparr>rq_Cmd = CmdHookEvent, rq_Args = Some (hook_event_value a), rq_ProtoVersion = HookProtoVersion\<rparr>"

lemmas commands = CmdStatus_def CmdAttach_def CmdEnqueue_def CmdStop_def CmdReloadConfig_def CmdPlanImport_def CmdPlanSetStatus_def
  CmdPlanDelete_def CmdTaskApprove_def CmdWorkerKill_def CmdProjectEnsure_def CmdProjectConfigGet_def CmdProjectConfigApply_def
  CmdObserveSnapshot_def CmdObserveMessages_def CmdObserveTaskDescriptions_def CmdCalibrationPut_def CmdCalibrationList_def
  CmdHookEvent_def

lemmas versions = DriveProtoVersion_def ProtoVersion_def HookProtoVersion_def projectEnsureProtoVersion_def ResolveOnlyProtoVersion_def

lemmas routing = handle_request_def driveCommands_def queryCommands_def dispatchDrive_def dispatchCalibration_def commands versions Let_def

lemma tagged_good: "good_result good_answer (fst (tagged f m s)) \<Longrightarrow> (\<And>b. good_answer (f b) \<Longrightarrow> good b) \<Longrightarrow> good_result good (fst (m s))"
  by (auto simp: tagged_def good_result_def split: prod.splits sum.splits)

lemma tagged_carried:
  assumes "rm s = (carried (fst (m s)), snd (m s))"
  shows "tagged f rm s = (carried (fst (tagged f m s)), snd (tagged f m s))"
  using assms by (cases "m s"; cases "fst (m s)") (auto simp: tagged_def carried_def)

lemma unit_result: "good_result (\<lambda>_. True) (fst (m s))" if "good_result good_answer (fst (tagged (\<lambda>_. Acknowledged) m s))"
  using that by (rule tagged_good) simp

lemma hook_served: "dispatchHook sv \<lparr>rq_Cmd = CmdHookEvent, rq_Args = Some v, rq_ProtoVersion = HookProtoVersion\<rparr> s =
    serve sv decode_hook_event zero_hook_event hook_reply_value hook (Some v) s"
  if "h_Hook (sv_handler sv) = Some hook" "decode_hook_event v \<noteq> None"
  using that by (auto simp: dispatchHook_def serve_def decodeArgs_def)

lemma list_served: "(case m s of (r, s1) \<Rightarrow> (writeResult enc r, s1)) = serve sv no_reply () enc (\<lambda>_. m) (Some v) s"
  by (simp add: serve_def decodeArgs_def no_reply_def)

theorem remote_calls_are_local_calls:
  assumes "h_Drive (sv_handler sv) = Some (su_drive su)" and "h_Calibration (sv_handler sv) = Some (su_calibration su)"
    and "h_Hook (sv_handler sv) = Some (su_hook su)"
    and "good_call cl" and "fits (call_request cl)" and "good_result good_answer (fst (local_call su cl s))"
  shows "remote_call (handleConn sv) cl s = (carried (fst (local_call su cl s)), snd (local_call su cl s))"
proof (cases cl)
  case (ImportCall a)
  show ?thesis unfolding ImportCall remote_call.simps local_call.simps PlanImport_def driveCall_def
    by (rule tagged_carried, rule import_call.transparent [where zero = zero_plan_import])
      (use assms ImportCall in \<open>auto simp: routing text_ok_ascii elim!: tagged_good\<close>)
next
  case (StatusCall a)
  show ?thesis unfolding StatusCall remote_call.simps local_call.simps PlanSetStatus_def driveCall_def
    by (rule tagged_carried, rule status_call.transparent [where zero = zero_set_status])
      (use assms StatusCall in \<open>auto simp: routing text_ok_ascii elim!: tagged_good\<close>)
next
  case (DeleteCall i)
  show ?thesis unfolding DeleteCall remote_call.simps local_call.simps PlanDelete_def driveCall_def
    by (rule tagged_carried, rule delete_call.transparent [where zero = "[]"])
      (use assms DeleteCall in \<open>auto simp: routing text_ok_ascii elim!: tagged_good\<close>)
next
  case (ApproveCall a)
  show ?thesis unfolding ApproveCall remote_call.simps local_call.simps TaskApprove_def driveCall_def
    by (rule tagged_carried, rule approve_call.transparent [where zero = zero_approve])
      (use assms ApproveCall in \<open>auto simp: routing text_ok_ascii intro: unit_result\<close>)
next
  case (KillCall i)
  show ?thesis unfolding KillCall remote_call.simps local_call.simps WorkerKill_def driveCall_def
    by (rule tagged_carried, rule kill_call.transparent [where zero = "[]"])
      (use assms KillCall in \<open>auto simp: routing text_ok_ascii intro: unit_result\<close>)
next
  case (EnsureCall a)
  show ?thesis unfolding EnsureCall remote_call.simps local_call.simps ProjectEnsure_def
    by (rule tagged_carried, rule ensure_call.transparent [where zero = zero_ensure])
      (use assms EnsureCall in \<open>auto simp: routing text_ok_ascii elim!: tagged_good\<close>)
next
  case (ConfigGetCall a)
  show ?thesis unfolding ConfigGetCall remote_call.simps local_call.simps ProjectConfigGet_def driveCall_def
    by (rule tagged_carried, rule config_get_call.transparent [where zero = zero_config_get])
      (use assms ConfigGetCall in \<open>auto simp: routing text_ok_ascii elim!: tagged_good\<close>)
next
  case (ConfigApplyCall a)
  show ?thesis unfolding ConfigApplyCall remote_call.simps local_call.simps ProjectConfigApply_def driveCall_def
    by (rule tagged_carried, rule config_apply_call.transparent [where zero = zero_config_apply])
      (use assms ConfigApplyCall in \<open>auto simp: routing text_ok_ascii intro: unit_result\<close>)
next
  case (CalibrationPutCall r)
  show ?thesis unfolding CalibrationPutCall remote_call.simps local_call.simps CalibrationPut_def driveCall_def
    by (rule tagged_carried, rule calibration_put_call.transparent [where zero = zero_calibration])
      (use assms CalibrationPutCall in \<open>auto simp: routing text_ok_ascii elim!: tagged_good\<close>)
next
  case CalibrationListCall
  have args: "JsonObject [] = no_args ()" by (simp add: no_args_def)
  show ?thesis unfolding CalibrationListCall remote_call.simps local_call.simps CalibrationList_def driveCall_def args
    by (rule tagged_carried, rule calibration_list_call.transparent [where zero = "()" and h = "\<lambda>_. ch_CalibrationList (su_calibration su)"])
      (use assms CalibrationListCall list_served in \<open>auto simp: routing text_ok_ascii elim!: tagged_good\<close>)
next
  case (HookCall a)
  have "decode_hook_event (hook_event_value a) \<noteq> None" using hook_event.read_back assms(4) HookCall by simp
  from hook_served [OF assms(3) this]
  show ?thesis unfolding HookCall remote_call.simps local_call.simps HookEvent_def
    by (intro tagged_carried hook_call.transparent [where zero = zero_hook_event])
      (use assms HookCall in \<open>auto simp: handle_request_def driveCommands_def queryCommands_def commands versions Let_def text_ok_ascii elim!: tagged_good\<close>)
qed

end
