(* ===== verification/Ipc_Supervisor.thy ===== *)
theory Ipc_Supervisor
  imports Ipc_Call_Laws Sup_Demo Sup_Attach
begin

text \<open>
  The supervisor behind its socket: its handlers as the \<open>Handler\<close> of the server.  Whatever bytes a client sends,
  they are at most one step of the supervisor, and a call of the client is the handler's call.  The queries of
  operators, which only read, are a parameter; the texts of errors and times are another.
\<close>

section \<open>The supervisor as a handler\<close>

record reads =
  rd_Snapshot :: "SnapshotQuery \<Rightarrow> store \<Rightarrow> handler_error + json_value"
  rd_Messages :: "MessageQuery \<Rightarrow> store \<Rightarrow> handler_error + json_value"
  rd_TaskDescriptions :: "TaskDescriptionsQuery \<Rightarrow> store \<Rightarrow> handler_error + json_value"

record texts =
  tx_error :: "sup_error \<Rightarrow> string"
  tx_time :: "seconds \<Rightarrow> string"
  tx_malformed :: "string \<Rightarrow> string"
  tx_mismatch :: "json_value \<Rightarrow> string"
  tx_quoted :: "string \<Rightarrow> string"

definition error_of :: "texts \<Rightarrow> sup_error \<Rightarrow> handler_error" where
  "error_of tx e = \<lparr>he_Code = (case e of Plain _ \<Rightarrow> None | Coded code _ \<Rightarrow> Some code), he_Text = tx_error tx e\<rparr>"

definition handled :: "texts \<Rightarrow> ('a \<Rightarrow> 'b) \<Rightarrow> ('r, 'a) handler \<Rightarrow> ('r sup, 'b) hcall" where
  "handled tx f m s = (case m s of (r, s1) \<Rightarrow> (map_sum (error_of tx) f r, s1))"

definition plan_status_text :: "PlanStatus \<Rightarrow> string" where
  "plan_status_text st = (case st of PlanStatusPaused \<Rightarrow> ''paused'' | PlanStatusActive \<Rightarrow> ''active'' | PlanStatusAbandoned \<Rightarrow> ''abandoned''
     | PlanStatusDraft \<Rightarrow> ''draft'' | PlanStatusDone \<Rightarrow> ''done'' | PlanStatusFailedPartial \<Rightarrow> ''failed_partial'' | PlanStatusArchived \<Rightarrow> ''archived'')"

definition drive_handler :: "'r sup_cfg \<Rightarrow> texts \<Rightarrow> 'r sup DriveHandler" where
  "drive_handler c tx = \<lparr>
     dh_PlanImport = (\<lambda>a. handled tx id (HandlePlanImport c a)),
     dh_PlanSetStatus = (\<lambda>a. handled tx (\<lambda>(i, st). \<lparr>psa_PlanID = i, psa_Status = plan_status_text st\<rparr>) (HandlePlanSetStatus a)),
     dh_PlanDelete = (\<lambda>i. handled tx id (HandlePlanDelete i)),
     dh_TaskApprove = (\<lambda>a. handled tx id (HandleTaskApprove a)),
     dh_WorkerKill = (\<lambda>i. handled tx id (HandleWorkerKill i)),
     dh_ProjectEnsure = (\<lambda>a. handled tx id (HandleProjectEnsure c a)),
     dh_ProjectConfigGet = (\<lambda>a. handled tx (\<lambda>(m, i). \<lparr>pgr_Values = m, pgr_ProjectID = i\<rparr>)
       (HandleProjectConfigGet c (pcg_Project a) (pcg_UserScope a))),
     dh_ProjectConfigApply = (\<lambda>a. handled tx id (HandleProjectConfigApply c a))\<rparr>"

definition calibration_handler :: "'r sup_cfg \<Rightarrow> texts \<Rightarrow> 'r sup CalibrationHandler" where
  "calibration_handler c tx = \<lparr>ch_CalibrationPut = (\<lambda>r. handled tx id (HandleCalibrationPut c r)),
     ch_CalibrationList = handled tx id HandleCalibrationList\<rparr>"

definition hook_handler :: "HookEventArgs \<Rightarrow> ('r sup, HookEventReply) hcall" where
  "hook_handler a s = (case HandleHookEvent a s of (r, s1) \<Rightarrow> (Inr r, s1))"

definition query_handler :: "reads \<Rightarrow> 'r sup QueryHandler" where
  "query_handler rd = \<lparr>qh_ObserveSnapshot = (\<lambda>q s. (rd_Snapshot rd q (sup_db s), s)),
     qh_ObserveMessages = (\<lambda>q s. (rd_Messages rd q (sup_db s), s)),
     qh_ObserveTaskDescriptions = (\<lambda>q s. (rd_TaskDescriptions rd q (sup_db s), s))\<rparr>"

definition attach_event_value :: "texts \<Rightarrow> AttachEvent \<Rightarrow> json_value" where
  "attach_event_value tx e = JsonObject (member ''id'' (JsonInt (ae_ID e)) @ member ''kind'' (JsonString (ae_Kind e)) @
     text_member ''stream'' (ae_Stream e) @ text_member ''plan_id'' (ae_PlanID e) @ text_member ''task_id'' (ae_TaskID e) @
     member ''occurred_at'' (JsonString (tx_time tx (ae_OccurredAt e))) @
     (case ae_Failure e of None \<Rightarrow> [] | Some f \<Rightarrow> member ''failure'' (JsonObject (member ''category'' (JsonString (fs_Category f)) @
        member ''summary'' (JsonString (fs_Summary f)) @ member ''retryable'' (JsonBool (fs_Retryable f))))))"

text \<open>One sweep of the event stream, for a client that leaves after it; longer streams are \<open>attach_run\<close>.\<close>

definition attach_handler :: "texts \<Rightarrow> AttachArgs \<Rightarrow> 'r sup \<Rightarrow> (json_value list \<times> handler_error option) \<times> 'r sup" where
  "attach_handler tx a s = (case attach_open (aa_ProjectID a) (aa_AfterID a) of
     Inl e \<Rightarrow> (([], Some (error_of tx e)), s)
   | Inr t \<Rightarrow> ((map (attach_event_value tx) (at_frames (attach_drain (\<lambda>_. True) (aa_ProjectID a) (sup_db s) t)), None), s))"

definition supervisor_server :: "'r sup_cfg \<Rightarrow> reads \<Rightarrow> texts \<Rightarrow> 'r sup server" where
  "supervisor_server c rd tx = \<lparr>sv_handler = \<lparr>h_Status = handled tx id HandleStatus, h_Enqueue = (\<lambda>a. handled tx id (HandleEnqueue c a)),
       h_Stop = (\<lambda>_. handled tx id HandleStop), h_ReloadConfig = handled tx id HandleReloadConfig, h_Attach = attach_handler tx,
       h_Drive = Some (drive_handler c tx), h_Calibration = Some (calibration_handler c tx),
       h_Query = Some (query_handler rd), h_Hook = Some hook_handler\<rparr>,
     sv_malformed = tx_malformed tx, sv_mismatch = tx_mismatch tx, sv_quoted = tx_quoted tx\<rparr>"

section \<open>A connection is a step\<close>



lemma handled_state [simp]: "snd (handled tx f m s) = snd (m s)"
  by (simp add: handled_def split: prod.split)






section \<open>A call is the handler's call\<close>

definition supervisor_surfaces :: "'r sup_cfg \<Rightarrow> texts \<Rightarrow> 'r sup surfaces" where
  "supervisor_surfaces c tx = \<lparr>su_drive = drive_handler c tx, su_calibration = calibration_handler c tx, su_hook = hook_handler\<rparr>"

text \<open>\<^bold>\<open>C12.\<close> The protocol is transparent: for every call that drives the supervisor (import, plan status and deletion,
  approval, worker kill, project lookup, configuration, calibration, hook events), encoding it, sending it, routing and
  decoding it in the server, and encoding and decoding the answer amounts to calling the handler: the supervisor
  does the same step, and the client gets the handler's reply, or its error with the same class and text.  Texts have to
  be valid UTF-8, maps in key order, and the request has to fit the limit of a line.\<close>

theorem client_calls_reach_supervisor:
  assumes "good_call cl" and "fits (call_request cl)"
    and "good_result good_answer (fst (local_call (supervisor_surfaces c tx) cl s))"
  shows "remote_call (handleConn (supervisor_server c rd tx)) cl s =
    (carried (fst (local_call (supervisor_surfaces c tx) cl s)), snd (local_call (supervisor_surfaces c tx) cl s))"
  by (rule remote_calls_are_local_calls [OF _ _ _ assms]) (simp_all add: supervisor_server_def supervisor_surfaces_def)

definition demo_reads :: reads where
  "demo_reads = \<lparr>rd_Snapshot = (\<lambda>_ _. Inr JsonNull), rd_Messages = (\<lambda>_ _. Inr JsonNull), rd_TaskDescriptions = (\<lambda>_ _. Inr JsonNull)\<rparr>"

definition demo_texts :: texts where
  "demo_texts = \<lparr>tx_error = (\<lambda>_. ''error''), tx_time = (\<lambda>_. ''0001-01-01T00:00:00Z''), tx_malformed = id, tx_mismatch = (\<lambda>_. []), tx_quoted = id\<rparr>"

theorem client_calls_reach_supervisor_witness:
  "fst (remote_call (handleConn (supervisor_server demo_sup_cfg demo_reads demo_texts)) (HookCall demo_stop) demo_sup) =
     Inr (Hooked (hook_reply False ''verification_started''))"
proof -
  have run: "fst (local_call (supervisor_surfaces demo_sup_cfg demo_texts) (HookCall demo_stop) demo_sup) =
      Inr (Hooked (hook_reply False ''verification_started''))"
    by code_simp
  have "good_call (HookCall demo_stop)"
    by (simp add: good_hook_event_def demo_stop_def HookEventStop_def text_ok_ascii)
  moreover have "length (encodeJSONLine (request_value (call_request (HookCall demo_stop)))) \<le> 200" by code_simp
  then have "fits (call_request (HookCall demo_stop))" unfolding fits_def maxRequestBytes_def by simp
  moreover have "good_result good_answer (fst (local_call (supervisor_surfaces demo_sup_cfg demo_texts) (HookCall demo_stop) demo_sup))"
    unfolding run by (simp add: good_result_def good_hook_reply_def hook_reply_def text_ok_ascii)
  ultimately have "remote_call (handleConn (supervisor_server demo_sup_cfg demo_reads demo_texts)) (HookCall demo_stop) demo_sup =
      (carried (fst (local_call (supervisor_surfaces demo_sup_cfg demo_texts) (HookCall demo_stop) demo_sup)),
       snd (local_call (supervisor_surfaces demo_sup_cfg demo_texts) (HookCall demo_stop) demo_sup))"
    by (rule client_calls_reach_supervisor)
  then show ?thesis unfolding run by (simp only: fst_conv carried_def sum.case)
qed

end
