(* ===== verification/Go_Time.thy ===== *)
theory Go_Time
  imports Go_Json "HOL-Library.Monad_Syntax"
begin

text \<open>
  Timestamps of Go's \<open>time\<close> package in RFC 3339: \<open>time.Parse\<close> with the layout \<open>RFC3339\<close>, and \<open>Format\<close> with
  \<open>RFC3339Nano\<close> of a time in UTC.  An instant is the number of seconds since the first day of the year 0 with
  the nanoseconds within the second.  Formatting and parsing are inverse for the years 0 to 9999.
\<close>

section \<open>The calendar\<close>

definition is_leap :: "int \<Rightarrow> bool" where
  "is_leap y \<longleftrightarrow> y mod 4 = 0 \<and> (y mod 100 \<noteq> 0 \<or> y mod 400 = 0)"

definition month_lengths :: "int \<Rightarrow> nat list" where
  "month_lengths y = [31, if is_leap y then 29 else 28, 31, 30, 31, 30, 31, 31, 30, 31, 30, 31]"

definition daysIn :: "nat \<Rightarrow> int \<Rightarrow> nat" where
  "daysIn m y = month_lengths y ! (m - 1)"

text \<open>Days before the first of January.\<close>

definition days_before :: "int \<Rightarrow> int" where
  "days_before y = 365 * y + (y + 3) div 4 - (y + 99) div 100 + (y + 399) div 400"

definition year_length :: "int \<Rightarrow> int" where
  "year_length y = (if is_leap y then 366 else 365)"

definition year_of :: "int \<Rightarrow> int" where
  "year_of n = (let y = 400 * n div 146097 in
     if n < days_before y then y - 1 else if days_before (y + 1) \<le> n then y + 1 else y)"

fun month_day :: "nat list \<Rightarrow> nat \<Rightarrow> nat \<times> nat" where
  "month_day [] k = (1, k + 1)"
| "month_day (l # ls) k = (if k < l then (1, k + 1) else apfst Suc (month_day ls (k - l)))"

definition day_of_year :: "int \<Rightarrow> nat \<Rightarrow> nat \<Rightarrow> nat" where
  "day_of_year y m d = sum_list (take (m - 1) (month_lengths y)) + (d - 1)"

lemma div_round_up:
  fixes y k :: int
  assumes "0 < k"
  shows "(y + (k - 1)) div k = y div k + (if y mod k = 0 then 0 else 1)"
proof -
  have r: "0 \<le> y mod k" "y mod k < k" using assms by simp_all
  have "y + (k - 1) = (y mod k + (k - 1)) + y div k * k" by (simp add: div_mult_mod_eq add.commute add.left_commute)
  then have "(y + (k - 1)) div k = ((y mod k + (k - 1)) + y div k * k) div k" by (rule arg_cong)
  also have "\<dots> = y div k + (y mod k + (k - 1)) div k" using assms by (intro div_mult_self1) simp
  also have "(y mod k + (k - 1)) div k = (if y mod k = 0 then 0 else 1)"
  proof (cases "y mod k = 0")
    case False
    then have "(y mod k + (k - 1)) div k = 1 + (y mod k - 1) div k"
      using assms div_add_self2 [of k "y mod k - 1"] by (simp add: algebra_simps)
    moreover have "(y mod k - 1) div k = 0" using r False by (simp add: div_pos_pos_trivial)
    ultimately show ?thesis using False by simp
  qed (use assms in \<open>simp add: div_pos_pos_trivial\<close>)
  finally show ?thesis .
qed

lemma leap_century: "y mod 100 = 0 \<Longrightarrow> y mod 4 = 0" for y :: int
  by (rule dvd_imp_mod_0) (rule dvd_trans [of _ 100], simp, erule mod_0_imp_dvd)

lemma leap_era: "y mod 400 = 0 \<Longrightarrow> y mod 100 = 0" for y :: int
  by (rule dvd_imp_mod_0) (rule dvd_trans [of _ 400], simp, erule mod_0_imp_dvd)

lemma leap_sum: "b \<longrightarrow> a \<Longrightarrow> c \<longrightarrow> b \<Longrightarrow> 365 * (y + 1) + (p + 1) - (q + 1) + (t + 1) =
    365 * y + (p + (if a then 0 else 1)) - (q + (if b then 0 else 1)) + (t + (if c then 0 else 1)) +
    (if a \<and> (\<not> b \<or> c) then 366 else 365)" for p q t y :: int
  by auto

lemma pred_numerals: "(4 :: int) - 1 = 3" "(100 :: int) - 1 = 99" "(400 :: int) - 1 = 399"
  by simp_all

lemma days_before_Suc: "days_before (y + 1) = days_before y + year_length y"
proof -
  define a b c :: bool where "a = (y mod 4 = 0)" and "b = (y mod 100 = 0)" and "c = (y mod 400 = 0)"
  have imp: "b \<longrightarrow> a" "c \<longrightarrow> b"
    by (auto simp: a_def b_def c_def dest: leap_century leap_era)
  have up: "(y + 1 + 3) div 4 = y div 4 + 1" "(y + 1 + 99) div 100 = y div 100 + 1" "(y + 1 + 399) div 400 = y div 400 + 1"
    by simp_all
  have here: "(y + 3) div 4 = y div 4 + (if a then 0 else 1)" "(y + 99) div 100 = y div 100 + (if b then 0 else 1)"
    "(y + 399) div 400 = y div 400 + (if c then 0 else 1)"
    unfolding a_def b_def c_def by (rule div_round_up [of 4 y, OF zero_less_numeral, unfolded pred_numerals]
      div_round_up [of 100 y, OF zero_less_numeral, unfolded pred_numerals]
      div_round_up [of 400 y, OF zero_less_numeral, unfolded pred_numerals])+
  have leap: "is_leap y = (a \<and> (\<not> b \<or> c))" by (simp add: is_leap_def a_def b_def c_def)
  show ?thesis unfolding days_before_def year_length_def up here leap using imp by (rule leap_sum)
qed

lemma year_length_pos: "0 < year_length y"
  by (simp add: year_length_def)

lemma days_before_mono: "x \<le> y \<Longrightarrow> days_before x \<le> days_before y"
proof (induction "nat (y - x)" arbitrary: y)
  case (Suc n)
  then have "days_before x \<le> days_before (y - 1)" by simp
  also have "\<dots> \<le> days_before y" using days_before_Suc [of "y - 1"] year_length_pos [of "y - 1"] by simp
  finally show ?case .
qed simp

text \<open>Four hundred years are 146097 days, up to the leap days that the division rounds.\<close>

lemma days_before_bounds: "146097 * y - 396 \<le> 400 * days_before y" "400 * days_before y \<le> 146097 * y + 699"
proof -
  have "4 * ((y + 3) div 4) \<le> y + 3" "y \<le> 4 * ((y + 3) div 4)" by presburger+
  moreover have "100 * ((y + 99) div 100) \<le> y + 99" "y \<le> 100 * ((y + 99) div 100)" by presburger+
  moreover have "400 * ((y + 399) div 400) \<le> y + 399" "y \<le> 400 * ((y + 399) div 400)" by presburger+
  ultimately have "146097 * y - 396 \<le> 400 * days_before y \<and> 400 * days_before y \<le> 146097 * y + 699"
    unfolding days_before_def by (simp add: algebra_simps)
  then show "146097 * y - 396 \<le> 400 * days_before y" "400 * days_before y \<le> 146097 * y + 699" by auto
qed

lemma quotient_le: "86400 * (m div 86400) \<le> m" for m :: int
proof -
  have "0 \<le> m mod 86400" "86400 * (m div 86400) + m mod 86400 = m" by simp_all
  then show ?thesis by linarith
qed

lemma quotient_bounds: "146097 * (m div 146097) \<le> (m :: int)" "m < 146097 * (m div 146097 + 1)"
proof -
  have "0 \<le> m mod 146097" "m mod 146097 < 146097" "146097 * (m div 146097) + m mod 146097 = m" by simp_all
  then show "146097 * (m div 146097) \<le> m" "m < 146097 * (m div 146097 + 1)" unfolding distrib_left by linarith+
qed

lemma year_estimate:
  assumes "days_before y \<le> n" "n < days_before (y + 1)"
  shows "400 * n div 146097 \<in> {y - 1, y, y + 1}"
proof -
  let ?q = "400 * n div 146097"
  have q: "146097 * ?q \<le> 400 * n" "400 * n < 146097 * (?q + 1)" by (rule quotient_bounds)+
  have "146097 * (y - 1) \<le> 400 * n" "400 * n < 146097 * (y + 2)"
    using assms days_before_bounds(1) [of y] days_before_bounds(2) [of "y + 1"] by (simp_all add: algebra_simps)
  then have "146097 * (y - 1) < 146097 * (?q + 1)" "146097 * ?q < 146097 * (y + 2)" using q by linarith+
  then have "y - 1 \<le> ?q" "?q < y + 2" by auto
  then show ?thesis by auto
qed

lemma year_of_eq:
  assumes "days_before y \<le> n" "n < days_before (y + 1)"
  shows "year_of n = y"
proof -
  consider "400 * n div 146097 = y - 1" | "400 * n div 146097 = y" | "400 * n div 146097 = y + 1"
    using year_estimate [OF assms] by auto
  then show ?thesis
  proof cases
    case 1
    moreover have "\<not> n < days_before (y - 1)" using assms(1) days_before_mono [of "y - 1" y] by simp
    ultimately show ?thesis using assms by (simp add: year_of_def)
  next
    case 2
    then show ?thesis using assms by (simp add: year_of_def)
  next
    case 3
    then show ?thesis using assms by (simp add: year_of_def)
  qed
qed

lemma year_unique_ex: "\<exists>y. days_before y \<le> n \<and> n < days_before (y + 1)"
proof -
  let ?y = "400 * n div 146097"
  have est: "146097 * ?y \<le> 400 * n" "400 * n < 146097 * (?y + 1)" by (rule quotient_bounds)+
  have "days_before (?y - 1) \<le> n" using days_before_bounds(2) [of "?y - 1"] est(1) by (simp add: algebra_simps)
  moreover have "n < days_before (?y + 2)" using days_before_bounds(1) [of "?y + 2"] est(2) by (simp add: algebra_simps)
  moreover have "?y + 2 = ?y + 1 + 1" by simp
  ultimately show ?thesis
    by (metis add.commute diff_add_cancel linorder_not_less)
qed

lemma year_of_bounds: "days_before (year_of n) \<le> n" "n < days_before (year_of n) + year_length (year_of n)"
  using year_unique_ex [of n] year_of_eq [of _ n] days_before_Suc by auto

text \<open>Months and days.\<close>

lemma month_day_exact:
  assumes "k < sum_list ls"
  shows "1 \<le> fst (month_day ls k) \<and> fst (month_day ls k) \<le> length ls \<and> 1 \<le> snd (month_day ls k) \<and>
    snd (month_day ls k) \<le> ls ! (fst (month_day ls k) - 1) \<and>
    sum_list (take (fst (month_day ls k) - 1) ls) + (snd (month_day ls k) - 1) = k"
  using assms
proof (induction ls arbitrary: k)
  case (Cons l ls)
  show ?case
  proof (cases "k < l")
    case False
    then have "k - l < sum_list ls" using Cons.prems by simp
    note IH = Cons.IH [OF this]
    obtain m d where md: "month_day ls (k - l) = (m, d)" by (cases "month_day ls (k - l)")
    with IH obtain m' where "m = Suc m'" by (cases m) auto
    with IH md False show ?thesis by auto
  qed simp
qed simp

lemma sum_month_lengths: "int (sum_list (month_lengths y)) = year_length y"
  by (simp add: month_lengths_def year_length_def)

lemma month_lengths_size [simp]: "length (month_lengths y) = 12"
  by (simp add: month_lengths_def)

lemma month_bound: "m < 12 \<Longrightarrow> month_lengths y ! m \<le> 31"
  by (auto simp: month_lengths_def less_Suc_eq numeral_eq_Suc nth_Cons split: nat.splits)

section \<open>Instants\<close>

type_synonym instant = "int \<times> nat"

definition Before :: "instant \<Rightarrow> instant \<Rightarrow> bool" where
  "Before a b \<longleftrightarrow> fst a < fst b \<or> fst a = fst b \<and> snd a < snd b"

definition seconds_of_date :: "int \<Rightarrow> nat \<Rightarrow> nat \<Rightarrow> nat \<Rightarrow> nat \<Rightarrow> nat \<Rightarrow> int" where
  "seconds_of_date y mo d h mi sec =
     (days_before y + int (day_of_year y mo d)) * 86400 + int (h * 3600 + mi * 60 + sec)"

section \<open>Parse\<close>

text \<open>\<open>getnum\<close>: two digits, or a single one where the layout allows it.\<close>

definition getnum :: "bool \<Rightarrow> string \<Rightarrow> (nat \<times> string) option" where
  "getnum fixed s = (case s of
     a # b # r \<Rightarrow>
       if \<not> json_digit a then None
       else if json_digit b then Some (digits_value [a, b], r)
       else if fixed then None else Some (digits_value [a], b # r)
   | [a] \<Rightarrow> if json_digit a \<and> \<not> fixed then Some (digits_value [a], []) else None
   | [] \<Rightarrow> None)"

definition parse_year :: "string \<Rightarrow> (nat \<times> string) option" where
  "parse_year s = (if 4 \<le> length s \<and> list_all json_digit (take 4 s) then Some (digits_value (take 4 s), drop 4 s) else None)"

text \<open>A fraction of a second after a point or a comma; digits beyond the ninth are dropped.\<close>

definition fraction_digits :: "string \<Rightarrow> nat" where
  "fraction_digits ds = digits_value (take 9 ds) * 10 ^ (9 - length (take 9 ds))"

definition parse_fraction :: "string \<Rightarrow> nat \<times> string" where
  "parse_fraction s = (case s of
     c # r \<Rightarrow> if (c = CHR ''.'' \<or> c = CHR '','') \<and> takeWhile json_digit r \<noteq> []
       then (fraction_digits (takeWhile json_digit r), dropWhile json_digit r) else (0, s)
   | [] \<Rightarrow> (0, s))"

text \<open>The zone, in seconds east of UTC.  The ranges are inclusive, as in Go.\<close>

definition parse_zone :: "string \<Rightarrow> (int \<times> string) option" where
  "parse_zone s =
    (if take 1 s = ''Z'' then Some (0, drop 1 s)
     else (case s of
       sg # h1 # h2 # colon # m1 # m2 # r \<Rightarrow>
         if colon = CHR '':'' \<and> list_all json_digit [h1, h2, m1, m2] \<and> digits_value [h1, h2] \<le> 24 \<and>
           digits_value [m1, m2] \<le> 60 \<and> (sg = CHR ''+'' \<or> sg = CHR ''-'')
         then Some ((if sg = CHR ''-'' then -1 else 1) * int (digits_value [h1, h2] * 3600 + digits_value [m1, m2] * 60), r)
         else None
     | _ \<Rightarrow> None))"

definition parse_date :: "string \<Rightarrow> ((nat \<times> nat \<times> nat) \<times> string) option" where
  "parse_date s = do {
     (y, s) \<leftarrow> parse_year s;
     s \<leftarrow> strip_prefix ''-'' s;
     (mo, s) \<leftarrow> getnum True s;
     s \<leftarrow> strip_prefix ''-'' s;
     (d, s) \<leftarrow> getnum True s;
     if 1 \<le> mo \<and> mo \<le> 12 \<and> 1 \<le> d \<and> d \<le> daysIn mo (int y) then Some ((y, mo, d), s) else None
   }"

definition parse_clock :: "string \<Rightarrow> ((nat \<times> nat \<times> nat) \<times> string) option" where
  "parse_clock s = do {
     (h, s) \<leftarrow> getnum False s;
     s \<leftarrow> strip_prefix '':'' s;
     (mi, s) \<leftarrow> getnum True s;
     s \<leftarrow> strip_prefix '':'' s;
     (sec, s) \<leftarrow> getnum True s;
     if h < 24 \<and> mi < 60 \<and> sec < 60 then Some ((h, mi, sec), s) else None
   }"

definition parse_rfc3339 :: "string \<Rightarrow> instant option" where
  "parse_rfc3339 s = do {
     ((y, mo, d), s) \<leftarrow> parse_date s;
     s \<leftarrow> strip_prefix ''T'' s;
     ((h, mi, sec), s) \<leftarrow> parse_clock s;
     (zone, rest) \<leftarrow> parse_zone (snd (parse_fraction s));
     if rest = [] then Some (seconds_of_date (int y) mo d h mi sec - zone, fst (parse_fraction s)) else None
   }"

section \<open>Format\<close>

text \<open>\<open>appendInt\<close>: decimal digits, padded with zeros.\<close>

definition pad_int :: "nat \<Rightarrow> nat \<Rightarrow> string" where
  "pad_int w n = replicate (w - length (itoa_nat n)) (CHR ''0'') @ itoa_nat n"

definition format_year :: "int \<Rightarrow> string" where
  "format_year y = (if y < 0 then CHR ''-'' # pad_int 4 (nat (- y)) else pad_int 4 (nat y))"

definition format_fraction :: "nat \<Rightarrow> string" where
  "format_fraction ns = (if ns = 0 then [] else CHR ''.'' # rev (dropWhile (\<lambda>c. c = CHR ''0'') (rev (pad_int 9 ns))))"

definition format_rfc3339nano :: "instant \<Rightarrow> string" where
  "format_rfc3339nano t =
    (let n = fst t div 86400; r = nat (fst t mod 86400); y = year_of n;
         (mo, d) = month_day (month_lengths y) (nat (n - days_before y)) in
     format_year y @ ''-'' @ pad_int 2 mo @ ''-'' @ pad_int 2 d @ ''T'' @
     pad_int 2 (r div 3600) @ '':'' @ pad_int 2 (r div 60 mod 60) @ '':'' @ pad_int 2 (r mod 60) @
     format_fraction (snd t) @ ''Z'')"

section \<open>Parsing what was formatted\<close>

fun fixed_digits :: "nat \<Rightarrow> nat \<Rightarrow> string" where
  "fixed_digits 0 n = []"
| "fixed_digits (Suc w) n = fixed_digits w (n div 10) @ [digit_char (n mod 10)]"

lemma json_digit_char [simp]: "d < 10 \<Longrightarrow> json_digit (digit_char d)"
  by (simp add: json_digit_def digit_char_def less_eq_char_def)

lemma fixed_digits_size [simp]: "length (fixed_digits w n) = w"
  by (induction w n rule: fixed_digits.induct) auto

lemma fixed_digits_digits [simp]: "list_all json_digit (fixed_digits w n)"
  by (induction w n rule: fixed_digits.induct) auto

lemma fixed_digits_zero: "fixed_digits w 0 = replicate w (CHR ''0'')"
  using char_of_char [of "CHR ''0''", where 'a = nat] by (induction w) (auto simp: digit_char_def replicate_append_same)

lemma digits_value_snoc: "d < 10 \<Longrightarrow> digits_value (ds @ [digit_char d]) = digits_value ds * 10 + d"
  by (simp add: digits_value_def)

lemma fixed_digits_value: "n < 10 ^ w \<Longrightarrow> digits_value (fixed_digits w n) = n"
proof (induction w n rule: fixed_digits.induct)
  case (2 w n)
  then have "n div 10 < 10 ^ w" by (simp add: div_less_iff_less_mult mult.commute)
  with 2 show ?case by (simp add: digits_value_snoc)
qed (simp add: digits_value_def)

lemma pad_int_fixed: "n < 10 ^ w \<Longrightarrow> 0 < w \<Longrightarrow> pad_int w n = fixed_digits w n"
proof (induction w n rule: fixed_digits.induct)
  case (2 w n)
  show ?case
  proof (cases "n < 10")
    case True
    then show ?thesis by (simp add: pad_int_def itoa_nat.simps [of n] fixed_digits_zero)
  next
    case False
    then have n: "n div 10 < 10 ^ w" "0 < w" using 2(2) by (auto simp: div_less_iff_less_mult mult.commute intro: ccontr)
    from 2(1) [OF this] show ?thesis using False by (simp add: pad_int_def itoa_nat.simps [of n])
  qed
qed simp

lemma digits_value_append: "digits_value (xs @ replicate k (CHR ''0'')) = digits_value xs * 10 ^ k"
proof (induction k arbitrary: xs)
  case (Suc k)
  have "digits_value (xs @ replicate (Suc k) (CHR ''0'')) = digits_value ((xs @ [CHR ''0'']) @ replicate k (CHR ''0''))" by simp
  also have "\<dots> = digits_value (xs @ [CHR ''0'']) * 10 ^ k" by (rule Suc)
  finally show ?case by (simp add: digits_value_def)
qed simp

lemma getnum_fixed: "getnum fixed (fixed_digits 2 n @ s) = Some (digits_value (fixed_digits 2 n), s)"
  by (simp add: getnum_def numeral_2_eq_2)

lemma parse_year_fixed: "parse_year (fixed_digits 4 n @ s) = Some (digits_value (fixed_digits 4 n), s)"
  by (simp add: parse_year_def)

text \<open>The digits of a fraction without the zeros at its end.\<close>

lemma trailing_zeros:
  obtains k where "ds = rev (dropWhile (\<lambda>c. c = CHR ''0'') (rev ds)) @ replicate k (CHR ''0'')"
proof -
  let ?z = "takeWhile (\<lambda>c. c = CHR ''0'') (rev ds)"
  have z: "?z = replicate (length ?z) (CHR ''0'')"
    by (rule replicate_length_same [symmetric]) (auto dest: set_takeWhileD)
  have "ds = rev (dropWhile (\<lambda>c. c = CHR ''0'') (rev ds)) @ rev ?z"
    by (metis rev_append rev_rev_ident takeWhile_dropWhile_id)
  moreover have "rev ?z = replicate (length ?z) (CHR ''0'')" using z by (metis rev_replicate)
  ultimately show ?thesis using that [of "length ?z"] by simp
qed

lemma parse_fraction_format:
  assumes "ns < 10 ^ 9"
  shows "parse_fraction (format_fraction ns @ ''Z'') = (ns, ''Z'')"
proof (cases "ns = 0")
  case True
  then show ?thesis by (simp add: format_fraction_def parse_fraction_def)
next
  case False
  define ds where "ds = rev (dropWhile (\<lambda>c. c = CHR ''0'') (rev (fixed_digits 9 ns)))"
  have fmt: "format_fraction ns = CHR ''.'' # ds"
    using False assms by (simp add: format_fraction_def pad_int_fixed ds_def)
  obtain k where k: "fixed_digits 9 ns = ds @ replicate k (CHR ''0'')" unfolding ds_def by (rule trailing_zeros)
  have size: "length ds + k = 9" using arg_cong [OF k, of length] by simp
  have digits: "list_all json_digit ds" using fixed_digits_digits [of 9 ns] by (simp add: k)
  have val: "digits_value ds * 10 ^ k = ns" using fixed_digits_value [OF assms] digits_value_append [of ds k] by (simp add: k)
  have "ds \<noteq> []" using val False by (auto simp: digits_value_def)
  moreover have "takeWhile json_digit (ds @ ''Z'') = ds" "dropWhile json_digit (ds @ ''Z'') = ''Z''"
    using digits by (simp_all add: list_all_iff json_digit_def takeWhile_append dropWhile_append less_eq_char_def)
  moreover have "fraction_digits ds = ns"
  proof -
    have "9 - length ds = k" "take 9 ds = ds" using size by simp_all
    then show ?thesis using val by (simp add: fraction_digits_def)
  qed
  ultimately show ?thesis by (simp add: fmt parse_fraction_def)
qed

lemma parse_date_format:
  assumes "y < 10000" "1 \<le> mo" "mo \<le> 12" "1 \<le> d" "d \<le> daysIn mo (int y)"
  shows "parse_date (pad_int 4 y @ ''-'' @ pad_int 2 mo @ ''-'' @ pad_int 2 d @ s) = Some ((y, mo, d), s)"
proof -
  have "mo - 1 < 12" using assms by simp
  then have "d < 100" using assms(5) month_bound [of "mo - 1" "int y"] unfolding daysIn_def by linarith
  then show ?thesis using assms
    by (simp add: parse_date_def pad_int_fixed parse_year_fixed getnum_fixed fixed_digits_value strip_prefix_def)
qed

lemma parse_clock_format:
  assumes "h < 24" "mi < 60" "sec < 60"
  shows "parse_clock (pad_int 2 h @ CHR '':'' # pad_int 2 mi @ CHR '':'' # pad_int 2 sec @ s) = Some ((h, mi, sec), s)"
  using assms by (simp add: parse_clock_def pad_int_fixed getnum_fixed fixed_digits_value strip_prefix_def)

text \<open>The years that the layout can hold.\<close>

definition representable :: "instant \<Rightarrow> bool" where
  "representable t \<longleftrightarrow> 0 \<le> fst t \<and> fst t < days_before 10000 * 86400 \<and> snd t < 10 ^ 9"

lemma div_less_bound: "s < b * 86400 \<Longrightarrow> s div 86400 < b" for s b :: int
  using quotient_le [of s] by linarith

lemma sixties: "a * 60 + m = b \<Longrightarrow> b * 60 + c = r \<Longrightarrow> a * 3600 + m * 60 + c = r" for a b c m r :: nat
  by linarith

lemma clock_parts:
  fixes r :: nat
  assumes "r < 86400"
  shows "r div 3600 < 24" "r div 60 mod 60 < 60" "r mod 60 < 60" "r div 3600 * 3600 + r div 60 mod 60 * 60 + r mod 60 = r"
proof -
  have "r div 3600 = r div 60 div 60" by (simp add: div_mult2_eq [symmetric])
  moreover have "r div 60 div 60 * 60 + r div 60 mod 60 = r div 60" "r div 60 * 60 + r mod 60 = r" by simp_all
  ultimately show "r div 3600 * 3600 + r div 60 mod 60 * 60 + r mod 60 = r" by (metis sixties)
qed (use assms in simp_all)

theorem parse_format:
  assumes "representable t"
  shows "parse_rfc3339 (format_rfc3339nano t) = Some t"
proof -
  obtain s ns where t: "t = (s, ns)" by (cases t)
  define n r where "n = s div 86400" and "r = nat (s mod 86400)"
  define y where "y = year_of n"
  define mo d where "mo = fst (month_day (month_lengths y) (nat (n - days_before y)))"
    and "d = snd (month_day (month_lengths y) (nat (n - days_before y)))"
  have n: "0 \<le> n" "n < days_before 10000"
  proof -
    have s: "0 \<le> s" "s < days_before 10000 * 86400" using assms unfolding t representable_def by (simp_all only: fst_conv)
    from s(1) show "0 \<le> n" unfolding n_def by (simp only: pos_imp_zdiv_nonneg_iff zero_less_numeral)
    from s(2) show "n < days_before 10000" unfolding n_def by (rule div_less_bound)
  qed
  have y: "days_before y \<le> n" "n < days_before y + year_length y" unfolding y_def by (rule year_of_bounds)+
  have "0 \<le> y"
  proof (rule ccontr)
    assume "\<not> 0 \<le> y"
    then have "days_before (y + 1) \<le> days_before 0" by (intro days_before_mono) simp
    then show False using y n by (simp add: days_before_Suc) (simp add: days_before_def)
  qed
  moreover have "y < 10000"
  proof (rule ccontr)
    assume "\<not> y < 10000"
    then have "days_before 10000 \<le> days_before y" by (intro days_before_mono) simp
    then show False using y n by simp
  qed
  ultimately obtain yn where yn: "y = int yn" "yn < 10000" by (metis nonneg_int_cases of_nat_less_iff of_nat_numeral)
  let ?k = "nat (n - days_before y)"
  have k: "?k < sum_list (month_lengths y)" using y sum_month_lengths [of y] by simp
  note md = month_day_exact [OF k, folded mo_def d_def]
  have date: "1 \<le> mo" "mo \<le> 12" "1 \<le> d" "d \<le> daysIn mo y" "day_of_year y mo d = ?k"
    using md by (simp_all add: daysIn_def day_of_year_def)
  have r: "r < 86400" "int r = s mod 86400" by (simp_all add: r_def nat_less_iff)
  have ns: "ns < 10 ^ 9" using assms by (simp add: t representable_def)
  have fmt: "format_rfc3339nano t = pad_int 4 yn @ ''-'' @ pad_int 2 mo @ ''-'' @ pad_int 2 d @ ''T'' @
     pad_int 2 (r div 3600) @ '':'' @ pad_int 2 (r div 60 mod 60) @ '':'' @ pad_int 2 (r mod 60) @ format_fraction ns @ ''Z''"
    using yn by (simp add: format_rfc3339nano_def t n_def [symmetric] r_def [symmetric] y_def [symmetric] Let_def
      mo_def d_def format_year_def split_beta)
  have "seconds_of_date y mo d (r div 3600) (r div 60 mod 60) (r mod 60) = (days_before y + int ?k) * 86400 + int r"
    using clock_parts(4) [OF r(1)] by (simp add: seconds_of_date_def date(5))
  also have "\<dots> = n * 86400 + s mod 86400" using y r by simp
  also have "\<dots> = s" by (simp add: n_def)
  finally have seconds: "seconds_of_date y mo d (r div 3600) (r div 60 mod 60) (r mod 60) = s" .
  note parts = clock_parts [OF r(1)]
  let ?frac = "format_fraction ns @ ''Z''"
  let ?clock = "pad_int 2 (r div 3600) @ CHR '':'' # pad_int 2 (r div 60 mod 60) @ CHR '':'' # pad_int 2 (r mod 60) @ ?frac"
  have date_parsed: "parse_date (format_rfc3339nano t) = Some ((yn, mo, d), ''T'' @ ?clock)"
    unfolding fmt using parse_date_format [OF yn(2) date(1,2,3) date(4) [unfolded yn(1)], of "''T'' @ ?clock"]
    by (simp only: append_Cons append_Nil)
  have clock_parsed: "parse_clock ?clock = Some ((r div 3600, r div 60 mod 60, r mod 60), ?frac)"
    by (rule parse_clock_format [OF parts(1,2,3)])
  have skipped: "strip_prefix ''T'' (''T'' @ ?clock) = Some ?clock" by (simp add: strip_prefix_def)
  have zone: "parse_zone ''Z'' = Some (0, [])" by (simp add: parse_zone_def)
  show ?thesis
    unfolding parse_rfc3339_def date_parsed bind.bind_lunit prod.case skipped clock_parsed parse_fraction_format [OF ns]
      snd_conv fst_conv zone
    using seconds by (simp add: yn(1) t)
qed

end
