(* ===== verification/Enforce_Policy.thy ===== *)
theory Enforce_Policy
  imports Go_Time "HOL-Library.AList"
begin

text \<open>
  The policy evaluator of the supervision adapters (\<open>internal/enforcement\<close>): from a policy, a persisted
  snapshot and one observation to a decision, and the strict JSON boundary in front of it.
\<close>

section \<open>Vocabulary\<close>

text \<open>The code's string types; a value may be any text.\<close>

definition "StateActive = ''ACTIVE''"
definition "StateWaitExternal = ''WAIT_EXTERNAL''"
definition "StateVerify = ''VERIFY''"
definition "StateComplete = ''COMPLETE''"
definition "StateBlocked = ''BLOCKED''"

lemmas state_texts = StateActive_def StateWaitExternal_def StateVerify_def StateComplete_def StateBlocked_def

definition "ActionProgress = ''PROGRESS''"
definition "ActionNoProgress = ''NO_PROGRESS''"
definition "ActionWaitExternal = ''WAIT_EXTERNAL''"
definition "ActionRecheck = ''RECHECK''"
definition "ActionRequestVerify = ''REQUEST_VERIFY''"
definition "ActionVerify = ''VERIFY''"
definition "ActionRetryableFailure = ''RETRYABLE_FAILURE''"
definition "ActionTerminalFailure = ''TERMINAL_FAILURE''"

lemmas action_texts = ActionProgress_def ActionNoProgress_def ActionWaitExternal_def ActionRecheck_def
  ActionRequestVerify_def ActionVerify_def ActionRetryableFailure_def ActionTerminalFailure_def

text \<open>The constants stay folded in proofs; all that matters of them is that they differ.\<close>

lemma state_neq [simp]:
  "StateActive \<noteq> StateWaitExternal" "StateActive \<noteq> StateVerify" "StateActive \<noteq> StateComplete" "StateActive \<noteq> StateBlocked"
  "StateWaitExternal \<noteq> StateActive" "StateWaitExternal \<noteq> StateVerify" "StateWaitExternal \<noteq> StateComplete"
  "StateWaitExternal \<noteq> StateBlocked" "StateVerify \<noteq> StateActive" "StateVerify \<noteq> StateWaitExternal"
  "StateVerify \<noteq> StateComplete" "StateVerify \<noteq> StateBlocked" "StateComplete \<noteq> StateActive"
  "StateComplete \<noteq> StateWaitExternal" "StateComplete \<noteq> StateVerify" "StateComplete \<noteq> StateBlocked"
  "StateBlocked \<noteq> StateActive" "StateBlocked \<noteq> StateWaitExternal" "StateBlocked \<noteq> StateVerify" "StateBlocked \<noteq> StateComplete"
  by (simp_all add: state_texts)

definition predicate_kinds :: "string list" where
  "predicate_kinds = [''command_exit_zero'', ''file_exists'', ''checks_green'', ''review_approved'', ''exact_artifact_match'']"

definition wait_owners :: "string list" where
  "wait_owners = [''operator'', ''github'', ''gitea'', ''claude'', ''codex'', ''opencode'', ''radioactive-ralph'',
     ''coderabbit'', ''ai-git-bot'', ''external'']"

datatype ReasonCode =
    ReasonMalformedInput | ReasonInvalidTransition | ReasonProgressRecorded | ReasonNoProgressRecorded
  | ReasonNoProgressExhausted | ReasonRetryScheduled | ReasonRetryExhausted | ReasonWaitingExternal | ReasonWaitNotDue
  | ReasonWaitRecheckDue | ReasonWaitDeadlineExceeded | ReasonVerificationRequested | ReasonAcceptancePassed
  | ReasonAcceptanceFailed | ReasonTerminalFailure | ReasonTerminalState

definition PolicySchemaVersion :: int where "PolicySchemaVersion = 1"
definition maxBudget :: int where "maxBudget = 1000"
definition maxPredicates :: nat where "maxPredicates = 64"

section \<open>Data\<close>

record Predicate =
  pr_ID :: string
  pr_Kind :: string

record Policy =
  po_SchemaVersion :: int
  po_PolicyID :: string
  po_RetryBudget :: int
  po_NoProgressBudget :: int
  po_Acceptance :: "Predicate list"

record WaitWindow =
  ww_Owner :: string
  ww_RecheckAt :: string
  ww_Deadline :: string

record PolicySnapshot =
  ps_State :: string
  ps_RetryCount :: int
  ps_NoProgressCount :: int
  ps_Wait :: "WaitWindow option"

record PredicateResult =
  re_Observed :: bool
  re_Satisfied :: bool

text \<open>The results are a map that may be nil; an association list with distinct keys.\<close>

record PolicyEvent =
  pe_Action :: string
  pe_Now :: string
  pe_Wait :: "WaitWindow option"
  pe_Results :: "(string \<times> PredicateResult) list option"

record PolicyRequest =
  rq_Policy :: Policy
  rq_Snapshot :: PolicySnapshot
  rq_Event :: PolicyEvent

record PolicyDecision =
  de_SchemaVersion :: int
  de_State :: string
  de_RetryCount :: int
  de_NoProgressCount :: int
  de_Wait :: "WaitWindow option"
  de_Reason :: ReasonCode

section \<open>Wait windows\<close>

definition parseWait :: "WaitWindow option \<Rightarrow> (instant \<times> instant) option" where
  "parseWait w = (case w of
     None \<Rightarrow> None
   | Some wait \<Rightarrow>
       (case (parse_rfc3339 (ww_RecheckAt wait), parse_rfc3339 (ww_Deadline wait)) of
          (Some recheckAt, Some deadline) \<Rightarrow> Some (recheckAt, deadline)
        | _ \<Rightarrow> None))"

definition validateWait :: "WaitWindow option \<Rightarrow> bool" where
  "validateWait w \<longleftrightarrow> (case w of
     None \<Rightarrow> False
   | Some wait \<Rightarrow> ww_Owner wait \<in> set wait_owners \<and>
       (case parseWait w of Some (recheckAt, deadline) \<Rightarrow> Before recheckAt deadline | None \<Rightarrow> False))"

definition validateTimestamp :: "string \<Rightarrow> bool" where
  "validateTimestamp s \<longleftrightarrow> parse_rfc3339 s \<noteq> None"

definition normalizedWait :: "WaitWindow option \<Rightarrow> WaitWindow option" where
  "normalizedWait w = (case w of
     None \<Rightarrow> None
   | Some wait \<Rightarrow>
       (case parseWait w of
          None \<Rightarrow> None
        | Some (recheckAt, deadline) \<Rightarrow>
            Some \<lparr>ww_Owner = ww_Owner wait, ww_RecheckAt = format_rfc3339nano recheckAt,
              ww_Deadline = format_rfc3339nano deadline\<rparr>))"

section \<open>Validation\<close>

definition id_char :: "char \<Rightarrow> bool" where
  "id_char c \<longleftrightarrow> CHR ''a'' \<le> c \<and> c \<le> CHR ''z'' \<or> json_digit c \<or> c = CHR ''.'' \<or> c = CHR ''_'' \<or> c = CHR ''-''"

text \<open>\<open>^[a-z][a-z0-9._-]{0,63}$\<close>\<close>

definition identifierPattern :: "string \<Rightarrow> bool" where
  "identifierPattern s \<longleftrightarrow> (case s of
     [] \<Rightarrow> False | c # r \<Rightarrow> CHR ''a'' \<le> c \<and> c \<le> CHR ''z'' \<and> length r \<le> 63 \<and> list_all id_char r)"

definition validState :: "string \<Rightarrow> bool" where
  "validState s \<longleftrightarrow> s \<in> {StateActive, StateWaitExternal, StateVerify, StateComplete, StateBlocked}"

definition validAction :: "string \<Rightarrow> bool" where
  "validAction a \<longleftrightarrow> a \<in> {ActionProgress, ActionNoProgress, ActionWaitExternal, ActionRecheck, ActionRequestVerify,
     ActionVerify, ActionRetryableFailure, ActionTerminalFailure}"

definition validPredicateKind :: "string \<Rightarrow> bool" where
  "validPredicateKind k \<longleftrightarrow> k \<in> set predicate_kinds"

definition validatePolicy :: "Policy \<Rightarrow> bool" where
  "validatePolicy p \<longleftrightarrow>
     po_SchemaVersion p = PolicySchemaVersion \<and> identifierPattern (po_PolicyID p) \<and>
     0 \<le> po_RetryBudget p \<and> po_RetryBudget p \<le> maxBudget \<and>
     0 \<le> po_NoProgressBudget p \<and> po_NoProgressBudget p \<le> maxBudget \<and>
     po_Acceptance p \<noteq> [] \<and> length (po_Acceptance p) \<le> maxPredicates"

text \<open>The loop over the predicates collects their identifiers and stops at a bad or repeated one.\<close>

fun predicate_ids :: "Predicate list \<Rightarrow> string list \<Rightarrow> string list option" where
  "predicate_ids [] seen = Some seen"
| "predicate_ids (p # ps) seen =
    (if \<not> identifierPattern (pr_ID p) \<or> \<not> validPredicateKind (pr_Kind p) then None
     else if pr_ID p \<in> set seen then None else predicate_ids ps (pr_ID p # seen))"

definition validateSnapshot :: "Policy \<Rightarrow> PolicySnapshot \<Rightarrow> bool" where
  "validateSnapshot p s \<longleftrightarrow>
     validState (ps_State s) \<and> 0 \<le> ps_RetryCount s \<and> 0 \<le> ps_NoProgressCount s \<and>
     ps_RetryCount s \<le> maxBudget + 1 \<and> ps_NoProgressCount s \<le> maxBudget + 1 \<and>
     (ps_State s = StateBlocked \<or>
        \<not> (ps_RetryCount s > po_RetryBudget p \<or> ps_NoProgressCount s > po_NoProgressBudget p)) \<and>
     (if ps_State s = StateWaitExternal then validateWait (ps_Wait s) else ps_Wait s = None)"

definition validateEvent :: "PolicyEvent \<Rightarrow> string list \<Rightarrow> bool" where
  "validateEvent e ids \<longleftrightarrow>
    (if pe_Action e = ActionWaitExternal then
       pe_Now e \<noteq> [] \<and> validateTimestamp (pe_Now e) \<and> validateWait (pe_Wait e) \<and> pe_Results e = None \<and>
       (case (parse_rfc3339 (pe_Now e), parseWait (pe_Wait e)) of
          (Some now, Some (recheckAt, deadline)) \<Rightarrow> Before now recheckAt \<and> Before now deadline
        | _ \<Rightarrow> False)
     else if pe_Action e = ActionRecheck then
       pe_Now e \<noteq> [] \<and> validateTimestamp (pe_Now e) \<and> pe_Wait e = None \<and> pe_Results e = None
     else if pe_Action e = ActionVerify then
       pe_Now e = [] \<and> pe_Wait e = None \<and>
       (case pe_Results e of
          None \<Rightarrow> False
        | Some rs \<Rightarrow> list_all (\<lambda>(i, r). i \<in> set ids \<and> (re_Satisfied r \<longrightarrow> re_Observed r)) rs)
     else pe_Now e = [] \<and> pe_Wait e = None \<and> pe_Results e = None)"

text \<open>Whether \<open>validateRequest\<close> returns no error.\<close>

definition validateRequest :: "PolicyRequest \<Rightarrow> bool" where
  "validateRequest r \<longleftrightarrow>
    validatePolicy (rq_Policy r) \<and>
    (case predicate_ids (po_Acceptance (rq_Policy r)) [] of
       None \<Rightarrow> False
     | Some ids \<Rightarrow> validateSnapshot (rq_Policy r) (rq_Snapshot r) \<and> validAction (pe_Action (rq_Event r)) \<and>
         validateEvent (rq_Event r) ids)"

section \<open>Evaluation\<close>

definition decisionFromSnapshot :: "PolicySnapshot \<Rightarrow> ReasonCode \<Rightarrow> PolicyDecision" where
  "decisionFromSnapshot s reason =
    \<lparr>de_SchemaVersion = PolicySchemaVersion, de_State = ps_State s, de_RetryCount = ps_RetryCount s,
     de_NoProgressCount = ps_NoProgressCount s, de_Wait = normalizedWait (ps_Wait s), de_Reason = reason\<rparr>"

definition blockedFrom :: "PolicySnapshot \<Rightarrow> ReasonCode \<Rightarrow> PolicyDecision" where
  "blockedFrom s reason = decisionFromSnapshot (s\<lparr>ps_State := StateBlocked, ps_Wait := None\<rparr>) reason"

definition blockedMalformed :: PolicyDecision where
  "blockedMalformed = \<lparr>de_SchemaVersion = PolicySchemaVersion, de_State = StateBlocked, de_RetryCount = 0,
     de_NoProgressCount = 0, de_Wait = None, de_Reason = ReasonMalformedInput\<rparr>"

definition retryOrBlock :: "Policy \<Rightarrow> PolicySnapshot \<Rightarrow> ReasonCode \<Rightarrow> PolicyDecision" where
  "retryOrBlock p s retryReason =
    (let s = s\<lparr>ps_RetryCount := ps_RetryCount s + 1\<rparr> in
     if ps_RetryCount s > po_RetryBudget p then blockedFrom s ReasonRetryExhausted
     else decisionFromSnapshot s retryReason)"

definition acceptanceSatisfied :: "Policy \<Rightarrow> (string \<times> PredicateResult) list option \<Rightarrow> bool" where
  "acceptanceSatisfied p results \<longleftrightarrow> list_all (\<lambda>pr.
     (case map_of (case results of Some rs \<Rightarrow> rs | None \<Rightarrow> []) (pr_ID pr) of
        None \<Rightarrow> False | Some r \<Rightarrow> re_Observed r \<and> re_Satisfied r)) (po_Acceptance p)"

definition evaluateActive :: "PolicyRequest \<Rightarrow> PolicyDecision" where
  "evaluateActive r =
    (let s = rq_Snapshot r; e = rq_Event r; a = pe_Action e in
     if a = ActionProgress then decisionFromSnapshot (s\<lparr>ps_NoProgressCount := 0\<rparr>) ReasonProgressRecorded
     else if a = ActionNoProgress then
       (let s = s\<lparr>ps_NoProgressCount := ps_NoProgressCount s + 1\<rparr> in
        if ps_NoProgressCount s > po_NoProgressBudget (rq_Policy r) then blockedFrom s ReasonNoProgressExhausted
        else decisionFromSnapshot s ReasonNoProgressRecorded)
     else if a = ActionRetryableFailure then retryOrBlock (rq_Policy r) s ReasonRetryScheduled
     else if a = ActionWaitExternal then
       decisionFromSnapshot (s\<lparr>ps_State := StateWaitExternal, ps_Wait := normalizedWait (pe_Wait e)\<rparr>) ReasonWaitingExternal
     else if a = ActionRequestVerify then
       decisionFromSnapshot (s\<lparr>ps_State := StateVerify\<rparr>) ReasonVerificationRequested
     else blockedFrom s ReasonInvalidTransition)"

definition evaluateWait :: "PolicyRequest \<Rightarrow> PolicyDecision" where
  "evaluateWait r =
    (let s = rq_Snapshot r; e = rq_Event r in
     if pe_Action e \<noteq> ActionRecheck then blockedFrom s ReasonInvalidTransition
     else (case parse_rfc3339 (pe_Now e) of
       None \<Rightarrow> blockedMalformed
     | Some now \<Rightarrow>
         (case parseWait (ps_Wait s) of
            None \<Rightarrow> blockedMalformed
          | Some (recheckAt, deadline) \<Rightarrow>
              if \<not> Before now deadline then blockedFrom s ReasonWaitDeadlineExceeded
              else if Before now recheckAt then decisionFromSnapshot s ReasonWaitNotDue
              else decisionFromSnapshot (s\<lparr>ps_State := StateActive, ps_Wait := None\<rparr>) ReasonWaitRecheckDue)))"

definition evaluateVerify :: "PolicyRequest \<Rightarrow> PolicyDecision" where
  "evaluateVerify r =
    (let s = rq_Snapshot r; e = rq_Event r; a = pe_Action e in
     if a = ActionVerify then
       (if acceptanceSatisfied (rq_Policy r) (pe_Results e)
        then decisionFromSnapshot (s\<lparr>ps_State := StateComplete, ps_Wait := None\<rparr>) ReasonAcceptancePassed
        else retryOrBlock (rq_Policy r) (s\<lparr>ps_State := StateActive\<rparr>) ReasonAcceptanceFailed)
     else if a = ActionWaitExternal then
       decisionFromSnapshot (s\<lparr>ps_State := StateWaitExternal, ps_Wait := normalizedWait (pe_Wait e)\<rparr>) ReasonWaitingExternal
     else if a = ActionRetryableFailure then
       retryOrBlock (rq_Policy r) (s\<lparr>ps_State := StateActive\<rparr>) ReasonRetryScheduled
     else blockedFrom s ReasonInvalidTransition)"

definition Evaluate :: "PolicyRequest \<Rightarrow> PolicyDecision" where
  "Evaluate r =
    (let s = rq_Snapshot r in
     if \<not> validateRequest r then blockedMalformed
     else if ps_State s = StateComplete \<or> ps_State s = StateBlocked
     then (decisionFromSnapshot s ReasonInvalidTransition)\<lparr>de_Reason := ReasonTerminalState\<rparr>
     else if pe_Action (rq_Event r) = ActionTerminalFailure then blockedFrom s ReasonTerminalFailure
     else if ps_State s = StateActive then evaluateActive r
     else if ps_State s = StateWaitExternal then evaluateWait r
     else if ps_State s = StateVerify then evaluateVerify r
     else blockedFrom s ReasonInvalidTransition)"

section \<open>The JSON boundary\<close>

text \<open>\<open>rejectDuplicateJSONKeys\<close>: no object of the document has a key twice.\<close>

fun checkJSONValue :: "json_value \<Rightarrow> bool" where
  "checkJSONValue (JsonObject kvs) \<longleftrightarrow> distinct (map fst kvs) \<and> list_all (\<lambda>kv. checkJSONValue (snd kv)) kvs"
| "checkJSONValue (JsonArray vs) \<longleftrightarrow> list_all checkJSONValue vs"
| "checkJSONValue v \<longleftrightarrow> True"

definition struct_field :: "('r \<Rightarrow> 'e) \<Rightarrow> (json_value \<Rightarrow> 'e \<Rightarrow> 'e option) \<Rightarrow> ('e \<Rightarrow> 'r \<Rightarrow> 'r) \<Rightarrow> 'r setter" where
  "struct_field get dec upd v r = map_option (\<lambda>x. upd x r) (dec v (get r))"

text \<open>A pointer is nil after null; an object fills the struct it points to, or a new one.\<close>

definition pointer_field :: "('r \<Rightarrow> 'e option) \<Rightarrow> 'e \<Rightarrow> (json_value \<Rightarrow> 'e \<Rightarrow> 'e option) \<Rightarrow> ('e option \<Rightarrow> 'r \<Rightarrow> 'r) \<Rightarrow> 'r setter" where
  "pointer_field get zero dec upd v r = (case v of
     JsonNull \<Rightarrow> Some (upd None r)
   | _ \<Rightarrow> map_option (\<lambda>x. upd (Some x) r) (dec v (case get r of Some x \<Rightarrow> x | None \<Rightarrow> zero)))"

text \<open>A map is nil after null; the members of an object are put into the map there is, each decoded afresh.\<close>

fun put_members :: "(json_value \<Rightarrow> 'e option) \<Rightarrow> (string \<times> json_value) list \<Rightarrow> (string \<times> 'e) list \<Rightarrow> (string \<times> 'e) list option" where
  "put_members dec [] m = Some m"
| "put_members dec ((k, v) # kvs) m = (case dec v of None \<Rightarrow> None | Some x \<Rightarrow> put_members dec kvs (AList.update k x m))"

definition map_field :: "('r \<Rightarrow> (string \<times> 'e) list option) \<Rightarrow> (json_value \<Rightarrow> 'e option) \<Rightarrow>
    ((string \<times> 'e) list option \<Rightarrow> 'r \<Rightarrow> 'r) \<Rightarrow> 'r setter" where
  "map_field get dec upd v r = (case v of
     JsonNull \<Rightarrow> Some (upd None r)
   | JsonObject kvs \<Rightarrow> map_option (\<lambda>m. upd (Some m) r) (put_members dec kvs (case get r of Some m \<Rightarrow> m | None \<Rightarrow> []))
   | _ \<Rightarrow> None)"

definition decode_predicate :: "json_value \<Rightarrow> Predicate option" where
  "decode_predicate v = decode_struct True
    [(''id'', string_field (\<lambda>t. pr_ID_update (\<lambda>_. t))), (''kind'', string_field (\<lambda>t. pr_Kind_update (\<lambda>_. t)))]
    v \<lparr>pr_ID = [], pr_Kind = []\<rparr>"

definition decode_policy :: "json_value \<Rightarrow> Policy \<Rightarrow> Policy option" where
  "decode_policy = decode_struct True
    [(''schema_version'', int_field (\<lambda>i. po_SchemaVersion_update (\<lambda>_. i))),
     (''policy_id'', string_field (\<lambda>t. po_PolicyID_update (\<lambda>_. t))),
     (''retry_budget'', int_field (\<lambda>i. po_RetryBudget_update (\<lambda>_. i))),
     (''no_progress_budget'', int_field (\<lambda>i. po_NoProgressBudget_update (\<lambda>_. i))),
     (''acceptance'', slice_field decode_predicate (\<lambda>x. po_Acceptance_update (\<lambda>_. case x of Some ps \<Rightarrow> ps | None \<Rightarrow> [])))]"

definition decode_wait :: "json_value \<Rightarrow> WaitWindow \<Rightarrow> WaitWindow option" where
  "decode_wait = decode_struct True
    [(''owner'', string_field (\<lambda>t. ww_Owner_update (\<lambda>_. t))),
     (''recheck_at'', string_field (\<lambda>t. ww_RecheckAt_update (\<lambda>_. t))),
     (''deadline'', string_field (\<lambda>t. ww_Deadline_update (\<lambda>_. t)))]"

definition zero_wait :: WaitWindow where
  "zero_wait = \<lparr>ww_Owner = [], ww_RecheckAt = [], ww_Deadline = []\<rparr>"

definition decode_policy_snapshot :: "json_value \<Rightarrow> PolicySnapshot \<Rightarrow> PolicySnapshot option" where
  "decode_policy_snapshot = decode_struct True
    [(''state'', string_field (\<lambda>t. ps_State_update (\<lambda>_. t))),
     (''retry_count'', int_field (\<lambda>i. ps_RetryCount_update (\<lambda>_. i))),
     (''no_progress_count'', int_field (\<lambda>i. ps_NoProgressCount_update (\<lambda>_. i))),
     (''wait'', pointer_field ps_Wait zero_wait decode_wait (\<lambda>x. ps_Wait_update (\<lambda>_. x)))]"

definition decode_predicate_result :: "json_value \<Rightarrow> PredicateResult option" where
  "decode_predicate_result v = decode_struct True
    [(''observed'', bool_field (\<lambda>b. re_Observed_update (\<lambda>_. b))), (''satisfied'', bool_field (\<lambda>b. re_Satisfied_update (\<lambda>_. b)))]
    v \<lparr>re_Observed = False, re_Satisfied = False\<rparr>"

definition decode_policy_event :: "json_value \<Rightarrow> PolicyEvent \<Rightarrow> PolicyEvent option" where
  "decode_policy_event = decode_struct True
    [(''action'', string_field (\<lambda>t. pe_Action_update (\<lambda>_. t))),
     (''now'', string_field (\<lambda>t. pe_Now_update (\<lambda>_. t))),
     (''wait'', pointer_field pe_Wait zero_wait decode_wait (\<lambda>x. pe_Wait_update (\<lambda>_. x))),
     (''results'', map_field pe_Results decode_predicate_result (\<lambda>x. pe_Results_update (\<lambda>_. x)))]"

definition zero_policy_request :: PolicyRequest where
  "zero_policy_request =
    \<lparr>rq_Policy = \<lparr>po_SchemaVersion = 0, po_PolicyID = [], po_RetryBudget = 0, po_NoProgressBudget = 0, po_Acceptance = []\<rparr>,
     rq_Snapshot = \<lparr>ps_State = [], ps_RetryCount = 0, ps_NoProgressCount = 0, ps_Wait = None\<rparr>,
     rq_Event = \<lparr>pe_Action = [], pe_Now = [], pe_Wait = None, pe_Results = None\<rparr>\<rparr>"

definition decode_policy_request :: "json_value \<Rightarrow> PolicyRequest option" where
  "decode_policy_request v = decode_struct True
    [(''policy'', struct_field rq_Policy decode_policy (\<lambda>x. rq_Policy_update (\<lambda>_. x))),
     (''snapshot'', struct_field rq_Snapshot decode_policy_snapshot (\<lambda>x. rq_Snapshot_update (\<lambda>_. x))),
     (''event'', struct_field rq_Event decode_policy_event (\<lambda>x. rq_Event_update (\<lambda>_. x)))]
    v zero_policy_request"

text \<open>A document that parses, and the whole input: \<open>json_parse\<close> refuses what \<open>rejectTrailingJSON\<close> refuses.\<close>

definition evaluate_value :: "json_value \<Rightarrow> PolicyDecision" where
  "evaluate_value v =
    (if \<not> checkJSONValue v then blockedMalformed
     else (case decode_policy_request v of None \<Rightarrow> blockedMalformed | Some r \<Rightarrow> Evaluate r))"

definition EvaluateJSON :: "string \<Rightarrow> PolicyDecision" where
  "EvaluateJSON raw = (case json_parse raw of None \<Rightarrow> blockedMalformed | Some v \<Rightarrow> evaluate_value v)"

end
