(* ===== verification/Enforce_Laws.thy ===== *)
theory Enforce_Laws
  imports Enforce_Policy
begin

text \<open>
  An adapter feeds the evaluator one observation after the other and persists what it decides.  Such a run
  completes only by a verification that satisfies every predicate, counts its failures exactly, and every
  snapshot it persists is one the evaluator accepts again.
\<close>

section \<open>Runs\<close>

definition snapshot_of_decision :: "PolicyDecision \<Rightarrow> PolicySnapshot" where
  "snapshot_of_decision d = \<lparr>ps_State = de_State d, ps_RetryCount = de_RetryCount d,
     ps_NoProgressCount = de_NoProgressCount d, ps_Wait = de_Wait d\<rparr>"

definition policy_next :: "Policy \<Rightarrow> PolicySnapshot \<Rightarrow> PolicyEvent \<Rightarrow> PolicySnapshot" where
  "policy_next p s e = snapshot_of_decision (Evaluate \<lparr>rq_Policy = p, rq_Snapshot = s, rq_Event = e\<rparr>)"

definition policy_start :: PolicySnapshot where
  "policy_start = \<lparr>ps_State = StateActive, ps_RetryCount = 0, ps_NoProgressCount = 0, ps_Wait = None\<rparr>"

definition policy_run :: "Policy \<Rightarrow> PolicyEvent list \<Rightarrow> PolicySnapshot" where
  "policy_run p es = foldl (policy_next p) policy_start es"

lemma policy_run_Nil [simp]: "policy_run p [] = policy_start"
  by (simp add: policy_run_def)

lemma policy_run_snoc [simp]: "policy_run p (es @ [e]) = policy_next p (policy_run p es) e"
  by (simp add: policy_run_def)

named_theorems deciding

lemma snapshot_of_from [deciding]:
  "snapshot_of_decision (decisionFromSnapshot s reason) = s\<lparr>ps_Wait := normalizedWait (ps_Wait s)\<rparr>"
  by (simp add: snapshot_of_decision_def decisionFromSnapshot_def)

lemma snapshot_of_reason [deciding]: "snapshot_of_decision (d\<lparr>de_Reason := reason\<rparr>) = snapshot_of_decision d"
  by (simp add: snapshot_of_decision_def)

lemma normalizedWait_None [simp]: "normalizedWait None = None"
  by (simp add: normalizedWait_def)

lemma snapshot_of_blocked [deciding]:
  "snapshot_of_decision (blockedFrom s reason) = s\<lparr>ps_State := StateBlocked, ps_Wait := None\<rparr>"
  by (simp add: blockedFrom_def snapshot_of_from)

lemma snapshot_of_malformed [deciding]: "snapshot_of_decision blockedMalformed =
    \<lparr>ps_State = StateBlocked, ps_RetryCount = 0, ps_NoProgressCount = 0, ps_Wait = None\<rparr>"
  by (simp add: snapshot_of_decision_def blockedMalformed_def)

lemma snapshot_of_retry [deciding]:
  "snapshot_of_decision (retryOrBlock p s reason) =
    (if ps_RetryCount s + 1 > po_RetryBudget p
     then s\<lparr>ps_RetryCount := ps_RetryCount s + 1, ps_State := StateBlocked, ps_Wait := None\<rparr>
     else s\<lparr>ps_RetryCount := ps_RetryCount s + 1, ps_Wait := normalizedWait (ps_Wait s)\<rparr>)"
  by (simp add: retryOrBlock_def Let_def deciding)

lemma snapshot_of_if [deciding]:
  "snapshot_of_decision (if b then d else d') = (if b then snapshot_of_decision d else snapshot_of_decision d')"
  by simp

lemmas evaluation = policy_next_def Evaluate_def evaluateActive_def evaluateWait_def evaluateVerify_def Let_def

text \<open>The snapshot of a request that was accepted is within its budgets, and waits only where it says so.\<close>

lemma accepted_snapshot:
  assumes "validateRequest r"
  shows "validatePolicy (rq_Policy r)" "validateSnapshot (rq_Policy r) (rq_Snapshot r)"
  using assms by (auto simp: validateRequest_def split: option.splits)

section \<open>Completion\<close>

definition accepts :: "Policy \<Rightarrow> PolicyEvent \<Rightarrow> bool" where
  "accepts p e \<longleftrightarrow> pe_Action e = ActionVerify \<and> acceptanceSatisfied p (pe_Results e)"

lemma acceptance_exact: "acceptanceSatisfied p results \<longleftrightarrow>
    (\<forall>pr \<in> set (po_Acceptance p). \<exists>rs r. results = Some rs \<and> map_of rs (pr_ID pr) = Some r \<and> re_Observed r \<and> re_Satisfied r)"
  by (auto simp: acceptanceSatisfied_def list_all_iff split: option.splits)

lemma completing_step:
  assumes "ps_State (policy_next p s e) = StateComplete" "ps_State s \<noteq> StateComplete"
  shows "ps_State s = StateVerify \<and> accepts p e"
  using assms by (auto simp: evaluation deciding accepts_def split: if_splits option.splits prod.splits)

lemma complete_stays:
  assumes "ps_State (policy_next p s e) = StateComplete" "ps_State s = StateComplete"
  shows "policy_next p s e = s"
proof -
  have ok: "validateRequest \<lparr>rq_Policy = p, rq_Snapshot = s, rq_Event = e\<rparr>"
    using assms by (auto simp: policy_next_def Evaluate_def Let_def deciding split: if_splits)
  then have "ps_Wait s = None" using accepted_snapshot(2) [OF ok] assms(2) by (simp add: validateSnapshot_def)
  then show ?thesis using ok assms by (simp add: policy_next_def Evaluate_def Let_def deciding)
qed

lemma run_completes:
  "ps_State (policy_run p es) = StateComplete \<Longrightarrow>
    \<exists>before e after. es = before @ e # after \<and> ps_State (policy_run p before) = StateVerify \<and> accepts p e \<and>
      policy_run p es = policy_run p (before @ [e])"
proof (induction es rule: rev_induct)
  case (snoc e es)
  show ?case
  proof (cases "ps_State (policy_run p es) = StateComplete")
    case True
    then obtain before e' after where *: "es = before @ e' # after" "ps_State (policy_run p before) = StateVerify" "accepts p e'"
      "policy_run p es = policy_run p (before @ [e'])" using snoc.IH by blast
    have "policy_run p (es @ [e]) = policy_run p es"
      using complete_stays snoc.prems True unfolding policy_run_snoc by blast
    then have "es @ [e] = before @ e' # (after @ [e]) \<and> policy_run p (es @ [e]) = policy_run p (before @ [e'])"
      using * by simp
    then show ?thesis using *(2,3) by blast
  next
    case False
    then have "ps_State (policy_run p es) = StateVerify \<and> accepts p e"
      using completing_step snoc.prems unfolding policy_run_snoc by blast
    then show ?thesis by blast
  qed
qed (simp add: policy_start_def)

section \<open>Budgets\<close>

definition charges :: "Policy \<Rightarrow> PolicyEvent \<Rightarrow> bool" where
  "charges p e \<longleftrightarrow> pe_Action e = ActionRetryableFailure \<or> pe_Action e = ActionVerify \<and> \<not> acceptanceSatisfied p (pe_Results e)"

definition is_open :: "PolicySnapshot \<Rightarrow> bool" where
  "is_open s \<longleftrightarrow> ps_State s \<noteq> StateBlocked \<and> ps_State s \<noteq> StateComplete"

text \<open>The observations without progress since the last progress.\<close>

definition idle :: "PolicyEvent list \<Rightarrow> nat" where
  "idle es = length (filter (\<lambda>e. pe_Action e = ActionNoProgress) (takeWhile (\<lambda>e. pe_Action e \<noteq> ActionProgress) (rev es)))"

lemma action_neq [simp]:
  "ActionNoProgress \<noteq> ActionProgress" "ActionRetryableFailure \<noteq> ActionProgress" "ActionVerify \<noteq> ActionProgress"
  "ActionWaitExternal \<noteq> ActionProgress" "ActionRequestVerify \<noteq> ActionProgress" "ActionRecheck \<noteq> ActionProgress"
  "ActionRetryableFailure \<noteq> ActionNoProgress" "ActionVerify \<noteq> ActionNoProgress" "ActionWaitExternal \<noteq> ActionNoProgress"
  "ActionRequestVerify \<noteq> ActionNoProgress" "ActionRecheck \<noteq> ActionNoProgress" "ActionVerify \<noteq> ActionRetryableFailure"
  "ActionWaitExternal \<noteq> ActionRetryableFailure" "ActionRequestVerify \<noteq> ActionRetryableFailure"
  "ActionRecheck \<noteq> ActionRetryableFailure" "ActionWaitExternal \<noteq> ActionVerify" "ActionRequestVerify \<noteq> ActionVerify"
  "ActionRecheck \<noteq> ActionVerify" "ActionProgress \<noteq> ActionNoProgress" "ActionProgress \<noteq> ActionRetryableFailure"
  "ActionProgress \<noteq> ActionVerify" "ActionNoProgress \<noteq> ActionRetryableFailure" "ActionNoProgress \<noteq> ActionVerify"
  "ActionRetryableFailure \<noteq> ActionVerify" "ActionVerify \<noteq> ActionWaitExternal" "ActionVerify \<noteq> ActionRecheck"
  "ActionRequestVerify \<noteq> ActionWaitExternal" "ActionRetryableFailure \<noteq> ActionWaitExternal"
  by (simp_all add: action_texts)

text \<open>What an accepted observation does to a snapshot that is open.\<close>

definition barred :: "PolicySnapshot \<Rightarrow> PolicySnapshot \<Rightarrow> bool" where
  "barred s t \<longleftrightarrow> t \<in> {s\<lparr>ps_State := StateBlocked, ps_Wait := None\<rparr>,
     s\<lparr>ps_State := StateBlocked, ps_Wait := None, ps_RetryCount := ps_RetryCount s + 1\<rparr>,
     s\<lparr>ps_State := StateBlocked, ps_Wait := None, ps_NoProgressCount := ps_NoProgressCount s + 1\<rparr>,
     snapshot_of_decision blockedMalformed}"

lemma wait_only_waiting: "validateSnapshot p s \<Longrightarrow> ps_State s \<noteq> StateWaitExternal \<Longrightarrow> ps_Wait s = None"
  by (simp add: validateSnapshot_def)

lemma accepted_step [consumes 2, case_names barred progress idle retry wait verify complete waiting due]:
  assumes "validateRequest \<lparr>rq_Policy = p, rq_Snapshot = s, rq_Event = e\<rparr>" "is_open s"
  obtains "barred s (policy_next p s e)"
  | "pe_Action e = ActionProgress" "ps_State s = StateActive" "policy_next p s e = s\<lparr>ps_NoProgressCount := 0\<rparr>"
  | "pe_Action e = ActionNoProgress" "ps_State s = StateActive" "ps_NoProgressCount s + 1 \<le> po_NoProgressBudget p"
    "policy_next p s e = s\<lparr>ps_NoProgressCount := ps_NoProgressCount s + 1\<rparr>"
  | "charges p e" "ps_Wait s = None" "ps_RetryCount s + 1 \<le> po_RetryBudget p"
    "policy_next p s e = s\<lparr>ps_State := StateActive, ps_RetryCount := ps_RetryCount s + 1\<rparr>"
  | "pe_Action e = ActionWaitExternal"
    "policy_next p s e = s\<lparr>ps_State := StateWaitExternal, ps_Wait := normalizedWait (normalizedWait (pe_Wait e))\<rparr>"
  | "pe_Action e = ActionRequestVerify" "ps_Wait s = None" "policy_next p s e = s\<lparr>ps_State := StateVerify\<rparr>"
  | "accepts p e" "ps_State s = StateVerify" "policy_next p s e = s\<lparr>ps_State := StateComplete\<rparr>"
  | "pe_Action e = ActionRecheck" "ps_State s = StateWaitExternal" "policy_next p s e = s\<lparr>ps_Wait := normalizedWait (ps_Wait s)\<rparr>"
  | "pe_Action e = ActionRecheck" "ps_State s = StateWaitExternal"
    "policy_next p s e = s\<lparr>ps_State := StateActive, ps_Wait := None\<rparr>"
proof -
  note snapshot = accepted_snapshot(2) [OF assms(1), simplified]
  have valid: "ps_State s \<in> {StateActive, StateWaitExternal, StateVerify}"
    using snapshot assms(2) by (auto simp: validateSnapshot_def validState_def is_open_def)
  show thesis
  proof (cases "pe_Action e = ActionTerminalFailure")
    case True
    then show thesis using assms valid
      by (intro that(1)) (auto simp: barred_def is_open_def policy_next_def Evaluate_def Let_def deciding)
  next
    case other: False
    have next_is: "policy_next p s e = snapshot_of_decision
        (if ps_State s = StateActive then evaluateActive \<lparr>rq_Policy = p, rq_Snapshot = s, rq_Event = e\<rparr>
         else if ps_State s = StateWaitExternal then evaluateWait \<lparr>rq_Policy = p, rq_Snapshot = s, rq_Event = e\<rparr>
         else evaluateVerify \<lparr>rq_Policy = p, rq_Snapshot = s, rq_Event = e\<rparr>)"
      using assms valid other by (auto simp: policy_next_def Evaluate_def is_open_def)
    consider (active) "ps_State s = StateActive" | (wait) "ps_State s = StateWaitExternal" | (verify) "ps_State s = StateVerify"
      using valid by blast
    then show thesis
    proof cases
      case active
      then have none: "ps_Wait s = None" using wait_only_waiting [OF snapshot] by simp
      have upd: "s\<lparr>ps_State := StateActive\<rparr> = s" "s\<lparr>ps_Wait := None\<rparr> = s" using active none by simp_all
      note step = next_is evaluateActive_def active none Let_def deciding barred_def charges_def
      consider "pe_Action e = ActionProgress" | "pe_Action e = ActionNoProgress" | "pe_Action e = ActionRetryableFailure"
        | "pe_Action e = ActionWaitExternal" | "pe_Action e = ActionRequestVerify"
        | "pe_Action e \<notin> {ActionProgress, ActionNoProgress, ActionRetryableFailure, ActionWaitExternal, ActionRequestVerify}"
        by blast
      then show thesis
      proof cases
        case 1
        with upd show thesis by (intro that(2)) (simp_all add: step)
      next
        case 2
        with upd show thesis
          by (cases "ps_NoProgressCount s + 1 > po_NoProgressBudget p") (rule that(1), simp add: step, rule that(3), simp_all add: step)
      next
        case 3
        with upd show thesis
          by (cases "ps_RetryCount s + 1 > po_RetryBudget p") (rule that(1), simp add: step, rule that(4), simp_all add: step)
      next
        case 4
        with upd show thesis by (intro that(5)) (simp_all add: step)
      next
        case 5
        with upd show thesis by (intro that(6)) (simp_all add: step)
      next
        case 6
        with upd show thesis by (intro that(1)) (simp add: step)
      qed
    next
      case wait
      note step = next_is evaluateWait_def wait Let_def deciding barred_def
      show thesis
      proof (cases "pe_Action e = ActionRecheck")
        case False
        then show thesis by (intro that(1)) (simp add: step)
      next
        case recheck: True
        show thesis
        proof (cases "parse_rfc3339 (pe_Now e)")
          case None
          with recheck show thesis by (intro that(1)) (simp add: step)
        next
          case now: (Some now)
          show thesis
          proof (cases "parseWait (ps_Wait s)")
            case None
            with recheck now show thesis by (intro that(1)) (simp add: step)
          next
            case (Some w)
            obtain recheckAt deadline where w: "w = (recheckAt, deadline)" by (cases w)
            consider "\<not> Before now deadline" | "Before now deadline" "Before now recheckAt"
              | "Before now deadline" "\<not> Before now recheckAt" by blast
            then show thesis
            proof cases
              case 1
              with recheck now Some w show thesis by (intro that(1)) (simp add: step)
            next
              case 2
              with recheck now Some w show thesis by (intro that(8)) (simp_all add: step)
            next
              case 3
              with recheck now Some w show thesis by (intro that(9)) (simp_all add: step)
            qed
          qed
        qed
      qed
    next
      case verify
      then have none: "ps_Wait s = None" using wait_only_waiting [OF snapshot] by simp
      have upd: "s\<lparr>ps_Wait := None\<rparr> = s" using none by simp
      note step = next_is evaluateVerify_def verify none Let_def deciding barred_def charges_def accepts_def
      consider "pe_Action e = ActionVerify" "acceptanceSatisfied p (pe_Results e)"
        | "pe_Action e = ActionVerify" "\<not> acceptanceSatisfied p (pe_Results e)"
        | "pe_Action e = ActionWaitExternal" | "pe_Action e = ActionRetryableFailure"
        | "pe_Action e \<notin> {ActionVerify, ActionWaitExternal, ActionRetryableFailure}" by blast
      then show thesis
      proof cases
        case 1
        with upd show thesis by (intro that(7)) (simp_all add: step)
      next
        case 2
        with upd show thesis
          by (cases "ps_RetryCount s + 1 > po_RetryBudget p") (rule that(1), simp add: step, rule that(4), simp_all add: step)
      next
        case 3
        with upd show thesis by (intro that(5)) (simp_all add: step)
      next
        case 4
        with upd show thesis
          by (cases "ps_RetryCount s + 1 > po_RetryBudget p") (rule that(1), simp add: step, rule that(4), simp_all add: step)
      next
        case 5
        with upd show thesis by (intro that(1)) (simp add: step)
      qed
    qed
  qed
qed

lemma barred_blocked: "barred s t \<Longrightarrow> ps_State t = StateBlocked"
  by (auto simp: barred_def deciding)

lemma open_step:
  assumes "is_open (policy_next p s e)"
  shows "is_open s \<and> ps_RetryCount (policy_next p s e) = ps_RetryCount s + (if charges p e then 1 else 0) \<and>
    ps_RetryCount (policy_next p s e) \<le> po_RetryBudget p \<and>
    ps_NoProgressCount (policy_next p s e) =
      (if pe_Action e = ActionProgress then 0 else ps_NoProgressCount s + (if pe_Action e = ActionNoProgress then 1 else 0)) \<and>
    ps_NoProgressCount (policy_next p s e) \<le> po_NoProgressBudget p"
proof -
  let ?r = "\<lparr>rq_Policy = p, rq_Snapshot = s, rq_Event = e\<rparr>"
  have ok: "validateRequest ?r"
    using assms by (auto simp: is_open_def evaluation deciding split: if_splits)
  have s: "is_open s" using assms ok by (auto simp: is_open_def evaluation deciding split: if_splits)
  have budgets: "ps_RetryCount s \<le> po_RetryBudget p" "ps_NoProgressCount s \<le> po_NoProgressBudget p" "0 \<le> po_NoProgressBudget p"
    using accepted_snapshot [OF ok] s by (auto simp: validateSnapshot_def validatePolicy_def is_open_def)
  from ok s show ?thesis
  proof (cases rule: accepted_step)
    case barred
    then show ?thesis using assms barred_blocked by (simp add: is_open_def)
  next
    case complete
    then show ?thesis using assms by (simp add: is_open_def)
  qed (use s budgets in \<open>auto simp: charges_def\<close>)
qed

lemma idle_snoc: "idle (es @ [e]) =
    (if pe_Action e = ActionProgress then 0 else idle es + (if pe_Action e = ActionNoProgress then 1 else 0))"
  by (auto simp: idle_def)

section \<open>Snapshots that can be resumed\<close>

definition window_ok :: "WaitWindow option \<Rightarrow> bool" where
  "window_ok w \<longleftrightarrow> (case parseWait w of Some (recheckAt, deadline) \<Rightarrow> representable recheckAt \<and> representable deadline | None \<Rightarrow> True)"

lemma parse_normalized: "window_ok w \<Longrightarrow> parseWait (normalizedWait w) = parseWait w"
  by (auto simp: window_ok_def parseWait_def normalizedWait_def parse_format split: option.splits)

lemma window_normalized: "window_ok w \<Longrightarrow> window_ok (normalizedWait w)"
  by (simp add: window_ok_def parse_normalized)

lemma wait_normalized:
  assumes "window_ok w" "validateWait w"
  shows "validateWait (normalizedWait w)"
proof -
  obtain ww where w: "w = Some ww" using assms(2) by (auto simp: validateWait_def split: option.splits)
  obtain a b where ab: "parseWait w = Some (a, b)" using assms(2) by (auto simp: validateWait_def w split: option.splits)
  then obtain ww' where n: "normalizedWait w = Some ww'" "ww_Owner ww' = ww_Owner ww" by (auto simp: normalizedWait_def w)
  have "parseWait (Some ww') = Some (a, b)" using parse_normalized [OF assms(1)] ab by (simp add: n)
  then show ?thesis using assms(2) ab n by (simp add: validateWait_def w)
qed

definition resumable :: "Policy \<Rightarrow> PolicySnapshot \<Rightarrow> bool" where
  "resumable p s \<longleftrightarrow> validateSnapshot p s \<and> window_ok (ps_Wait s)"

lemma window_ok_None [simp]: "window_ok None"
  by (simp add: window_ok_def parseWait_def)

lemma barred_resumable:
  assumes "validateSnapshot p s" "is_open s" "validatePolicy p" "barred s t"
  shows "resumable p t"
  using assms by (auto simp: barred_def resumable_def validateSnapshot_def validatePolicy_def validState_def is_open_def deciding maxBudget_def)

lemma resumable_step:
  assumes p: "validatePolicy p" and s: "resumable p s" and e: "window_ok (pe_Wait e)"
  shows "resumable p (policy_next p s e)"
proof -
  let ?r = "\<lparr>rq_Policy = p, rq_Snapshot = s, rq_Event = e\<rparr>"
  note snapshot = s [unfolded resumable_def, THEN conjunct1] and window = s [unfolded resumable_def, THEN conjunct2]
  have shape: "validState StateActive" "validState StateComplete" "validState StateVerify" "validState StateWaitExternal"
    "validState StateBlocked" by (simp_all add: validState_def)
  show ?thesis
  proof (cases "validateRequest ?r \<and> is_open s")
    case False
    then consider "\<not> validateRequest ?r" | "validateRequest ?r" "ps_State s = StateBlocked \<or> ps_State s = StateComplete"
      by (auto simp: is_open_def)
    then show ?thesis
    proof cases
      case 1
      then show ?thesis using shape
        by (simp add: policy_next_def Evaluate_def deciding resumable_def validateSnapshot_def maxBudget_def)
    next
      case 2
      then have "ps_Wait s = None" using wait_only_waiting [OF snapshot] by auto
      then have "policy_next p s e = s" using 2 by (auto simp: policy_next_def Evaluate_def Let_def deciding)
      then show ?thesis using s by simp
    qed
  next
    case True
    then have ok: "validateRequest ?r" and op: "is_open s" by auto
    have event: "pe_Action e = ActionWaitExternal \<Longrightarrow> validateWait (pe_Wait e)"
      using ok by (auto simp: validateRequest_def validateEvent_def split: option.splits)
    from p have budgets: "0 \<le> po_RetryBudget p" "0 \<le> po_NoProgressBudget p" "po_RetryBudget p \<le> maxBudget"
      "po_NoProgressBudget p \<le> maxBudget" by (simp_all add: validatePolicy_def)
    note valid = snapshot [unfolded validateSnapshot_def]
    from ok op show ?thesis
    proof (cases rule: accepted_step)
      case barred
      then show ?thesis using barred_resumable [OF snapshot op p] by blast
    next
      case wait
      note twice = wait_normalized [OF window_normalized [OF e] wait_normalized [OF e event [OF wait(1)]]]
        window_normalized [OF window_normalized [OF e]]
      show ?thesis using valid twice op by (simp add: wait(2) resumable_def validateSnapshot_def shape is_open_def)
    next
      case waiting
      have "validateWait (ps_Wait s)" using valid waiting(2) by simp
      note once = wait_normalized [OF window this] window_normalized [OF window]
      show ?thesis using valid once waiting(2) by (simp add: waiting(3) resumable_def validateSnapshot_def)
    qed (use valid op budgets shape in \<open>auto simp: resumable_def validateSnapshot_def is_open_def\<close>)
  qed
qed

section \<open>Properties\<close>

text \<open>An example: two predicates, one retry, no observation without progress.\<close>

definition demo_policy :: Policy where
  "demo_policy = \<lparr>po_SchemaVersion = 1, po_PolicyID = ''demo'', po_RetryBudget = 1, po_NoProgressBudget = 0,
     po_Acceptance = [\<lparr>pr_ID = ''tests'', pr_Kind = ''command_exit_zero''\<rparr>, \<lparr>pr_ID = ''review'', pr_Kind = ''review_approved''\<rparr>]\<rparr>"

definition demo_plain :: "string \<Rightarrow> PolicyEvent" where
  "demo_plain a = \<lparr>pe_Action = a, pe_Now = [], pe_Wait = None, pe_Results = None\<rparr>"

definition demo_verdict :: "bool \<Rightarrow> PolicyEvent" where
  "demo_verdict ok = \<lparr>pe_Action = ''VERIFY'', pe_Now = [], pe_Wait = None,
     pe_Results = Some [(''tests'', \<lparr>re_Observed = True, re_Satisfied = True\<rparr>), (''review'', \<lparr>re_Observed = True, re_Satisfied = ok\<rparr>)]\<rparr>"

definition demo_wait :: "string \<Rightarrow> PolicyEvent" where
  "demo_wait deadline = \<lparr>pe_Action = ''WAIT_EXTERNAL'', pe_Now = ''2026-08-16T18:00:00Z'',
     pe_Wait = Some \<lparr>ww_Owner = ''github'', ww_RecheckAt = ''2026-08-16T18:05:00.250Z'', ww_Deadline = deadline\<rparr>, pe_Results = None\<rparr>"

definition demo_recheck :: PolicyEvent where
  "demo_recheck = \<lparr>pe_Action = ''RECHECK'', pe_Now = ''2026-08-16T18:01:00Z'', pe_Wait = None, pe_Results = None\<rparr>"

definition demo_failed :: "PolicyEvent list" where
  "demo_failed = [demo_plain ''REQUEST_VERIFY'', demo_verdict False]"

definition demo_completed :: "PolicyEvent list" where
  "demo_completed = demo_failed @ [demo_plain ''PROGRESS'', demo_plain ''REQUEST_VERIFY'', demo_verdict True, demo_plain ''PROGRESS'']"

lemma demo_completes: "ps_State (policy_run demo_policy demo_completed) = StateComplete"
  by code_simp

text \<open>\<^bold>\<open>C16.\<close> A run of the policy evaluator is complete only if one of its observations was a verification, made in the
  state VERIFY, in which every predicate of the policy was observed and satisfied; what came later changed nothing.\<close>

theorem completion_needs_acceptance:
  assumes "ps_State (policy_run p es) = StateComplete"
  shows "\<exists>before e after. es = before @ e # after \<and> ps_State (policy_run p before) = StateVerify \<and>
    pe_Action e = ActionVerify \<and> policy_run p es = policy_run p (before @ [e]) \<and>
    (\<forall>pr \<in> set (po_Acceptance p). \<exists>rs r. pe_Results e = Some rs \<and> map_of rs (pr_ID pr) = Some r \<and>
      re_Observed r \<and> re_Satisfied r)"
  using run_completes [OF assms] unfolding accepts_def acceptance_exact by blast

theorem completion_needs_acceptance_witness:
  "\<exists>before e after. demo_completed = before @ e # after \<and> ps_State (policy_run demo_policy before) = StateVerify \<and>
    pe_Action e = ActionVerify \<and> policy_run demo_policy demo_completed = policy_run demo_policy (before @ [e]) \<and>
    (\<forall>pr \<in> set (po_Acceptance demo_policy). \<exists>rs r. pe_Results e = Some rs \<and> map_of rs (pr_ID pr) = Some r \<and>
      re_Observed r \<and> re_Satisfied r)"
  by (rule completion_needs_acceptance [OF demo_completes])

text \<open>\<^bold>\<open>C33.\<close> While a run of the policy evaluator is open its retry count is exactly the number of its failures, those
  reported and those of verifications, and within the budget; its idle count is exactly the number of observations
  without progress since the last progress, and within its budget.\<close>

theorem budgets_are_exact:
  assumes "validatePolicy p" "is_open (policy_run p es)"
  shows "ps_RetryCount (policy_run p es) = int (length (filter (charges p) es)) \<and>
    ps_RetryCount (policy_run p es) \<le> po_RetryBudget p \<and>
    ps_NoProgressCount (policy_run p es) = int (idle es) \<and> ps_NoProgressCount (policy_run p es) \<le> po_NoProgressBudget p"
  using assms(2)
proof (induction es rule: rev_induct)
  case Nil
  then show ?case using assms(1) by (simp add: policy_start_def validatePolicy_def idle_def)
next
  case (snoc e es)
  note step = open_step [OF snoc.prems [unfolded policy_run_snoc]]
  then show ?case using snoc.IH by (simp add: idle_snoc)
qed

lemma demo_policy_valid: "validatePolicy demo_policy"
  by code_simp

lemma demo_open: "is_open (policy_run demo_policy demo_failed)"
  by code_simp

theorem budgets_are_exact_witness:
  "ps_RetryCount (policy_run demo_policy demo_failed) = int (length (filter (charges demo_policy) demo_failed)) \<and>
    ps_RetryCount (policy_run demo_policy demo_failed) \<le> po_RetryBudget demo_policy \<and>
    ps_NoProgressCount (policy_run demo_policy demo_failed) = int (idle demo_failed) \<and>
    ps_NoProgressCount (policy_run demo_policy demo_failed) \<le> po_NoProgressBudget demo_policy"
  by (rule budgets_are_exact [OF demo_policy_valid demo_open])

text \<open>\<^bold>\<open>C34.\<close> Whatever an adapter observes, valid or not, the snapshot it persists is one the evaluator accepts again, as
  long as the instants of the wait windows lie in the years 0 to 9999 of UTC: a run never wedges on its own output.\<close>

theorem persisted_snapshots_are_accepted:
  assumes "validatePolicy p" "list_all (\<lambda>e. window_ok (pe_Wait e)) es"
  shows "validateSnapshot p (policy_run p es)"
proof -
  have "resumable p (policy_run p es)" using assms(2)
  proof (induction es rule: rev_induct)
    case Nil
    then show ?case using assms(1)
      by (simp add: policy_start_def resumable_def validateSnapshot_def validState_def validatePolicy_def maxBudget_def)
  next
    case (snoc e es)
    then show ?case using resumable_step [OF assms(1)] by simp
  qed
  then show ?thesis by (simp add: resumable_def)
qed

text \<open>Times of the examples.\<close>

lemmas time_evaluation = parse_rfc3339_def parse_date_def parse_clock_def parse_year_def getnum_def strip_prefix_def
  parse_fraction_def fraction_digits_def parse_zone_def digits_value_def json_digit_def less_eq_char_def
  seconds_of_date_def days_before_def day_of_year_def month_lengths_def is_leap_def daysIn_def

lemma parse_recheck: "parse_rfc3339 ''2026-08-16T18:05:00.250Z'' = Some (63954122700, 250000000)"
  by (simp add: time_evaluation)

lemma parse_wait_times: "parse_rfc3339 ''2026-08-16T18:00:00Z'' = Some (63954122400, 0)"
    "parse_rfc3339 ''2026-08-16T18:01:00Z'' = Some (63954122460, 0)"
    "parse_rfc3339 ''2026-08-16T21:00:00+02:00'' = Some (63954126000, 0)"
    "parse_rfc3339 ''2026-08-16T18:05:00.25Z'' = Some (63954122700, 250000000)"
  by (simp_all add: time_evaluation)

lemma parse_late: "parse_rfc3339 ''9999-12-31T23:59:59-01:00'' = Some (315569523599 , 0)"
  by (simp add: time_evaluation)

lemma parse_five_digits: "parse_rfc3339 ''10000-01-01T00:59:59Z'' = None"
  by (simp add: time_evaluation)

lemma digit_chars: "digit_char 0 = CHR ''0''" "digit_char (Suc 0) = CHR ''1''" "digit_char 1 = CHR ''1''" "digit_char 2 = CHR ''2''" "digit_char 3 = CHR ''3''"
  "digit_char 4 = CHR ''4''" "digit_char 5 = CHR ''5''" "digit_char 6 = CHR ''6''" "digit_char 7 = CHR ''7''"
  "digit_char 8 = CHR ''8''" "digit_char 9 = CHR ''9''" "digit_char (Suc (Suc (Suc (Suc (Suc (Suc (Suc (Suc 0)))))))) = CHR ''8''"
  by (simp_all add: digit_char_def char_of_eq_iff)

lemma format_late: "format_rfc3339nano (315569523599, 0) = ''10000-01-01T00:59:59Z''"
  by (simp add: format_rfc3339nano_def year_of_def days_before_def month_lengths_def is_leap_def format_year_def pad_int_def
    itoa_nat.simps format_fraction_def digit_chars)

lemma format_recheck: "format_rfc3339nano (63954122700, 250000000) = ''2026-08-16T18:05:00.25Z''"
  by (simp add: format_rfc3339nano_def year_of_def days_before_def month_lengths_def is_leap_def format_year_def pad_int_def
    itoa_nat.simps format_fraction_def digit_chars)

definition demo_waiting :: "PolicyEvent list" where
  "demo_waiting = [demo_wait ''2026-08-16T21:00:00+02:00'', demo_recheck]"

lemma demo_waiting_windows: "list_all (\<lambda>e. window_ok (pe_Wait e)) demo_waiting"
  by (simp add: demo_waiting_def demo_wait_def demo_recheck_def window_ok_def parseWait_def parse_recheck parse_wait_times
    representable_def days_before_def)

theorem persisted_snapshots_are_accepted_witness:
  "validateSnapshot demo_policy (policy_run demo_policy demo_waiting)"
  by (rule persisted_snapshots_are_accepted [OF demo_policy_valid demo_waiting_windows])

text \<open>Outside these years it wedges: the first normalization writes the deadline with a year of five digits, the second
  cannot read that and drops the window.  The run waits without a window, and whatever is observed next finds a
  malformed request.\<close>

lemma late_deadline_is_lost:
  "policy_run demo_policy [demo_wait ''9999-12-31T23:59:59-01:00''] =
     \<lparr>ps_State = StateWaitExternal, ps_RetryCount = 0, ps_NoProgressCount = 0, ps_Wait = None\<rparr>"
  "policy_run demo_policy [demo_wait ''9999-12-31T23:59:59-01:00'', e] = snapshot_of_decision blockedMalformed"
proof -
  let ?w = "demo_wait ''9999-12-31T23:59:59-01:00''"
  have parts: "predicate_ids (po_Acceptance demo_policy) [] = Some [''review'', ''tests'']" "validateSnapshot demo_policy policy_start"
    by code_simp+
  have wait: "pe_Action ?w = ActionWaitExternal" by (simp add: demo_wait_def ActionWaitExternal_def)
  have "validateEvent ?w ids" for ids
    unfolding validateEvent_def wait
    by (simp add: demo_wait_def validateTimestamp_def validateWait_def parseWait_def
      wait_owners_def Before_def parse_wait_times parse_recheck parse_late)
  then have ok: "validateRequest \<lparr>rq_Policy = demo_policy, rq_Snapshot = policy_start, rq_Event = ?w\<rparr>"
    using demo_policy_valid parts by (simp add: validateRequest_def validAction_def wait)
  have once: "normalizedWait (pe_Wait ?w) = Some \<lparr>ww_Owner = ''github'', ww_RecheckAt = ''2026-08-16T18:05:00.25Z'',
      ww_Deadline = ''10000-01-01T00:59:59Z''\<rparr>"
    by (simp add: demo_wait_def normalizedWait_def parseWait_def parse_recheck parse_late format_recheck format_late)
  have twice: "normalizedWait (normalizedWait (pe_Wait ?w)) = None"
    unfolding once by (simp add: normalizedWait_def parseWait_def parse_five_digits parse_wait_times)
  have start: "ps_State policy_start = StateActive" by (simp add: policy_start_def)
  have neq: "ActionWaitExternal \<noteq> ActionTerminalFailure" by (simp add: action_texts)
  have "policy_next demo_policy policy_start ?w = policy_start\<lparr>ps_State := StateWaitExternal, ps_Wait := None\<rparr>"
    unfolding policy_next_def Evaluate_def evaluateActive_def Let_def using ok start
    by (simp add: wait neq deciding twice del: demo_wait_def)
  then show stored: "policy_run demo_policy [?w] =
     \<lparr>ps_State = StateWaitExternal, ps_RetryCount = 0, ps_NoProgressCount = 0, ps_Wait = None\<rparr>"
    by (simp add: policy_run_def policy_start_def)
  have "\<not> validateRequest \<lparr>rq_Policy = demo_policy, rq_Snapshot = policy_run demo_policy [?w], rq_Event = e\<rparr>"
    unfolding stored by (simp add: validateRequest_def validateSnapshot_def validateWait_def split: option.splits)
  then have "policy_next demo_policy (policy_run demo_policy [?w]) e = snapshot_of_decision blockedMalformed"
    by (simp add: policy_next_def Evaluate_def)
  then show "policy_run demo_policy [?w, e] = snapshot_of_decision blockedMalformed"
    by (simp add: policy_run_def)
qed

text \<open>The check for repeated keys compares them exactly, the decoder up to case.  Two documents that differ only in
  the order of their members pass the check and are decided differently.\<close>

definition shadowed_results :: "(string \<times> json_value) list \<Rightarrow> json_value" where
  "shadowed_results verdicts = JsonObject
    [(''policy'', JsonObject [(''schema_version'', JsonInt 1), (''policy_id'', JsonString ''demo''), (''retry_budget'', JsonInt 1),
       (''no_progress_budget'', JsonInt 0),
       (''acceptance'', JsonArray [JsonObject [(''id'', JsonString ''tests''), (''kind'', JsonString ''command_exit_zero'')]])]),
     (''snapshot'', JsonObject [(''state'', JsonString ''VERIFY''), (''retry_count'', JsonInt 0), (''no_progress_count'', JsonInt 0)]),
     (''event'', JsonObject [(''action'', JsonString ''VERIFY''), (''results'', JsonObject [(''tests'', JsonObject verdicts)])])]"

lemma case_variants_pass_the_duplicate_check:
  "de_State (evaluate_value (shadowed_results [(''observed'', JsonBool True), (''satisfied'', JsonBool False), (''Satisfied'', JsonBool True)]))
     = StateComplete"
  "de_State (evaluate_value (shadowed_results [(''observed'', JsonBool True), (''Satisfied'', JsonBool True), (''satisfied'', JsonBool False)]))
     = StateActive"
  by code_simp+

end
