(* ===== verification/Spec2Isabelle.thy ===== *)
theory Spec2Isabelle
  imports Store_Claim_Laws Store_Report_Laws Store_Reaper_Laws Store_Plan_Laws Store_Metadata_Laws
    Store_Query_Laws Store_Registry_Laws Store_Partition_Laws Plan_Metadata_Laws Plan_Parse_Laws Orch_Import_Laws
    Orch_Paths_Laws Provider_Failures Orch_Admission_Laws Orch_Verify_Laws Orch_Launch_Laws
    Config_Layers_Laws Provider_Choice_Laws Config_Init_Laws
    Sup_Hook_Laws Sup_Laws Sup_Attach_Laws Ipc_Supervisor Enforce_Laws
begin

text \<open>
  Verification of radioactive-ralph: the durable task store, the plan language, the configuration layers, the
  orchestrator that dispatches agents against a plan and alone decides that a task is done, the
  supervisor that runs it, and the socket protocol through which clients reach the supervisor.

  \<^bold>\<open>The program.\<close>  An operator writes a plan in markdown (\<open>internal/plan\<close>).  Import turns it into rows of a
  SQLite database (\<open>internal/store\<close>): a plan, its tasks, dependency edges, reservations of declared
  files and metadata.  The supervisor (\<open>internal/supervisor\<close>) calls \<open>DispatchNext\<close> of the orchestrator
  (\<open>internal/orch\<close>) for the active plans, answers the requests of clients (\<open>internal/ipc\<close>), and decides whether a managed
  provider may stop.  A pass asks the store for the ready tasks, partitions them, picks a provider binding
  for each (\<open>internal/provider\<close>; the resolver of \<open>cmd\<close> reads the configuration of \<open>internal/vconfig\<close>), checks approvals, declared paths, capabilities and restrictions, claims
  the task for a new session and worker, and starts a goroutine that runs one provider turn.  When the
  turn ends the orchestrator re-runs the acceptance check itself and only then marks the task done.
  A reaper requeues the tasks of workers whose heartbeat stopped.

  \<^bold>\<open>Theories, and what they model.\<close>
  \<^item> \<open>Ralph_Prelude\<close>: lists of rows, updates by key, results of operations.  \<open>Go_Library\<close>, \<open>Go_Text\<close>, \<open>Go_Path\<close>,
    \<open>Go_Json\<close>, \<open>Go_Json_Valid\<close>: what the code uses of Go's library (strings, UTF-8, paths, encoding/json).
  \<^item> \<open>Store_Schema\<close>: the tables as records of row lists, \<open>store\<close>, with keys and the clock.  \<open>Store_Tasks\<close>
    (\<open>tasks.go\<close>, \<open>claim.go\<close>, \<open>output_reservation.go\<close>), \<open>Store_Workers\<close> (\<open>workers.go\<close>, \<open>reaper.go\<close>), \<open>Store_Metadata\<close>
    (\<open>task_metadata.go\<close>), \<open>Store_Plans\<close> (\<open>plans.go\<close>, \<open>plan_graph.go\<close>, \<open>plan_delete.go\<close>), \<open>Store_Events\<close> (\<open>events.go\<close>),
    \<open>Store_Registry\<close> (\<open>projects.go\<close>, \<open>config.go\<close>), \<open>Store_Evidence\<close> (calibrations, hooks, spend, messages),
    \<open>Store_Partitions\<close> (\<open>ready_partition.go\<close>): one function per method of the store, from the database to a
    result and a database.  A failed transaction gives the database it started from.
  \<^item> \<open>Plan_Model\<close> (\<open>types.go\<close>, \<open>decompose.go\<close>, \<open>meta.go\<close>), \<open>Plan_Metadata\<close> (\<open>metadata.go\<close>), \<open>Plan_Validate\<close>
    (\<open>validate.go\<close>), \<open>Plan_Parse\<close> (\<open>parse.go\<close>): the plan document, over the block tree of the goldmark package.
  \<^item> \<open>Orch_Graph\<close> (\<open>plan_import.go\<close>, \<open>dispatch_graph.go\<close>): from a document to the rows of its graph.
  \<^item> \<open>Orch_Paths\<close> (\<open>task_paths.go\<close>): containment of declared files.
  \<^item> \<open>Provider_Bindings\<close> (\<open>binding.go\<close>, \<open>provider.go\<close>, \<open>capabilities.go\<close>, \<open>invocation.go\<close>, the resolutions of
    \<open>claude.go\<close>), \<open>Provider_Failures\<close> (\<open>failure.go\<close>, \<open>timeouts.go\<close>).
  \<^item> \<open>Orch_State\<close>: the record \<open>orch\<close> beside the database: slots, reservations of capped providers,
    saturation flags, turns in flight, the resolver's state; and \<open>cfg\<close>, the options of \<open>New\<close> with
    everything outside the package.  \<open>Orch_Gates\<close>: the row behind a step, the rotations of the pool,
    the gates, the claim.  \<open>Orch_Dispatch\<close>: one step, a fan-out group, a leaf group, \<open>DispatchNext\<close>.
    \<open>Orch_Verify\<close> (\<open>verify.go\<close>): acceptance, stop gate, completion.  \<open>Orch_Turn\<close>: a turn from the launch to
    the end of its goroutine, panics included.
  \<^item> \<open>Config_Layers\<close> (\<open>internal/vconfig\<close>): user and project layers over a source of configuration, with the rows of
    the database as one.  \<open>Config_Init\<close> (\<open>init_cmd.go\<close>): the configuration step of \<open>--init\<close>.  \<open>Provider_Pool\<close>
    (\<open>provider_cooldowns.go\<close>, \<open>provider_selection.go\<close>, \<open>binding_resolver.go\<close>, \<open>supervisor_cmd.go\<close>): the resolver that the
    supervisor gives the orchestrator, an instance of its resolver parameter.
  \<^item> \<open>Sup_State\<close> (\<open>supervisor.go\<close>, \<open>drive.go\<close>, \<open>project.go\<close>, \<open>config.go\<close>, \<open>calibration.go\<close>): the record \<open>sup\<close> over the
    orchestrator, the tick, the dispatch rotation, the handlers.  \<open>Sup_Hooks\<close> (\<open>hooks.go\<close>): the signal plane of managed
    providers.  \<open>Sup_Attach\<close> (\<open>HandleAttach\<close>, \<open>observe/snapshot.go\<close>): the live event stream.
  \<^item> \<open>Ipc_Protocol\<close> (\<open>protocol.go\<close>): the messages and their JSON.  \<open>Ipc_Server\<close> (\<open>server.go\<close>): a connection, from its
    first line to its reply, over a record of handlers.  \<open>Ipc_Client\<close> (\<open>client.go\<close>, \<open>client_drive.go\<close>): the calls.
    \<open>Ipc_Supervisor\<close>: the handlers of the supervisor as such a record.
  \<^item> \<open>Go_Time\<close>: timestamps in RFC 3339.  \<open>Enforce_Policy\<close> (\<open>internal/enforcement\<close>): the policy evaluator of the
    supervision adapters, a function from a policy, a snapshot and an observation to a decision, and its JSON boundary.

  \<^bold>\<open>State and concurrency.\<close>  An operation of the store is one transaction, so the steps of \<open>store_step\<close>
  (\<open>Store_Steps\<close>) may interleave in any order and \<open>store_reachable\<close> covers any number of processes.
  A dispatch pass runs under the supervisor's lock and is one step of \<open>orch_step\<close>; the end of a turn is
  another.  What other goroutines do to the database while a provider runs and while an acceptance
  check runs is a parameter (\<open>world\<close>, \<open>during\<close>), required only to be a sequence of store operations.
  In \<open>sup_step\<close> (\<open>Sup_Steps\<close>) a request of a client, a tick, a hook event and the end of a stop verification are
  steps; a verification reads the database in a step of its own, and an event stream reads the log between
  arbitrary steps of the store.

  \<^bold>\<open>What the lemmas show.\<close>
  \<^item> \<open>Store_Lifecycle\<close>, \<open>Store_Graph\<close>, \<open>Store_Invariant\<close>, \<open>Store_Steps\<close>: the store invariant (keys, references,
    claims, acyclic edges, exclusive outputs) and that every operation keeps it.  Operations share
    contracts stated as locales (operations that leave the tables of tasks calm or quiet, reports guarded
    by the owner) which are interpreted on the operations themselves.
  \<^item> \<open>Store_Transitions\<close>: the life cycle of a task and the approval gate.  \<open>Store_Claim_Laws\<close>, \<open>Store_Report_Laws\<close>,
    \<open>Store_Reaper_Laws\<close>, \<open>Store_Plan_Laws\<close>, \<open>Store_Metadata_Laws\<close>, \<open>Store_Query_Laws\<close>, \<open>Store_Registry_Laws\<close>,
    \<open>Store_Partition_Laws\<close>: claims, reports, retries, the reaper, graphs, cycles, deletion, provenance, cursors,
    fingerprints, partitions.
  \<^item> \<open>Plan_Laws\<close>, \<open>Plan_Metadata_Laws\<close>, \<open>Plan_Parse_Laws\<close>, \<open>Orch_Graph_Laws\<close>, \<open>Orch_Import_Laws\<close>: the document walk
    against the graph, the metadata round trip, the parser against the validator, import.
  \<^item> \<open>Orch_Paths_Laws\<close>: path resolution against walking a tree.  \<open>Provider_Failures\<close>: bounds of the turn limits.
  \<^item> \<open>Orch_Moves\<close>: the functions of the orchestrator that keep its accounts, and the locale \<open>store_relation\<close>: a
    relation with the laws of the operations they call contains what they do to the database.
    \<open>Orch_Admission_Laws\<close>: the accounts of slots and reservations, reachable orchestrators, the
    refinement of the store.  \<open>Orch_Launch_Laws\<close>: which turns are launched.  \<open>Orch_Verify_Laws\<close>: what
    verification may do to a task.
  \<^item> \<open>Config_Layers_Laws\<close> (locale \<open>config_source\<close>), \<open>Config_Init_Laws\<close>: a change that was accepted is read back.
    \<open>Provider_Pool_Laws\<close> (locale \<open>round_robin\<close>), \<open>Provider_Choice_Laws\<close>: rotation, cooldowns, the search for an
    allowed provider.
  \<^item> \<open>Store_Log\<close> (locale \<open>log_relation\<close>): what the operations do to the event log and the stop verdicts; the log
    only grows, apart from the events of deleted plans.
  \<^item> \<open>Sup_Steps\<close> (locale \<open>request_relation\<close>), \<open>Sup_Laws\<close>: the supervisor refines the orchestrator, which plans a pass
    works on, the fairness of its rotation.  \<open>Sup_Hook_Laws\<close>: a stop needs verifications that began after the last
    tool use.  \<open>Sup_Attach_Laws\<close>: the event stream is exact.
  \<^item> \<open>Ipc_Wire_Laws\<close>, \<open>Ipc_Messages\<close> (locale \<open>wire\<close>): every message is read back from the line it is written as.
    \<open>Ipc_Call_Laws\<close> (locale \<open>wire_call\<close>): a call returns what the handler returned.  \<open>Ipc_Supervisor\<close> (locale
    \<open>handler_relation\<close>): whatever a connection sends is at most one step of the supervisor.
  \<^item> \<open>Enforce_Laws\<close>: runs of the policy evaluator, their completion, their budgets, and that what is persisted is
    accepted again.
  \<^item> \<open>Store_Demo\<close>, \<open>Orch_Demo\<close> and \<open>Sup_Demo\<close> hold the states
    the witnesses use.

  \<^bold>\<open>Bounds and fuel.\<close>  The JSON parser runs with twice the length of its input plus two, since every call
  consumes a byte or closes a level.  The depth-first searches are total by a measure of unvisited
  nodes.  \<open>resolve_loop\<close> gets the length of the path plus one and drops an element in every round;
  \<open>ParseDuration\<close> and \<open>TrimSpace\<close> get the length of their text.  \<open>rotate_loop\<close> runs the 17 rounds of the code.
  \<open>attach_drain\<close> is total because every batch moves the cursor.

  \<^bold>\<open>Parameters.\<close>  The markdown parser (goldmark), the viper package that reads configuration files, SHA-256,
  generated identifiers, the binding resolver of the orchestrator with its state, symbolic-link resolution, file contents and the shell, the texts of errors,
  times and JSON errors, the replies of the operators' snapshot queries, and \<open>strconv.Quote\<close>.  Nothing is assumed of them, except that a tree without symbolic links is resolved
  to itself where a theorem says so.

  \<^bold>\<open>Simplifications.\<close>  Timestamps are whole seconds and the clock is in nanoseconds.  Spend is counted in
  integral units, where the code adds floating-point dollars.  Faults of the database driver, the retry
  of a busy database, budgets of the writes after a turn, cancellation, and the file behind the
  decision log are not modelled; an expired verification budget is.  Floating-point configuration values are kept
  as literals, the order of a Go map is the order of an association list, and every call of the clock of the cooldowns
  takes the next reading.  The supervisor's resolver does not hand on the row of the user layer that its first
  resolution creates.  \<open>KillWorker\<close> records the context it cancels; the end of that turn is a step like any other.
  On the wire an empty list is the nil slice, a list of structs that occurs twice in one request is decoded afresh, and
  the newline that ends a line is dropped before the line is parsed.  A connection that attaches is one sweep of the log;
  the sweeps of a longer stream are \<open>attach_run\<close>.

  \<^bold>\<open>Not modelled.\<close>  Provider runners and agent processes, sockets with their deadlines and accept loop, the client's
  status, query and attach calls, the lock file of the one supervisor, the SQL of the operator's snapshot queries, the
  terminal and graphical views, installation as a system service, diagnostics, sandbox launchers and adapters, opening
  and migrating the database: input and output around the modelled core.
\<close>

end
